(* ===== verification/Prelude.thy ===== *)
theory Prelude
  imports Main "HOL-Library.Word"
begin

text \<open>
  Shared vocabulary of the development: the machine types of the Rust sources, text as
  Unicode scalar values, results, byte order conversions, the substring search that every
  HTTP and RTSP reader of the program uses, and two interfaces that several components
  implement (a codec with a round trip, and a machine with an invariant).

  \<^item> \<open>u8\<close>, \<open>u16\<close>, \<open>u32\<close>, \<open>u64\<close> are words of that width; \<open>usize\<close> is \<open>nat\<close> unless its
    wrap-around matters.
  \<^item> A Rust \<open>char\<close> is its scalar value (\<open>uchar\<close>), a \<open>str\<close> whose character count and byte
    count both matter is a list of them (\<open>ustr\<close>); protocol text that is only ever compared,
    split or scanned byte by byte is an Isabelle \<open>string\<close>, one \<open>char\<close> per byte.
  \<^item> \<open>Result<T, E>\<close> is \<open>'e + 't\<close> with \<open>Inl\<close> the error.
\<close>

unbundle bit_operations_syntax

named_theorems error_simps \<open>evaluation of results\<close>
named_theorems byte_simps \<open>byte order conversions\<close>

type_synonym u8 = "8 word"
type_synonym u16 = "16 word"
type_synonym u32 = "32 word"
type_synonym u64 = "64 word"
type_synonym bytes = "8 word list"
type_synonym uchar = nat
type_synonym ustr = "nat list"

datatype ip_addr = V4 "32 word" | V6 "128 word"

type_synonym socket_addr = "ip_addr \<times> u16"

definition is_unspecified :: "ip_addr \<Rightarrow> bool" where
  "is_unspecified ip = (case ip of V4 a \<Rightarrow> a = 0 | V6 a \<Rightarrow> a = 0)"


section \<open>Results\<close>

fun result_bind :: "'e + 'a \<Rightarrow> ('a \<Rightarrow> 'e + 'b) \<Rightarrow> 'e + 'b" where
  "result_bind (Inl e) f = Inl e"
| "result_bind (Inr x) f = f x"

fun is_ok :: "'e + 'a \<Rightarrow> bool" where
  "is_ok (Inl e) = False"
| "is_ok (Inr x) = True"

fun ok_or :: "'e \<Rightarrow> 'a option \<Rightarrow> 'e + 'a" where
  "ok_or e None = Inl e"
| "ok_or e (Some x) = Inr x"

lemma result_bind_Inr [error_simps]:
  "result_bind r f = Inr y \<longleftrightarrow> (\<exists>x. r = Inr x \<and> f x = Inr y)"
  by (cases r) auto

lemma result_bind_Inl [error_simps]:
  "result_bind r f = Inl e \<longleftrightarrow> r = Inl e \<or> (\<exists>x. r = Inr x \<and> f x = Inl e)"
  by (cases r) auto

lemma result_bind_id [simp]: "result_bind r Inr = r"
  by (cases r) auto

lemma is_ok_iff: "is_ok r \<longleftrightarrow> (\<exists>x. r = Inr x)"
  by (cases r) auto

lemma ok_or_Inr [error_simps]: "ok_or e v = Inr x \<longleftrightarrow> v = Some x"
  by (cases v) auto

lemma ok_or_Inl [error_simps]: "ok_or e v = Inl e' \<longleftrightarrow> v = None \<and> e' = e"
  by (cases v) auto


section \<open>Text\<close>

definition lit :: "string \<Rightarrow> ustr" where
  "lit s = map of_char s"

fun utf8_len :: "uchar \<Rightarrow> nat" where
  "utf8_len c = (if c < 0x80 then 1 else if c < 0x800 then 2 else if c < 0x10000 then 3 else 4)"

definition str_len :: "ustr \<Rightarrow> nat" where
  "str_len s = sum_list (map utf8_len s)"

definition is_control :: "uchar \<Rightarrow> bool" where
  "is_control c \<longleftrightarrow> c < 0x20 \<or> (0x7F \<le> c \<and> c < 0xA0)"

text \<open>\<open>char::is_whitespace\<close>: the Unicode \<open>White_Space\<close> property.\<close>

definition is_whitespace :: "uchar \<Rightarrow> bool" where
  "is_whitespace c \<longleftrightarrow>
     (0x09 \<le> c \<and> c \<le> 0x0D) \<or> c = 0x20 \<or> c = 0x85 \<or> c = 0xA0 \<or> c = 0x1680 \<or>
     (0x2000 \<le> c \<and> c \<le> 0x200A) \<or> c = 0x2028 \<or> c = 0x2029 \<or> c = 0x202F \<or>
     c = 0x205F \<or> c = 0x3000"

definition trim :: "ustr \<Rightarrow> ustr" where
  "trim s = rev (dropWhile is_whitespace (rev (dropWhile is_whitespace s)))"

lemma trim_empty_iff: "trim s = [] \<longleftrightarrow> (\<forall>c \<in> set s. is_whitespace c)"
proof
  assume "trim s = []"
  then have "\<forall>c \<in> set (dropWhile is_whitespace s). is_whitespace c"
    by (simp add: trim_def)
  then have "dropWhile is_whitespace s = []"
    by (metis hd_dropWhile list.set_sel(1))
  then show "\<forall>c \<in> set s. is_whitespace c" by simp
qed (auto simp: trim_def dest: set_dropWhileD)

lemma str_len_Nil [simp]: "str_len [] = 0"
  by (simp add: str_len_def)

lemma str_len_Cons [simp]: "str_len (c # s) = utf8_len c + str_len s"
  by (simp add: str_len_def)

lemma str_len_append [simp]: "str_len (s @ t) = str_len s + str_len t"
  by (simp add: str_len_def)

lemma utf8_len_bounds: "1 \<le> utf8_len c \<and> utf8_len c \<le> 4"
  by simp

lemma str_len_lower: "length s \<le> str_len s"
proof (induction s)
  case (Cons c s)
  then show ?case using utf8_len_bounds [of c] by (simp del: utf8_len.simps)
qed simp

lemma str_len_upper: "str_len s \<le> 4 * length s"
proof (induction s)
  case (Cons c s)
  then show ?case using utf8_len_bounds [of c] by (simp del: utf8_len.simps)
qed simp

lemma str_len_replicate [simp]: "str_len (replicate n c) = n * utf8_len c"
  by (induction n) auto


section \<open>Byte order\<close>

primrec nat_to_le :: "nat \<Rightarrow> nat \<Rightarrow> bytes" where
  "nat_to_le 0 n = []"
| "nat_to_le (Suc k) n = of_nat (n mod 256) # nat_to_le k (n div 256)"

primrec from_le :: "bytes \<Rightarrow> nat" where
  "from_le [] = 0"
| "from_le (b # bs) = unat b + 256 * from_le bs"

definition nat_to_be :: "nat \<Rightarrow> nat \<Rightarrow> bytes" where
  "nat_to_be k n = rev (nat_to_le k n)"

definition from_be :: "bytes \<Rightarrow> nat" where
  "from_be bs = from_le (rev bs)"

lemma length_nat_to_le [simp]: "length (nat_to_le k n) = k"
  by (induction k arbitrary: n) auto

lemma length_nat_to_be [simp]: "length (nat_to_be k n) = k"
  by (simp add: nat_to_be_def)

lemma unat_byte [simp]: "unat (of_nat (n mod 256) :: u8) = n mod 256"
  by (simp add: unat_of_nat take_bit_eq_mod)

lemma from_le_nat_to_le [byte_simps]: "n < 256 ^ k \<Longrightarrow> from_le (nat_to_le k n) = n"
proof (induction k arbitrary: n)
  case (Suc k)
  then have "n div 256 < 256 ^ k" by (simp add: less_mult_imp_div_less)
  with Suc.IH show ?case by simp
qed simp

lemma from_be_nat_to_be [byte_simps]: "n < 256 ^ k \<Longrightarrow> from_be (nat_to_be k n) = n"
  by (simp add: from_be_def nat_to_be_def from_le_nat_to_le)

lemma from_le_less: "from_le bs < 256 ^ length bs"
proof (induction bs)
  case (Cons b bs)
  have "unat b < 256" using unsigned_less [of b, where ?'a = nat] by simp
  with Cons show ?case by simp
qed simp

lemma unat_u8: "unat (w :: u8) < 256" using unsigned_less [of w, where ?'a = nat] by simp
lemma unat_u16: "unat (w :: u16) < 256 ^ 2" using unsigned_less [of w, where ?'a = nat] by simp
lemma unat_u32: "unat (w :: u32) < 256 ^ 4" using unsigned_less [of w, where ?'a = nat] by simp
lemma unat_u64: "unat (w :: u64) < 256 ^ 8" using unsigned_less [of w, where ?'a = nat] by simp

lemma nat_to_le_from_le [byte_simps]: "nat_to_le (length bs) (from_le bs) = bs"
proof (induction bs)
  case (Cons b bs)
  have b: "unat b < 256" by (rule unat_u8)
  then have "(unat b + 256 * from_le bs) div 256 = from_le bs" by simp
  moreover have "(of_nat (unat b) :: u8) = b" by simp
  ultimately show ?case using Cons b by (simp del: of_nat_add)
qed simp


section \<open>Interfaces\<close>

text \<open>A codec promises that what it encodes it decodes again, for the values \<open>valid\<close> admits.\<close>

locale codec =
  fixes encode :: "'a \<Rightarrow> 'b"
    and decode :: "'b \<Rightarrow> 'e + 'a"
    and valid :: "'a \<Rightarrow> bool"
  assumes decode_encode: "valid x \<Longrightarrow> decode (encode x) = Inr x"
begin

lemma encode_inj: "valid x \<Longrightarrow> valid y \<Longrightarrow> encode x = encode y \<Longrightarrow> x = y"
  by (metis decode_encode sum.inject(2))

lemma encode_inj_on: "inj_on encode {x. valid x}"
  by (auto intro: inj_onI encode_inj)

lemma recode: "valid x \<Longrightarrow> decode b = Inr x \<Longrightarrow> decode (encode x) = decode b"
  by (simp add: decode_encode)

end

text \<open>
  A machine is driven by a list of events. If its starting states satisfy \<open>inv\<close> and every
  admissible event keeps it, every state reached by admissible events satisfies it, and
  whatever single events preserve is preserved along the run.
\<close>

locale machine =
  fixes start :: "'s \<Rightarrow> bool"
    and step :: "'s \<Rightarrow> 'ev \<Rightarrow> 's"
    and admissible :: "'ev \<Rightarrow> bool"
    and inv :: "'s \<Rightarrow> bool"
  assumes start_inv: "start s \<Longrightarrow> inv s"
    and step_inv: "inv s \<Longrightarrow> admissible e \<Longrightarrow> inv (step s e)"
begin

lemma run_from_inv: "inv s \<Longrightarrow> list_all admissible es \<Longrightarrow> inv (foldl step s es)"
  by (induction es arbitrary: s) (auto intro: step_inv)

lemma run_inv: "start s \<Longrightarrow> list_all admissible es \<Longrightarrow> inv (foldl step s es)"
  by (rule run_from_inv [OF start_inv])

lemma run_cause:
  assumes "inv s" and "list_all admissible es"
    and "\<not> P s" and "P (foldl step s es)"
  shows "\<exists>pre e post. es = pre @ e # post \<and> inv (foldl step s pre) \<and>
           \<not> P (foldl step s pre) \<and> P (step (foldl step s pre) e)"
  using assms
proof (induction es arbitrary: s)
  case (Cons e es)
  show ?case
  proof (cases "P (step s e)")
    case True
    with Cons.prems have "e # es = [] @ e # es \<and> inv (foldl step s []) \<and>
        \<not> P (foldl step s []) \<and> P (step (foldl step s []) e)" by simp
    then show ?thesis by blast
  next
    case False
    with Cons.prems have "inv (step s e)" "list_all admissible es"
      "P (foldl step (step s e) es)" by (auto intro: step_inv)
    from Cons.IH [OF this(1,2) False this(3)] obtain pre e' post where
      "es = pre @ e' # post" "inv (foldl step (step s e) pre)"
      "\<not> P (foldl step (step s e) pre)" "P (step (foldl step (step s e) pre) e')" by blast
    then have "e # es = (e # pre) @ e' # post \<and> inv (foldl step s (e # pre)) \<and>
      \<not> P (foldl step s (e # pre)) \<and> P (step (foldl step s (e # pre)) e')" by simp
    then show ?thesis by blast
  qed
qed simp

end

end
