(* ===== verification/Protocol_Message.thy ===== *)
theory Protocol_Message
  imports Prelude
begin

text \<open>
  The signaling messages of \<open>openplay-protocol/src/message.rs\<close> and the bound check every
  peer runs on a message it has just deserialised. The abstract specification is
  \<open>within_bounds\<close>: a table of the bounded fields of a message, with no order of evaluation.
  \<open>validate\<close> is the code's early-return sequence, and the lemmas show that it decides exactly
  the specification, that its error names a field of the message that breaks its own bound,
  and what an accepted message can still cost its receiver.
\<close>

section \<open>Data\<close>

record resolution =
  width :: u32
  height :: u32

record capabilities =
  video_codecs :: "ustr list"
  audio_codecs :: "ustr list"
  max_resolution :: "resolution option"
  max_framerate :: "u32 option"
  supports_cursor :: bool

record negotiated_params =
  video_codec :: ustr
  audio_codec :: "ustr option"
  max_bitrate_kbps :: u32
  framerate :: u32

datatype reject_reason = Busy | VersionMismatch | NoCompatibleCodecs | NotPaired | Denied

datatype bitrate_hint_reason = PacketLoss | HighRtt | Recovery

datatype session_end_reason = UserStopped | SessionError | SessionTimeout | NetworkLost

datatype signaling_message =
    SessionRequest (sender_id: ustr) (display_name: ustr) (protocol_version: u32)
      (request_capabilities: capabilities)
  | is_SessionAccept: SessionAccept (receiver_id: ustr) (negotiated: negotiated_params)
  | SessionReject (reject_reason: reject_reason)
  | PairingChallenge ustr
  | PairingResponse ustr ustr
  | PairingConfirm ustr ustr
  | AuthChallenge ustr
  | AuthResponse ustr ustr
  | AuthConfirm ustr
  | SdpOffer ustr
  | SdpAnswer ustr
  | IceCandidate ustr "ustr option" "u32 option"
  | IceComplete
  | BitrateHint u32 bitrate_hint_reason
  | Ping u64
  | Pong u64 u64
  | SessionEnd session_end_reason

definition default_capabilities :: capabilities where
  "default_capabilities = \<lparr> video_codecs = [lit ''h264''], audio_codecs = [lit ''opus''],
     max_resolution = None, max_framerate = Some 60, supports_cursor = True \<rparr>"

definition MAX_NAME_CHARS :: nat where "MAX_NAME_CHARS = 64"
definition MAX_SDP_BYTES :: nat where "MAX_SDP_BYTES = 16 * 1024"
definition MAX_CANDIDATE_BYTES :: nat where "MAX_CANDIDATE_BYTES = 1024"
definition MAX_PROOF_BYTES :: nat where "MAX_PROOF_BYTES = 1024"
definition MAX_CODECS :: nat where "MAX_CODECS = 16"
definition MAX_CODEC_CHARS :: nat where "MAX_CODEC_CHARS = 32"

lemmas limits = MAX_NAME_CHARS_def MAX_SDP_BYTES_def MAX_CANDIDATE_BYTES_def
  MAX_PROOF_BYTES_def MAX_CODECS_def MAX_CODEC_CHARS_def

text \<open>The five texts a \<open>ValidationError\<close> is formatted from, with the values they quote.\<close>

datatype validation_error =
    MustNotBeEmpty string
  | TooManyChars string nat nat
  | ControlCharacters string
  | TooManyBytes string nat nat
  | TooManyCodecs string nat nat
  | CodecTooLong string nat nat


section \<open>The checks\<close>

definition check_name :: "string \<Rightarrow> ustr \<Rightarrow> validation_error + unit" where
  "check_name field v =
     (if v = [] then Inl (MustNotBeEmpty field)
      else if length v > MAX_NAME_CHARS then Inl (TooManyChars field MAX_NAME_CHARS (length v))
      else if list_ex is_control v then Inl (ControlCharacters field)
      else Inr ())"

definition check_len :: "string \<Rightarrow> nat \<Rightarrow> nat \<Rightarrow> validation_error + unit" where
  "check_len field n m = (if n > m then Inl (TooManyBytes field m n) else Inr ())"

fun check_codec_entries :: "string \<Rightarrow> ustr list \<Rightarrow> validation_error + unit" where
  "check_codec_entries field [] = Inr ()"
| "check_codec_entries field (c # cs) =
     (if length c > MAX_CODEC_CHARS then Inl (CodecTooLong field MAX_CODEC_CHARS (length c))
      else check_codec_entries field cs)"

definition check_codecs :: "string \<Rightarrow> ustr list \<Rightarrow> validation_error + unit" where
  "check_codecs field cs =
     (if length cs > MAX_CODECS then Inl (TooManyCodecs field MAX_CODECS (length cs))
      else check_codec_entries field cs)"

fun validate :: "signaling_message \<Rightarrow> validation_error + unit" where
  "validate (SessionRequest sid name ver caps) =
     result_bind (check_name ''sender_id'' sid) (\<lambda>_.
     result_bind (check_name ''display_name'' name) (\<lambda>_.
     result_bind (check_codecs ''video_codecs'' (video_codecs caps)) (\<lambda>_.
     check_codecs ''audio_codecs'' (audio_codecs caps))))"
| "validate (SessionAccept rid _) = check_name ''receiver_id'' rid"
| "validate (SdpOffer sdp) = check_len ''sdp'' (str_len sdp) MAX_SDP_BYTES"
| "validate (SdpAnswer sdp) = check_len ''sdp'' (str_len sdp) MAX_SDP_BYTES"
| "validate (IceCandidate cand mid _) =
     result_bind (check_len ''candidate'' (str_len cand) MAX_CANDIDATE_BYTES) (\<lambda>_.
     case mid of None \<Rightarrow> Inr () | Some m \<Rightarrow> check_len ''sdp_mid'' (str_len m) MAX_NAME_CHARS)"
| "validate (PairingChallenge k) = check_len ''receiver_pub_ecdh'' (str_len k) MAX_PROOF_BYTES"
| "validate (PairingResponse k p) =
     result_bind (check_len ''sender_pub_ecdh'' (str_len k) MAX_PROOF_BYTES) (\<lambda>_.
     check_len ''pin_proof'' (str_len p) MAX_PROOF_BYTES)"
| "validate (PairingConfirm c f) =
     result_bind (check_len ''confirm'' (str_len c) MAX_PROOF_BYTES) (\<lambda>_.
     check_len ''receiver_cert_fingerprint'' (str_len f) MAX_PROOF_BYTES)"
| "validate (AuthChallenge n) = check_len ''nonce'' (str_len n) MAX_PROOF_BYTES"
| "validate (AuthResponse n p) =
     result_bind (check_len ''nonce'' (str_len n) MAX_PROOF_BYTES) (\<lambda>_.
     check_len ''proof'' (str_len p) MAX_PROOF_BYTES)"
| "validate (AuthConfirm p) = check_len ''proof'' (str_len p) MAX_PROOF_BYTES"
| "validate IceComplete = Inr ()"
| "validate (SessionReject _) = Inr ()"
| "validate (BitrateHint _ _) = Inr ()"
| "validate (Ping _) = Inr ()"
| "validate (Pong _ _) = Inr ()"
| "validate (SessionEnd _) = Inr ()"


section \<open>Specification: the bounded fields of a message\<close>

datatype field_value =
    NameField string ustr
  | BlobField string nat ustr
  | CodecsField string "ustr list"

fun bounded_fields :: "signaling_message \<Rightarrow> field_value list" where
  "bounded_fields (SessionRequest sid name _ caps) =
     [NameField ''sender_id'' sid, NameField ''display_name'' name,
      CodecsField ''video_codecs'' (video_codecs caps),
      CodecsField ''audio_codecs'' (audio_codecs caps)]"
| "bounded_fields (SessionAccept rid _) = [NameField ''receiver_id'' rid]"
| "bounded_fields (SdpOffer sdp) = [BlobField ''sdp'' 16384 sdp]"
| "bounded_fields (SdpAnswer sdp) = [BlobField ''sdp'' 16384 sdp]"
| "bounded_fields (IceCandidate c mid _) = BlobField ''candidate'' 1024 c #
     (case mid of None \<Rightarrow> [] | Some m \<Rightarrow> [BlobField ''sdp_mid'' 64 m])"
| "bounded_fields (PairingChallenge k) = [BlobField ''receiver_pub_ecdh'' 1024 k]"
| "bounded_fields (PairingResponse k p) =
     [BlobField ''sender_pub_ecdh'' 1024 k, BlobField ''pin_proof'' 1024 p]"
| "bounded_fields (PairingConfirm c f) =
     [BlobField ''confirm'' 1024 c, BlobField ''receiver_cert_fingerprint'' 1024 f]"
| "bounded_fields (AuthChallenge n) = [BlobField ''nonce'' 1024 n]"
| "bounded_fields (AuthResponse n p) = [BlobField ''nonce'' 1024 n, BlobField ''proof'' 1024 p]"
| "bounded_fields (AuthConfirm p) = [BlobField ''proof'' 1024 p]"
| "bounded_fields _ = []"

fun field_ok :: "field_value \<Rightarrow> bool" where
  "field_ok (NameField _ v) \<longleftrightarrow> 1 \<le> length v \<and> length v \<le> 64 \<and> (\<forall>c \<in> set v. \<not> is_control c)"
| "field_ok (BlobField _ m v) \<longleftrightarrow> str_len v \<le> m"
| "field_ok (CodecsField _ cs) \<longleftrightarrow> length cs \<le> 16 \<and> (\<forall>c \<in> set cs. length c \<le> 32)"

fun field_name :: "field_value \<Rightarrow> string" where
  "field_name (NameField n _) = n"
| "field_name (BlobField n _ _) = n"
| "field_name (CodecsField n _) = n"

fun error_field :: "validation_error \<Rightarrow> string" where
  "error_field (MustNotBeEmpty f) = f"
| "error_field (TooManyChars f _ _) = f"
| "error_field (ControlCharacters f) = f"
| "error_field (TooManyBytes f _ _) = f"
| "error_field (TooManyCodecs f _ _) = f"
| "error_field (CodecTooLong f _ _) = f"

definition within_bounds :: "signaling_message \<Rightarrow> bool" where
  "within_bounds m \<longleftrightarrow> (\<forall>f \<in> set (bounded_fields m). field_ok f)"

text \<open>All the text a message carries, bounded or not.\<close>

fun message_texts :: "signaling_message \<Rightarrow> ustr list" where
  "message_texts (SessionRequest sid name _ caps) =
     sid # name # video_codecs caps @ audio_codecs caps"
| "message_texts (SessionAccept rid p) = rid # video_codec p #
     (case audio_codec p of None \<Rightarrow> [] | Some a \<Rightarrow> [a])"
| "message_texts (SdpOffer sdp) = [sdp]"
| "message_texts (SdpAnswer sdp) = [sdp]"
| "message_texts (IceCandidate c mid _) = c # (case mid of None \<Rightarrow> [] | Some m \<Rightarrow> [m])"
| "message_texts (PairingChallenge k) = [k]"
| "message_texts (PairingResponse k p) = [k, p]"
| "message_texts (PairingConfirm c f) = [c, f]"
| "message_texts (AuthChallenge n) = [n]"
| "message_texts (AuthResponse n p) = [n, p]"
| "message_texts (AuthConfirm p) = [p]"
| "message_texts _ = []"

definition message_bytes :: "signaling_message \<Rightarrow> nat" where
  "message_bytes m = sum_list (map str_len (message_texts m))"


section \<open>Lemmas\<close>

lemma check_name_ok: "check_name f v = Inr () \<longleftrightarrow> field_ok (NameField f v)"
  by (cases v) (auto simp: check_name_def limits list_ex_iff)

lemma check_len_ok: "check_len f (str_len v) m = Inr () \<longleftrightarrow> field_ok (BlobField f m v)"
  by (auto simp: check_len_def)

lemma check_codec_entries_ok:
  "check_codec_entries f cs = Inr () \<longleftrightarrow> (\<forall>c \<in> set cs. length c \<le> 32)"
  by (induction cs) (auto simp: limits)

lemma check_codecs_ok: "check_codecs f cs = Inr () \<longleftrightarrow> field_ok (CodecsField f cs)"
  by (auto simp: check_codecs_def check_codec_entries_ok) (auto simp: limits)

lemmas check_oks = check_name_ok check_len_ok check_codecs_ok

lemma check_codec_entries_err:
  "check_codec_entries f cs = Inl e \<Longrightarrow> error_field e = f"
  by (induction cs) (auto split: if_splits)

lemma check_name_err: "check_name f v = Inl e \<Longrightarrow> error_field e = f"
  by (auto simp: check_name_def split: if_splits)

lemma check_len_err: "check_len f n m = Inl e \<Longrightarrow> error_field e = f"
  by (auto simp: check_len_def split: if_splits)

lemma check_codecs_err: "check_codecs f cs = Inl e \<Longrightarrow> error_field e = f"
  by (auto simp: check_codecs_def split: if_splits intro: check_codec_entries_err)

lemmas check_errs = check_name_err check_len_err check_codecs_err

text \<open>\<open>validate\<close> is the left-to-right evaluation of the checks of the bounded fields.\<close>

fun check_field :: "field_value \<Rightarrow> validation_error + unit" where
  "check_field (NameField f v) = check_name f v"
| "check_field (BlobField f m v) = check_len f (str_len v) m"
| "check_field (CodecsField f cs) = check_codecs f cs"

fun check_fields :: "field_value list \<Rightarrow> validation_error + unit" where
  "check_fields [] = Inr ()"
| "check_fields (f # fs) = result_bind (check_field f) (\<lambda>_. check_fields fs)"

lemma validate_check_fields: "validate m = check_fields (bounded_fields m)"
  by (cases m) (auto simp: limits split: option.splits)

lemma check_field_ok: "check_field f = Inr () \<longleftrightarrow> field_ok f"
  by (cases f) (simp_all add: check_oks del: field_ok.simps)

lemma check_field_err: "check_field f = Inl e \<Longrightarrow> error_field e = field_name f"
  by (cases f) (auto intro: check_errs)

lemma check_fields_ok: "check_fields fs = Inr () \<longleftrightarrow> (\<forall>f \<in> set fs. field_ok f)"
  by (induction fs) (auto simp: error_simps check_field_ok)

lemma validate_fields: "validate m = Inr () \<longleftrightarrow> (\<forall>f \<in> set (bounded_fields m). field_ok f)"
  by (simp only: validate_check_fields check_fields_ok)

lemma check_fields_err:
  "check_fields fs = Inl e \<Longrightarrow>
   \<exists>pre f post. fs = pre @ f # post \<and> (\<forall>g \<in> set pre. field_ok g) \<and> \<not> field_ok f \<and>
     error_field e = field_name f"
proof (induction fs)
  case (Cons f fs)
  show ?case
  proof (cases "check_field f")
    case (Inl e')
    with Cons.prems have "\<not> field_ok f" "error_field e = field_name f"
      using check_field_ok [of f] check_field_err [of f e] by auto
    then have "f # fs = [] @ f # fs \<and> (\<forall>g \<in> set []. field_ok g) \<and> \<not> field_ok f \<and>
      error_field e = field_name f" by simp
    then show ?thesis by blast
  next
    case (Inr u)
    with Cons obtain pre g post where "fs = pre @ g # post" "\<forall>h \<in> set pre. field_ok h"
      "\<not> field_ok g" "error_field e = field_name g" by auto
    moreover have "field_ok f" using Inr check_field_ok [of f] by simp
    ultimately have "f # fs = (f # pre) @ g # post \<and> (\<forall>h \<in> set (f # pre). field_ok h) \<and>
      \<not> field_ok g \<and> error_field e = field_name g" by simp
    then show ?thesis by blast
  qed
qed simp

lemma codecs_bytes: "\<forall>c \<in> set cs. length c \<le> 32 \<Longrightarrow> sum_list (map str_len cs) \<le> 128 * length cs"
proof (induction cs)
  case (Cons c cs)
  then show ?case using str_len_upper [of c] by auto
qed simp

lemma name_bytes: "length v \<le> 64 \<Longrightarrow> str_len v \<le> 256"
  using str_len_upper [of v] by simp

lemma request_bytes:
  assumes "validate (SessionRequest sid name ver caps) = Inr ()"
  shows "message_bytes (SessionRequest sid name ver caps) \<le> 4608"
proof -
  have "str_len sid \<le> 256" "str_len name \<le> 256"
    "sum_list (map str_len (video_codecs caps)) \<le> 128 * length (video_codecs caps)"
    "sum_list (map str_len (audio_codecs caps)) \<le> 128 * length (audio_codecs caps)"
    "length (video_codecs caps) \<le> 16" "length (audio_codecs caps) \<le> 16"
    using assms [unfolded validate_fields] by (auto intro: name_bytes codecs_bytes)
  then show ?thesis by (simp add: message_bytes_def)
qed


section \<open>Properties\<close>

text \<open>A message passes \<open>validate\<close> exactly when every bounded field it carries is within its
  documented limit: names have 1 to 64 characters and no control character, SDP at most
  16384 bytes, candidates 1024, pairing and authentication blobs 1024, \<open>sdp_mid\<close> 64, codec
  lists at most 16 entries of at most 32 characters.\<close>

theorem validate_iff_within_bounds: "validate m = Inr () \<longleftrightarrow> within_bounds m"
  by (simp only: validate_fields within_bounds_def)

text \<open>When \<open>validate\<close> refuses a message, the error names the first field (in the order the
  code checks them) that breaks its bound, and every field before it is fine.\<close>

theorem validate_reports_first_violation:
  assumes "validate m = Inl e"
  shows "\<exists>pre f post. bounded_fields m = pre @ f # post \<and> (\<forall>g \<in> set pre. field_ok g) \<and>
    \<not> field_ok f \<and> error_field e = field_name f"
  using check_fields_err assms [unfolded validate_check_fields] .

theorem validate_reports_first_violation_witness:
  "validate (IceCandidate [] (Some (replicate 65 97)) None) = Inl (TooManyBytes ''sdp_mid'' 64 65) \<and>
   (\<exists>pre f post. bounded_fields (IceCandidate [] (Some (replicate 65 97)) None) = pre @ f # post \<and>
     (\<forall>g \<in> set pre. field_ok g) \<and> \<not> field_ok f \<and>
     error_field (TooManyBytes ''sdp_mid'' 64 65) = field_name f)"
proof -
  have "validate (IceCandidate [] (Some (replicate 65 97)) None) =
    Inl (TooManyBytes ''sdp_mid'' 64 65)"
    by (simp add: check_len_def limits)
  with validate_reports_first_violation [OF this] show ?thesis by blast
qed

text \<open>An accepted message other than \<open>SessionAccept\<close> carries at most 16384 bytes of text,
  a quarter of the 64 KiB frame the transport admits.\<close>

theorem accepted_text_bounded:
  assumes "validate m = Inr ()" and "\<not> is_SessionAccept m"
  shows "message_bytes m \<le> 16384"
proof (cases m)
  case (SessionRequest sid name ver caps)
  with assms request_bytes [of sid name ver caps] show ?thesis by (simp del: validate.simps)
qed (use assms [unfolded validate_fields] in \<open>auto simp: message_bytes_def split: option.splits\<close>)

theorem accepted_text_bounded_witness:
  "message_bytes (SdpOffer (replicate 16384 97)) \<le> 16384"
  using accepted_text_bounded [of "SdpOffer (replicate 16384 97)"]
  by (simp add: check_len_def limits)

text \<open>The codec names inside \<open>SessionAccept\<close> are not bounded by \<open>validate\<close>: for every size
  there is an accepted message at least that large, so for this message the only ceiling is
  the transport's frame limit.\<close>

theorem session_accept_text_unbounded:
  "\<exists>m. validate m = Inr () \<and> is_SessionAccept m \<and> message_bytes m > n"
proof -
  let ?m = "SessionAccept [97] \<lparr> video_codec = replicate n 97, audio_codec = None,
    max_bitrate_kbps = 0, framerate = 0 \<rparr>"
  have "validate ?m = Inr () \<and> is_SessionAccept ?m \<and> message_bytes ?m > n"
    by (simp add: check_name_def limits is_control_def message_bytes_def)
  then show ?thesis by blast
qed

end
