(* ===== verification/Protocol_State.thy ===== *)
theory Protocol_State
  imports Protocol_Message "HOL-Library.Sublist"
begin

text \<open>
  The two connection state machines of \<open>openplay-protocol/src/state.rs\<close>. Each \<open>transition\<close> is
  the code's table. A run records the events the machine accepted (a refused event returns an error and
  leaves the state alone). The lemmas characterise the states by the events that must have
  been accepted last, from which it follows that media states are entered only after the
  pairing or authentication legs.
\<close>

section \<open>Sender\<close>

datatype sender_state =
    SIdle | SDiscovering | SConnecting | SPairing | SAuthenticating | SSignaling | SStreaming
  | SDisconnecting

datatype sender_event =
    StartDiscovery | ReceiverSelected | SCancel | SConnected | SNeedsPairing | STimeout
  | SPairingComplete | SPairingFailed | SAuthenticated | SAuthFailed | SStreamStarted
  | SSignalingFailed | SDisconnect | SConnectionLost | SDisconnected

datatype ('s, 'e) state_error = InvalidTransition 's 'e

record sender_machine =
  sm_state :: sender_state

definition sender_machine_new :: sender_machine where
  "sender_machine_new = \<lparr> sm_state = SIdle \<rparr>"

definition sender_next :: "sender_state \<Rightarrow> sender_event \<Rightarrow> sender_state option" where
  "sender_next s e =
     (case s of
        SIdle \<Rightarrow> (case e of StartDiscovery \<Rightarrow> Some SDiscovering | _ \<Rightarrow> None)
      | SDiscovering \<Rightarrow> (case e of ReceiverSelected \<Rightarrow> Some SConnecting
          | SCancel \<Rightarrow> Some SIdle | _ \<Rightarrow> None)
      | SConnecting \<Rightarrow> (case e of SConnected \<Rightarrow> Some SAuthenticating
          | SNeedsPairing \<Rightarrow> Some SPairing | STimeout \<Rightarrow> Some SIdle | SCancel \<Rightarrow> Some SIdle | _ \<Rightarrow> None)
      | SPairing \<Rightarrow> (case e of SPairingComplete \<Rightarrow> Some SAuthenticating
          | SPairingFailed \<Rightarrow> Some SIdle | SCancel \<Rightarrow> Some SIdle | _ \<Rightarrow> None)
      | SAuthenticating \<Rightarrow> (case e of SAuthenticated \<Rightarrow> Some SSignaling
          | SAuthFailed \<Rightarrow> Some SIdle | _ \<Rightarrow> None)
      | SSignaling \<Rightarrow> (case e of SStreamStarted \<Rightarrow> Some SStreaming
          | SSignalingFailed \<Rightarrow> Some SIdle | _ \<Rightarrow> None)
      | SStreaming \<Rightarrow> (case e of SDisconnect \<Rightarrow> Some SDisconnecting
          | SConnectionLost \<Rightarrow> Some SDisconnecting | _ \<Rightarrow> None)
      | SDisconnecting \<Rightarrow> (case e of SDisconnected \<Rightarrow> Some SIdle | _ \<Rightarrow> None))"

definition sender_transition ::
  "sender_machine \<Rightarrow> sender_event \<Rightarrow>
   sender_machine \<times> ((sender_state, sender_event) state_error + sender_state)" where
  "sender_transition m e =
     (case sender_next (sm_state m) e of
        None \<Rightarrow> (m, Inl (InvalidTransition (sm_state m) e))
      | Some s \<Rightarrow> (m\<lparr> sm_state := s \<rparr>, Inr s))"

section \<open>Receiver\<close>

datatype receiver_state =
    RIdle | RAdvertising | RPendingConnection | RPairing | RAuthenticating | RSignaling
  | RReceiving | RDisconnecting

datatype receiver_event =
    StartAdvertising | StopAdvertising | IncomingConnection | RNeedsPairing | AlreadyPaired
  | Rejected | RPairingComplete | RPairingFailed | RAuthenticated | RAuthFailed
  | RStreamStarted | RSignalingFailed | RDisconnect | RConnectionLost | RDisconnected

record receiver_machine =
  rm_state :: receiver_state

definition receiver_machine_new :: receiver_machine where
  "receiver_machine_new = \<lparr> rm_state = RIdle \<rparr>"

definition receiver_next :: "receiver_state \<Rightarrow> receiver_event \<Rightarrow> receiver_state option" where
  "receiver_next s e =
     (case s of
        RIdle \<Rightarrow> (case e of StartAdvertising \<Rightarrow> Some RAdvertising | _ \<Rightarrow> None)
     
          | RAdvertising \<Rightarrow> (case e of IncomingConnection \<Rightarrow> Some RPendingConnection | StopAdvertising \<Rightarrow> Some RIdle | _ \<Rightarrow> None)
      | RPendingConnection \<Rightarrow> (case e of RNeedsPairing \<Rightarrow> Some RPairing
          | AlreadyPaired \<Rightarrow> Some RAuthenticating | Rejected \<Rightarrow> Some RAdvertising | _ \<Rightarrow> None)
      | RPairing \<Rightarrow> (case e of RPairingComplete \<Rightarrow> Some RAuthenticating
          | RPairingFailed \<Rightarrow> Some RAdvertising | _ \<Rightarrow> None)
      | RAuthenticating \<Rightarrow> (case e of RAuthenticated \<Rightarrow> Some RSignaling
          | RAuthFailed \<Rightarrow> Some RAdvertising | _ \<Rightarrow> None)
      | RSignaling \<Rightarrow> (case e of RStreamStarted \<Rightarrow> Some RReceiving
          | RSignalingFailed \<Rightarrow> Some RAdvertising | _ \<Rightarrow> None)
      | RReceiving \<Rightarrow> (case e of RDisconnect \<Rightarrow> Some RDisconnecting
          | RConnectionLost \<Rightarrow> Some RDisconnecting | _ \<Rightarrow> None)
      | RDisconnecting \<Rightarrow> (case e of RDisconnected \<Rightarrow> Some RAdvertising | _ \<Rightarrow> None))"

definition receiver_transition ::
  "receiver_machine \<Rightarrow> receiver_event \<Rightarrow>
   receiver_machine \<times> ((receiver_state, receiver_event) state_error + receiver_state)" where
  "receiver_transition m e =
     (case receiver_next (rm_state m) e of
        None \<Rightarrow> (m, Inl (InvalidTransition (rm_state m) e))
      | Some s \<Rightarrow> (m\<lparr> rm_state := s \<rparr>, Inr s))"

section \<open>Events from messages\<close>

fun sender_event_from_message :: "signaling_message \<Rightarrow> sender_event option" where
  "sender_event_from_message (SessionAccept _ _) = Some SAuthenticated"
| "sender_event_from_message (SessionReject _) = Some SAuthFailed"
| "sender_event_from_message (PairingChallenge _) = Some SNeedsPairing"
| "sender_event_from_message (PairingConfirm _ _) = Some SPairingComplete"
| "sender_event_from_message (AuthChallenge _) = None"
| "sender_event_from_message (AuthConfirm _) = Some SAuthenticated"
| "sender_event_from_message (SessionEnd _) = Some SConnectionLost"
| "sender_event_from_message _ = None"

fun receiver_event_from_message :: "signaling_message \<Rightarrow> receiver_event option" where
  "receiver_event_from_message (SessionRequest _ _ _ _) = Some IncomingConnection"
| "receiver_event_from_message (PairingResponse _ _) = None"
| "receiver_event_from_message (AuthResponse _ _) = None"
| "receiver_event_from_message (SessionEnd _) = Some RConnectionLost"
| "receiver_event_from_message _ = None"


section \<open>Runs\<close>

text \<open>A machine together with the events it accepted so far, oldest first.\<close>

definition sender_step ::
  "sender_machine \<times> sender_event list \<Rightarrow> sender_event \<Rightarrow> sender_machine \<times> sender_event list" where
  "sender_step c e =
     (let r = sender_transition (fst c) e
      in (fst r, if is_ok (snd r) then snd c @ [e] else snd c))"

definition receiver_step ::
  "receiver_machine \<times> receiver_event list \<Rightarrow> receiver_event \<Rightarrow>
   receiver_machine \<times> receiver_event list" where
  "receiver_step c e =
     (let r = receiver_transition (fst c) e
      in (fst r, if is_ok (snd r) then snd c @ [e] else snd c))"

definition sender_run :: "sender_event list \<Rightarrow> sender_machine \<times> sender_event list" where
  "sender_run es = foldl sender_step (sender_machine_new, []) es"

definition receiver_run :: "receiver_event list \<Rightarrow> receiver_machine \<times> receiver_event list" where
  "receiver_run es = foldl receiver_step (receiver_machine_new, []) es"

text \<open>The legs that lead into each state: whatever happened before, the accepted events end
  with one of these.\<close>

definition sender_auth_legs :: "sender_event list list" where
  "sender_auth_legs =
     [[StartDiscovery, ReceiverSelected, SConnected],
      [StartDiscovery, ReceiverSelected, SNeedsPairing, SPairingComplete]]"

fun sender_legs :: "sender_state \<Rightarrow> sender_event list list" where
  "sender_legs SIdle = [[]]"
| "sender_legs SDiscovering = [[StartDiscovery]]"
| "sender_legs SConnecting = [[StartDiscovery, ReceiverSelected]]"
| "sender_legs SPairing = [[StartDiscovery, ReceiverSelected, SNeedsPairing]]"
| "sender_legs SAuthenticating = sender_auth_legs"
| "sender_legs SSignaling = map (\<lambda>l. l @ [SAuthenticated]) sender_auth_legs"
| "sender_legs SStreaming =
     map (\<lambda>l. l @ [SAuthenticated, SStreamStarted]) sender_auth_legs"
| "sender_legs SDisconnecting =
     map (\<lambda>l. l @ [SAuthenticated, SStreamStarted, SDisconnect]) sender_auth_legs @
     map (\<lambda>l. l @ [SAuthenticated, SStreamStarted, SConnectionLost]) sender_auth_legs"

definition receiver_auth_legs :: "receiver_event list list" where
  "receiver_auth_legs =
     [[IncomingConnection, AlreadyPaired],
      [IncomingConnection, RNeedsPairing, RPairingComplete]]"

fun receiver_legs :: "receiver_state \<Rightarrow> receiver_event list list" where
  "receiver_legs RIdle = [[]]"
| "receiver_legs RAdvertising = [[]]"
| "receiver_legs RPendingConnection = [[IncomingConnection]]"
| "receiver_legs RPairing = [[IncomingConnection, RNeedsPairing]]"
| "receiver_legs RAuthenticating = receiver_auth_legs"
| "receiver_legs RSignaling = map (\<lambda>l. l @ [RAuthenticated]) receiver_auth_legs"
| "receiver_legs RReceiving =
     map (\<lambda>l. l @ [RAuthenticated, RStreamStarted]) receiver_auth_legs"
| "receiver_legs RDisconnecting =
     map (\<lambda>l. l @ [RAuthenticated, RStreamStarted, RDisconnect]) receiver_auth_legs @
     map (\<lambda>l. l @ [RAuthenticated, RStreamStarted, RConnectionLost]) receiver_auth_legs"

definition sender_inv :: "sender_machine \<times> sender_event list \<Rightarrow> bool" where
  "sender_inv c \<longleftrightarrow> (\<exists>l \<in> set (sender_legs (sm_state (fst c))). suffix l (snd c))"

definition receiver_inv :: "receiver_machine \<times> receiver_event list \<Rightarrow> bool" where
  "receiver_inv c \<longleftrightarrow> (\<exists>l \<in> set (receiver_legs (rm_state (fst c))). suffix l (snd c))"


section \<open>Lemmas\<close>

lemma suffix_snoc: "suffix l h \<Longrightarrow> suffix (l @ [e]) (h @ [e])"
  by (auto simp: suffix_def)

text \<open>Accepting an event extends a leg of the old state to a leg of the new one, unless the new
  state is a resting state.\<close>

lemma sender_legs_step:
  assumes "sender_next s e = Some s'" and "l \<in> set (sender_legs s)"
  shows "s' = SIdle \<or> l @ [e] \<in> set (sender_legs s')"
  using assms
  by (cases s; cases e; simp add: sender_next_def sender_auth_legs_def; (elim disjE)?; clarsimp)

lemma receiver_legs_step:
  assumes "receiver_next s e = Some s'" and "l \<in> set (receiver_legs s)"
  shows "s' = RIdle \<or> s' = RAdvertising \<or> l @ [e] \<in> set (receiver_legs s')"
  using assms
  by (cases s; cases e; simp add: receiver_next_def receiver_auth_legs_def; (elim disjE)?; clarsimp)

lemma sender_step_cases:
  "sender_step (m, h) e =
     (case sender_next (sm_state m) e of None \<Rightarrow> (m, h)
      | Some s \<Rightarrow> (m\<lparr> sm_state := s \<rparr>, h @ [e]))"
  by (simp add: sender_step_def sender_transition_def split: option.splits)

lemma receiver_step_cases:
  "receiver_step (m, h) e =
     (case receiver_next (rm_state m) e of None \<Rightarrow> (m, h)
      | Some s \<Rightarrow> (m\<lparr> rm_state := s \<rparr>, h @ [e]))"
  by (simp add: receiver_step_def receiver_transition_def split: option.splits)

lemma sender_inv_step:
  assumes "sender_inv c" shows "sender_inv (sender_step c e)"
proof (cases c)
  case (Pair m h)
  with assms obtain l where l: "l \<in> set (sender_legs (sm_state m))" "suffix l h"
    by (auto simp: sender_inv_def)
  show ?thesis
  proof (cases "sender_next (sm_state m) e")
    case (Some s')
    from sender_legs_step [OF this l(1)]
    have "\<exists>l' \<in> set (sender_legs s'). suffix l' (h @ [e])"
      using suffix_snoc [OF l(2), of e] by (elim disjE) (simp_all, blast)
    with Pair Some show ?thesis by (simp add: sender_inv_def sender_step_cases)
  qed (use assms Pair in \<open>simp add: sender_step_cases\<close>)
qed

interpretation sender: machine
  "\<lambda>c. c = (sender_machine_new, [])" sender_step "\<lambda>_. True" sender_inv
proof
  fix c :: "sender_machine \<times> sender_event list"
  assume "c = (sender_machine_new, [])"
  then show "sender_inv c" by (simp add: sender_inv_def sender_machine_new_def)
next
  fix c :: "sender_machine \<times> sender_event list" and e
  assume "sender_inv c"
  then show "sender_inv (sender_step c e)"
    by (rule sender_inv_step)
qed

lemma receiver_inv_step:
  assumes "receiver_inv c" shows "receiver_inv (receiver_step c e)"
proof (cases c)
  case (Pair m h)
  with assms obtain l where l: "l \<in> set (receiver_legs (rm_state m))" "suffix l h"
    by (auto simp: receiver_inv_def)
  show ?thesis
  proof (cases "receiver_next (rm_state m) e")
    case (Some s')
    from receiver_legs_step [OF this l(1)]
    have "\<exists>l' \<in> set (receiver_legs s'). suffix l' (h @ [e])"
      using suffix_snoc [OF l(2), of e] by (elim disjE) (simp_all, blast)
    with Pair Some show ?thesis by (simp add: receiver_inv_def receiver_step_cases)
  qed (use assms Pair in \<open>simp add: receiver_step_cases\<close>)
qed

interpretation receiver: machine
  "\<lambda>c. c = (receiver_machine_new, [])" receiver_step "\<lambda>_. True" receiver_inv
proof
  fix c :: "receiver_machine \<times> receiver_event list"
  assume "c = (receiver_machine_new, [])"
  then show "receiver_inv c" by (simp add: receiver_inv_def receiver_machine_new_def)
next
  fix c :: "receiver_machine \<times> receiver_event list" and e
  assume "receiver_inv c"
  then show "receiver_inv (receiver_step c e)"
    by (rule receiver_inv_step)
qed

lemma sender_run_inv: "sender_inv (sender_run es)"
  unfolding sender_run_def by (rule sender.run_inv) (simp_all add: list_all_iff)

lemma receiver_run_inv: "receiver_inv (receiver_run es)"
  unfolding receiver_run_def by (rule receiver.run_inv) (simp_all add: list_all_iff)


section \<open>Properties\<close>

text \<open>The sender streams only at the end of a complete handshake: whatever events it was
  offered, if it is streaming then the last events it accepted are discovery, selection,
  either a direct connection or a completed pairing, authentication and the stream start,
  in that order and with nothing in between.\<close>

theorem sender_streaming_handshake:
  assumes "sm_state (fst (sender_run es)) = SStreaming"
  shows "\<exists>leg. leg \<in> {[SConnected], [SNeedsPairing, SPairingComplete]} \<and>
    suffix ([StartDiscovery, ReceiverSelected] @ leg @ [SAuthenticated, SStreamStarted])
      (snd (sender_run es))"
  using sender_run_inv [of es] assms
  by (simp add: sender_inv_def sender_auth_legs_def conj_disj_distribR ex_disj_distrib)

theorem sender_streaming_handshake_witness:
  "\<exists>leg. leg \<in> {[SConnected], [SNeedsPairing, SPairingComplete]} \<and>
    suffix ([StartDiscovery, ReceiverSelected] @ leg @ [SAuthenticated, SStreamStarted])
      (snd (sender_run [StartDiscovery, SCancel, StartDiscovery, SStreamStarted,
        ReceiverSelected, SConnected, SAuthenticated, SStreamStarted]))"
  by (rule sender_streaming_handshake)
    (simp add: sender_run_def sender_step_def sender_transition_def sender_machine_new_def
      sender_next_def)

text \<open>The receiver plays media only at the end of a complete handshake: an incoming
  connection, either an existing or a completed pairing, authentication and the stream
  start are the last events it accepted, in that order.\<close>

theorem receiver_receiving_handshake:
  assumes "rm_state (fst (receiver_run es)) = RReceiving"
  shows "\<exists>leg. leg \<in> {[AlreadyPaired], [RNeedsPairing, RPairingComplete]} \<and>
    suffix ([IncomingConnection] @ leg @ [RAuthenticated, RStreamStarted])
      (snd (receiver_run es))"
  using receiver_run_inv [of es] assms
  by (simp add: receiver_inv_def receiver_auth_legs_def conj_disj_distribR ex_disj_distrib)

theorem receiver_receiving_handshake_witness:
  "\<exists>leg. leg \<in> {[AlreadyPaired], [RNeedsPairing, RPairingComplete]} \<and>
    suffix ([IncomingConnection] @ leg @ [RAuthenticated, RStreamStarted])
      (snd (receiver_run [StartAdvertising, IncomingConnection, RNeedsPairing, RPairingComplete,
        RAuthenticated, RStreamStarted]))"
  by (rule receiver_receiving_handshake)
    (simp add: receiver_run_def receiver_step_def receiver_transition_def receiver_machine_new_def
      receiver_next_def)

end
