(* ===== verification/Signaling.thy ===== *)
theory Signaling
  imports Protocol_Message
begin

text \<open>
  The WebSocket transport of \<open>openplay-signaling\<close>: the bounded reply queue behind a
  \<open>ConnectionHandle\<close>, the accept loop with its connection limit and identifiers, and the read
  loops of server and client, which are the gate between the network and every handler of the
  program. TLS, WebSocket framing and JSON are third-party code: a connection is the sequence
  of results its stream yields, and \<open>parse\<close> stands for \<open>serde_json::from_str\<close>.

  The interface \<open>bounded_channel\<close> states what a handler that never blocks may rely on when it
  replies; \<open>ConnectionHandle::send\<close> is shown to provide it.
\<close>

section \<open>The reply queue\<close>

type_synonym connection_id = u64

record reply_channel =
  queue :: "signaling_message list"
  closed :: bool

definition REPLY_CAPACITY :: nat where "REPLY_CAPACITY = 32"

definition new_channel :: reply_channel where
  "new_channel = \<lparr> queue = [], closed = False \<rparr>"

datatype try_send_result = SendOk | SendFull | SendClosed

definition try_send :: "reply_channel \<Rightarrow> signaling_message \<Rightarrow> reply_channel \<times> try_send_result" where
  "try_send c m =
     (if closed c then (c, SendClosed)
      else if length (queue c) < REPLY_CAPACITY then (c\<lparr> queue := queue c @ [m] \<rparr>, SendOk)
      else (c, SendFull))"

definition handle_send :: "reply_channel \<Rightarrow> signaling_message \<Rightarrow> reply_channel \<times> bool" where
  "handle_send c m =
     (case try_send c m of
        (c', SendOk) \<Rightarrow> (c', True)
      | (c', SendFull) \<Rightarrow> (c', False)
      | (c', SendClosed) \<Rightarrow> (c', False))"

definition is_connected :: "reply_channel \<Rightarrow> bool" where
  "is_connected c \<longleftrightarrow> \<not> closed c"

text \<open>The send task takes messages off the queue in order; when it ends, the channel closes.\<close>

definition channel_recv :: "reply_channel \<Rightarrow> reply_channel \<times> signaling_message option" where
  "channel_recv c = (case queue c of [] \<Rightarrow> (c, None) | m # ms \<Rightarrow> (c\<lparr> queue := ms \<rparr>, Some m))"

definition channel_close :: "reply_channel \<Rightarrow> reply_channel" where
  "channel_close c = c\<lparr> queue := [], closed := True \<rparr>"


section \<open>The accept loop\<close>

definition MAX_CONNECTIONS :: nat where "MAX_CONNECTIONS = 16"
definition MAX_MESSAGE_BYTES :: nat where "MAX_MESSAGE_BYTES = 64 * 1024"
definition HANDSHAKE_TIMEOUT :: nat where "HANDSHAKE_TIMEOUT = 10"
definition IDLE_TIMEOUT :: nat where "IDLE_TIMEOUT = 120"

record server =
  permits :: nat
  next_id :: connection_id
  live :: "connection_id list"

definition server_new :: server where
  "server_new = \<lparr> permits = MAX_CONNECTIONS, next_id = 1, live = [] \<rparr>"

datatype accept_event = Accepted | AcceptFailed | ConnectionEnded connection_id

datatype accept_outcome = Served connection_id | Refused | BackedOff | Released

definition accept_step :: "server \<Rightarrow> accept_event \<Rightarrow> server \<times> accept_outcome" where
  "accept_step s e =
     (case e of
        AcceptFailed \<Rightarrow> (s, BackedOff)
      | Accepted \<Rightarrow>
          (if permits s = 0 then (s, Refused)
           else (s\<lparr> permits := permits s - 1, next_id := next_id s + 1,
                    live := live s @ [next_id s] \<rparr>, Served (next_id s)))
      | ConnectionEnded c \<Rightarrow>
          (if c \<in> set (live s)
           then (s\<lparr> permits := permits s + 1, live := remove1 c (live s) \<rparr>, Released)
           else (s, Released)))"


section \<open>The read loops\<close>

datatype 't ws_event =
    WsText 't
  | WsClose
  | WsOther
  | WsError
  | WsEnd
  | WsIdle

datatype handshake = HandshakeOk | HandshakeFailed | HandshakeTimedOut

record incoming_message =
  im_message :: signaling_message
  im_connection :: connection_id
  im_peer :: socket_addr

text \<open>One pass of the server's read loop: the message to forward, and whether the loop goes on.
  \<open>alive\<close> is whether the receiving half of the incoming channel still exists.\<close>

definition read_one ::
  "('t \<Rightarrow> signaling_message option) \<Rightarrow> connection_id \<Rightarrow> socket_addr \<Rightarrow> bool \<Rightarrow> 't ws_event \<Rightarrow>
   incoming_message option \<times> bool" where
  "read_one parse cid peer alive ev =
     (case ev of
        WsText t \<Rightarrow>
          (case parse t of
             None \<Rightarrow> (None, True)
           | Some m \<Rightarrow>
               (if \<not> is_ok (validate m) then (None, True)
                else if alive
                then (Some \<lparr> im_message = m, im_connection = cid, im_peer = peer \<rparr>, True)
                else (None, False)))
      | WsClose \<Rightarrow> (None, False)
      | WsOther \<Rightarrow> (None, True)
      | WsError \<Rightarrow> (None, False)
      | WsEnd \<Rightarrow> (None, False)
      | WsIdle \<Rightarrow> (None, False))"

fun read_loop ::
  "('t \<Rightarrow> signaling_message option) \<Rightarrow> connection_id \<Rightarrow> socket_addr \<Rightarrow>
   (bool \<times> 't ws_event) list \<Rightarrow> incoming_message list \<times> bool" where
  "read_loop parse cid peer [] = ([], True)"
| "read_loop parse cid peer ((alive, ev) # evs) =
     (case read_one parse cid peer alive ev of
        (out, False) \<Rightarrow> ((case out of None \<Rightarrow> [] | Some i \<Rightarrow> [i]), False)
      | (out, True) \<Rightarrow>
          (case read_loop parse cid peer evs of
             (outs, open_) \<Rightarrow> ((case out of None \<Rightarrow> outs | Some i \<Rightarrow> i # outs), open_)))"

text \<open>A served connection: both handshakes, the read loop, and the end of the send task, which
  closes the reply channel. The result says what was forwarded and whether the connection is
  still open.\<close>

definition serve_connection ::
  "('t \<Rightarrow> signaling_message option) \<Rightarrow> handshake \<Rightarrow> handshake \<Rightarrow> connection_id \<Rightarrow> socket_addr \<Rightarrow>
   (bool \<times> 't ws_event) list \<Rightarrow> reply_channel \<Rightarrow> incoming_message list \<times> reply_channel" where
  "serve_connection parse tls ws cid peer evs c =
     (if tls \<noteq> HandshakeOk then ([], channel_close c)
      else if ws \<noteq> HandshakeOk then ([], channel_close c)
      else case read_loop parse cid peer evs of
        (outs, open_) \<Rightarrow> (outs, if open_ then c else channel_close c))"

text \<open>Binding gives a listener with the address really bound, which differs from the requested one
  when port 0 was asked for.\<close>

datatype signaling_error =
    ConnectionError string
  | TlsFailure string
  | WebSocketFailure string
  | MessageFailure string
  | BindFailure string
  | TimeoutError

record signaling_server =
  listener :: "socket_addr option"

definition server_bind :: "string \<Rightarrow> string + socket_addr option \<Rightarrow> signaling_error + signaling_server" where
  "server_bind addr answer =
     (case answer of
        Inl e \<Rightarrow> Inl (BindFailure (''Failed to bind '' @ addr @ '': '' @ e))
      | Inr l \<Rightarrow> Inr \<lparr> listener = l \<rparr>)"

definition local_addr :: "signaling_server \<Rightarrow> socket_addr option" where
  "local_addr s = listener s"

text \<open>The accept loop runs until the receiving half of the incoming channel is dropped; it does not
  start on a socket that has no address. \<open>None\<close> is a loop that is still running.\<close>

datatype server_event = IncomingClosed | FromListener accept_event

fun serve_until_closed :: "server \<Rightarrow> server_event list \<Rightarrow> server \<times> accept_outcome list \<times> (signaling_error + unit) option" where
  "serve_until_closed s [] = (s, [], None)"
| "serve_until_closed s (IncomingClosed # es) = (s, [], Some (Inr ()))"
| "serve_until_closed s (FromListener e # es) =
     (case accept_step s e of (s1, out) \<Rightarrow>
        (case serve_until_closed s1 es of (s2, outs, r) \<Rightarrow> (s2, out # outs, r)))"

definition run_server :: "signaling_server \<Rightarrow> server_event list \<Rightarrow> server \<times> accept_outcome list \<times> (signaling_error + unit) option" where
  "run_server srv es =
     (case listener srv of
        None \<Rightarrow> (server_new, [], Some (Inl (BindFailure ''Bound socket has no address'')))
      | Some a \<Rightarrow> serve_until_closed server_new es)"

text \<open>The send tasks. A message that cannot be serialised is skipped; a write that fails ends the
  task, as does, at the server, one that takes longer than the handshake timeout. What is written
  and whether the task goes on:\<close>

datatype socket_write = Written | WriteFailed | WriteTimedOut

definition send_one :: "(signaling_message \<Rightarrow> 't option) \<Rightarrow> socket_write \<Rightarrow> signaling_message \<Rightarrow> 't option \<times> bool" where
  "send_one serialise w m =
     (case serialise m of
        None \<Rightarrow> (None, True)
      | Some t \<Rightarrow>
          (case w of Written \<Rightarrow> (Some t, True) | WriteFailed \<Rightarrow> (None, False) | WriteTimedOut \<Rightarrow> (None, False)))"

fun send_task :: "(signaling_message \<Rightarrow> 't option) \<Rightarrow> (signaling_message \<times> socket_write) list \<Rightarrow> 't list \<times> bool" where
  "send_task serialise [] = ([], True)"
| "send_task serialise ((m, w) # ms) =
     (case send_one serialise w m of
        (out, False) \<Rightarrow> ([], False)
      | (out, True) \<Rightarrow>
          (case send_task serialise ms of
             (ts, running) \<Rightarrow> ((case out of None \<Rightarrow> ts | Some t \<Rightarrow> t # ts), running)))"

definition client_send_one :: "(signaling_message \<Rightarrow> 't option) \<Rightarrow> bool \<Rightarrow> signaling_message \<Rightarrow> 't option \<times> bool" where
  "client_send_one serialise ok m =
     (case serialise m of
        None \<Rightarrow> (None, True)
      | Some t \<Rightarrow> if ok then (Some t, True) else (None, False))"

text \<open>The client connects with one handshake budget and runs the same gate on what it reads.
  Its stream has no idle limit.\<close>

definition client_connect :: "handshake \<Rightarrow> signaling_error + unit" where
  "client_connect h =
     (case h of HandshakeOk \<Rightarrow> Inr ()
      | HandshakeFailed \<Rightarrow> Inl (ConnectionError ''WebSocket connect failed'')
      | HandshakeTimedOut \<Rightarrow> Inl TimeoutError)"

fun client_read_loop ::
  "('t \<Rightarrow> signaling_message option) \<Rightarrow> (bool \<times> 't ws_event) list \<Rightarrow>
   signaling_message list \<times> bool" where
  "client_read_loop parse [] = ([], True)"
| "client_read_loop parse ((alive, ev) # evs) =
     (case ev of
        WsText t \<Rightarrow>
          (case parse t of
             None \<Rightarrow> client_read_loop parse evs
           | Some m \<Rightarrow>
               (if \<not> is_ok (validate m) then client_read_loop parse evs
                else if alive
                then (case client_read_loop parse evs of (ms, b) \<Rightarrow> (m # ms, b))
                else ([], False)))
      | WsOther \<Rightarrow> client_read_loop parse evs
      | WsIdle \<Rightarrow> client_read_loop parse evs
      | WsClose \<Rightarrow> ([], False)
      | WsError \<Rightarrow> ([], False)
      | WsEnd \<Rightarrow> ([], False))"


section \<open>Interface: a bounded channel that never blocks\<close>

locale bounded_channel =
  fixes send :: "'c \<Rightarrow> 'm \<Rightarrow> 'c \<times> bool"
    and contents :: "'c \<Rightarrow> 'm list"
    and connected :: "'c \<Rightarrow> bool"
    and capacity :: nat
  assumes send_accepted: "snd (send c m) \<longleftrightarrow> connected c \<and> length (contents c) < capacity"
    and send_contents: "contents (fst (send c m)) = contents c @ (if snd (send c m) then [m] else [])"
    and send_connected: "connected (fst (send c m)) \<longleftrightarrow> connected c"
begin

definition send_all :: "'c \<Rightarrow> 'm list \<Rightarrow> 'c" where
  "send_all c ms = foldl (\<lambda>c m. fst (send c m)) c ms"

lemma send_all_Nil [simp]: "send_all c [] = c"
  by (simp add: send_all_def)

lemma send_all_Cons [simp]: "send_all c (m # ms) = send_all (fst (send c m)) ms"
  by (simp add: send_all_def)

lemma send_all_connected: "connected (send_all c ms) \<longleftrightarrow> connected c"
  by (induction ms arbitrary: c) (auto simp: send_connected)

lemma send_all_closed: "\<not> connected c \<Longrightarrow> contents (send_all c ms) = contents c"
  by (induction ms arbitrary: c) (auto simp: send_contents send_accepted send_connected)

lemma send_all_contents:
  "connected c \<Longrightarrow> length (contents c) \<le> capacity \<Longrightarrow>
   contents (send_all c ms) = contents c @ take (capacity - length (contents c)) ms"
proof (induction ms arbitrary: c)
  case (Cons m ms)
  show ?case
  proof (cases "length (contents c) < capacity")
    case True
    then have "contents (fst (send c m)) = contents c @ [m]"
      using Cons.prems by (simp add: send_contents send_accepted)
    then show ?thesis
      using Cons.IH [of "fst (send c m)"] Cons.prems True
      by (simp add: send_connected take_Cons' Suc_diff_Suc)
  next
    case False
    then have "contents (fst (send c m)) = contents c"
      by (simp add: send_contents send_accepted)
    then show ?thesis
      using Cons.IH [of "fst (send c m)"] Cons.prems False by (simp add: send_connected)
  qed
qed simp

lemma send_all_bounded:
  "length (contents c) \<le> capacity \<Longrightarrow> length (contents (send_all c ms)) \<le> capacity"
  by (cases "connected c") (simp_all add: send_all_contents send_all_closed)

end

lemmas handle_simps = handle_send_def try_send_def is_connected_def

interpretation reply: bounded_channel handle_send queue is_connected REPLY_CAPACITY
  by unfold_locales (auto simp: handle_simps)


section \<open>Lemmas\<close>

definition server_inv :: "server \<Rightarrow> bool" where
  "server_inv s \<longleftrightarrow> permits s + length (live s) = MAX_CONNECTIONS"

text \<open>The server together with the identifiers handed out so far.\<close>

definition id_step ::
  "server \<times> connection_id list \<Rightarrow> accept_event \<Rightarrow> server \<times> connection_id list" where
  "id_step c e =
     (case accept_step (fst c) e of
        (s, Served i) \<Rightarrow> (s, snd c @ [i]) | (s, _) \<Rightarrow> (s, snd c))"

definition id_inv :: "server \<times> connection_id list \<Rightarrow> bool" where
  "id_inv c \<longleftrightarrow> server_inv (fst c) \<and>
     next_id (fst c) = of_nat (Suc (length (snd c))) \<and>
     snd c = map of_nat [1..<Suc (length (snd c))] \<and> set (live (fst c)) \<subseteq> set (snd c)"

lemma accept_step_inv:
  assumes "server_inv s" shows "server_inv (fst (accept_step s e))"
proof (cases e)
  case (ConnectionEnded c)
  have "c \<in> set (live s) \<Longrightarrow> Suc (length (live s) - 1) = length (live s)"
    by (cases "live s") auto
  with assms ConnectionEnded show ?thesis
    by (auto simp: accept_step_def server_inv_def length_remove1)
qed (use assms in \<open>auto simp: accept_step_def server_inv_def\<close>)

lemma id_inv_step:
  assumes "id_inv c" shows "id_inv (id_step c e)"
proof -
  have "server_inv (fst (id_step c e))"
    using accept_step_inv [of "fst c" e] assms
    by (auto simp: id_inv_def id_step_def split: prod.splits accept_outcome.splits)
  moreover have "next_id (fst (id_step c e)) = of_nat (Suc (length (snd (id_step c e)))) \<and>
     snd (id_step c e) = map of_nat [1..<Suc (length (snd (id_step c e)))] \<and>
     set (live (fst (id_step c e))) \<subseteq> set (snd (id_step c e))"
    using assms by (cases e) (auto simp: id_inv_def id_step_def accept_step_def
      dest: set_remove1_subset [THEN subsetD])
  ultimately show ?thesis by (simp add: id_inv_def)
qed

interpretation accept: machine "\<lambda>c. c = (server_new, [])" id_step "\<lambda>_. True" id_inv
proof
  show "\<And>c. c = (server_new, []) \<Longrightarrow> id_inv c"
    by (simp add: id_inv_def server_inv_def server_new_def)
qed (rule id_inv_step)

lemma distinct_ids: "n \<le> 2 ^ 64 - 1 \<Longrightarrow> distinct (map (of_nat :: nat \<Rightarrow> u64) [1..<Suc n])"
  by (auto simp: distinct_map inj_on_def word_unat_eq_iff unat_of_nat take_bit_nat_eq_self)

text \<open>What the gate lets through, as a filter over the events before the first one that ends
  the loop.\<close>

fun keeps_reading :: "'t ws_event \<Rightarrow> bool" where
  "keeps_reading (WsText _) = True"
| "keeps_reading WsOther = True"
| "keeps_reading _ = False"

fun text_message :: "('t \<Rightarrow> signaling_message option) \<Rightarrow> 't ws_event \<Rightarrow> signaling_message option" where
  "text_message parse (WsText t) = parse t"
| "text_message parse _ = None"

definition admitted :: "('t \<Rightarrow> signaling_message option) \<Rightarrow> 't ws_event list \<Rightarrow> signaling_message list" where
  "admitted parse evs =
     filter within_bounds (List.map_filter (text_message parse) (takeWhile keeps_reading evs))"

lemma validate_is_ok: "is_ok (validate m) \<longleftrightarrow> within_bounds m"
  by (simp add: is_ok_iff validate_fields within_bounds_def)

lemma read_loop_admitted:
  "fst (read_loop parse cid peer (map (Pair True) evs)) =
   map (\<lambda>m. \<lparr> im_message = m, im_connection = cid, im_peer = peer \<rparr>) (admitted parse evs)"
proof (induction evs)
  case (Cons ev evs)
  then show ?case
    by (cases ev) (auto simp: read_one_def admitted_def validate_is_ok
        split: option.splits prod.splits)
qed (simp add: admitted_def)

lemma read_loop_open:
  "snd (read_loop parse cid peer (map (Pair True) evs)) \<longleftrightarrow> list_all keeps_reading evs"
proof (induction evs)
  case (Cons ev evs)
  then show ?case
    by (cases ev) (auto simp: read_one_def split: option.splits prod.splits)
qed simp

lemma client_read_loop_admitted:
  "fst (client_read_loop parse (map (Pair True) evs)) = admitted parse (filter (\<lambda>e. e \<noteq> WsIdle) evs)"
proof (induction evs)
  case (Cons ev evs)
  then show ?case
    by (cases ev) (auto simp: admitted_def validate_is_ok
        split: option.splits prod.splits)
qed (simp add: admitted_def)


section \<open>Properties\<close>

text \<open>What a served connection forwards to the session loop is exactly the well-formed
  messages within their bounds, in arrival order, tagged with this connection's identity,
  up to the first event that ends the connection; the reply channel is closed exactly when
  such an event has come (a close frame, an error, the end of the stream or the idle
  timeout).\<close>

theorem serve_connection_gate:
  "serve_connection parse HandshakeOk HandshakeOk cid peer (map (Pair True) evs) new_channel =
   (map (\<lambda>m. \<lparr> im_message = m, im_connection = cid, im_peer = peer \<rparr>) (admitted parse evs),
    if list_all keeps_reading evs then new_channel else channel_close new_channel)"
  using read_loop_admitted [of parse cid peer evs] read_loop_open [of parse cid peer evs]
  by (simp add: serve_connection_def case_prod_beta)

text \<open>The client applies the same gate to the receiver it dialled: it hands on exactly the
  admitted messages, and a silent stream does not end it.\<close>

theorem client_gate:
  "fst (client_read_loop parse (map (Pair True) evs)) =
   admitted parse (filter (\<lambda>e. e \<noteq> WsIdle) evs)"
  by (rule client_read_loop_admitted)

text \<open>Replying never blocks and never reorders: however many messages a handler sends to a
  connected peer that reads nothing, the queue holds what it held followed by the first
  messages that fit, and never more than 32.\<close>

theorem reply_queue_keeps_oldest:
  assumes "is_connected c" and "length (queue c) \<le> REPLY_CAPACITY"
  shows "queue (foldl (\<lambda>c m. fst (handle_send c m)) c ms) =
      queue c @ take (REPLY_CAPACITY - length (queue c)) ms \<and>
    length (queue (foldl (\<lambda>c m. fst (handle_send c m)) c ms)) \<le> 32"
  using reply.send_all_contents [OF assms, of ms] reply.send_all_bounded [OF assms(2), of ms]
  by (simp add: reply.send_all_def REPLY_CAPACITY_def)

theorem reply_queue_keeps_oldest_witness:
  "queue (foldl (\<lambda>c m. fst (handle_send c m)) new_channel [IceComplete, Ping 1]) =
    [IceComplete, Ping 1]"
  using reply_queue_keeps_oldest [of new_channel "[IceComplete, Ping 1]"]
  by (simp add: new_channel_def is_connected_def REPLY_CAPACITY_def)

text \<open>At most 16 connections are served at once, whatever is accepted and however
  connections end, and the identifiers handed out are 1, 2, 3, ...: as long as fewer than
  \<open>2 ^ 64\<close> connections have been served, no identifier has been given to two connections.\<close>

theorem accept_loop_safe:
  assumes "(s, ids) = foldl id_step (server_new, []) es" and "length ids < 2 ^ 64"
  shows "length (live s) \<le> 16 \<and> distinct ids \<and> set (live s) \<subseteq> set ids"
proof -
  have inv: "id_inv (s, ids)"
    unfolding assms(1) by (rule accept.run_inv) (simp_all add: list_all_iff)
  moreover from inv have "distinct ids"
    using distinct_ids [of "length ids"] assms(2) by (simp add: id_inv_def)
  ultimately show ?thesis
    by (simp add: id_inv_def server_inv_def MAX_CONNECTIONS_def)
qed

theorem accept_loop_safe_witness:
  "length (live (fst (foldl id_step (server_new, []) [Accepted, Accepted, ConnectionEnded 1]))) \<le> 16"
  using accept_loop_safe [of "fst (foldl id_step (server_new, []) [Accepted, Accepted, ConnectionEnded 1])"
      "snd (foldl id_step (server_new, []) [Accepted, Accepted, ConnectionEnded 1])"
      "[Accepted, Accepted, ConnectionEnded 1]"]
  by (simp add: id_step_def accept_step_def server_new_def MAX_CONNECTIONS_def)

end
