(* ===== verification/Config.thy ===== *)
theory Config
  imports Prelude
begin

text \<open>
  The configuration of \<open>openplay-common/src/config.rs\<close> and the start-up sequence of the two
  binaries: load or create the file, apply the command line, validate. TOML is third-party
  code: \<open>toml_parse\<close> and \<open>toml_print\<close> are parameters, and the one law used of them is that
  printing a configuration and parsing it again gives the same configuration. The file system
  is one optional file plus what reading and writing it answers.
\<close>

definition PROTOCOL_VERSION :: u32 where "PROTOCOL_VERSION = 1"
definition DEFAULT_PORT :: u16 where "DEFAULT_PORT = 7290"
definition MIN_BITRATE_KBPS :: u32 where "MIN_BITRATE_KBPS = 100"
definition MAX_BITRATE_KBPS :: u32 where "MAX_BITRATE_KBPS = 100000"
definition MIN_FRAMERATE :: u32 where "MIN_FRAMERATE = 1"
definition MAX_FRAMERATE :: u32 where "MAX_FRAMERATE = 240"

record app_config =
  cfg_display_name :: ustr
  cfg_port :: u16
  cfg_max_bitrate_kbps :: u32
  cfg_framerate :: u32
  cfg_force_sw_encode :: bool
  cfg_airplay_enabled :: bool
  cfg_miracast_enabled :: bool

datatype config_error =
    EmptyDisplayName
  | ZeroPort
  | BitrateOutOfRange u32
  | FramerateOutOfRange u32
  | Unreadable
  | Unparsable

text \<open>\<open>gethostname().into_string()\<close> is \<open>None\<close> when the host name is not UTF-8.\<close>

definition hostname :: "ustr option \<Rightarrow> ustr" where
  "hostname h = (case h of Some n \<Rightarrow> n | None \<Rightarrow> lit ''OpenPlay Device'')"

definition default_config :: "ustr option \<Rightarrow> app_config" where
  "default_config h = \<lparr> cfg_display_name = hostname h, cfg_port = DEFAULT_PORT,
     cfg_max_bitrate_kbps = 6000, cfg_framerate = 30, cfg_force_sw_encode = False,
     cfg_airplay_enabled = True, cfg_miracast_enabled = True \<rparr>"

definition config_validate :: "app_config \<Rightarrow> config_error + unit" where
  "config_validate c =
     (if trim (cfg_display_name c) = [] then Inl EmptyDisplayName
      else if cfg_port c = 0 then Inl ZeroPort
      else if \<not> (MIN_BITRATE_KBPS \<le> cfg_max_bitrate_kbps c \<and>
                 cfg_max_bitrate_kbps c \<le> MAX_BITRATE_KBPS)
      then Inl (BitrateOutOfRange (cfg_max_bitrate_kbps c))
      else if \<not> (MIN_FRAMERATE \<le> cfg_framerate c \<and> cfg_framerate c \<le> MAX_FRAMERATE)
      then Inl (FramerateOutOfRange (cfg_framerate c))
      else Inr ())"

datatype 't file_state = Missing | Unreadable_File | Contents 't

text \<open>What the system answers when the file is written: creating the directory, writing.\<close>

record write_env =
  mkdir_ok :: bool
  write_ok :: bool

definition load_from :: "('t \<Rightarrow> app_config option) \<Rightarrow> ustr option \<Rightarrow> 't file_state \<Rightarrow>
    config_error + app_config" where
  "load_from toml_parse h f =
     (case f of
        Missing \<Rightarrow> Inr (default_config h)
      | Unreadable_File \<Rightarrow> Inl Unreadable
      | Contents t \<Rightarrow> ok_or Unparsable (toml_parse t))"

definition load_validated_from :: "('t \<Rightarrow> app_config option) \<Rightarrow> ustr option \<Rightarrow> 't file_state \<Rightarrow>
    config_error + app_config" where
  "load_validated_from toml_parse h f =
     result_bind (load_from toml_parse h f) (\<lambda>c.
     result_bind (config_validate c) (\<lambda>_. Inr c))"

definition save_to :: "(app_config \<Rightarrow> 't option) \<Rightarrow> write_env \<Rightarrow> app_config \<Rightarrow> 't file_state \<Rightarrow> 't file_state" where
  "save_to toml_print w c f =
     (if \<not> mkdir_ok w then f
      else case toml_print c of
        None \<Rightarrow> f
      | Some t \<Rightarrow> if write_ok w then Contents t else f)"

definition load_or_create_at ::
  "('t \<Rightarrow> app_config option) \<Rightarrow> (app_config \<Rightarrow> 't option) \<Rightarrow> write_env \<Rightarrow> ustr option \<Rightarrow> 't file_state \<Rightarrow>
   (config_error + app_config) \<times> 't file_state" where
  "load_or_create_at toml_parse toml_print w h f =
     (case f of
        Missing \<Rightarrow>
          (let c = default_config h
           in (result_bind (config_validate c) (\<lambda>_. Inr c), save_to toml_print w c f))
      | _ \<Rightarrow> (load_validated_from toml_parse h f, f))"

record args =
  arg_name :: "ustr option"
  arg_port :: "u16 option"

definition apply_args :: "args \<Rightarrow> app_config \<Rightarrow> app_config" where
  "apply_args a c =
     (let c1 = (case arg_name a of None \<Rightarrow> c | Some n \<Rightarrow> c\<lparr> cfg_display_name := n \<rparr>)
      in case arg_port a of None \<Rightarrow> c1 | Some p \<Rightarrow> c1\<lparr> cfg_port := p \<rparr>)"

definition receiver_startup ::
  "('t \<Rightarrow> app_config option) \<Rightarrow> (app_config \<Rightarrow> 't option) \<Rightarrow> write_env \<Rightarrow> ustr option \<Rightarrow> args \<Rightarrow>
   't file_state \<Rightarrow> (config_error + app_config) \<times> 't file_state" where
  "receiver_startup toml_parse toml_print w h a f =
     (let (r, f') = load_or_create_at toml_parse toml_print w h f
      in (result_bind r (\<lambda>c. let c' = apply_args a c
            in result_bind (config_validate c') (\<lambda>_. Inr c')), f'))"

text \<open>The sender's \<open>main\<close> takes only a name.\<close>

definition sender_startup ::
  "('t \<Rightarrow> app_config option) \<Rightarrow> (app_config \<Rightarrow> 't option) \<Rightarrow> write_env \<Rightarrow> ustr option \<Rightarrow> ustr option \<Rightarrow>
   't file_state \<Rightarrow> (config_error + app_config) \<times> 't file_state" where
  "sender_startup toml_parse toml_print w h name f =
     (let (r, f') = load_or_create_at toml_parse toml_print w h f
      in (result_bind r (\<lambda>c. let c' = (case name of None \<Rightarrow> c | Some n \<Rightarrow> c\<lparr> cfg_display_name := n \<rparr>)
            in result_bind (config_validate c') (\<lambda>_. Inr c')), f'))"

section \<open>Lemmas\<close>

definition config_ok :: "app_config \<Rightarrow> bool" where
  "config_ok c \<longleftrightarrow> (\<exists>x \<in> set (cfg_display_name c). \<not> is_whitespace x) \<and>
     0 < unat (cfg_port c) \<and>
     100 \<le> unat (cfg_max_bitrate_kbps c) \<and> unat (cfg_max_bitrate_kbps c) \<le> 100000 \<and>
     1 \<le> unat (cfg_framerate c) \<and> unat (cfg_framerate c) \<le> 240"

lemmas config_bounds = MIN_BITRATE_KBPS_def MAX_BITRATE_KBPS_def MIN_FRAMERATE_def
  MAX_FRAMERATE_def

lemma config_validate_ok: "config_validate c = Inr () \<longleftrightarrow> config_ok c"
  by (auto simp: config_validate_def config_ok_def config_bounds trim_empty_iff word_le_nat_alt
      unat_gt_0)

lemma config_validate_cases:
  "config_validate c = Inr () \<or> (\<exists>e. config_validate c = Inl e)"
  by (cases "config_validate c") auto

lemma default_config_ok: "config_ok (default_config h) \<longleftrightarrow> (\<exists>x \<in> set (hostname h). \<not> is_whitespace x)"
  by (simp add: config_ok_def default_config_def DEFAULT_PORT_def)


lemma sender_startup_valid:
  "fst (sender_startup toml_parse toml_print w h name f) = Inr c \<Longrightarrow> config_ok c"
  by (auto simp: sender_startup_def error_simps config_validate_ok Let_def split: prod.splits)


section \<open>Properties\<close>

text \<open>However the configuration file looks and whatever the command line overrides, a
  receiver that starts runs with a usable configuration: a display name with a visible
  character, a port other than 0, a bitrate from 100 to 100000 kbps and a framerate from 1 to
  240.\<close>

theorem receiver_startup_valid:
  assumes "fst (receiver_startup toml_parse toml_print w h a f) = Inr c"
  shows "config_ok c"
  using assms
  by (auto simp: receiver_startup_def error_simps config_validate_ok Let_def split: prod.splits)

theorem receiver_startup_valid_witness:
  "config_ok (default_config (Some [97]))"
  by (rule receiver_startup_valid [where toml_parse = "\<lambda>_. None" and toml_print = "\<lambda>_. None" and
        w = "\<lparr> mkdir_ok = True, write_ok = True \<rparr>" and h = "Some [97]" and
        a = "\<lparr> arg_name = None, arg_port = None \<rparr>" and f = "Missing :: nat file_state"])
    (simp add: receiver_startup_def load_or_create_at_def apply_args_def config_validate_def
      default_config_def hostname_def trim_def is_whitespace_def DEFAULT_PORT_def config_bounds Let_def)

text \<open>The first start writes the defaults and later starts read them back: if TOML parses
  what it prints and the file could be written, the next start loads the configuration the
  first one ran with and leaves the file alone.\<close>

theorem first_start_is_stable:
  assumes toml_roundtrip: "\<And>c t. toml_print c = Some t \<Longrightarrow> toml_parse t = Some c"
    and "load_or_create_at toml_parse toml_print w h Missing = (Inr c, Contents t)"
  shows "load_or_create_at toml_parse toml_print w' h' (Contents t) = (Inr c, Contents t)"
  using assms(2)
  by (auto simp: load_or_create_at_def load_validated_from_def load_from_def save_to_def error_simps
      Let_def split: if_splits option.splits dest!: toml_roundtrip)

theorem first_start_is_stable_witness:
  "load_or_create_at Some Some \<lparr> mkdir_ok = True, write_ok = True \<rparr> None
     (Contents (default_config (Some [97]))) =
   (Inr (default_config (Some [97])), Contents (default_config (Some [97])))"
  by (rule first_start_is_stable [where w = "\<lparr> mkdir_ok = True, write_ok = True \<rparr>" and h = "Some [97]"])
    (simp_all add: load_or_create_at_def save_to_def config_validate_def
      default_config_def hostname_def trim_def is_whitespace_def DEFAULT_PORT_def config_bounds Let_def)

end
