(* ===== verification/Receiver_Net.thy ===== *)
theory Receiver_Net
  imports Signaling Config
begin

text \<open>
  The receiver's session loop, \<open>openplay-receiver/src/net.rs\<close>: consent, ownership, the media
  session and what the window shows. Every handler of \<open>SessionLoop\<close> is a function on the
  record \<open>session_loop\<close>. Beside the fields of the struct, the record holds what the handlers
  reach through handles: the reply channel of every connection (a \<open>ConnectionHandle\<close> is the
  identity of its connection), the media pipelines that are playing, and the remote ICE
  candidates applied. A pipeline stops when it is stopped or dropped. \<open>HashMap\<close> iteration is
  the order of the association list; the map never has two entries, so the order is
  unobservable.

  GStreamer is third-party code: whether a pipeline can be built, started and given the
  remote description is the \<open>offer_env\<close> of the event.
\<close>

section \<open>State\<close>

record video_frame =
  vf_width :: u32
  vf_height :: u32
  vf_rgba :: bytes

record frame_slot =
  fs_frame :: "video_frame option"
  fs_sequence :: u64

datatype status =
    Waiting
  | PendingConsent ustr connection_id
  | Negotiating ustr
  | Streaming ustr
  | Failed ustr

record decision =
  d_connection :: connection_id
  d_accept :: bool

record pending =
  p_reply :: connection_id
  p_display_name :: ustr
  p_framerate :: u32

type_synonym pipeline_id = nat

record active =
  a_connection :: connection_id
  a_reply :: connection_id
  a_display_name :: ustr
  a_media :: "pipeline_id option"

datatype sdp_kind = Offer | Answer

datatype webrtc_event =
    LocalDescription sdp_kind ustr
  | LocalCandidate u32 ustr
  | IceGatheringComplete
  | PeerConnected
  | PeerFailed ustr
  | PeerDisconnected

record offer_env =
  build_result :: "ustr + unit"
  start_result :: "ustr + unit"
  remote_result :: "ustr + unit"

record session_loop =
  config :: app_config
  status :: status
  frame :: frame_slot
  pending_map :: "(connection_id \<times> pending) list"
  active_session :: "active option"
  undiscoverable :: "ustr option"
  chans :: "connection_id \<Rightarrow> reply_channel"
  playing :: "pipeline_id list"
  next_pipeline :: pipeline_id
  remote_ice :: "(pipeline_id \<times> u32 \<times> ustr) list"

definition undiscoverable_reason :: ustr where
  "undiscoverable_reason =
     lit ''Not discoverable on this network '' @ [0x2014] @
     lit '' senders must be pointed here by address''"

text \<open>\<open>start\<close>: the status cell before the loop runs, given whether advertising worked.\<close>

definition session_loop_new :: "app_config \<Rightarrow> bool \<Rightarrow> session_loop" where
  "session_loop_new cfg advertised =
     (let u = (if advertised then None else Some undiscoverable_reason)
      in \<lparr> config = cfg, status = (case u of None \<Rightarrow> Waiting | Some r \<Rightarrow> Failed r),
           frame = \<lparr> fs_frame = None, fs_sequence = 0 \<rparr>, pending_map = [], active_session = None,
           undiscoverable = u, chans = (\<lambda>_. new_channel), playing = [], next_pipeline = 0,
           remote_ice = [] \<rparr>)"


section \<open>Handlers\<close>

definition set_status :: "status \<Rightarrow> session_loop \<Rightarrow> session_loop" where
  "set_status st s = s\<lparr> status := st \<rparr>"

definition send_to :: "connection_id \<Rightarrow> signaling_message \<Rightarrow> session_loop \<Rightarrow> session_loop" where
  "send_to c m s = s\<lparr> chans := (chans s)(c := fst (handle_send (chans s c) m)) \<rparr>"

definition store_frame :: "video_frame \<Rightarrow> frame_slot \<Rightarrow> frame_slot" where
  "store_frame f slot = slot\<lparr> fs_frame := Some f, fs_sequence := fs_sequence slot + 1 \<rparr>"

definition clear_frame :: "frame_slot \<Rightarrow> frame_slot" where
  "clear_frame slot = slot\<lparr> fs_frame := None, fs_sequence := fs_sequence slot + 1 \<rparr>"

definition reset_status :: "session_loop \<Rightarrow> session_loop" where
  "reset_status s =
     set_status (case undiscoverable s of Some r \<Rightarrow> Failed r | None \<Rightarrow> Waiting) s"

definition pending_remove :: "connection_id \<Rightarrow> session_loop \<Rightarrow> session_loop" where
  "pending_remove c s = s\<lparr> pending_map := filter (\<lambda>e. fst e \<noteq> c) (pending_map s) \<rparr>"

definition pending_insert :: "connection_id \<Rightarrow> pending \<Rightarrow> session_loop \<Rightarrow> session_loop" where
  "pending_insert c p s =
     s\<lparr> pending_map := (c, p) # filter (\<lambda>e. fst e \<noteq> c) (pending_map s) \<rparr>"

text \<open>The pipeline of a session that is given up stops playing.\<close>

definition stop_media :: "pipeline_id option \<Rightarrow> session_loop \<Rightarrow> session_loop" where
  "stop_media m s =
     (case m of None \<Rightarrow> s | Some p \<Rightarrow> s\<lparr> playing := removeAll p (playing s) \<rparr>)"

definition end_active :: "session_end_reason \<Rightarrow> session_loop \<Rightarrow> session_loop" where
  "end_active r s =
     (case active_session s of
        None \<Rightarrow> s
      | Some a \<Rightarrow> send_to (a_reply a) (SessionEnd r)
                   (stop_media (a_media a) (s\<lparr> active_session := None \<rparr>)))"

definition tear_down :: "session_loop \<Rightarrow> session_loop" where
  "tear_down s =
     (let s1 = end_active UserStopped s
      in reset_status (s1\<lparr> frame := clear_frame (frame s1) \<rparr>))"

definition fail_session :: "ustr \<Rightarrow> session_loop \<Rightarrow> session_loop" where
  "fail_session reason s =
     (let s1 = end_active SessionError s
      in set_status (Failed reason) (s1\<lparr> frame := clear_frame (frame s1) \<rparr>))"

definition owns_session :: "connection_id \<Rightarrow> session_loop \<Rightarrow> bool" where
  "owns_session c s = (case active_session s of None \<Rightarrow> False | Some a \<Rightarrow> a_connection a = c)"

definition media_for :: "connection_id \<Rightarrow> session_loop \<Rightarrow> pipeline_id option" where
  "media_for c s =
     (case active_session s of
        None \<Rightarrow> None
      | Some a \<Rightarrow> (case a_media a of None \<Rightarrow> None
                    | Some p \<Rightarrow> if a_connection a = c then Some p else None))"

definition negotiated_framerate :: "u32 option \<Rightarrow> u32 \<Rightarrow> u32" where
  "negotiated_framerate requested limit =
     min (case requested of None \<Rightarrow> limit | Some f \<Rightarrow> f) limit"

definition handle_session_request ::
  "connection_id \<Rightarrow> ustr \<Rightarrow> u32 \<Rightarrow> capabilities \<Rightarrow> session_loop \<Rightarrow> session_loop" where
  "handle_session_request c name ver caps s =
     (if ver \<noteq> PROTOCOL_VERSION then send_to c (SessionReject VersionMismatch) s
      else if \<not> list_ex (\<lambda>x. x = lit ''h264'') (video_codecs caps)
      then send_to c (SessionReject NoCompatibleCodecs) s
      else if (case active_session s of None \<Rightarrow> False | Some a \<Rightarrow> a_connection a \<noteq> c)
      then send_to c (SessionReject Busy) s
      else if (case pending_map s of [] \<Rightarrow> False | (c', _) # _ \<Rightarrow> c' \<noteq> c)
      then send_to c (SessionReject Busy) s
      else pending_insert c
             \<lparr> p_reply = c, p_display_name = name,
               p_framerate = negotiated_framerate (max_framerate caps) (cfg_framerate (config s)) \<rparr>
             (set_status (PendingConsent name c) s))"

definition accept_message :: "app_config \<Rightarrow> u32 \<Rightarrow> signaling_message" where
  "accept_message cfg fps =
     SessionAccept (cfg_display_name cfg)
       \<lparr> video_codec = lit ''h264'', audio_codec = None,
         max_bitrate_kbps = cfg_max_bitrate_kbps cfg, framerate = fps \<rparr>"

definition handle_decision :: "decision \<Rightarrow> session_loop \<Rightarrow> session_loop" where
  "handle_decision d s =
     (case map_of (pending_map s) (d_connection d) of
        None \<Rightarrow> s
      | Some p \<Rightarrow>
          (let s1 = pending_remove (d_connection d) s
           in if \<not> d_accept d
              then reset_status (send_to (p_reply p) (SessionReject Denied) s1)
              else
                let s2 = send_to (p_reply p) (accept_message (config s1) (p_framerate p)) s1;
                    s3 = set_status (Negotiating (p_display_name p)) s2;
                    s4 = stop_media (case active_session s3 of None \<Rightarrow> None | Some a \<Rightarrow> a_media a) s3
                in s4\<lparr> active_session := Some \<lparr> a_connection = d_connection d, a_reply = p_reply p,
                      a_display_name = p_display_name p, a_media = None \<rparr> \<rparr>))"

definition handle_offer :: "connection_id \<Rightarrow> offer_env \<Rightarrow> session_loop \<Rightarrow> session_loop" where
  "handle_offer c env s =
     (case active_session s of
        None \<Rightarrow> s
      | Some a \<Rightarrow>
          if a_connection a \<noteq> c then s
          else if a_media a \<noteq> None then s
          else case build_result env of
            Inl e \<Rightarrow> fail_session (lit ''Could not start video: '' @ e) s
          | Inr _ \<Rightarrow>
              (let pid = next_pipeline s; s1 = s\<lparr> next_pipeline := pid + 1 \<rparr>
               in case start_result env of
                    Inl e \<Rightarrow> fail_session (lit ''Could not start video: '' @ e) s1
                  | Inr _ \<Rightarrow>
                      case remote_result env of
                        Inl e \<Rightarrow> fail_session (lit ''Could not accept the video offer: '' @ e) s1
                      | Inr _ \<Rightarrow> s1\<lparr> playing := pid # playing s1,
                                     active_session := Some (a\<lparr> a_media := Some pid \<rparr>) \<rparr>))"

definition handle_message ::
  "incoming_message \<Rightarrow> offer_env \<Rightarrow> u64 \<Rightarrow> session_loop \<Rightarrow> session_loop" where
  "handle_message i env now s =
     (let c = im_connection i
      in case im_message i of
        SessionRequest _ name ver caps \<Rightarrow> handle_session_request c name ver caps s
      | SdpOffer _ \<Rightarrow> handle_offer c env s
      | IceCandidate cand _ idx \<Rightarrow>
          (case media_for c s of
             None \<Rightarrow> s
           | Some p \<Rightarrow> s\<lparr> remote_ice := remote_ice s @
               [(p, case idx of None \<Rightarrow> 0 | Some n \<Rightarrow> n, cand)] \<rparr>)
      | IceComplete \<Rightarrow> s
      | Ping t \<Rightarrow> send_to c (Pong t now) s
      | SessionEnd _ \<Rightarrow>
          pending_remove c (if owns_session c s then tear_down s else s)
      | _ \<Rightarrow> s)"

definition handle_webrtc_event :: "webrtc_event \<Rightarrow> session_loop \<Rightarrow> session_loop" where
  "handle_webrtc_event ev s =
     (case active_session s of
        None \<Rightarrow> s
      | Some a \<Rightarrow>
          (case ev of
             LocalDescription k sdp \<Rightarrow>
               if k \<noteq> Answer then s else send_to (a_reply a) (SdpAnswer sdp) s
           | LocalCandidate idx cand \<Rightarrow> send_to (a_reply a) (IceCandidate cand None (Some idx)) s
           | IceGatheringComplete \<Rightarrow> send_to (a_reply a) IceComplete s
           | PeerConnected \<Rightarrow> set_status (Streaming (a_display_name a)) s
           | PeerDisconnected \<Rightarrow> tear_down s
           | PeerFailed r \<Rightarrow> fail_session r s))"

definition drop_dead_connections :: "session_loop \<Rightarrow> session_loop" where
  "drop_dead_connections s =
     (let s1 = s\<lparr> pending_map :=
                 filter (\<lambda>e. is_connected (chans s (p_reply (snd e)))) (pending_map s) \<rparr>
      in if (case active_session s1 of None \<Rightarrow> False
             | Some a \<Rightarrow> \<not> is_connected (chans s1 (a_reply a)))
         then tear_down s1
         else if (case status s1 of PendingConsent _ c \<Rightarrow> map_of (pending_map s1) c = None
                  | _ \<Rightarrow> False)
         then reset_status s1
         else s1)"


section \<open>The loop\<close>

text \<open>One turn of \<open>tokio::select!\<close>, and what the rest of the process does to the shared
  objects between turns: a peer's send task drains or closes its channel, a playing pipeline
  delivers a frame, the signaling server stops.\<close>

datatype loop_event =
    Incoming incoming_message offer_env u64
  | Decide decision
  | WebRtc webrtc_event
  | Tick
  | PeerReads connection_id
  | PeerGone connection_id
  | FrameDecoded pipeline_id video_frame
  | ServerStopped ustr

definition loop_step :: "session_loop \<Rightarrow> loop_event \<Rightarrow> session_loop" where
  "loop_step s ev =
     (case ev of
        Incoming i env now \<Rightarrow> handle_message i env now s
      | Decide d \<Rightarrow> handle_decision d s
      | WebRtc e \<Rightarrow> handle_webrtc_event e s
      | Tick \<Rightarrow> drop_dead_connections s
      | PeerReads c \<Rightarrow> s\<lparr> chans := (chans s)(c := fst (channel_recv (chans s c))) \<rparr>
      | PeerGone c \<Rightarrow> s\<lparr> chans := (chans s)(c := channel_close (chans s c)) \<rparr>
      | FrameDecoded p f \<Rightarrow>
          if p \<in> set (playing s) then s\<lparr> frame := store_frame f (frame s) \<rparr> else s
      | ServerStopped r \<Rightarrow> set_status (Failed (lit ''Signaling server stopped: '' @ r)) s)"

definition loop_run :: "app_config \<Rightarrow> bool \<Rightarrow> loop_event list \<Rightarrow> session_loop" where
  "loop_run cfg advertised es = foldl loop_step (session_loop_new cfg advertised) es"

lemma loop_run_snoc: "loop_run cfg adv (es @ [ev]) = loop_step (loop_run cfg adv es) ev"
  by (simp add: loop_run_def)


section \<open>Invariant\<close>

definition media_playing :: "active option \<Rightarrow> pipeline_id list" where
  "media_playing act =
     (case act of None \<Rightarrow> [] | Some a \<Rightarrow> (case a_media a of None \<Rightarrow> [] | Some p \<Rightarrow> [p]))"

definition consent_inv :: "session_loop \<Rightarrow> bool" where
  "consent_inv s \<longleftrightarrow>
     length (pending_map s) \<le> 1 \<and>
     (\<forall>(c, p) \<in> set (pending_map s). p_reply p = c \<and> p_framerate p \<le> cfg_framerate (config s)) \<and>
     (\<forall>n c p. status s = PendingConsent n c \<longrightarrow> (c, p) \<in> set (pending_map s) \<longrightarrow>
        p_display_name p = n) \<and>
     (\<forall>a. active_session s = Some a \<longrightarrow> (\<forall>e \<in> set (pending_map s). fst e = a_connection a))"

definition media_inv :: "session_loop \<Rightarrow> bool" where
  "media_inv s \<longleftrightarrow>
     playing s = media_playing (active_session s) \<and>
     (\<forall>a. active_session s = Some a \<longrightarrow> a_reply a = a_connection a) \<and>
     (fs_frame (frame s) \<noteq> None \<longrightarrow> active_session s \<noteq> None)"

definition shared_inv :: "session_loop \<Rightarrow> bool" where
  "shared_inv s \<longleftrightarrow>
     (undiscoverable s \<noteq> None \<longrightarrow> status s \<noteq> Waiting) \<and>
     (\<forall>c. length (queue (chans s c)) \<le> REPLY_CAPACITY)"

definition loop_inv :: "session_loop \<Rightarrow> bool" where
  "loop_inv s \<longleftrightarrow> consent_inv s \<and> media_inv s \<and> shared_inv s"

lemmas net_defs = set_status_def send_to_def reset_status_def pending_remove_def
  pending_insert_def stop_media_def end_active_def tear_down_def fail_session_def
  owns_session_def media_for_def Let_def

lemmas handler_defs = handle_session_request_def handle_decision_def handle_offer_def
  handle_message_def handle_webrtc_event_def drop_dead_connections_def

lemma handle_send_bounded:
  "length (queue c) \<le> REPLY_CAPACITY \<Longrightarrow> length (queue (fst (handle_send c m))) \<le> REPLY_CAPACITY"
  by (auto simp: handle_simps)

lemma pending_filter_inv:
  "loop_inv s \<Longrightarrow> loop_inv (s\<lparr> pending_map := filter P (pending_map s) \<rparr>)"
  by (auto simp: loop_inv_def consent_inv_def media_inv_def shared_inv_def
      intro: order_trans [OF length_filter_le])

text \<open>What ending a session does to each field.\<close>

lemma end_active_simps [simp]:
  "config (end_active r s) = config s" "status (end_active r s) = status s"
  "frame (end_active r s) = frame s" "pending_map (end_active r s) = pending_map s"
  "active_session (end_active r s) = None" "undiscoverable (end_active r s) = undiscoverable s"
  "next_pipeline (end_active r s) = next_pipeline s"
  by (auto simp: end_active_def send_to_def stop_media_def split: option.splits)

lemma end_active_playing: "media_inv s \<Longrightarrow> playing (end_active r s) = []"
  by (auto simp: end_active_def send_to_def stop_media_def media_inv_def media_playing_def
      split: option.splits)

lemma end_active_chans:
  "shared_inv s \<Longrightarrow> length (queue (chans (end_active r s) c)) \<le> REPLY_CAPACITY"
  by (auto simp: end_active_def send_to_def stop_media_def shared_inv_def
      intro: handle_send_bounded split: option.splits)

lemma reset_status_simps [simp]:
  "config (reset_status s) = config s" "frame (reset_status s) = frame s"
  "pending_map (reset_status s) = pending_map s"
  "active_session (reset_status s) = active_session s"
  "undiscoverable (reset_status s) = undiscoverable s" "chans (reset_status s) = chans s"
  "playing (reset_status s) = playing s" "next_pipeline (reset_status s) = next_pipeline s"
  by (auto simp: reset_status_def set_status_def)

lemma reset_status_status [simp]:
  "status (reset_status s) = (case undiscoverable s of Some r \<Rightarrow> Failed r | None \<Rightarrow> Waiting)"
  by (simp add: reset_status_def set_status_def)

lemma send_to_simps [simp]:
  "config (send_to c m s) = config s" "frame (send_to c m s) = frame s"
  "status (send_to c m s) = status s" "pending_map (send_to c m s) = pending_map s"
  "active_session (send_to c m s) = active_session s"
  "undiscoverable (send_to c m s) = undiscoverable s"
  "playing (send_to c m s) = playing s" "next_pipeline (send_to c m s) = next_pipeline s"
  by (auto simp: send_to_def)

lemma send_to_inv: "loop_inv s \<Longrightarrow> loop_inv (send_to c m s)"
  by (auto simp: loop_inv_def consent_inv_def media_inv_def shared_inv_def)
    (auto simp: send_to_def intro: handle_send_bounded)

lemma reset_status_inv: "loop_inv s \<Longrightarrow> loop_inv (reset_status s)"
  by (auto simp: loop_inv_def consent_inv_def media_inv_def shared_inv_def split: option.splits)

lemma pending_remove_inv: "loop_inv s \<Longrightarrow> loop_inv (pending_remove c s)"
  by (simp add: pending_remove_def pending_filter_inv)

lemma end_active_inv:
  assumes "loop_inv s"
  shows "loop_inv ((end_active r s)\<lparr> frame := clear_frame f \<rparr>)"
  using assms
  by (auto simp: loop_inv_def consent_inv_def media_inv_def shared_inv_def clear_frame_def
      end_active_chans [unfolded shared_inv_def] media_playing_def
      end_active_playing [unfolded media_inv_def media_playing_def])

lemma tear_down_inv: "loop_inv s \<Longrightarrow> loop_inv (tear_down s)"
  by (simp add: tear_down_def Let_def reset_status_inv end_active_inv)

lemma set_failed_inv: "loop_inv s \<Longrightarrow> loop_inv (set_status (Failed r) s)"
  by (auto simp: loop_inv_def consent_inv_def media_inv_def shared_inv_def set_status_def)

lemma fail_session_inv: "loop_inv s \<Longrightarrow> loop_inv (fail_session r s)"
  by (simp add: fail_session_def Let_def set_failed_inv end_active_inv)


lemma handle_session_request_inv:
  assumes "loop_inv s" shows "loop_inv (handle_session_request c name ver caps s)"
proof -
  have "length (pending_map s) \<le> 1" using assms by (simp add: loop_inv_def consent_inv_def)
  then consider "pending_map s = []" | d p where "pending_map s = [(d, p)]"
    by (cases "pending_map s") auto
  then show ?thesis
    using assms send_to_inv [OF assms]
    by cases (auto simp: handle_session_request_def pending_insert_def set_status_def
        negotiated_framerate_def loop_inv_def consent_inv_def media_inv_def shared_inv_def)
qed

lemma handle_decision_inv:
  assumes "loop_inv s" shows "loop_inv (handle_decision d s)"
proof (cases "map_of (pending_map s) (d_connection d)")
  case (Some p)
  let ?s1 = "pending_remove (d_connection d) s"
  let ?s2 = "send_to (p_reply p) (accept_message (config ?s1) (p_framerate p)) ?s1"
  have inv: "loop_inv ?s1" "loop_inv ?s2"
    using assms by (simp_all add: pending_remove_inv send_to_inv)
  have reply: "p_reply p = d_connection d"
    using assms map_of_SomeD [OF Some] by (auto simp: loop_inv_def consent_inv_def)
  have none_left: "pending_map ?s1 = []"
    using assms map_of_SomeD [OF Some]
    by (cases "pending_map s") (auto simp: loop_inv_def consent_inv_def pending_remove_def)
  show ?thesis
  proof (cases "d_accept d")
    case True
    have "playing ?s2 = media_playing (active_session ?s2)"
      using inv(2) by (simp add: loop_inv_def media_inv_def)
    with True Some inv(2) reply none_left show ?thesis
      by (auto simp: handle_decision_def Let_def set_status_def stop_media_def loop_inv_def
          consent_inv_def media_inv_def shared_inv_def media_playing_def split: option.splits)
  next
    case False
    with Some inv show ?thesis
      by (simp add: handle_decision_def Let_def reset_status_inv send_to_inv)
  qed
qed (use assms in \<open>simp add: handle_decision_def\<close>)

lemma next_pipeline_inv: "loop_inv s \<Longrightarrow> loop_inv (s\<lparr> next_pipeline := n \<rparr>)"
  by (auto simp: loop_inv_def consent_inv_def media_inv_def shared_inv_def)

lemma handle_offer_inv:
  assumes "loop_inv s" shows "loop_inv (handle_offer c env s)"
proof (cases "active_session s")
  case (Some a)
  let ?s1 = "s\<lparr> next_pipeline := next_pipeline s + 1 \<rparr>"
  have fails: "\<And>r. loop_inv (fail_session r s)" "\<And>r. loop_inv (fail_session r ?s1)"
    using assms by (simp_all add: fail_session_inv next_pipeline_inv)
  have "a_media a = None \<Longrightarrow> playing s = []"
    using assms Some by (simp add: loop_inv_def media_inv_def media_playing_def)
  then have "a_media a = None \<Longrightarrow> loop_inv (?s1\<lparr> playing := next_pipeline s # playing s,
      active_session := Some (a\<lparr> a_media := Some (next_pipeline s) \<rparr>) \<rparr>)"
    using assms Some by (auto simp: loop_inv_def consent_inv_def media_inv_def shared_inv_def
      media_playing_def)
  with Some assms fails show ?thesis
    by (auto simp: handle_offer_def Let_def split: sum.splits)
qed (use assms in \<open>simp add: handle_offer_def\<close>)

lemma handle_message_inv:
  assumes "loop_inv s" shows "loop_inv (handle_message i env now s)"
proof -
  have "\<And>f. loop_inv (s\<lparr> remote_ice := f \<rparr>)"
    using assms by (auto simp: loop_inv_def consent_inv_def media_inv_def shared_inv_def)
  with assms show ?thesis
    by (auto simp: handle_message_def Let_def handle_session_request_inv handle_offer_inv send_to_inv
        pending_remove_inv tear_down_inv split: signaling_message.splits option.splits)
qed

lemma handle_webrtc_event_inv:
  assumes "loop_inv s" shows "loop_inv (handle_webrtc_event ev s)"
proof -
  have "\<And>n. loop_inv (set_status (Streaming n) s)"
    using assms by (auto simp: loop_inv_def consent_inv_def media_inv_def shared_inv_def set_status_def)
  with assms show ?thesis
    by (auto simp: handle_webrtc_event_def send_to_inv tear_down_inv fail_session_inv
        split: option.splits webrtc_event.splits)
qed

lemma drop_dead_connections_inv: "loop_inv s \<Longrightarrow> loop_inv (drop_dead_connections s)"
  by (simp add: drop_dead_connections_def Let_def pending_filter_inv tear_down_inv reset_status_inv)

lemma channel_inv:
  assumes "loop_inv s" and "length (queue q) \<le> REPLY_CAPACITY"
  shows "loop_inv (s\<lparr> chans := (chans s)(c := q) \<rparr>)"
  using assms by (auto simp: loop_inv_def consent_inv_def media_inv_def shared_inv_def)

lemma loop_step_inv:
  assumes "loop_inv s" shows "loop_inv (loop_step s ev)"
proof (cases ev)
  case (PeerReads c)
  have "length (queue (chans s c)) \<le> REPLY_CAPACITY"
    using assms by (simp add: loop_inv_def shared_inv_def)
  then have "length (queue (fst (channel_recv (chans s c)))) \<le> REPLY_CAPACITY"
    by (cases "queue (chans s c)") (auto simp: channel_recv_def)
  with assms PeerReads show ?thesis by (simp add: loop_step_def channel_inv)
next
  case (PeerGone c)
  with assms show ?thesis by (simp add: loop_step_def channel_inv channel_close_def)
next
  case (FrameDecoded p f)
  with assms show ?thesis
    by (auto simp: loop_step_def loop_inv_def consent_inv_def media_inv_def shared_inv_def
        store_frame_def media_playing_def)
qed (use assms in \<open>simp_all add: loop_step_def handle_message_inv handle_decision_inv
  handle_webrtc_event_inv drop_dead_connections_inv set_failed_inv\<close>)

lemma session_loop_new_inv: "loop_inv (session_loop_new cfg advertised)"
  by (auto simp: session_loop_new_def loop_inv_def consent_inv_def media_inv_def shared_inv_def
      media_playing_def new_channel_def Let_def)

interpretation session: machine
  "\<lambda>s. \<exists>cfg adv. s = session_loop_new cfg adv" loop_step "\<lambda>_. True" loop_inv
  by unfold_locales (auto simp: session_loop_new_inv loop_step_inv)

lemma loop_run_inv: "loop_inv (loop_run cfg adv es)"
  unfolding loop_run_def by (rule session.run_inv) (auto simp: list_all_iff)


section \<open>Consent along a run\<close>

text \<open>A connection has asked under a name if an acceptable request of it has been handled, and
  is approved if the user's later answer for that connection was to accept.\<close>

definition asked :: "loop_event list \<Rightarrow> connection_id \<Rightarrow> ustr \<Rightarrow> bool" where
  "asked h c n \<longleftrightarrow> (\<exists>i env now sid caps. Incoming i env now \<in> set h \<and> im_connection i = c \<and>
     im_message i = SessionRequest sid n PROTOCOL_VERSION caps \<and> lit ''h264'' \<in> set (video_codecs caps))"

definition approved :: "loop_event list \<Rightarrow> connection_id \<Rightarrow> ustr \<Rightarrow> bool" where
  "approved h c n \<longleftrightarrow> (\<exists>h1 d h2. h = h1 @ Decide d # h2 \<and> d_connection d = c \<and> d_accept d \<and>
     asked h1 c n)"

definition traced_step ::
  "session_loop \<times> loop_event list \<Rightarrow> loop_event \<Rightarrow> session_loop \<times> loop_event list" where
  "traced_step sh ev = (loop_step (fst sh) ev, snd sh @ [ev])"

definition traced_inv :: "session_loop \<times> loop_event list \<Rightarrow> bool" where
  "traced_inv sh \<longleftrightarrow>
     (\<forall>(c, p) \<in> set (pending_map (fst sh)). asked (snd sh) c (p_display_name p)) \<and>
     (\<forall>a. active_session (fst sh) = Some a \<longrightarrow> approved (snd sh) (a_connection a) (a_display_name a))"

lemma asked_mono: "asked h c n \<Longrightarrow> asked (h @ [ev]) c n"
  by (auto simp: asked_def)

lemma approved_mono: "approved h c n \<Longrightarrow> approved (h @ [ev]) c n"
  by (auto simp: approved_def) blast

lemma tear_down_simps [simp]:
  "pending_map (tear_down s) = pending_map s" "active_session (tear_down s) = None"
  by (simp_all add: tear_down_def Let_def)

lemma fail_session_simps [simp]:
  "pending_map (fail_session r s) = pending_map s" "active_session (fail_session r s) = None"
  by (simp_all add: fail_session_def Let_def set_status_def)

lemma handle_offer_pending [simp]: "pending_map (handle_offer c env s) = pending_map s"
  by (simp add: handle_offer_def Let_def split: option.splits sum.splits)

lemma handle_webrtc_event_pending [simp]: "pending_map (handle_webrtc_event ev s) = pending_map s"
  by (simp add: handle_webrtc_event_def set_status_def split: option.splits webrtc_event.splits)

lemma handle_decision_pending:
  "set (pending_map (handle_decision d s)) \<subseteq> set (pending_map s)"
  by (auto simp: handle_decision_def Let_def pending_remove_def set_status_def stop_media_def
      split: option.splits if_splits)

lemma drop_dead_connections_pending [simp]:
  "pending_map (drop_dead_connections s) =
   filter (\<lambda>e. is_connected (chans s (p_reply (snd e)))) (pending_map s)"
  by (simp add: drop_dead_connections_def Let_def)

lemma handle_session_request_pending:
  "(c', p) \<in> set (pending_map (handle_session_request c n ver caps s)) \<Longrightarrow>
   (c', p) \<in> set (pending_map s) \<or>
   (c' = c \<and> p_display_name p = n \<and> ver = PROTOCOL_VERSION \<and> lit ''h264'' \<in> set (video_codecs caps))"
  by (auto simp: handle_session_request_def pending_insert_def set_status_def list_ex_iff
      split: if_splits)

lemma handle_session_request_active [simp]:
  "active_session (handle_session_request c n ver caps s) = active_session s"
  by (simp add: handle_session_request_def pending_insert_def set_status_def)

lemma handle_message_pending:
  assumes "(c, p) \<in> set (pending_map (handle_message i env now s))"
  shows "(c, p) \<in> set (pending_map s) \<or> asked [Incoming i env now] c (p_display_name p)"
proof (cases "im_message i")
  case (SessionRequest sid n ver caps)
  with assms handle_session_request_pending [of c p "im_connection i" n ver caps s]
  show ?thesis by (auto simp: handle_message_def Let_def asked_def)
qed (use assms in \<open>auto simp: handle_message_def Let_def pending_remove_def
  split: option.splits if_splits\<close>)

lemma handle_offer_active:
  "active_session (handle_offer c env s) = Some a \<Longrightarrow>
   \<exists>a0. active_session s = Some a0 \<and> a_connection a0 = a_connection a \<and>
     a_display_name a0 = a_display_name a"
  by (auto simp: handle_offer_def Let_def split: option.splits sum.splits if_splits)

lemma handle_message_active:
  "active_session (handle_message i env now s) = Some a \<Longrightarrow>
   \<exists>a0. active_session s = Some a0 \<and> a_connection a0 = a_connection a \<and>
     a_display_name a0 = a_display_name a"
  by (cases "im_message i")
    (auto simp: handle_message_def Let_def pending_remove_def dest: handle_offer_active
      split: option.splits if_splits)

lemma handle_decision_active:
  "active_session (handle_decision d s) = Some a \<Longrightarrow>
   active_session s = Some a \<or>
   (d_accept d \<and> a_connection a = d_connection d \<and>
    (\<exists>p. (d_connection d, p) \<in> set (pending_map s) \<and> a_display_name a = p_display_name p))"
  by (auto simp: handle_decision_def Let_def pending_remove_def set_status_def stop_media_def
      split: option.splits if_splits dest!: map_of_SomeD)

lemma other_active:
  "active_session (handle_webrtc_event ev s) = Some a \<Longrightarrow> active_session s = Some a"
  "active_session (drop_dead_connections s) = Some a \<Longrightarrow> active_session s = Some a"
  by (auto simp: handle_webrtc_event_def drop_dead_connections_def Let_def set_status_def
      split: option.splits webrtc_event.splits if_splits)

lemma loop_step_pending:
  assumes "(c, p) \<in> set (pending_map (loop_step s ev))"
  shows "(c, p) \<in> set (pending_map s) \<or> asked [ev] c (p_display_name p)"
  using assms
  by (cases ev) (auto simp: loop_step_def set_status_def split: if_splits
      dest: handle_message_pending handle_decision_pending [THEN subsetD])

lemma loop_step_active:
  assumes "active_session (loop_step s ev) = Some a"
  shows "(\<exists>a0. active_session s = Some a0 \<and> a_connection a0 = a_connection a \<and>
       a_display_name a0 = a_display_name a) \<or>
     (\<exists>d p. ev = Decide d \<and> d_accept d \<and> a_connection a = d_connection d \<and>
       (d_connection d, p) \<in> set (pending_map s) \<and> a_display_name a = p_display_name p)"
  using assms
  by (cases ev) (auto simp: loop_step_def set_status_def split: if_splits
      dest: handle_message_active handle_decision_active other_active)

lemma asked_last: "asked [ev] c n \<Longrightarrow> asked (h @ [ev]) c n"
  by (auto simp: asked_def)

lemma traced_step_inv:
  assumes "traced_inv sh" shows "traced_inv (traced_step sh ev)"
proof -
  obtain s h where sh: "sh = (s, h)" by (cases sh)
  have "\<forall>(c, p) \<in> set (pending_map (loop_step s ev)). asked (h @ [ev]) c (p_display_name p)"
    using assms sh loop_step_pending [of _ _ s ev]
    by (fastforce simp: traced_inv_def intro: asked_mono asked_last)
  moreover have "approved (h @ [ev]) (a_connection a) (a_display_name a)"
    if "active_session (loop_step s ev) = Some a" for a
    using loop_step_active [OF that]
  proof (elim disjE exE conjE)
    fix a0 assume "active_session s = Some a0" "a_connection a0 = a_connection a"
      "a_display_name a0 = a_display_name a"
    then show ?thesis using assms sh by (force simp: traced_inv_def intro: approved_mono)
  next
    fix d p assume *: "ev = Decide d" "d_accept d" "a_connection a = d_connection d"
      "(d_connection d, p) \<in> set (pending_map s)" "a_display_name a = p_display_name p"
    then have "asked h (d_connection d) (p_display_name p)"
      using assms sh by (auto simp: traced_inv_def)
    with *(2) have "\<exists>h1 d' h2. h @ [Decide d] = h1 @ Decide d' # h2 \<and> d_connection d' = d_connection d \<and>
        d_accept d' \<and> asked h1 (d_connection d) (p_display_name p)"
      by (intro exI [of _ h] exI [of _ d] exI [of _ "[]"]) simp
    then show ?thesis by (simp add: approved_def *(1,3,5))
  qed
  ultimately show ?thesis by (simp add: sh traced_inv_def traced_step_def)
qed

interpretation consent: machine
  "\<lambda>sh. \<exists>cfg adv. sh = (session_loop_new cfg adv, [])" traced_step "\<lambda>_. True" traced_inv
proof
  show "\<And>sh. \<exists>cfg adv. sh = (session_loop_new cfg adv, []) \<Longrightarrow> traced_inv sh"
    by (auto simp: traced_inv_def session_loop_new_def Let_def)
qed (rule traced_step_inv)

lemma traced_run: "foldl traced_step (s, h) es = (foldl loop_step s es, h @ es)"
  by (induction es arbitrary: s h) (auto simp: traced_step_def)

lemma loop_run_traced: "traced_inv (loop_run cfg adv es, es)"
  using consent.run_inv [of "(session_loop_new cfg adv, [])" es]
  by (auto simp: traced_run loop_run_def list_all_iff)


section \<open>Exclusive use of the screen\<close>

text \<open>The connection that holds the screen: the owner of the session, or else the sender whose
  prompt is waiting for an answer.\<close>

definition holder :: "session_loop \<Rightarrow> connection_id option" where
  "holder s =
     (case active_session s of
        Some a \<Rightarrow> Some (a_connection a)
      | None \<Rightarrow> (case pending_map s of [] \<Rightarrow> None | (c, _) # _ \<Rightarrow> Some c))"

lemma holder_pending:
  assumes "loop_inv s" and "holder s = Some x" and "c \<noteq> x"
  shows "filter (\<lambda>e. fst e \<noteq> c) (pending_map s) = pending_map s"
proof -
  have "length (pending_map s) \<le> 1" using assms(1) by (simp add: loop_inv_def consent_inv_def)
  then consider "pending_map s = []" | d p where "pending_map s = [(d, p)]"
    by (cases "pending_map s") auto
  then show ?thesis
    using assms by cases (auto simp: holder_def loop_inv_def consent_inv_def split: option.splits)
qed

lemma send_to_only: "\<exists>q. send_to c m s = s\<lparr> chans := (chans s)(c := q) \<rparr>"
  unfolding send_to_def by blast

lemma chans_same: "\<exists>q. s = s\<lparr> chans := (chans s)(c := q) \<rparr>"
  by (rule exI [of _ "chans s c"]) simp

lemma request_from_other:
  assumes "holder s = Some x" and "c \<noteq> x"
  shows "\<exists>r. handle_session_request c n ver caps s = send_to c (SessionReject r) s"
  using assms
  by (auto simp: handle_session_request_def holder_def split: option.splits list.splits)

lemma message_from_other:
  assumes "loop_inv s" and "holder s = Some x" and "im_connection i \<noteq> x"
  shows "\<exists>q. handle_message i env now s = s\<lparr> chans := (chans s)(im_connection i := q) \<rparr>"
proof (cases "im_message i")
  case (SessionRequest sid n ver caps)
  obtain r where "handle_session_request (im_connection i) n ver caps s =
      send_to (im_connection i) (SessionReject r) s"
    using request_from_other [OF assms(2,3), of n ver caps] by blast
  with SessionRequest send_to_only show ?thesis by (simp add: handle_message_def)
next
  case (SessionEnd r)
  have "\<not> owns_session (im_connection i) s"
    using assms(2,3) by (auto simp: owns_session_def holder_def split: option.splits)
  then have "handle_message i env now s = s"
    using SessionEnd holder_pending [OF assms]
    by (simp add: handle_message_def pending_remove_def)
  with chans_same show ?thesis by metis
next
  case (SdpOffer sdp)
  then have "handle_message i env now s = s"
    using assms(2,3) by (auto simp: handle_message_def handle_offer_def holder_def split: option.splits)
  with chans_same show ?thesis by metis
next
  case (IceCandidate cand mid idx)
  then have "handle_message i env now s = s"
    using assms(2,3) by (auto simp: handle_message_def media_for_def holder_def split: option.splits)
  with chans_same show ?thesis by metis
next
  case (Ping t)
  with send_to_only show ?thesis by (simp add: handle_message_def)
qed (use chans_same in \<open>simp_all add: handle_message_def\<close>)


lemma run_media: "playing (loop_run cfg adv es) = media_playing (active_session (loop_run cfg adv es))"
  and run_frame: "fs_frame (frame (loop_run cfg adv es)) \<noteq> None \<Longrightarrow>
    active_session (loop_run cfg adv es) \<noteq> None"
  using loop_run_inv [of cfg adv es] by (auto simp: loop_inv_def media_inv_def)

lemma pending_unique:
  assumes "loop_inv s" and "(c, p) \<in> set (pending_map s)"
  shows "pending_map s = [(c, p)]"
  using assms by (cases "pending_map s") (auto simp: loop_inv_def consent_inv_def)

lemma handle_send_connected [simp]: "is_connected (fst (handle_send c m)) = is_connected c"
  by (auto simp: handle_simps)

lemma tear_down_connected [simp]: "is_connected (chans (tear_down s) c) = is_connected (chans s c)"
  by (simp add: tear_down_def end_active_def send_to_def stop_media_def Let_def split: option.splits)

lemma drop_dead_connected [simp]:
  "is_connected (chans (drop_dead_connections s) c) = is_connected (chans s c)"
  by (simp add: drop_dead_connections_def Let_def)

lemma tear_down_no_prompt: "status (tear_down s) \<noteq> PendingConsent n c"
  by (simp add: tear_down_def Let_def split: option.splits)

lemma drop_dead_prompt:
  "status (drop_dead_connections s) = PendingConsent n c \<Longrightarrow>
   c \<in> fst ` set (pending_map (drop_dead_connections s))"
  by (auto simp: drop_dead_connections_def Let_def tear_down_no_prompt map_of_eq_None_iff
      split: if_splits option.splits)

lemma drop_dead_cleans:
  assumes "loop_inv s"
  shows "(\<forall>(c, p) \<in> set (pending_map (drop_dead_connections s)).
      is_connected (chans (drop_dead_connections s) c)) \<and>
    (\<forall>a. active_session (drop_dead_connections s) = Some a \<longrightarrow>
      is_connected (chans (drop_dead_connections s) (a_connection a))) \<and>
    (\<forall>n c. status (drop_dead_connections s) = PendingConsent n c \<longrightarrow>
      c \<in> fst ` set (pending_map (drop_dead_connections s)))"
proof (intro conjI allI impI)
  show "\<forall>(c, p) \<in> set (pending_map (drop_dead_connections s)).
      is_connected (chans (drop_dead_connections s) c)"
    using assms by (auto simp: loop_inv_def consent_inv_def)
next
  fix a assume *: "active_session (drop_dead_connections s) = Some a"
  then have "active_session s = Some a" by (rule other_active)
  then have "a_reply a = a_connection a" using assms by (simp add: loop_inv_def media_inv_def)
  with * \<open>active_session s = Some a\<close>
  show "is_connected (chans (drop_dead_connections s) (a_connection a))"
    by (auto simp: drop_dead_connections_def Let_def split: if_splits)
qed (rule drop_dead_prompt)

lemma loop_step_undiscoverable: "undiscoverable (loop_step s ev) = undiscoverable s"
  by (cases ev) (auto simp: loop_step_def handler_defs set_status_def pending_insert_def
      pending_remove_def stop_media_def tear_down_def fail_session_def Let_def
      split: signaling_message.splits option.splits webrtc_event.splits sum.splits status.splits)

text \<open>Events of a small scenario, used to exhibit runs.\<close>

definition all_good :: offer_env where
  "all_good = \<lparr> build_result = Inr (), start_result = Inr (), remote_result = Inr () \<rparr>"

definition from_conn :: "connection_id \<Rightarrow> signaling_message \<Rightarrow> loop_event" where
  "from_conn c m = Incoming \<lparr> im_message = m, im_connection = c, im_peer = (V4 0, 1) \<rparr> all_good 0"

definition request_event :: "connection_id \<Rightarrow> ustr \<Rightarrow> loop_event" where
  "request_event c n = from_conn c (SessionRequest [97] n PROTOCOL_VERSION default_capabilities)"

definition answer_event :: "connection_id \<Rightarrow> bool \<Rightarrow> loop_event" where
  "answer_event c b = Decide \<lparr> d_connection = c, d_accept = b \<rparr>"

lemmas scenario_defs = all_good_def from_conn_def request_event_def answer_event_def
  default_capabilities_def loop_run_def session_loop_new_def loop_step_def handler_defs net_defs
  handle_simps new_channel_def REPLY_CAPACITY_def clear_frame_def negotiated_framerate_def

lemma tick_idle:
  assumes "pending_map s = [(x, p)]" and "is_connected (chans s (p_reply p))"
    and "active_session s = None" and "status s = Waiting"
  shows "loop_step s Tick = s"
  using assms by (cases s) (simp add: loop_step_def drop_dead_connections_def)

lemma ticks_idle:
  assumes "pending_map s = [(x, p)]" and "is_connected (chans s (p_reply p))"
    and "active_session s = None" and "status s = Waiting"
  shows "foldl loop_step s (replicate k Tick) = s"
  by (induction k) (simp_all add: tick_idle [OF assms])

section \<open>Properties\<close>

text \<open>C1. Nothing reaches the screen without consent. Along every run of the receiver, whatever
  peers send and in whatever order events interleave: if a media pipeline is playing, or a
  decoded frame is in the slot the window paints from, then there is a session whose sender
  asked for it under the session's display name, with protocol version 1 and H.264, and the
  user afterwards accepted that very connection.\<close>

theorem pixels_need_consent:
  assumes "playing (loop_run cfg adv es) \<noteq> [] \<or> fs_frame (frame (loop_run cfg adv es)) \<noteq> None"
  shows "\<exists>a. active_session (loop_run cfg adv es) = Some a \<and>
    approved es (a_connection a) (a_display_name a)"
proof -
  from assms run_media [of cfg adv es] run_frame [of cfg adv es]
  obtain a where "active_session (loop_run cfg adv es) = Some a"
    by (auto simp: media_playing_def split: option.splits)
  with loop_run_traced [of cfg adv es] show ?thesis by (auto simp: traced_inv_def)
qed

theorem pixels_need_consent_witness:
  "\<exists>a. active_session (loop_run (default_config None) True
        [request_event 1 [98], answer_event 1 True, from_conn 1 (SdpOffer [])]) = Some a \<and>
    approved [request_event 1 [98], answer_event 1 True, from_conn 1 (SdpOffer [])]
      (a_connection a) (a_display_name a)"
  by (rule pixels_need_consent) (simp add: scenario_defs)

text \<open>C8. The approval goes to the sender the prompt names: in every reachable state that shows
  a consent prompt for a connection, accepting it either does nothing (the request is gone)
  or makes exactly that connection the owner, under exactly the name that was on the screen.\<close>

theorem approval_matches_prompt:
  assumes "status (loop_run cfg adv es) = PendingConsent n c"
    and "s' = handle_decision \<lparr> d_connection = c, d_accept = True \<rparr> (loop_run cfg adv es)"
  shows "s' = loop_run cfg adv es \<or>
    (active_session s' = Some \<lparr> a_connection = c, a_reply = c, a_display_name = n, a_media = None \<rparr> \<and>
     status s' = Negotiating n \<and> pending_map s' = [])"
proof (cases "map_of (pending_map (loop_run cfg adv es)) c")
  case (Some p)
  note inv = loop_run_inv [of cfg adv es]
  from Some have mem: "(c, p) \<in> set (pending_map (loop_run cfg adv es))" by (rule map_of_SomeD)
  with inv assms(1) have "p_display_name p = n" "p_reply p = c"
    by (auto simp: loop_inv_def consent_inv_def)
  with Some assms(2) pending_unique [OF inv mem] show ?thesis
    by (simp add: handle_decision_def Let_def pending_remove_def set_status_def stop_media_def
        split: option.splits)
qed (use assms in \<open>simp add: handle_decision_def\<close>)

theorem approval_matches_prompt_witness:
  "status (handle_decision \<lparr> d_connection = 1, d_accept = True \<rparr>
     (loop_run (default_config None) True [request_event 1 [98], request_event 2 [99]])) =
   Negotiating [98]"
  using approval_matches_prompt [of "default_config None" True
      "[request_event 1 [98], request_event 2 [99]]" "[98]" 1, OF _ refl]
  by (simp add: scenario_defs)

text \<open>C7. One screen, one sender: while a connection owns the session or has its prompt on
  screen, no message of any kind from another connection changes anything but that other
  connection's own reply queue. In particular it cannot replace the prompt, end or relabel
  the session, or touch the media pipeline.\<close>

theorem other_senders_cannot_interfere:
  assumes "holder (loop_run cfg adv es) = Some x" and "im_connection i \<noteq> x"
  shows "\<exists>q. handle_message i env now (loop_run cfg adv es) =
    (loop_run cfg adv es)\<lparr> chans := (chans (loop_run cfg adv es))(im_connection i := q) \<rparr>"
  using assms by (rule message_from_other [OF loop_run_inv])

theorem other_senders_cannot_interfere_witness:
  "\<exists>q. handle_message \<lparr> im_message = SessionEnd UserStopped, im_connection = 2, im_peer = (V4 0, 1) \<rparr>
      all_good 0 (loop_run (default_config None) True [request_event 1 [98], answer_event 1 True]) =
    (loop_run (default_config None) True [request_event 1 [98], answer_event 1 True])
      \<lparr> chans := (chans (loop_run (default_config None) True
          [request_event 1 [98], answer_event 1 True]))(2 := q) \<rparr>"
  using other_senders_cannot_interfere [of "default_config None" True
      "[request_event 1 [98], answer_event 1 True]" 1
      "\<lparr> im_message = SessionEnd UserStopped, im_connection = 2, im_peer = (V4 0, 1) \<rparr>" all_good 0]
  by (simp add: holder_def scenario_defs)

text \<open>A liveness tick leaves nothing behind of a sender that went away: afterwards every
  pending request and the active session belong to connected peers, and a prompt on screen
  has its request.\<close>

theorem tick_drops_the_dead:
  assumes "s' = drop_dead_connections (loop_run cfg adv es)"
  shows "(\<forall>(c, p) \<in> set (pending_map s'). is_connected (chans s' c)) \<and>
    (\<forall>a. active_session s' = Some a \<longrightarrow> is_connected (chans s' (a_connection a))) \<and>
    (\<forall>n c. status s' = PendingConsent n c \<longrightarrow> c \<in> fst ` set (pending_map s'))"
  unfolding assms by (rule drop_dead_cleans [OF loop_run_inv])

theorem tick_drops_the_dead_witness:
  "pending_map (drop_dead_connections (loop_run (default_config None) True
     [request_event 1 [98], PeerGone 1])) = [] \<and>
   status (drop_dead_connections (loop_run (default_config None) True
     [request_event 1 [98], PeerGone 1])) = Waiting"
  using tick_drops_the_dead [OF refl, of "default_config None" True "[request_event 1 [98], PeerGone 1]"]
  by (simp add: scenario_defs channel_close_def)

text \<open>A receiver that could not advertise itself never claims to be waiting for senders: its
  startup failure survives every session, denial and tick.\<close>

theorem undiscoverable_is_kept: "status (loop_run cfg False es) \<noteq> Waiting"
proof -
  have "undiscoverable (foldl loop_step s es) = undiscoverable s" for s
    by (induction es arbitrary: s) (simp_all add: loop_step_undiscoverable)
  then have "undiscoverable (loop_run cfg False es) \<noteq> None"
    by (simp add: loop_run_def session_loop_new_def Let_def)
  with loop_run_inv [of cfg False es] show ?thesis
    by (simp add: loop_inv_def shared_inv_def)
qed

text \<open>The owner of a session can ask again, and denying that second request repaints the
  window as waiting although the first session goes on: there is a run that ends with a
  playing media pipeline and an active session while the status is \<open>Waiting\<close>.\<close>

theorem denied_rerequest_hides_session:
  "\<exists>es. playing (loop_run (default_config None) True es) \<noteq> [] \<and>
     active_session (loop_run (default_config None) True es) \<noteq> None \<and>
     status (loop_run (default_config None) True es) = Waiting"
  by (rule exI [of _ "[request_event 1 [98], answer_event 1 True, from_conn 1 (SdpOffer []),
      WebRtc PeerConnected, request_event 1 [98], answer_event 1 False]"])
    (simp add: scenario_defs)

text \<open>A prompt can be erased from the screen while its request stays pending: there is a run
  after which the window says it is waiting, no session is active, and yet every well-formed
  request from any other connection is refused as busy, however many liveness ticks pass,
  because the connection of the invisible request is still up.\<close>

theorem invisible_prompt_wedges_receiver:
  "\<exists>es. status (loop_run (default_config None) True es) = Waiting \<and>
     active_session (loop_run (default_config None) True es) = None \<and>
     (\<forall>k n caps c. c \<noteq> 1 \<and> lit ''h264'' \<in> set (video_codecs caps) \<longrightarrow>
        (let s = foldl loop_step (loop_run (default_config None) True es) (replicate k Tick)
         in handle_session_request c n PROTOCOL_VERSION caps s = send_to c (SessionReject Busy) s))"
proof -
  let ?es = "[request_event 1 [98], answer_event 1 True, request_event 1 [98],
      WebRtc PeerDisconnected]"
  let ?s = "loop_run (default_config None) True ?es"
  have st: "status ?s = Waiting" "active_session ?s = None"
    by (simp_all add: scenario_defs)
  have pend: "pending_map ?s = [(1, \<lparr> p_reply = 1, p_display_name = [98], p_framerate = 30 \<rparr>)]"
    by (simp add: scenario_defs default_config_def)
  have conn: "is_connected (chans ?s 1)" by (simp add: scenario_defs)
  have "\<And>k. foldl loop_step ?s (replicate k Tick) = ?s"
    by (rule ticks_idle [OF pend _ st(2) st(1)]) (simp add: conn)
  then have "\<forall>k n caps c. c \<noteq> 1 \<and> lit ''h264'' \<in> set (video_codecs caps) \<longrightarrow>
        (let s = foldl loop_step ?s (replicate k Tick)
         in handle_session_request c n PROTOCOL_VERSION caps s = send_to c (SessionReject Busy) s)"
    by (simp add: handle_session_request_def pend st list_ex_iff Let_def)
  with st show ?thesis by blast
qed


theorem invisible_prompt_wedges_receiver_witness:
  "\<exists>s. status s = Waiting \<and> active_session s = None \<and>
     handle_session_request 2 [99] PROTOCOL_VERSION default_capabilities (foldl loop_step s [Tick, Tick]) =
     send_to 2 (SessionReject Busy) (foldl loop_step s [Tick, Tick])"
proof -
  obtain es where es: "status (loop_run (default_config None) True es) = Waiting"
    "active_session (loop_run (default_config None) True es) = None"
    "\<forall>k n caps c. c \<noteq> 1 \<and> lit ''h264'' \<in> set (video_codecs caps) \<longrightarrow>
        (let s = foldl loop_step (loop_run (default_config None) True es) (replicate k Tick)
         in handle_session_request c n PROTOCOL_VERSION caps s = send_to c (SessionReject Busy) s)"
    using invisible_prompt_wedges_receiver by blast
  have "replicate 2 Tick = [Tick, Tick]" by (simp add: numeral_2_eq_2)
  with es(3) [rule_format, of 2 default_capabilities 2 "[99]"] es(1,2) show ?thesis
    by (auto simp: default_capabilities_def Let_def)
qed

end
