(* ===== verification/Consent_Spec.thy ===== *)
theory Consent_Spec
  imports Receiver_Net
begin

text \<open>
  The contract of the receiver towards the person in front of it, and its refinement by the session
  loop of \<open>openplay-receiver/src/net.rs\<close>. The abstract state is who is asking and who may show, each
  with the name on the screen; the steps say which event may change it and how. The simulation
  maps the loop's pending request and active session to this state and shows that every turn of
  the loop is an abstract step of the same event.
\<close>

record consent =
  asking :: "(connection_id \<times> ustr) option"
  granted :: "(connection_id \<times> ustr) option"

definition nobody :: consent where
  "nobody = \<lparr> asking = None, granted = None \<rparr>"

text \<open>Nobody but \<open>c\<close> stands in that place.\<close>

definition free_for :: "connection_id \<Rightarrow> (connection_id \<times> ustr) option \<Rightarrow> bool" where
  "free_for c slot = (case slot of None \<Rightarrow> True | Some (c', _) \<Rightarrow> c' = c)"

definition leave :: "connection_id \<Rightarrow> (connection_id \<times> ustr) option \<Rightarrow> (connection_id \<times> ustr) option" where
  "leave c slot = (if free_for c slot then None else slot)"

inductive consent_step :: "loop_event \<Rightarrow> consent \<Rightarrow> consent \<Rightarrow> bool" where
  stutter: "consent_step ev a a"
| ask:
    "im_message i = SessionRequest sid n ver caps \<Longrightarrow> im_connection i = c \<Longrightarrow>
     free_for c (asking a) \<Longrightarrow> free_for c (granted a) \<Longrightarrow>
     consent_step (Incoming i env now) a (a\<lparr> asking := Some (c, n) \<rparr>)"
| accept:
    "asking a = Some (c, n) \<Longrightarrow> d_connection d = c \<Longrightarrow> d_accept d \<Longrightarrow>
     consent_step (Decide d) a \<lparr> asking = None, granted = Some (c, n) \<rparr>"
| deny:
    "asking a = Some (c, n) \<Longrightarrow> d_connection d = c \<Longrightarrow> \<not> d_accept d \<Longrightarrow>
     consent_step (Decide d) a (a\<lparr> asking := None \<rparr>)"
| sender_leaves:
    "im_message i = SessionEnd r \<Longrightarrow>
     consent_step (Incoming i env now) a
       \<lparr> asking = leave (im_connection i) (asking a), granted = leave (im_connection i) (granted a) \<rparr>"
| offer_fails:
    "im_message i = SdpOffer sdp \<Longrightarrow> granted a = Some (im_connection i, n) \<Longrightarrow>
     consent_step (Incoming i env now) a (a\<lparr> granted := None \<rparr>)"
| media_ends: "consent_step (WebRtc e) a (a\<lparr> granted := None \<rparr>)"
| dead_are_dropped:
    "asking' \<in> {asking a, None} \<Longrightarrow> granted' \<in> {granted a, None} \<Longrightarrow>
     consent_step Tick a \<lparr> asking = asking', granted = granted' \<rparr>"

inductive consent_run :: "loop_event list \<Rightarrow> consent \<Rightarrow> bool" where
  start: "consent_run [] nobody"
| turn: "consent_run es a \<Longrightarrow> consent_step ev a a' \<Longrightarrow> consent_run (es @ [ev]) a'"

inductive_simps consent_run_Nil: "consent_run [] a"

definition consent_of :: "session_loop \<Rightarrow> consent" where
  "consent_of s =
     \<lparr> asking = (case pending_map s of [] \<Rightarrow> None | (c, p) # _ \<Rightarrow> Some (c, p_display_name p)),
       granted = map_option (\<lambda>a. (a_connection a, a_display_name a)) (active_session s) \<rparr>"


section \<open>What the contract gives\<close>

text \<open>Permission is never given to anyone who did not ask and was not accepted.\<close>

lemma granted_was_asked:
  assumes "consent_step ev a a'" and "granted a' = Some g" and "granted a \<noteq> Some g"
  shows "asking a = Some g \<and> (\<exists>d. ev = Decide d \<and> d_accept d \<and> d_connection d = fst g)"
  using assms by (induction rule: consent_step.induct) (auto simp: leave_def split: if_splits)

lemma consent_run_granted:
  assumes "consent_run es a" and "granted a = Some g"
  shows "\<exists>d. Decide d \<in> set es \<and> d_accept d \<and> d_connection d = fst g"
  using assms
proof (induction arbitrary: g rule: consent_run.induct)
  case (turn es a ev a')
  then show ?case using granted_was_asked [OF turn.hyps(2)] by (cases "granted a = Some g") auto
qed (simp add: nobody_def)


section \<open>The simulation\<close>

lemma pending_single:
  assumes "consent_inv s"
  shows "pending_map s = [] \<or> (\<exists>c p. pending_map s = [(c, p)])"
  using assms by (auto simp: consent_inv_def le_Suc_eq length_Suc_conv)

lemma consent_of_send [simp]: "consent_of (send_to c m s) = consent_of s"
  by (simp add: consent_of_def)

lemma consent_of_status [simp]: "consent_of (set_status st s) = consent_of s" "consent_of (reset_status s) = consent_of s"
  by (simp_all add: consent_of_def set_status_def)

lemma consent_of_ends [simp]:
  "consent_of (tear_down s) = (consent_of s)\<lparr> granted := None \<rparr>"
  "consent_of (fail_session r s) = (consent_of s)\<lparr> granted := None \<rparr>"
  by (simp_all add: consent_of_def)

lemma request_simulates:
  assumes "im_message i = SessionRequest sid n ver caps" and "im_connection i = c"
  shows "consent_step (Incoming i env now) (consent_of s) (consent_of (handle_session_request c n ver caps s))"
proof (cases "handle_session_request c n ver caps s = send_to c (SessionReject VersionMismatch) s \<or>
    handle_session_request c n ver caps s = send_to c (SessionReject NoCompatibleCodecs) s \<or>
    handle_session_request c n ver caps s = send_to c (SessionReject Busy) s")
  case True
  then show ?thesis by (auto intro: stutter)
next
  case False
  then have "consent_of (handle_session_request c n ver caps s) = (consent_of s)\<lparr> asking := Some (c, n) \<rparr>"
    and "free_for c (asking (consent_of s))" "free_for c (granted (consent_of s))"
    by (auto simp: handle_session_request_def consent_of_def free_for_def pending_insert_def set_status_def
        split: if_splits option.splits list.splits)
  then show ?thesis using ask [OF assms] by metis
qed

lemma decision_simulates:
  assumes "loop_inv s"
  shows "consent_step (Decide d) (consent_of s) (consent_of (handle_decision d s))"
proof (cases "map_of (pending_map s) (d_connection d)")
  case None
  then show ?thesis by (simp add: handle_decision_def stutter)
next
  case (Some p)
  then have pm: "pending_map s = [(d_connection d, p)]"
    using assms pending_single [of s] by (auto simp: loop_inv_def split: if_splits)
  then have asked: "asking (consent_of s) = Some (d_connection d, p_display_name p)" by (simp add: consent_of_def)
  show ?thesis
  proof (cases "d_accept d")
    case True
    then have "consent_of (handle_decision d s) = \<lparr> asking = None, granted = Some (d_connection d, p_display_name p) \<rparr>"
      using pm by (simp add: handle_decision_def Let_def consent_of_def pending_remove_def set_status_def stop_media_def
          split: option.split)
    then show ?thesis using accept [OF asked refl True] by simp
  next
    case False
    then have "consent_of (handle_decision d s) = (consent_of s)\<lparr> asking := None \<rparr>"
      using pm by (simp add: handle_decision_def Let_def consent_of_def pending_remove_def)
    then show ?thesis using deny [OF asked refl False] by simp
  qed
qed

lemma offer_simulates:
  assumes "im_message i = SdpOffer sdp"
  shows "consent_step (Incoming i env now) (consent_of s) (consent_of (handle_offer (im_connection i) env s))"
proof -
  have "consent_of (handle_offer (im_connection i) env s) = consent_of s \<or>
    (\<exists>n. granted (consent_of s) = Some (im_connection i, n)) \<and>
    consent_of (handle_offer (im_connection i) env s) = (consent_of s)\<lparr> granted := None \<rparr>"
    by (auto simp: handle_offer_def consent_of_def Let_def split: option.splits sum.splits)
  then show ?thesis using offer_fails [OF assms, of "consent_of s"] by (auto intro: stutter)
qed

lemma end_simulates:
  assumes "loop_inv s"
  shows "consent_of (pending_remove c (if owns_session c s then tear_down s else s)) =
    \<lparr> asking = leave c (asking (consent_of s)), granted = leave c (granted (consent_of s)) \<rparr>"
  using pending_single [of s] assms
  by (cases "active_session s")
    (auto simp: loop_inv_def consent_of_def pending_remove_def owns_session_def leave_def free_for_def)

lemma message_simulates:
  assumes "loop_inv s"
  shows "consent_step (Incoming i env now) (consent_of s) (consent_of (handle_message i env now s))"
proof (cases "im_message i")
  case (SessionRequest sid n ver caps)
  then show ?thesis using request_simulates [OF SessionRequest refl] by (simp add: handle_message_def)
next
  case (SdpOffer sdp)
  then show ?thesis using offer_simulates [OF SdpOffer] by (simp add: handle_message_def)
next
  case (SessionEnd r)
  then show ?thesis using sender_leaves [OF SessionEnd] end_simulates [OF assms] by (simp add: handle_message_def Let_def)
next
  case (IceCandidate cand mid idx)
  then show ?thesis by (auto simp: handle_message_def consent_of_def intro: stutter split: option.splits)
qed (auto simp: handle_message_def Let_def intro: stutter)

lemma webrtc_simulates: "consent_step (WebRtc e) (consent_of s) (consent_of (handle_webrtc_event e s))"
proof -
  have "consent_of (handle_webrtc_event e s) \<in> {consent_of s, (consent_of s)\<lparr> granted := None \<rparr>}"
    by (auto simp: handle_webrtc_event_def split: option.splits webrtc_event.splits)
  then show ?thesis by (auto intro: stutter media_ends)
qed

lemma tick_simulates:
  assumes "loop_inv s"
  shows "consent_step Tick (consent_of s) (consent_of (drop_dead_connections s))"
proof -
  have "asking (consent_of (drop_dead_connections s)) \<in> {asking (consent_of s), None}"
    using pending_single [of s] assms by (auto simp: loop_inv_def consent_of_def split: if_splits)
  moreover have "granted (consent_of (drop_dead_connections s)) \<in> {granted (consent_of s), None}"
    by (auto simp: drop_dead_connections_def Let_def consent_of_def split: option.splits)
  ultimately show ?thesis using dead_are_dropped [of _ "consent_of s"]
    by (metis consent.surjective old.unit.exhaust)
qed

lemma simulation:
  assumes "loop_inv s"
  shows "consent_step ev (consent_of s) (consent_of (loop_step s ev))"
proof (cases ev)
  case (Incoming i env now)
  then show ?thesis using message_simulates [OF assms] by (simp add: loop_step_def)
next
  case (Decide d)
  then show ?thesis using decision_simulates [OF assms] by (simp add: loop_step_def)
next
  case (WebRtc e)
  then show ?thesis using webrtc_simulates by (simp add: loop_step_def)
next
  case Tick
  then show ?thesis using tick_simulates [OF assms] by (simp add: loop_step_def)
qed (auto simp: loop_step_def consent_of_def set_status_def intro: stutter)

lemma run_simulates: "consent_run es (consent_of (loop_run cfg adv es))"
proof (induction es rule: rev_induct)
  case Nil
  have "consent_of (session_loop_new cfg adv) = nobody"
    by (simp add: consent_of_def session_loop_new_def nobody_def Let_def)
  then show ?case by (simp add: loop_run_def consent_run_Nil)
next
  case (snoc ev es)
  then show ?case using turn [OF snoc simulation [OF loop_run_inv]] by (simp add: loop_run_def)
qed


section \<open>Properties\<close>

text \<open>C12. The session loop refines the consent contract: along every sequence of events, from any
  configuration, who is asking and who may show evolve by the steps of the contract for exactly
  those events, so permission is given only by an acceptance of whoever was asking, and only to them.\<close>

theorem loop_refines_consent:
  "consent_run es (consent_of (loop_run cfg adv es)) \<and>
   (\<forall>a. active_session (loop_run cfg adv es) = Some a \<longrightarrow>
     (\<exists>d. Decide d \<in> set es \<and> d_accept d \<and> d_connection d = a_connection a))"
proof -
  have r: "consent_run es (consent_of (loop_run cfg adv es))" by (rule run_simulates)
  moreover have "\<exists>d. Decide d \<in> set es \<and> d_accept d \<and> d_connection d = a_connection a"
    if "active_session (loop_run cfg adv es) = Some a" for a
    using consent_run_granted [OF r, of "(a_connection a, a_display_name a)"] that by (simp add: consent_of_def)
  ultimately show ?thesis by blast
qed

theorem loop_refines_consent_witness:
  "\<exists>a d. active_session (loop_run (default_config None) True [request_event 1 [98], answer_event 1 True]) = Some a \<and>
     Decide d \<in> set [request_event 1 [98], answer_event 1 True] \<and> d_connection d = a_connection a"
proof -
  obtain a where "active_session (loop_run (default_config None) True [request_event 1 [98], answer_event 1 True]) = Some a"
    by (simp add: scenario_defs)
  with loop_refines_consent [of "[request_event 1 [98], answer_event 1 True]" "default_config None" True]
  show ?thesis by blast
qed

end
