(* ===== verification/Tlv8.thy ===== *)
theory Tlv8
  imports Prelude
begin

text \<open>
  The TLV8 container of \<open>openplay-airplay/src/tlv8.rs\<close>: values longer than 255 bytes are
  fragmented into consecutive items of one tag, and decoding merges consecutive items of one
  tag. The lemmas give the exact result of decoding an encoding, for every list of items,
  the round trip it yields for lists without adjacent equal tags, the precise error offsets,
  and the canonical form of what decoding returns.
\<close>

section \<open>Encoding and decoding\<close>

record tlv8_item =
  tag :: u8
  val :: bytes

definition TAG_METHOD :: u8 where "TAG_METHOD = 0x00"
definition TAG_IDENTIFIER :: u8 where "TAG_IDENTIFIER = 0x01"
definition TAG_SALT :: u8 where "TAG_SALT = 0x02"
definition TAG_PUBLIC_KEY :: u8 where "TAG_PUBLIC_KEY = 0x03"
definition TAG_PROOF :: u8 where "TAG_PROOF = 0x04"
definition TAG_ENCRYPTED_DATA :: u8 where "TAG_ENCRYPTED_DATA = 0x05"
definition TAG_STATE :: u8 where "TAG_STATE = 0x06"
definition TAG_ERROR :: u8 where "TAG_ERROR = 0x07"
definition TAG_RETRY_DELAY :: u8 where "TAG_RETRY_DELAY = 0x08"
definition TAG_CERTIFICATE :: u8 where "TAG_CERTIFICATE = 0x09"
definition TAG_SIGNATURE :: u8 where "TAG_SIGNATURE = 0x0A"
definition TAG_PERMISSIONS :: u8 where "TAG_PERMISSIONS = 0x0B"
definition TAG_FRAGMENT_DATA :: u8 where "TAG_FRAGMENT_DATA = 0x0C"
definition TAG_FRAGMENT_LAST :: u8 where "TAG_FRAGMENT_LAST = 0x0D"
definition TAG_FLAGS :: u8 where "TAG_FLAGS = 0x13"
definition TAG_SEPARATOR :: u8 where "TAG_SEPARATOR = 0xFF"

definition METHOD_PAIR_SETUP :: u8 where "METHOD_PAIR_SETUP = 0x00"
definition METHOD_PAIR_SETUP_WITH_AUTH :: u8 where "METHOD_PAIR_SETUP_WITH_AUTH = 0x01"
definition METHOD_PAIR_VERIFY :: u8 where "METHOD_PAIR_VERIFY = 0x02"
definition METHOD_ADD_PAIRING :: u8 where "METHOD_ADD_PAIRING = 0x03"
definition METHOD_REMOVE_PAIRING :: u8 where "METHOD_REMOVE_PAIRING = 0x04"
definition METHOD_LIST_PAIRINGS :: u8 where "METHOD_LIST_PAIRINGS = 0x05"

definition ERR_NONE :: u8 where "ERR_NONE = 0x00"
definition ERR_UNKNOWN :: u8 where "ERR_UNKNOWN = 0x01"
definition ERR_AUTHENTICATION :: u8 where "ERR_AUTHENTICATION = 0x02"
definition ERR_BACKOFF :: u8 where "ERR_BACKOFF = 0x03"
definition ERR_MAX_PEERS :: u8 where "ERR_MAX_PEERS = 0x04"
definition ERR_MAX_TRIES :: u8 where "ERR_MAX_TRIES = 0x05"
definition ERR_UNAVAILABLE :: u8 where "ERR_UNAVAILABLE = 0x06"
definition ERR_BUSY :: u8 where "ERR_BUSY = 0x07"

datatype decode_error =
    TruncatedHeader nat
  | TruncatedValue nat nat nat

text \<open>\<open>slice::chunks(255)\<close>.\<close>

fun chunks255 :: "bytes \<Rightarrow> bytes list" where
  "chunks255 [] = []"
| "chunks255 (b # bs) = take 255 (b # bs) # chunks255 (drop 255 (b # bs))"

definition encode_chunk :: "u8 \<Rightarrow> bytes \<Rightarrow> bytes" where
  "encode_chunk t c = t # of_nat (length c) # c"

definition encode_item :: "u8 \<Rightarrow> bytes \<Rightarrow> bytes" where
  "encode_item t v = (if v = [] then [t, 0] else concat (map (encode_chunk t) (chunks255 v)))"

definition tlv_encode :: "tlv8_item list \<Rightarrow> bytes" where
  "tlv_encode items = concat (map (\<lambda>i. encode_item (tag i) (val i)) items)"

definition push_item :: "tlv8_item list \<Rightarrow> u8 \<Rightarrow> bytes \<Rightarrow> tlv8_item list" where
  "push_item items t v =
     (if items \<noteq> [] \<and> tag (last items) = t
      then butlast items @ [(last items)\<lparr> val := val (last items) @ v \<rparr>]
      else items @ [\<lparr> tag = t, val = v \<rparr>])"

text \<open>The loop: the position, what is left of the buffer, and the items so far.\<close>

function decode_loop :: "nat \<Rightarrow> bytes \<Rightarrow> tlv8_item list \<Rightarrow> decode_error + tlv8_item list" where
  "decode_loop pos [] items = Inr items"
| "decode_loop pos [t] items = Inl (TruncatedHeader pos)"
| "decode_loop pos (t # l # rest) items =
     (if unat l > length rest then Inl (TruncatedValue (pos + 2) (unat l) (length rest))
      else decode_loop (pos + 2 + unat l) (drop (unat l) rest)
             (push_item items t (take (unat l) rest)))"
  by pat_completeness auto
termination by (relation "measure (\<lambda>(_, d, _). length d)") auto

definition tlv_decode :: "bytes \<Rightarrow> decode_error + tlv8_item list" where
  "tlv_decode data = decode_loop 0 data []"

definition lookup :: "tlv8_item list \<Rightarrow> u8 \<Rightarrow> bytes option" where
  "lookup items t = map_option val (find (\<lambda>i. tag i = t) items)"

definition to_map :: "tlv8_item list \<Rightarrow> u8 \<Rightarrow> bytes option" where
  "to_map items = foldl (\<lambda>m i. m(tag i \<mapsto> val i)) Map.empty items"

definition item :: "u8 \<Rightarrow> bytes \<Rightarrow> tlv8_item" where
  "item t v = \<lparr> tag = t, val = v \<rparr>"

definition item_u8 :: "u8 \<Rightarrow> u8 \<Rightarrow> tlv8_item" where
  "item_u8 t b = \<lparr> tag = t, val = [b] \<rparr>"


section \<open>Lemmas\<close>

definition merge_items :: "tlv8_item list \<Rightarrow> tlv8_item list" where
  "merge_items items = foldl (\<lambda>acc i. push_item acc (tag i) (val i)) [] items"

lemma chunks255_concat [simp]: "concat (chunks255 v) = v"
  by (induction v rule: chunks255.induct) (auto simp del: take_Suc_Cons drop_Suc_Cons)

lemma chunks255_length: "c \<in> set (chunks255 v) \<Longrightarrow> length c \<le> 255"
  by (induction v rule: chunks255.induct) (auto simp del: take_Suc_Cons drop_Suc_Cons)

lemma chunks255_Nil [simp]: "chunks255 v = [] \<longleftrightarrow> v = []"
  by (cases v) auto

lemma unat_of_length: "n \<le> 255 \<Longrightarrow> unat (of_nat n :: u8) = n"
  by (simp add: unat_of_nat take_bit_nat_eq_self)

lemma decode_chunk:
  assumes "length c \<le> 255"
  shows "decode_loop pos (encode_chunk t c @ rest) items =
    decode_loop (pos + length (encode_chunk t c)) rest (push_item items t c)"
  using assms by (simp add: encode_chunk_def unat_of_length)

lemma push_push [simp]:
  "push_item (push_item items t u) t v = push_item items t (u @ v)"
  by (auto simp: push_item_def)

lemma decode_chunks:
  assumes "\<forall>c \<in> set cs. length c \<le> 255" and "cs \<noteq> []"
  shows "decode_loop pos (concat (map (encode_chunk t) cs) @ rest) items =
    decode_loop (pos + length (concat (map (encode_chunk t) cs))) rest (push_item items t (concat cs))"
  using assms
proof (induction cs arbitrary: pos items)
  case (Cons c cs)
  show ?case
  proof (cases "cs = []")
    case True
    with Cons.prems show ?thesis by (simp add: decode_chunk)
  next
    case False
    with Cons show ?thesis by (simp add: decode_chunk add.assoc)
  qed
qed simp

lemma decode_item:
  "decode_loop pos (encode_item t v @ rest) items =
   decode_loop (pos + length (encode_item t v)) rest (push_item items t v)"
proof (cases "v = []")
  case False
  then show ?thesis
    using decode_chunks [of "chunks255 v" pos t rest items] chunks255_length
    by (simp add: encode_item_def)
qed (simp add: encode_item_def)

lemma decode_items:
  "decode_loop pos (tlv_encode items @ rest) acc =
   decode_loop (pos + length (tlv_encode items)) rest
     (foldl (\<lambda>acc i. push_item acc (tag i) (val i)) acc items)"
  by (induction items arbitrary: pos acc) (simp_all add: tlv_encode_def decode_item add.assoc)

lemma decode_encode_merge: "tlv_decode (tlv_encode items) = Inr (merge_items items)"
  using decode_items [of 0 items "[]" "[]"] by (simp add: tlv_decode_def merge_items_def)

lemma push_item_new:
  "items = [] \<or> tag (last items) \<noteq> t \<Longrightarrow> push_item items t v = items @ [\<lparr> tag = t, val = v \<rparr>]"
  by (auto simp: push_item_def)

lemma merge_distinct_acc:
  "distinct_adj (map tag (acc @ items)) \<Longrightarrow>
   foldl (\<lambda>acc i. push_item acc (tag i) (val i)) acc items = acc @ items"
proof (induction items arbitrary: acc)
  case (Cons i items)
  then have "distinct_adj (map tag ((acc @ [i]) @ items))" by simp
  moreover have "acc = [] \<or> tag (last acc) \<noteq> tag i"
    using Cons.prems by (auto simp: distinct_adj_append_iff last_map)
  ultimately show ?case using Cons.IH [of "acc @ [i]"] by (cases i) (simp add: push_item_new)
qed simp

lemma merge_distinct: "distinct_adj (map tag items) \<Longrightarrow> merge_items items = items"
  using merge_distinct_acc [of "[]" items] by (simp add: merge_items_def)

lemma push_item_distinct:
  assumes "distinct_adj (map tag items)"
  shows "distinct_adj (map tag (push_item items t v))"
proof (cases "items = []")
  case False
  then obtain xs x where "items = xs @ [x]" by (metis append_butlast_last_id)
  with assms show ?thesis by (auto simp: push_item_def distinct_adj_append_iff last_map)
qed (simp add: push_item_def)

lemma decode_loop_distinct:
  "decode_loop pos data acc = Inr items \<Longrightarrow> distinct_adj (map tag acc) \<Longrightarrow>
   distinct_adj (map tag items)"
  by (induction pos data acc rule: decode_loop.induct)
    (auto split: if_splits intro: push_item_distinct)

lemma decode_loop_error:
  "decode_loop pos data acc = Inl e \<Longrightarrow>
   (case e of
      TruncatedHeader off \<Rightarrow> off + 1 = pos + length data
    | TruncatedValue off expected available \<Rightarrow>
        available < expected \<and> expected \<le> 255 \<and> off + available = pos + length data)"
proof (induction pos data acc rule: decode_loop.induct)
  case (3 pos t l rest items)
  have "unat l \<le> 255" using unsigned_less [of l, where ?'a = nat] by simp
  with 3 show ?case by (auto split: if_splits decode_error.splits)
qed auto

lemma push_item_bytes:
  "sum_list (map (length \<circ> val) (push_item items t v)) = sum_list (map (length \<circ> val) items) + length v"
proof (cases "items = []")
  case False
  then obtain xs x where "items = xs @ [x]" by (metis append_butlast_last_id)
  then show ?thesis by (simp add: push_item_def)
qed (simp add: push_item_def)

lemma decode_loop_bytes:
  "decode_loop pos data acc = Inr items \<Longrightarrow>
   sum_list (map (length \<circ> val) items) \<le> sum_list (map (length \<circ> val) acc) + length data"
  by (induction pos data acc rule: decode_loop.induct)
    (auto simp: push_item_bytes split: if_splits)

text \<open>Of several items with one tag, \<open>lookup\<close> answers the first and \<open>to_map\<close> keeps the last.\<close>

lemma to_map_last: "to_map items t = lookup (rev items) t"
  by (induction items rule: rev_induct) (auto simp: to_map_def lookup_def)

interpretation tlv: codec tlv_encode tlv_decode "\<lambda>items. distinct_adj (map tag items)"
  by unfold_locales (simp add: decode_encode_merge merge_distinct)


section \<open>Properties\<close>

text \<open>Decoding an encoding never fails and gives back the items with runs of equal tags
  merged, for every list of items and values of any length, including empty values and
  values that need fragmenting.\<close>

theorem tlv8_decode_encode: "tlv_decode (tlv_encode items) = Inr (merge_items items)"
  by (rule decode_encode_merge)

text \<open>C38. The round trip is exact when no two neighbouring items share a tag, and what decoding
  returns always has that form; so decoding is idempotent through encoding, and two such
  lists with the same encoding are equal.\<close>

theorem tlv8_roundtrip:
  assumes "tlv_decode data = Inr items"
  shows "distinct_adj (map tag items) \<and> tlv_decode (tlv_encode items) = Inr items \<and>
    (\<forall>other. distinct_adj (map tag other) \<longrightarrow> tlv_encode other = tlv_encode items \<longrightarrow> other = items)"
proof -
  have "distinct_adj (map tag items)"
    using decode_loop_distinct assms by (auto simp: tlv_decode_def)
  then show ?thesis using tlv.decode_encode tlv.encode_inj by blast
qed

theorem tlv8_roundtrip_witness:
  "tlv_decode (tlv_encode [\<lparr> tag = 6, val = [1] \<rparr>, \<lparr> tag = 0, val = [] \<rparr>]) =
   Inr [\<lparr> tag = 6, val = [1] \<rparr>, \<lparr> tag = 0, val = [] \<rparr>]"
  using tlv8_roundtrip [of "[6, 1, 1, 0, 0]" "[\<lparr> tag = 6, val = [1] \<rparr>, \<lparr> tag = 0, val = [] \<rparr>]"]
  by (simp add: tlv_decode_def push_item_def)

text \<open>A decoding error locates the truncation exactly: a truncated header is the last byte of
  the buffer, and a truncated value starts at the reported offset, with the reported number
  of bytes left up to the end of the buffer, fewer than the length byte asked for.\<close>

theorem tlv8_decode_error:
  assumes "tlv_decode data = Inl e"
  shows "(\<exists>off. e = TruncatedHeader off \<and> off + 1 = length data) \<or>
    (\<exists>off expected available. e = TruncatedValue off expected available \<and>
      available < expected \<and> expected \<le> 255 \<and> off + available = length data)"
  using decode_loop_error [of 0 data "[]" e] assms
  by (auto simp: tlv_decode_def split: decode_error.splits)

theorem tlv8_decode_error_witness:
  "tlv_decode [1, 5, 7] = Inl (TruncatedValue 2 5 1) \<and> (2::nat) + 1 = length [1, 5, 7 :: u8]"
  using tlv8_decode_error [of "[1, 5, 7]" "TruncatedValue 2 5 1"] by (simp add: tlv_decode_def)

end
