(* ===== verification/Text.thy ===== *)
theory Text
  imports Prelude "HOL-Library.Sublist"
begin

text \<open>
  Protocol text as the HTTP, RTSP and TXT-record code handles it: an Isabelle \<open>string\<close> with one
  \<open>char\<close> per byte. The functions are the parts of Rust's \<open>str\<close> and slice API that code uses.
  Bytes outside ASCII are ordinary characters that match none of the ASCII patterns searched
  for; \<open>trim_str\<close> and \<open>split_whitespace\<close> treat only ASCII white space as such, which is all
  that header fields contain.
\<close>

definition newline :: char where "newline = CHR 0x0A"
definition cr :: char where "cr = CHR 0x0D"
definition crlf :: string where "crlf = [cr, newline]"

definition is_ws :: "char \<Rightarrow> bool" where
  "is_ws c \<longleftrightarrow> (of_char c :: nat) \<in> {9, 10, 11, 12, 13, 32}"

definition trim_str :: "string \<Rightarrow> string" where
  "trim_str s = rev (dropWhile is_ws (rev (dropWhile is_ws s)))"

definition strip_prefix_str :: "string \<Rightarrow> string \<Rightarrow> string option" where
  "strip_prefix_str p s = (if take (length p) s = p then Some (drop (length p) s) else None)"

definition starts_with :: "string \<Rightarrow> string \<Rightarrow> bool" where
  "starts_with p s \<longleftrightarrow> take (length p) s = p"

definition lower_char :: "char \<Rightarrow> char" where
  "lower_char c = (let n = (of_char c :: nat) in if 65 \<le> n \<and> n \<le> 90 then char_of (n + 32) else c)"

definition to_ascii_lowercase :: "string \<Rightarrow> string" where
  "to_ascii_lowercase s = map lower_char s"

text \<open>\<open>str::split_once\<close>, \<open>str::split\<close> on one character, \<open>str::lines\<close>, \<open>str::split_whitespace\<close>.\<close>

fun split_once :: "char \<Rightarrow> string \<Rightarrow> (string \<times> string) option" where
  "split_once d [] = None"
| "split_once d (c # cs) =
     (if c = d then Some ([], cs)
      else map_option (\<lambda>(a, b). (c # a, b)) (split_once d cs))"

fun split_char :: "char \<Rightarrow> string \<Rightarrow> string list" where
  "split_char d [] = [[]]"
| "split_char d (c # cs) =
     (if c = d then [] # split_char d cs
      else case split_char d cs of [] \<Rightarrow> [[c]] | w # ws \<Rightarrow> (c # w) # ws)"

definition strip_cr :: "string \<Rightarrow> string" where
  "strip_cr s = (if s \<noteq> [] \<and> last s = cr then butlast s else s)"

fun lines_from :: "string \<Rightarrow> string \<Rightarrow> string list" where
  "lines_from cur [] = (if cur = [] then [] else [cur])"
| "lines_from cur (c # cs) =
     (if c = newline then strip_cr cur # lines_from [] cs else lines_from (cur @ [c]) cs)"

definition lines :: "string \<Rightarrow> string list" where
  "lines s = lines_from [] s"

fun words_from :: "string \<Rightarrow> string \<Rightarrow> string list" where
  "words_from cur [] = (if cur = [] then [] else [cur])"
| "words_from cur (c # cs) =
     (if is_ws c then (if cur = [] then words_from [] cs else cur # words_from [] cs)
      else words_from (cur @ [c]) cs)"

definition split_whitespace :: "string \<Rightarrow> string list" where
  "split_whitespace s = words_from [] s"

text \<open>\<open>str::parse\<close> and \<open>from_str_radix\<close> on an unsigned type with the given number of values: an
  optional plus sign, at least one digit, no overflow.\<close>

definition digit_value :: "nat \<Rightarrow> char \<Rightarrow> nat option" where
  "digit_value radix c =
     (let n = (of_char c :: nat);
          v = (if 48 \<le> n \<and> n \<le> 57 then Some (n - 48)
               else if 97 \<le> n \<and> n \<le> 122 then Some (n - 87)
               else if 65 \<le> n \<and> n \<le> 90 then Some (n - 55) else None)
      in case v of None \<Rightarrow> None | Some d \<Rightarrow> if d < radix then Some d else None)"

text \<open>\<open>char::is_ascii_hexdigit\<close>.\<close>

definition is_hexdigit :: "char \<Rightarrow> bool" where
  "is_hexdigit c \<longleftrightarrow> digit_value 16 c \<noteq> None"

fun digits_value :: "nat \<Rightarrow> nat \<Rightarrow> string \<Rightarrow> nat option" where
  "digits_value radix acc [] = Some acc"
| "digits_value radix acc (c # cs) =
     (case digit_value radix c of None \<Rightarrow> None
      | Some d \<Rightarrow> digits_value radix (acc * radix + d) cs)"

definition from_str_radix :: "nat \<Rightarrow> nat \<Rightarrow> string \<Rightarrow> nat option" where
  "from_str_radix radix bound s =
     (let ds = (if s \<noteq> [] \<and> hd s = CHR ''+'' then tl s else s)
      in if ds = [] then None
         else case digits_value radix 0 ds of None \<Rightarrow> None
           | Some v \<Rightarrow> if v < bound then Some v else None)"

text \<open>Printing in a radix, without leading zeros (\<open>{}\<close>, \<open>{:x}\<close>) and zero-padded to a width
  (\<open>{:0w$x}\<close>).\<close>

definition digit_char :: "nat \<Rightarrow> char" where
  "digit_char d = (if d < 10 then char_of (48 + d) else char_of (87 + d))"

fun show_radix :: "nat \<Rightarrow> nat \<Rightarrow> string" where
  "show_radix radix n =
     (if radix < 2 then [] else if n < radix then [digit_char n]
      else show_radix radix (n div radix) @ [digit_char (n mod radix)])"

definition pad_left :: "nat \<Rightarrow> string \<Rightarrow> string" where
  "pad_left w s = replicate (w - length s) (CHR ''0'') @ s"

definition upper_char :: "char \<Rightarrow> char" where
  "upper_char c = (let n = (of_char c :: nat) in if 97 \<le> n \<and> n \<le> 122 then char_of (n - 32) else c)"

text \<open>\<open>{:0wX}\<close>.\<close>

definition show_hex_upper :: "nat \<Rightarrow> nat \<Rightarrow> string" where
  "show_hex_upper w n = map upper_char (pad_left w (show_radix 16 n))"


text \<open>\<open>windows(n).position(|w| w == pat)\<close> for a non-empty pattern.\<close>

fun find_sub :: "'a list \<Rightarrow> 'a list \<Rightarrow> nat option" where
  "find_sub pat [] = (if pat = [] then Some 0 else None)"
| "find_sub pat (x # xs) =
     (if take (length pat) (x # xs) = pat then Some 0 else map_option Suc (find_sub pat xs))"


text \<open>Bytes and strings, and \<open>String::from_utf8_lossy\<close>: every maximal ill-formed sequence becomes the
  three bytes of U+FFFD. \<open>utf8_chunk\<close> is the length of the next sequence and whether it is
  well formed; past the end of the input it sees zeros.\<close>

definition bytes_str :: "bytes \<Rightarrow> string" where
  "bytes_str bs = map (\<lambda>b. char_of (unat b)) bs"

definition str_bytes :: "string \<Rightarrow> bytes" where
  "str_bytes s = map of_char s"

definition is_cont :: "u8 \<Rightarrow> bool" where
  "is_cont b \<longleftrightarrow> 0x80 \<le> b \<and> b \<le> 0xBF"

definition second_of_three :: "u8 \<Rightarrow> u8 \<Rightarrow> bool" where
  "second_of_three b c \<longleftrightarrow>
     (if b = 0xE0 then 0xA0 \<le> c \<and> c \<le> 0xBF else if b = 0xED then 0x80 \<le> c \<and> c \<le> 0x9F else is_cont c)"

definition second_of_four :: "u8 \<Rightarrow> u8 \<Rightarrow> bool" where
  "second_of_four b c \<longleftrightarrow>
     (if b = 0xF0 then 0x90 \<le> c \<and> c \<le> 0xBF else if b = 0xF4 then 0x80 \<le> c \<and> c \<le> 0x8F else is_cont c)"

definition utf8_chunk :: "bytes \<Rightarrow> nat \<times> bool" where
  "utf8_chunk bs =
     (let at = (\<lambda>i. if i < length bs then bs ! i else 0); b = at 0
      in if b < 0x80 then (1, True)
         else if 0xC2 \<le> b \<and> b \<le> 0xDF then (if is_cont (at 1) then (2, True) else (1, False))
         else if 0xE0 \<le> b \<and> b \<le> 0xEF then
           (if \<not> second_of_three b (at 1) then (1, False)
            else if \<not> is_cont (at 2) then (2, False) else (3, True))
         else if 0xF0 \<le> b \<and> b \<le> 0xF4 then
           (if \<not> second_of_four b (at 1) then (1, False)
            else if \<not> is_cont (at 2) then (2, False)
            else if \<not> is_cont (at 3) then (3, False) else (4, True))
         else (1, False))"

lemma utf8_chunk_pos: "0 < fst (utf8_chunk bs)"
  by (simp add: utf8_chunk_def Let_def)

function utf8_lossy :: "bytes \<Rightarrow> bytes" where
  "utf8_lossy bs =
     (if bs = [] then []
      else let (n, ok) = utf8_chunk bs
           in (if ok then take n bs else [0xEF, 0xBF, 0xBD]) @ utf8_lossy (drop n bs))"
  by auto
termination
proof (relation "measure length", goal_cases)
  case (2 bs x n ok)
  then have "0 < n" using utf8_chunk_pos [of bs] by (metis fst_conv)
  with 2(1) show ?case by simp
qed simp

declare utf8_lossy.simps [simp del]

definition lossy_str :: "bytes \<Rightarrow> string" where
  "lossy_str bs = bytes_str (utf8_lossy bs)"


text \<open>UTF-8 encoding of a scalar value and of a string.\<close>

definition utf8_char :: "uchar \<Rightarrow> bytes" where
  "utf8_char c =
     (if c < 0x80 then [of_nat c]
      else if c < 0x800 then [of_nat (0xC0 + c div 64), of_nat (0x80 + c mod 64)]
      else if c < 0x10000 then
        [of_nat (0xE0 + c div 4096), of_nat (0x80 + c div 64 mod 64), of_nat (0x80 + c mod 64)]
      else [of_nat (0xF0 + c div 262144), of_nat (0x80 + c div 4096 mod 64),
        of_nat (0x80 + c div 64 mod 64), of_nat (0x80 + c mod 64)])"

definition utf8 :: "ustr \<Rightarrow> bytes" where
  "utf8 s = concat (map utf8_char s)"

text \<open>\<open>s.split(pat).nth(1)\<close>: what stands between the first and the second occurrence of a pattern,
  and \<open>s.contains(pat)\<close>.\<close>

definition after_pattern :: "string \<Rightarrow> string \<Rightarrow> string option" where
  "after_pattern pat s =
     (case find_sub pat s of
        None \<Rightarrow> None
      | Some i \<Rightarrow>
          (let rest = drop (i + length pat) s
           in Some (case find_sub pat rest of None \<Rightarrow> rest | Some j \<Rightarrow> take j rest)))"

definition contains :: "string \<Rightarrow> string \<Rightarrow> bool" where
  "contains pat s \<longleftrightarrow> find_sub pat s \<noteq> None"


section \<open>Lemmas\<close>

lemma strip_prefix_self [simp]: "strip_prefix_str p (p @ s) = Some s"
  by (simp add: strip_prefix_str_def)

lemma starts_with_append [simp]: "starts_with p (p @ s)"
  by (simp add: starts_with_def)

lemma find_sub_found:
  "find_sub pat xs = Some i \<Longrightarrow> take (length pat) (drop i xs) = pat \<and> i + length pat \<le> length xs"
proof (induction xs arbitrary: i)
  case (Cons x xs)
  show ?case
  proof (cases "take (length pat) (x # xs) = pat")
    case True
    then have "length pat \<le> length (x # xs)" by (metis length_take min.cobounded1)
    with True Cons.prems show ?thesis by (simp split: if_splits)
  next
    case False
    with Cons show ?thesis by (auto split: if_splits)
  qed
qed (simp split: if_splits)

lemma find_sub_first:
  "find_sub pat xs = Some i \<Longrightarrow> j < i \<Longrightarrow> take (length pat) (drop j xs) \<noteq> pat"
proof (induction xs arbitrary: i j)
  case (Cons x xs)
  then show ?case by (cases j) (auto split: if_splits)
qed (simp split: if_splits)

lemma find_sub_append:
  "find_sub pat xs = Some i \<Longrightarrow> find_sub pat (xs @ ys) = Some i"
proof (induction xs arbitrary: i)
  case Nil
  then show ?case by (cases ys) (auto split: if_splits)
next
  case (Cons x xs)
  show ?case
  proof (cases "take (length pat) (x # xs) = pat")
    case True
    then have "length pat \<le> length (x # xs)" by (metis length_take min.cobounded1)
    then have "take (length pat) ((x # xs) @ ys) = take (length pat) (x # xs)"
      by (subst take_append) simp
    with True Cons.prems show ?thesis by simp
  next
    case False
    with Cons.prems obtain k where k: "find_sub pat xs = Some k" "i = Suc k"
      by (auto split: if_splits)
    have "take (length pat) ((x # xs) @ ys) \<noteq> pat"
    proof
      assume *: "take (length pat) ((x # xs) @ ys) = pat"
      have "length pat \<le> length (x # xs)"
        using find_sub_found [OF k(1)] by simp
      with * False show False by (subst (asm) take_append) simp
    qed
    with Cons.IH [OF k(1)] k show ?thesis by simp
  qed
qed

lemma find_sub_None: "find_sub pat xs = None \<longleftrightarrow> (\<forall>i \<le> length xs. take (length pat) (drop i xs) \<noteq> pat)"
proof (induction xs)
  case (Cons x xs)
  have "(\<forall>i \<le> length (x # xs). take (length pat) (drop i (x # xs)) \<noteq> pat) \<longleftrightarrow>
    take (length pat) (x # xs) \<noteq> pat \<and> (\<forall>i \<le> length xs. take (length pat) (drop i xs) \<noteq> pat)"
    by (metis (no_types, lifting) Suc_le_mono drop_Suc_Cons drop0 le0 length_Cons not0_implies_Suc)
  with Cons show ?case by simp
qed auto

lemma split_once_notin: "d \<notin> set a \<Longrightarrow> split_once d (a @ d # b) = Some (a, b)"
  by (induction a) auto

lemma split_once_None: "split_once d s = None \<longleftrightarrow> d \<notin> set s"
  by (induction s) auto

lemma digit_value_char: "d < radix \<Longrightarrow> radix \<le> 16 \<Longrightarrow> digit_value radix (digit_char d) = Some d"
  by (auto simp: digit_value_def digit_char_def Let_def)

lemma digits_value_append:
  "digits_value r acc (s @ t) = (case digits_value r acc s of None \<Rightarrow> None | Some v \<Rightarrow> digits_value r v t)"
  by (induction s arbitrary: acc) (auto split: option.splits)

declare show_radix.simps [simp del]

lemma digits_value_show:
  "2 \<le> r \<Longrightarrow> r \<le> 16 \<Longrightarrow> digits_value r 0 (show_radix r n) = Some n"
proof (induction r n rule: show_radix.induct)
  case (1 r n)
  show ?case
  proof (cases "n < r")
    case True
    with 1 show ?thesis by (simp add: show_radix.simps [of r n] digit_value_char)
  next
    case False
    with 1 show ?thesis
      by (simp add: show_radix.simps [of r n] digits_value_append digit_value_char)
  qed
qed

lemma show_radix_nonempty: "2 \<le> r \<Longrightarrow> show_radix r n \<noteq> []"
  by (subst show_radix.simps) auto

lemma digit_char_no_plus: "d < 16 \<Longrightarrow> digit_char d \<noteq> CHR ''+''"
  by (auto simp: digit_char_def dest!: arg_cong [where f = "of_char :: char \<Rightarrow> nat"])

lemma show_radix_digits:
  "2 \<le> r \<Longrightarrow> c \<in> set (show_radix r n) \<Longrightarrow> \<exists>d < r. c = digit_char d"
proof (induction r n rule: show_radix.induct)
  case (1 r n)
  show ?case
  proof (cases "n < r")
    case True
    with 1(2,3) show ?thesis by (simp add: show_radix.simps [of r n]) blast
  next
    case False
    with 1(2,3) have "c \<in> set (show_radix r (n div r)) \<or> c = digit_char (n mod r)"
      by (simp add: show_radix.simps [of r n] disj_commute)
    moreover have "n mod r < r" "\<not> r < 2" using 1(2) by simp_all
    ultimately show ?thesis using 1(1) [OF _ False 1(2)] by blast
  qed
qed

lemma hd_show_no_plus:
  assumes "2 \<le> r" and "r \<le> 16"
  shows "hd (show_radix r n) \<noteq> CHR ''+''"
proof -
  obtain d where "d < r" "hd (show_radix r n) = digit_char d"
    using show_radix_digits [of r "hd (show_radix r n)" n] assms show_radix_nonempty by auto
  with assms(2) digit_char_no_plus [of d] show ?thesis by simp
qed

lemma parse_show:
  assumes "2 \<le> r" and "r \<le> 16" and "n < b"
  shows "from_str_radix r b (show_radix r n) = Some n"
  using assms hd_show_no_plus [OF assms(1,2)] show_radix_nonempty [OF assms(1)]
  by (simp add: from_str_radix_def digits_value_show)

lemma digits_value_zeros: "digits_value r 0 (replicate k (CHR ''0'') @ s) = digits_value r 0 s"
  if "2 \<le> r"
proof (induction k)
  case (Suc k)
  have "digit_value r (CHR ''0'') = Some 0" using that by (simp add: digit_value_def)
  with Suc show ?case by simp
qed simp

lemma parse_pad_show:
  assumes "2 \<le> r" and "r \<le> 16" and "n < b"
  shows "from_str_radix r b (pad_left w (show_radix r n)) = Some n"
proof -
  have "hd (pad_left w (show_radix r n)) \<noteq> CHR ''+''"
    using hd_show_no_plus [OF assms(1,2)] show_radix_nonempty [OF assms(1)]
    by (auto simp: pad_left_def hd_append)
  moreover have "pad_left w (show_radix r n) \<noteq> []"
    using show_radix_nonempty [OF assms(1)] by (simp add: pad_left_def)
  ultimately show ?thesis
    using assms by (simp add: from_str_radix_def pad_left_def digits_value_zeros digits_value_show)
qed

lemma dropWhile_hd: "s \<noteq> [] \<Longrightarrow> \<not> P (hd s) \<Longrightarrow> dropWhile P s = s"
  by (cases s) auto

lemma trim_str_noop: "s \<noteq> [] \<Longrightarrow> \<not> is_ws (hd s) \<Longrightarrow> \<not> is_ws (last s) \<Longrightarrow> trim_str s = s"
  by (simp add: trim_str_def dropWhile_hd hd_rev)

lemma utf8_lossy_ascii: "\<forall>b \<in> set bs. b < 0x80 \<Longrightarrow> utf8_lossy bs = bs"
proof (induction bs)
  case (Cons b bs)
  then have "utf8_chunk (b # bs) = (1, True)" by (simp add: utf8_chunk_def)
  with Cons show ?case by (subst utf8_lossy.simps) simp
qed (simp add: utf8_lossy.simps)

lemma unat_of_char: "unat (of_char c :: u8) = of_char c"
proof -
  have "(of_char c :: nat) < 256" by (rule nat_of_char_less_256)
  then have "unat (of_nat (of_char c :: nat) :: u8) = of_char c"
    by (simp add: unat_of_nat take_bit_nat_eq_self)
  then show ?thesis by (simp add: of_nat_of_char)
qed

lemma bytes_str_bytes [simp]: "bytes_str (str_bytes s) = s"
  by (simp add: bytes_str_def str_bytes_def comp_def unat_of_char)

lemma str_bytes_append [simp]: "str_bytes (s @ t) = str_bytes s @ str_bytes t"
  by (simp add: str_bytes_def)

lemma length_str_bytes [simp]: "length (str_bytes s) = length s"
  by (simp add: str_bytes_def)

definition ascii :: "string \<Rightarrow> bool" where
  "ascii s \<longleftrightarrow> (\<forall>c \<in> set s. (of_char c :: nat) < 128)"

lemma ascii_Cons [simp]: "ascii (c # s) \<longleftrightarrow> (of_char c :: nat) < 128 \<and> ascii s"
  by (auto simp: ascii_def)

lemma ascii_Nil [simp]: "ascii []"
  by (simp add: ascii_def)

lemma ascii_append [simp]: "ascii (s @ t) \<longleftrightarrow> ascii s \<and> ascii t"
  by (auto simp: ascii_def)

lemma lossy_str_ascii: "ascii s \<Longrightarrow> lossy_str (str_bytes s) = s"
proof -
  assume "ascii s"
  then have "\<forall>b \<in> set (str_bytes s). b < 0x80"
    by (auto simp: str_bytes_def ascii_def word_less_nat_alt unat_of_char)
  then show ?thesis by (simp add: lossy_str_def utf8_lossy_ascii)
qed

lemma ascii_show_radix:
  assumes "2 \<le> r" and "r \<le> 16"
  shows "ascii (show_radix r n)"
  using show_radix_digits [OF assms(1)] assms(2) by (fastforce simp: ascii_def digit_char_def)

lemma length_utf8: "length (utf8 s) = str_len s"
  by (induction s) (auto simp: utf8_def utf8_char_def)

lemma of_upper_char:
  "(of_char (upper_char c) :: nat) =
   (if 97 \<le> (of_char c :: nat) \<and> (of_char c :: nat) \<le> 122 then of_char c - 32 else of_char c)"
  using nat_of_char_less_256 [of c] by (auto simp: upper_char_def Let_def)

lemma digit_value_upper [simp]: "digit_value r (upper_char c) = digit_value r c"
proof (cases "97 \<le> (of_char c :: nat) \<and> (of_char c :: nat) \<le> 122")
  case True
  then have "(of_char (upper_char c) :: nat) = of_char c - 32" by (simp add: of_upper_char)
  moreover from True have "\<not> of_char c - 32 \<le> (57 :: nat)" "of_char c - 32 - 55 = of_char c - (87 :: nat)"
    "65 \<le> of_char c - (32 :: nat)" "of_char c - (32 :: nat) \<le> 90" by linarith+
  ultimately show ?thesis using True by (simp add: digit_value_def)
next
  case False
  then have "(of_char (upper_char c) :: nat) = of_char c" by (simp only: of_upper_char if_False)
  then show ?thesis by (simp only: digit_value_def)
qed

lemma digits_value_upper [simp]: "digits_value r acc (map upper_char s) = digits_value r acc s"
  by (induction s arbitrary: acc) (auto split: option.splits)

lemma upper_char_plus: "upper_char c = CHR ''+'' \<longleftrightarrow> c = CHR ''+''"
proof -
  have "upper_char c = CHR ''+'' \<longleftrightarrow> (of_char (upper_char c) :: nat) = of_char (CHR ''+'')"
    by (simp only: of_char_eq_iff)
  also have "\<dots> \<longleftrightarrow> (of_char c :: nat) = of_char (CHR ''+'')" by (auto simp: of_upper_char)
  finally show ?thesis by (simp only: of_char_eq_iff)
qed

lemma from_str_radix_upper [simp]: "from_str_radix r b (map upper_char s) = from_str_radix r b s"
proof (cases "s \<noteq> [] \<and> hd s = CHR ''+''")
  case True
  then show ?thesis
    by (simp add: from_str_radix_def hd_map upper_char_plus flip: map_tl)
next
  case False
  then have "\<not> (map upper_char s \<noteq> [] \<and> hd (map upper_char s) = CHR ''+'')"
    by (cases s) (auto simp: upper_char_plus)
  with False show ?thesis by (simp only: from_str_radix_def if_False digits_value_upper map_is_Nil_conv Let_def)
qed

lemma parse_hex_upper: "n < b \<Longrightarrow> from_str_radix 16 b (show_hex_upper w n) = Some n"
  by (simp add: show_hex_upper_def parse_pad_show)

lemma digit_char_zero: "digit_char 0 = CHR ''0''"
  by (simp add: digit_char_def char_of_def bit_0)

lemma show_hex_upper_plain:
  assumes "c \<in> set (show_hex_upper w n)"
  shows "\<not> is_ws c" "c \<noteq> newline" "c \<noteq> cr"
proof -
  obtain d where "c = upper_char d" "d \<in> set (pad_left w (show_radix 16 n))"
    using assms by (auto simp: show_hex_upper_def)
  moreover from this(2) have "d = digit_char 0 \<or> d \<in> set (show_radix 16 n)"
    unfolding digit_char_zero
    by (auto simp: pad_left_def split: if_splits)
  ultimately obtain k where "k < 16" "c = upper_char (digit_char k)"
    using show_radix_digits [of 16 d n] by fastforce
  then have "48 \<le> (of_char c :: nat)" by (auto simp: upper_char_def digit_char_def Let_def)
  then show "\<not> is_ws c" "c \<noteq> newline" "c \<noteq> cr" by (auto simp: is_ws_def newline_def cr_def)
qed

lemma show_hex_upper_nonempty: "show_hex_upper w n \<noteq> []"
  by (simp add: show_hex_upper_def pad_left_def show_radix_nonempty)

text \<open>Words separated by single spaces.\<close>

fun unwords :: "string list \<Rightarrow> string" where
  "unwords [] = []"
| "unwords [w] = w"
| "unwords (w # ws) = w @ CHR '' '' # unwords ws"

definition word_ok :: "string \<Rightarrow> bool" where
  "word_ok w \<longleftrightarrow> w \<noteq> [] \<and> (\<forall>c \<in> set w. \<not> is_ws c)"

lemma words_from_word:
  "\<forall>c \<in> set w. \<not> is_ws c \<Longrightarrow> is_ws s \<Longrightarrow> cur @ w \<noteq> [] \<Longrightarrow>
   words_from cur (w @ s # rest) = (cur @ w) # words_from [] rest"
  by (induction w arbitrary: cur) auto

lemma words_from_last:
  "\<forall>c \<in> set w. \<not> is_ws c \<Longrightarrow> words_from cur w = (if cur @ w = [] then [] else [cur @ w])"
  by (induction w arbitrary: cur) auto

lemma split_unwords: "list_all word_ok ws \<Longrightarrow> split_whitespace (unwords ws) = ws"
  unfolding split_whitespace_def
proof (induction ws rule: unwords.induct)
  case (3 w v ws)
  have "is_ws (CHR '' '')" by (simp add: is_ws_def)
  with 3 show ?case using words_from_word [of w "CHR '' ''" "[]"] by (simp add: word_ok_def)
qed (auto simp: words_from_last word_ok_def)

lemma unwords_hd: "ws \<noteq> [] \<Longrightarrow> list_all word_ok ws \<Longrightarrow> unwords ws \<noteq> [] \<and> hd (unwords ws) = hd (hd ws)"
  by (induction ws rule: unwords.induct) (auto simp: word_ok_def)

lemma unwords_last: "ws \<noteq> [] \<Longrightarrow> list_all word_ok ws \<Longrightarrow> last (unwords ws) = last (last ws)"
proof (induction ws rule: unwords.induct)
  case (3 w v ws)
  then have "unwords (v # ws) \<noteq> []" using unwords_hd [of "v # ws"] by simp
  with 3 show ?case by simp
qed auto

lemma trim_unwords: "ws \<noteq> [] \<Longrightarrow> list_all word_ok ws \<Longrightarrow> trim_str (unwords ws) = unwords ws"
proof -
  assume ws: "ws \<noteq> []" "list_all word_ok ws"
  then have "word_ok (hd ws)" "word_ok (last ws)" by (simp_all add: list_all_iff)
  with ws show ?thesis
    using unwords_hd [of ws] unwords_last [of ws]
    by (intro trim_str_noop) (auto simp: word_ok_def)
qed

lemma lower_char_code:
  "(of_char (lower_char c) :: nat) =
   (if 65 \<le> (of_char c :: nat) \<and> (of_char c :: nat) \<le> 90 then of_char c + 32 else of_char c)"
  by (auto simp: lower_char_def Let_def)

lemma hexdigit_code:
  "is_hexdigit c \<longleftrightarrow> (of_char c :: nat) \<in> {48..57} \<union> {97..102} \<union> {65..70}"
  by (auto simp: is_hexdigit_def digit_value_def Let_def split: if_splits)

lemma hexdigit_lower: "is_hexdigit c \<Longrightarrow> is_hexdigit (lower_char c)"
  by (auto simp: hexdigit_code lower_char_code)

lemma lower_lower [simp]: "lower_char (lower_char c) = lower_char c"
proof -
  have "(of_char (lower_char (lower_char c)) :: nat) = of_char (lower_char c)"
    by (auto simp: lower_char_code)
  then show ?thesis by (simp only: of_char_eq_iff)
qed

lemma digit_char_code: "d < 16 \<Longrightarrow> (of_char (digit_char d) :: nat) = (if d < 10 then 48 + d else 87 + d)"
  by (simp add: digit_char_def)

lemma length_show_radix: "n < 16 ^ k \<Longrightarrow> 0 < k \<Longrightarrow> length (show_radix 16 n) \<le> k"
proof (induction k arbitrary: n)
  case (Suc k)
  show ?case
  proof (cases "n < 16")
    case True
    then show ?thesis by (subst show_radix.simps) simp
  next
    case False
    then have "0 < k" using Suc.prems by (cases k) auto
    moreover have "n div 16 < 16 ^ k" using Suc.prems by (simp add: less_mult_imp_div_less)
    ultimately have "length (show_radix 16 (n div 16)) \<le> k" using Suc.IH by blast
    then show ?thesis using False by (subst show_radix.simps) simp
  qed
qed simp

end
