(* ===== verification/Http.thy ===== *)
theory Http
  imports Text
begin

text \<open>
  How the AirPlay code reads HTTP: \<open>recv_response\<close> of \<open>hap_pairing.rs\<close>, \<open>read_http_response\<close> of
  \<open>http_session.rs\<close>, their status-line and header parsers, and the request line and headers
  that code writes. A connection is the list of chunks its reads return; the end of the list
  is the end of the stream. The main lemma is that the result of \<open>recv_response\<close> does not
  depend on how the network cuts the response into chunks.
\<close>

definition header_end :: bytes where "header_end = [13, 10, 13, 10]"

definition find_header_end :: "bytes \<Rightarrow> nat option" where
  "find_header_end buf = find_sub header_end buf"

datatype http_error =
    ConnectionClosed
  | ClosedMidBody
  | EmptyResponse
  | HttpStatus nat
  | HeadersTooLarge


section \<open>Status line and headers\<close>

text \<open>The second word of the first line as a 16-bit number.\<close>

definition status_word :: "string \<Rightarrow> nat option" where
  "status_word line =
     (case split_whitespace line of
        _ # c # _ \<Rightarrow> from_str_radix 10 (2 ^ 16) c
      | _ \<Rightarrow> None)"

definition check_http_status :: "string \<Rightarrow> http_error + unit" where
  "check_http_status headers =
     (case lines headers of
        [] \<Rightarrow> Inl EmptyResponse
      | status_line # _ \<Rightarrow>
          (case status_word status_line of
             None \<Rightarrow> Inr ()
           | Some code \<Rightarrow> if 200 \<le> code \<and> code < 300 then Inr () else Inl (HttpStatus code)))"

definition http_status_hint :: "nat \<Rightarrow> string" where
  "http_status_hint code =
     (if code = 403 then '' '' @ [CHR 0xE2, CHR 0x80, CHR 0x94] @
        '' the receiver refused this device. On macOS, check System Settings '' @ [CHR 0xE2, CHR 0x86, CHR 0x92] @
        '' General '' @ [CHR 0xE2, CHR 0x86, CHR 0x92] @ '' AirDrop & Handoff '' @ [CHR 0xE2, CHR 0x86, CHR 0x92] @
        '' AirPlay Receiver; '' @ [CHR 0x22] @ ''Current User'' @ [CHR 0x22] @
        '' rejects devices not signed into the same Apple ID. This is not a pairing failure''
      else if code = 470 \<or> code = 401 then '' '' @ [CHR 0xE2, CHR 0x80, CHR 0x94] @
        '' the receiver requires a password or PIN''
      else if code = 500 then '' '' @ [CHR 0xE2, CHR 0x80, CHR 0x94] @ '' the receiver rejected the request body''
      else [])"

definition http_status_text :: "nat \<Rightarrow> string" where
  "http_status_text code = ''Receiver returned HTTP '' @ show_radix 10 code @ http_status_hint code"

definition status_is_success :: "string \<Rightarrow> bool" where
  "status_is_success headers =
     (case lines headers of
        [] \<Rightarrow> False
      | line # _ \<Rightarrow>
          (case status_word line of None \<Rightarrow> False | Some code \<Rightarrow> 200 \<le> code \<and> code < 300))"

text \<open>Both readers take the first line with one of two spellings of the field name; one of them
  wants the space after the colon as well.\<close>

fun first_field :: "string \<Rightarrow> string \<Rightarrow> string list \<Rightarrow> string option" where
  "first_field p q [] = None"
| "first_field p q (l # ls) =
     (case strip_prefix_str p l of
        Some v \<Rightarrow> Some v
      | None \<Rightarrow> (case strip_prefix_str q l of Some v \<Rightarrow> Some v | None \<Rightarrow> first_field p q ls))"

definition hap_content_length :: "string \<Rightarrow> nat option" where
  "hap_content_length headers =
     (case first_field ''Content-Length: '' ''content-length: '' (lines headers) of
        None \<Rightarrow> None | Some v \<Rightarrow> from_str_radix 10 (2 ^ 64) (trim_str v))"

definition http_content_length :: "string \<Rightarrow> nat option" where
  "http_content_length headers =
     (case first_field ''Content-Length:'' ''content-length:'' (lines headers) of
        None \<Rightarrow> None | Some v \<Rightarrow> from_str_radix 10 (2 ^ 64) (trim_str v))"

definition opt_or :: "nat \<Rightarrow> nat option \<Rightarrow> nat" where
  "opt_or d v = (case v of None \<Rightarrow> d | Some n \<Rightarrow> n)"


section \<open>Reading a pairing response\<close>

text \<open>The list of reads that succeed, an empty one being the end of the stream; the buffer grows to whatever
  length is announced.\<close>

fun recv_body :: "nat \<Rightarrow> nat \<Rightarrow> bytes \<Rightarrow> bytes list \<Rightarrow> http_error + bytes" where
  "recv_body body_start n buf [] = Inl ClosedMidBody"
| "recv_body body_start n buf (c # cs) =
     (if c = [] then Inl ClosedMidBody
      else let buf' = buf @ c
           in if length buf' - body_start < n then recv_body body_start n buf' cs
              else Inr (take n (drop body_start buf')))"

fun recv_response :: "bytes \<Rightarrow> bytes list \<Rightarrow> http_error + bytes" where
  "recv_response buf [] = Inl ConnectionClosed"
| "recv_response buf (c # cs) =
     (if c = [] then Inl ConnectionClosed
      else let buf' = buf @ c
           in case find_header_end buf' of
                None \<Rightarrow> recv_response buf' cs
              | Some e \<Rightarrow>
                  (let headers = lossy_str (take e buf')
                   in result_bind (check_http_status headers) (\<lambda>_.
                        let n = opt_or 0 (hap_content_length headers); body_start = e + 4
                        in if length buf' - body_start \<ge> n
                           then Inr (take n (drop body_start buf'))
                           else recv_body body_start n buf' cs)))"


section \<open>Reading a session response\<close>

fun read_headers :: "bytes \<Rightarrow> bytes list \<Rightarrow> http_error + nat \<times> bytes \<times> bytes list" where
  "read_headers buf [] = Inl ConnectionClosed"
| "read_headers buf (c # cs) =
     (if c = [] then Inl ConnectionClosed
      else let buf' = buf @ c
           in case find_header_end buf' of
                Some e \<Rightarrow> Inr (e, buf', cs)
              | None \<Rightarrow> if length buf' > 64 * 1024 then Inl HeadersTooLarge
                        else read_headers buf' cs)"

fun read_exact :: "nat \<Rightarrow> bytes list \<Rightarrow> http_error + bytes \<times> bytes list" where
  "read_exact n [] = (if n = 0 then Inr ([], []) else Inl ClosedMidBody)"
| "read_exact n (c # cs) =
     (if n = 0 then Inr ([], c # cs)
      else if c = [] then Inl ClosedMidBody
      else if length c \<le> n
      then result_bind (read_exact (n - length c) cs) (\<lambda>(b, rest). Inr (c @ b, rest))
      else Inr (take n c, drop n c # cs))"

text \<open>The headers, the body with whatever came along in the same reads, and the unread chunks.\<close>

definition read_http_response :: "bytes list \<Rightarrow> http_error + string \<times> bytes \<times> bytes list" where
  "read_http_response cs =
     result_bind (read_headers [] cs) (\<lambda>(e, buf, rest).
       let headers = lossy_str (take e buf);
           n = opt_or 0 (http_content_length headers);
           body_start = e + 4;
           already = length buf - body_start;
           body = drop body_start buf
       in if already < n
          then result_bind (read_exact (n - already) rest) (\<lambda>(more, rest'). Inr (headers, body @ more, rest'))
          else Inr (headers, body, rest))"


section \<open>Requests\<close>

definition AIRPLAY_USER_AGENT :: string where "AIRPLAY_USER_AGENT = ''AirPlay/550.10''"
definition DEFAULT_DEVICE_NAME :: ustr where "DEFAULT_DEVICE_NAME = lit ''OpenPlay''"

definition header_safe_device_name :: "ustr \<Rightarrow> ustr" where
  "header_safe_device_name name =
     (let cleaned = trim (filter (\<lambda>c. \<not> is_control c) name)
      in if cleaned = [] then DEFAULT_DEVICE_NAME else cleaned)"

definition HKP_TRANSIENT :: nat where "HKP_TRANSIENT = 4"

definition send_post :: "string \<Rightarrow> string \<Rightarrow> bytes \<Rightarrow> bytes" where
  "send_post path content_type body =
     str_bytes (''POST '' @ path @ '' HTTP/1.1'' @ crlf @
       ''X-Apple-HKP: '' @ show_radix 10 HKP_TRANSIENT @ crlf @
       ''Content-Type: '' @ content_type @ crlf @
       ''Content-Length: '' @ show_radix 10 (length body) @ crlf @ crlf) @ body"

definition send_pair_setup :: "bytes \<Rightarrow> bytes" where
  "send_pair_setup body = send_post ''/pair-setup'' ''application/octet-stream'' body"

definition send_pair_verify :: "bytes \<Rightarrow> bytes" where
  "send_pair_verify body = send_post ''/pair-verify'' ''application/octet-stream'' body"

text \<open>The headers of \<open>GET /info\<close> and \<open>POST /stream\<close> as code points; \<open>body_len\<close> is the length of
  the property list behind them.\<close>

definition session_headers :: "ustr \<Rightarrow> ustr \<Rightarrow> ustr" where
  "session_headers session_id device_name =
     lit (''User-Agent: '' @ AIRPLAY_USER_AGENT @ crlf @ ''X-Apple-Device-Name: '') @
     header_safe_device_name device_name @ lit (crlf @ ''X-Apple-Session-ID: '') @ session_id @
     lit (crlf @ ''X-Apple-ProtocolVersion: 1'' @ crlf)"

definition info_request :: "ustr \<Rightarrow> ustr \<Rightarrow> ustr" where
  "info_request session_id device_name =
     lit (''GET /info HTTP/1.1'' @ crlf) @ session_headers session_id device_name @
     lit (''Content-Length: 0'' @ crlf @ crlf)"

definition stream_request_head :: "nat \<Rightarrow> ustr \<Rightarrow> ustr \<Rightarrow> ustr" where
  "stream_request_head body_len session_id device_name =
     lit (''POST /stream HTTP/1.1'' @ crlf) @ session_headers session_id device_name @
     lit (''Content-Type: application/x-apple-binary-plist'' @ crlf @
       ''Content-Length: '' @ show_radix 10 body_len @ crlf @ crlf)"


section \<open>Lemmas\<close>

text \<open>The response as one buffer: what \<open>recv_response\<close> amounts to.\<close>

definition parse_response :: "bytes \<Rightarrow> http_error + bytes" where
  "parse_response data =
     (case find_header_end data of
        None \<Rightarrow> Inl ConnectionClosed
      | Some e \<Rightarrow>
          (let headers = lossy_str (take e data); n = opt_or 0 (hap_content_length headers)
           in result_bind (check_http_status headers) (\<lambda>_.
                if length data - (e + 4) \<ge> n then Inr (take n (drop (e + 4) data))
                else Inl ClosedMidBody)))"

lemma header_end_within:
  "find_header_end buf = Some e \<Longrightarrow> e + 4 \<le> length buf"
  unfolding find_header_end_def using find_sub_found [of header_end buf e]
  by (simp add: header_end_def)

lemma find_header_end_append:
  "find_header_end buf = Some e \<Longrightarrow> find_header_end (buf @ more) = Some e"
  by (simp add: find_header_end_def find_sub_append)

lemma recv_body_whole:
  assumes "body_start \<le> length buf" and "length buf - body_start < n" and "[] \<notin> set cs"
  shows "recv_body body_start n buf cs =
    (if length (buf @ concat cs) - body_start \<ge> n
     then Inr (take n (drop body_start (buf @ concat cs))) else Inl ClosedMidBody)"
  using assms
proof (induction cs arbitrary: buf)
  case (Cons c cs)
  show ?case
  proof (cases "length (buf @ c) - body_start < n")
    case True
    with Cons show ?thesis by auto
  next
    case False
    then have "take n (drop body_start (buf @ c @ concat cs)) = take n (drop body_start (buf @ c))"
      using Cons.prems by (simp add: take_Cons' drop_append)
    with False Cons.prems show ?thesis by auto
  qed
qed simp

lemma recv_response_whole:
  assumes "[] \<notin> set cs" and "find_header_end buf = None"
  shows "recv_response buf cs = parse_response (buf @ concat cs)"
  using assms
proof (induction cs arbitrary: buf)
  case Nil
  then show ?case by (simp add: parse_response_def)
next
  case (Cons c cs)
  show ?case
  proof (cases "find_header_end (buf @ c)")
    case None
    with Cons show ?thesis by auto
  next
    case (Some e)
    define b where "b = buf @ c"
    define n where "n = opt_or 0 (hap_content_length (lossy_str (take e b)))"
    have e: "find_header_end b = Some e" "e + 4 \<le> length b" and c: "c \<noteq> []" "[] \<notin> set cs"
      using Some header_end_within [OF Some] Cons.prems by (auto simp: b_def)
    have whole: "find_header_end (b @ concat cs) = Some e"
      by (rule find_header_end_append [OF e(1)])
    have hd: "take e (b @ concat cs) = take e b" using e(2) by simp
    have "recv_response buf (c # cs) = result_bind (check_http_status (lossy_str (take e b))) (\<lambda>_.
        if length b - (e + 4) \<ge> n then Inr (take n (drop (e + 4) b)) else recv_body (e + 4) n b cs)"
      using c(1) e(1) by (simp add: Let_def n_def b_def)
    also have "(if length b - (e + 4) \<ge> n then Inr (take n (drop (e + 4) b))
        else recv_body (e + 4) n b cs) =
      (if length (b @ concat cs) - (e + 4) \<ge> n then Inr (take n (drop (e + 4) (b @ concat cs)))
       else Inl ClosedMidBody)"
      using recv_body_whole [of "e + 4" b n cs] e(2) c(2) by auto
    finally show ?thesis
      using whole hd by (simp add: parse_response_def Let_def n_def b_def del: take_append)
  qed
qed

lemma find_header_end_Nil: "find_header_end [] = None"
  by (simp add: find_header_end_def header_end_def)

lemma trim_set: "set (trim s) \<subseteq> set s"
  unfolding trim_def by (metis set_dropWhileD set_rev subsetI)

lemma header_safe_clean: "\<forall>c \<in> set (header_safe_device_name name). \<not> is_control c"
  using trim_set [of "filter (\<lambda>c. \<not> is_control c) name"]
  by (auto simp: header_safe_device_name_def Let_def DEFAULT_DEVICE_NAME_def lit_def is_control_def)

lemma header_safe_nonempty: "header_safe_device_name name \<noteq> []"
  by (simp add: header_safe_device_name_def Let_def DEFAULT_DEVICE_NAME_def lit_def)


text \<open>The response a well-behaved accessory sends.\<close>

definition ok_headers :: "nat \<Rightarrow> string" where
  "ok_headers n = ''HTTP/1.1 200 OK'' @ crlf @ ''Content-Length: '' @ show_radix 10 n"

definition ok_response :: "bytes \<Rightarrow> bytes" where
  "ok_response body = str_bytes (ok_headers (length body)) @ header_end @ body"

lemma show_decimal_plain:
  assumes "c \<in> set (show_radix 10 n)"
  shows "48 \<le> (of_char c :: nat) \<and> (of_char c :: nat) \<le> 57"
  using show_radix_digits [OF _ assms] by (auto simp: digit_char_def)

lemma find_sub_skip:
  "hd pat \<notin> set xs \<Longrightarrow> pat \<noteq> [] \<Longrightarrow>
   find_sub pat (xs @ ys) = map_option (\<lambda>i. i + length xs) (find_sub pat ys)"
proof (induction xs)
  case (Cons x xs)
  have "take (length pat) (x # xs @ ys) \<noteq> pat"
    using Cons.prems by (cases pat) auto
  with Cons show ?case by (cases "find_sub pat ys") auto
qed (cases "find_sub pat ys"; simp)

lemma decimal_no_cr: "13 \<notin> set (str_bytes (show_radix 10 n))"
proof
  assume "13 \<in> set (str_bytes (show_radix 10 n))"
  then obtain c where "c \<in> set (show_radix 10 n)" "(of_char c :: u8) = 13"
    by (auto simp: str_bytes_def)
  then have "unat (of_char c :: u8) = 13" "48 \<le> (of_char c :: nat)"
    using show_decimal_plain by auto
  then show False by (simp add: unat_of_char)
qed

lemma find_header_end_ok:
  "find_header_end (str_bytes (ok_headers n) @ header_end @ rest) = Some (length (ok_headers n))"
proof -
  have "find_sub header_end (str_bytes (show_radix 10 n) @ header_end @ rest) =
      Some (length (show_radix 10 n))"
    using find_sub_skip [of header_end "str_bytes (show_radix 10 n)" "header_end @ rest"] decimal_no_cr
    by (simp add: header_end_def)
  then show ?thesis
    by (simp add: find_header_end_def ok_headers_def str_bytes_def crlf_def cr_def newline_def
        header_end_def)
qed

lemma lines_from_end: "newline \<notin> set s \<Longrightarrow> lines_from cur s = (if cur @ s = [] then [] else [cur @ s])"
  by (induction s arbitrary: cur) auto

lemma decimal_no_newline: "newline \<notin> set (show_radix 10 n)"
  using show_decimal_plain [of newline n] by (auto simp: newline_def)

lemma lines_ok:
  "lines (ok_headers n) = [''HTTP/1.1 200 OK'', ''Content-Length: '' @ show_radix 10 n]"
  using lines_from_end [OF decimal_no_newline, of "''Content-Length: ''" n]
  by (simp add: lines_def ok_headers_def crlf_def cr_def newline_def strip_cr_def)

lemma trim_decimal: "trim_str (show_radix 10 n) = show_radix 10 n"
proof (rule trim_str_noop)
  show "show_radix 10 n \<noteq> []" by (rule show_radix_nonempty) simp
  then show "\<not> is_ws (hd (show_radix 10 n))" "\<not> is_ws (last (show_radix 10 n))"
    using show_decimal_plain [of "hd (show_radix 10 n)" n] show_decimal_plain [of "last (show_radix 10 n)" n]
    by (auto simp: is_ws_def)
qed

lemma content_length_ok: "n < 2 ^ 64 \<Longrightarrow> hap_content_length (ok_headers n) = Some n"
  by (simp add: hap_content_length_def lines_ok strip_prefix_str_def trim_decimal parse_show)

lemma status_ok: "check_http_status (ok_headers n) = Inr ()"
  by (simp add: check_http_status_def lines_ok status_word_def split_whitespace_def is_ws_def
      from_str_radix_def digit_value_def)

lemma lossy_ok_headers: "lossy_str (str_bytes (ok_headers n)) = ok_headers n"
  by (rule lossy_str_ascii)
    (simp add: ok_headers_def ascii_show_radix crlf_def cr_def newline_def)

lemma parse_ok_response:
  assumes "length body < 2 ^ 64"
  shows "parse_response (ok_response body @ extra) = Inr body"
proof -
  have f: "find_header_end (ok_response body @ extra) = Some (length (ok_headers (length body)))"
    using find_header_end_ok [of "length body" "body @ extra"] by (simp add: ok_response_def)
  have t: "take (length (ok_headers (length body))) (ok_response body @ extra) =
      str_bytes (ok_headers (length body))"
    by (simp add: ok_response_def)
  have d: "drop (length (ok_headers (length body)) + 4) (ok_response body @ extra) = body @ extra"
    by (simp add: ok_response_def header_end_def)
  then have l: "length (ok_response body @ extra) - (length (ok_headers (length body)) + 4) =
      length body + length extra"
    by (metis length_append length_drop)
  show ?thesis
    unfolding parse_response_def f option.case t d l Let_def lossy_ok_headers
      content_length_ok [OF assms] status_ok opt_or_def by simp
qed

lemma recv_ok_response:
  assumes "[] \<notin> set cs" and "concat cs = ok_response body @ extra" and "length body < 2 ^ 64"
  shows "recv_response [] cs = Inr body"
  using recv_response_whole [OF assms(1) find_header_end_Nil] parse_ok_response [OF assms(3)] assms(2)
  by simp


section \<open>Properties\<close>

text \<open>C39. Reading a pairing response is independent of how the network cuts it up: for every
  sequence of non-empty reads the outcome is that of parsing the concatenation at once,
  including which error is reported.\<close>

theorem recv_response_chunking:
  assumes "[] \<notin> set cs"
  shows "recv_response [] cs = parse_response (concat cs)"
  using recv_response_whole [OF assms find_header_end_Nil] by simp

theorem recv_response_chunking_witness:
  "recv_response [] [[72], [13, 10, 13], [10]] = parse_response [72, 13, 10, 13, 10]"
  using recv_response_chunking [of "[[72], [13, 10, 13], [10]]"] by simp

text \<open>A response with status 200 and a \<open>Content-Length\<close> is received exactly: whatever the
  chunks, and whatever follows on the connection, the body returned is the body sent.\<close>

theorem ok_response_received:
  assumes "[] \<notin> set cs" and "concat cs = ok_response body @ extra" and "length body < 2 ^ 64"
  shows "recv_response [] cs = Inr body"
  using assms by (rule recv_ok_response)

theorem ok_response_received_witness:
  "recv_response [] [ok_response [1, 2, 3], [9]] = Inr [1, 2, 3]"
  by (rule ok_response_received [where extra = "[9]"])
    (simp_all add: ok_response_def header_end_def)

text \<open>A device name cannot inject header lines: the control characters of a request, and so
  its line structure, are the same for every device name, and the device-name header is
  never empty.\<close>

theorem device_name_cannot_inject:
  "filter is_control (info_request sid name) = filter is_control (info_request sid name') \<and>
   filter is_control (stream_request_head n sid name) =
     filter is_control (stream_request_head n sid name') \<and>
   header_safe_device_name name \<noteq> []"
proof -
  have "filter is_control (header_safe_device_name x) = []" for x
    using header_safe_clean [of x] by (simp add: filter_empty_conv)
  then show ?thesis
    by (simp add: info_request_def stream_request_head_def session_headers_def header_safe_nonempty)
qed

end
