(* ===== verification/Srp.thy ===== *)
theory Srp
  imports Text
begin

text \<open>
  The client half of SRP-6a, \<open>openplay-airplay/src/srp.rs\<close>. SHA-512 is third-party code: it is
  the parameter \<open>H\<close>, of which nothing is assumed. Big integers are natural numbers, with the
  byte conversions of \<open>num_bigint\<close>. The server half is stated as RFC 5054 gives it, and the
  main lemma is that both sides compute the same session key and proofs, for every password,
  salt and pair of secret exponents.
\<close>

section \<open>Numbers and bytes\<close>

fun be_digits :: "nat \<Rightarrow> bytes" where
  "be_digits n = (if n < 256 then [of_nat n] else be_digits (n div 256) @ [of_nat (n mod 256)])"

declare be_digits.simps [simp del]

definition to_bytes_be :: "nat \<Rightarrow> bytes" where
  "to_bytes_be n = be_digits n"

definition modpow :: "nat \<Rightarrow> nat \<Rightarrow> nat \<Rightarrow> nat" where
  "modpow b e n = b ^ e mod n"

definition SRP_N_HEX :: string where
  "SRP_N_HEX =
     ''FFFFFFFFFFFFFFFFC90FDAA22168C234C4C6628B80DC1CD129024E088A67CC74'' @
     ''020BBEA63B139B22514A08798E3404DDEF9519B3CD3A431B302B0A6DF25F1437'' @
     ''4FE1356D6D51C245E485B576625E7EC6F44C42E9A637ED6B0BFF5CB6F406B7ED'' @
     ''EE386BFB5A899FA5AE9F24117C4B1FE649286651ECE45B3DC2007CB8A163BF05'' @
     ''98DA48361C55D39A69163FA8FD24CF5F83655D23DCA3AD961C62F356208552BB'' @
     ''9ED529077096966D670C354E4ABC9804F1746C08CA18217C32905E462E36CE3B'' @
     ''E39E772C180E86039B2783A2EC07A28FB5C55DF06F4C52C9DE2BCBF695581718'' @
     ''3995497CEA956AE515D2261898FA051015728E5A8AAAC42DAD33170D04507A33'' @
     ''A85521ABDF1CBA64ECFB850458DBEF0A8AEA71575D060C7DB3970F85A6E1E4C7'' @
     ''ABF5AE8CDB0933D71E8C94E04A25619DCEE3D2261AD2EE6BF12FFA06D98A0864'' @
     ''D87602733EC86A64521F2B18177B200CBBE117577A615D6C770988C0BAD946E2'' @
     ''08E24FA074E5AB3143DB5BFCE0FD108E4B82D120A93AD2CAFFFFFFFFFFFFFFFF''"

definition group_n :: nat where
  "group_n = (case digits_value 16 0 SRP_N_HEX of Some n \<Rightarrow> n | None \<Rightarrow> 0)"

definition SRP_G :: nat where "SRP_G = 5"

definition is_zero_value :: "nat \<Rightarrow> bool" where
  "is_zero_value n \<longleftrightarrow> to_bytes_be n = [0]"

definition pad_to_n :: "nat \<Rightarrow> nat \<Rightarrow> bytes" where
  "pad_to_n v n =
     (let n_len = length (to_bytes_be n); bs = to_bytes_be v
      in if length bs \<ge> n_len then bs else replicate (n_len - length bs) 0 @ bs)"


section \<open>The client\<close>

type_synonym hash = "bytes \<Rightarrow> bytes"

record client_session =
  public_a :: bytes
  m1 :: bytes
  session_key :: bytes
  expected_m2 :: bytes

datatype srp_error = BZero | UZero

definition srp_u :: "hash \<Rightarrow> bytes \<Rightarrow> bytes \<Rightarrow> nat" where
  "srp_u H a_padded b_padded = from_be (H (a_padded @ b_padded))"

definition srp_x :: "hash \<Rightarrow> bytes \<Rightarrow> bytes \<Rightarrow> bytes \<Rightarrow> nat" where
  "srp_x H username password salt = from_be (H (salt @ H (username @ [0x3A] @ password)))"

definition srp_k :: "hash \<Rightarrow> nat" where
  "srp_k H = from_be (H (to_bytes_be group_n @ pad_to_n SRP_G group_n))"

definition srp_m1 :: "hash \<Rightarrow> bytes \<Rightarrow> bytes \<Rightarrow> bytes \<Rightarrow> bytes \<Rightarrow> bytes \<Rightarrow> bytes" where
  "srp_m1 H username salt a_padded b_padded key =
     H (map2 (XOR) (H (to_bytes_be group_n)) (H (to_bytes_be SRP_G)) @ H username @ salt @
        a_padded @ b_padded @ key)"

definition srp_m2 :: "hash \<Rightarrow> bytes \<Rightarrow> bytes \<Rightarrow> bytes \<Rightarrow> bytes" where
  "srp_m2 H a_padded proof key = H (a_padded @ proof @ key)"

definition client_secret :: "nat \<Rightarrow> nat \<Rightarrow> nat \<Rightarrow> nat \<Rightarrow> nat \<Rightarrow> nat" where
  "client_secret big_b k x a u =
     (let gx = modpow SRP_G x group_n; kgx = k * gx mod group_n;
          base = (big_b + group_n - kgx) mod group_n
      in modpow base (a + u * x) group_n)"

definition client_compute ::
  "hash \<Rightarrow> bytes \<Rightarrow> bytes \<Rightarrow> bytes \<Rightarrow> bytes \<Rightarrow> nat \<Rightarrow> srp_error + client_session" where
  "client_compute H username password salt server_public a =
     (let big_b = from_be server_public
      in if is_zero_value (big_b mod group_n) then Inl BZero
         else let a_padded = pad_to_n (modpow SRP_G a group_n) group_n;
                  b_padded = pad_to_n big_b group_n;
                  u = srp_u H a_padded b_padded
              in if is_zero_value u then Inl UZero
                 else let x = srp_x H username password salt;
                          big_s = client_secret big_b (srp_k H) x a u;
                          key = H (pad_to_n big_s group_n);
                          proof = srp_m1 H username salt a_padded b_padded key
                      in Inr \<lparr> public_a = a_padded, m1 = proof, session_key = key,
                               expected_m2 = srp_m2 H a_padded proof key \<rparr>)"


section \<open>The server of RFC 5054\<close>

definition verifier :: "hash \<Rightarrow> bytes \<Rightarrow> bytes \<Rightarrow> bytes \<Rightarrow> nat" where
  "verifier H username password salt = modpow SRP_G (srp_x H username password salt) group_n"

definition server_public_key :: "hash \<Rightarrow> nat \<Rightarrow> nat \<Rightarrow> nat" where
  "server_public_key H v b = (srp_k H * v + modpow SRP_G b group_n) mod group_n"

definition server_secret :: "nat \<Rightarrow> nat \<Rightarrow> nat \<Rightarrow> nat \<Rightarrow> nat" where
  "server_secret big_a v u b = modpow (big_a * modpow v u group_n) b group_n"

definition server_key :: "hash \<Rightarrow> nat \<Rightarrow> nat \<Rightarrow> bytes \<Rightarrow> bytes" where
  "server_key H v b a_bytes =
     (let b_padded = pad_to_n (server_public_key H v b) group_n
      in H (pad_to_n (server_secret (from_be a_bytes) v (srp_u H a_bytes b_padded) b) group_n))"


section \<open>Lemmas\<close>

lemma from_be_snoc: "from_be (xs @ [b]) = 256 * from_be xs + unat b"
  by (simp add: from_be_def)

lemma from_be_to_bytes: "from_be (to_bytes_be n) = n"
  unfolding to_bytes_be_def
proof (induction n rule: be_digits.induct)
  case (1 n)
  show ?case
  proof (cases "n < 256")
    case True
    then show ?thesis
      by (subst be_digits.simps) (simp add: from_be_def unat_of_nat take_bit_nat_eq_self)
  next
    case False
    with 1 show ?thesis by (subst be_digits.simps) (simp add: from_be_snoc)
  qed
qed

lemma from_le_append: "from_le (xs @ ys) = from_le xs + 256 ^ length xs * from_le ys"
  by (induction xs) (auto simp: algebra_simps)

lemma from_le_zeros: "from_le (replicate k 0) = 0"
  by (induction k) auto

lemma from_be_pad: "from_be (pad_to_n v n) = v"
proof -
  have "from_be (replicate k 0 @ bs) = from_be bs" for k bs
    by (simp add: from_be_def from_le_append from_le_zeros)
  then show ?thesis by (simp add: pad_to_n_def Let_def from_be_to_bytes)
qed

lemma is_zero_iff: "is_zero_value n \<longleftrightarrow> n = 0"
proof
  assume "is_zero_value n"
  then show "n = 0" using from_be_to_bytes [of n] by (simp add: is_zero_value_def from_be_def)
qed (simp add: is_zero_value_def to_bytes_be_def be_digits.simps)

lemma cancel_verifier:
  assumes "0 < (n :: nat)"
  shows "((k * v + w) mod n + n - k * v mod n) mod n = w mod n"
proof -
  have "k * v mod n \<le> n" using assms by (simp add: order.strict_implies_order)
  then have "int (((k * v + w) mod n + n - k * v mod n) mod n) =
      (int ((k * v + w) mod n) + int n - int (k * v mod n)) mod int n"
    by (simp add: of_nat_mod of_nat_diff)
  also have "\<dots> = (int ((k * v + w) mod n) - int (k * v mod n) + int n) mod int n"
    by (simp only: diff_add_eq)
  also have "\<dots> = (int (k * v + w) mod int n - int (k * v) mod int n) mod int n"
    by (simp only: mod_add_self2 of_nat_mod)
  also have "\<dots> = (int (k * v + w) - int (k * v)) mod int n" by (rule mod_diff_eq)
  also have "\<dots> = int (w mod n)" by (simp add: of_nat_mod)
  finally show ?thesis by (simp only: of_nat_eq_iff)
qed

lemma shared_secret:
  fixes n g x :: nat
  assumes "0 < n" and v_def: "v = g ^ x mod n"
  shows "(((k * v + g ^ b mod n) mod n + n - k * v mod n) mod n) ^ (a + u * x) mod n =
    (g ^ a mod n * (v ^ u mod n)) ^ b mod n"
proof -
  have "(((k * v + g ^ b mod n) mod n + n - k * v mod n) mod n) ^ (a + u * x) mod n =
      (g ^ b) ^ (a + u * x) mod n"
    by (simp add: cancel_verifier [OF assms(1)] power_mod)
  also have "\<dots> = (g ^ a * (g ^ x) ^ u) ^ b mod n"
    by (simp add: power_add power_mult_distrib flip: power_mult) (simp add: ac_simps)
  also have "\<dots> = (g ^ a mod n * (v ^ u mod n)) ^ b mod n"
    by (simp add: v_def mod_simps power_mod) (metis mod_mult_eq power_mod)
  finally show ?thesis .
qed

definition hex_upper :: "char \<Rightarrow> bool" where
  "hex_upper c \<longleftrightarrow> c \<in> set ''0123456789ABCDEF''"

lemma hex_upper_digit: "hex_upper c \<Longrightarrow> \<exists>d. digit_value 16 c = Some d"
  by (auto simp: hex_upper_def digit_value_def)

lemma digits_value_hex:
  "list_all hex_upper s \<Longrightarrow> \<exists>v. digits_value 16 acc s = Some v \<and> acc \<le> v"
proof (induction s arbitrary: acc)
  case (Cons c s)
  then obtain d where "digit_value 16 c = Some d" using hex_upper_digit by auto
  moreover obtain v where "digits_value 16 (acc * 16 + d) s = Some v" "acc * 16 + d \<le> v"
    using Cons by auto
  ultimately show ?case by auto
qed simp

lemma SRP_N_HEX_digits: "list_all hex_upper SRP_N_HEX"
  by (simp add: SRP_N_HEX_def hex_upper_def)

lemma group_n_large: "15 \<le> group_n"
proof -
  obtain s where s: "SRP_N_HEX = CHR ''F'' # s" by (simp add: SRP_N_HEX_def)
  moreover have "digit_value 16 (CHR ''F'') = Some 15" by (simp add: digit_value_def)
  moreover obtain v where "digits_value 16 15 s = Some v" "15 \<le> v"
    using digits_value_hex [of s 15] SRP_N_HEX_digits [unfolded s] by auto
  ultimately show ?thesis unfolding group_n_def s by simp
qed

lemma secrets_agree:
  "client_secret (server_public_key H (modpow SRP_G x group_n) b) (srp_k H) x a u =
   server_secret (modpow SRP_G a group_n) (modpow SRP_G x group_n) u b"
  using shared_secret [of group_n "modpow SRP_G x group_n" SRP_G x "srp_k H" b a u] group_n_large
  by (simp add: client_secret_def server_public_key_def server_secret_def modpow_def Let_def)

lemma srp_agree:
  assumes "client_compute H username password salt
      (pad_to_n (server_public_key H (verifier H username password salt) b) group_n) a = Inr c"
  shows "session_key c = server_key H (verifier H username password salt) b (public_a c)"
    and "m1 c = srp_m1 H username salt (public_a c)
        (pad_to_n (server_public_key H (verifier H username password salt) b) group_n)
        (server_key H (verifier H username password salt) b (public_a c))"
    and "expected_m2 c = srp_m2 H (public_a c)
      (srp_m1 H username salt (public_a c)
        (pad_to_n (server_public_key H (verifier H username password salt) b) group_n)
        (server_key H (verifier H username password salt) b (public_a c)))
      (server_key H (verifier H username password salt) b (public_a c))"
  using assms
  by (auto simp: client_compute_def Let_def from_be_pad server_key_def verifier_def secrets_agree
      split: if_splits)


text \<open>A run that does not abort, with a constant for the hash.\<close>

lemma constant_hash_run:
  "\<exists>c. client_compute (\<lambda>_. [1]) username password salt
    (pad_to_n (server_public_key (\<lambda>_. [1]) (verifier (\<lambda>_. [1]) username password salt) 1) group_n) 2 = Inr c"
proof -
  have "server_public_key (\<lambda>_. [1]) (verifier (\<lambda>_. [1]) username password salt) 1 = 10"
    using group_n_large
    by (simp add: server_public_key_def verifier_def srp_k_def srp_x_def from_be_def modpow_def
        SRP_G_def)
  moreover have "srp_u (\<lambda>_. [1]) p q = 1" for p q by (simp add: srp_u_def from_be_def)
  ultimately show ?thesis
    using group_n_large by (simp add: client_compute_def Let_def from_be_pad is_zero_iff)
qed


section \<open>Properties\<close>

text \<open>C14. Both ends of the pairing agree: whatever the hash function, the password, the salt and
  the secret exponents, if the server publishes the key RFC 5054 prescribes and the client
  does not abort, then the client's session key is the one the server derives from the
  client's public value, the client's proof is the one that server checks for, and the
  server proof the client expects is the one that server answers with.\<close>

theorem srp_agreement:
  assumes "client_compute H username password salt
      (pad_to_n (server_public_key H (verifier H username password salt) b) group_n) a = Inr c"
  shows "session_key c = server_key H (verifier H username password salt) b (public_a c) \<and>
    m1 c = srp_m1 H username salt (public_a c)
      (pad_to_n (server_public_key H (verifier H username password salt) b) group_n)
      (server_key H (verifier H username password salt) b (public_a c)) \<and>
    expected_m2 c = srp_m2 H (public_a c) (m1 c)
      (server_key H (verifier H username password salt) b (public_a c))"
  using srp_agree [OF assms] by simp

theorem srp_agreement_witness:
  "\<exists>c. client_compute (\<lambda>_. [1]) [] [] []
      (pad_to_n (server_public_key (\<lambda>_. [1]) (verifier (\<lambda>_. [1]) [] [] []) 1) group_n) 2 = Inr c \<and>
    session_key c = server_key (\<lambda>_. [1]) (verifier (\<lambda>_. [1]) [] [] []) 1 (public_a c)"
  using constant_hash_run [of "[]" "[]" "[]"] srp_agreement by blast

text \<open>The client aborts exactly on the two values RFC 5054 tells it to abort on: a server key
  that is zero modulo the group, or a scrambling parameter of zero.\<close>

theorem srp_abort_conditions:
  "client_compute H username password salt server_public a = Inl e \<longleftrightarrow>
    (e = BZero \<and> group_n dvd from_be server_public) \<or>
    (e = UZero \<and> \<not> group_n dvd from_be server_public \<and>
      srp_u H (pad_to_n (SRP_G ^ a mod group_n) group_n) (pad_to_n (from_be server_public) group_n) = 0)"
  by (auto simp: client_compute_def Let_def is_zero_iff modpow_def dvd_eq_mod_eq_0)

end
