(* ===== verification/Hap.thy ===== *)
theory Hap
  imports Tlv8 Http Srp
begin

text \<open>
  HomeKit pairing, \<open>openplay-airplay/src/hap_pairing.rs\<close>: pair-setup (transient and with a PIN),
  pair-verify, the TLV error and state checks, and the table of paired devices. The
  primitives of the cryptographic crates are the fields of \<open>pairing_crypto\<close>. The other end of
  a connection is a \<open>peer\<close>: a function from the requests sent so far on the connection to the
  outcome of the last, which is the body \<open>recv_response\<close> returned or the error that ended the
  exchange; on the empty list it says whether the connection opened. Random values (secret
  exponents, signing keys, the pairing identifier) are arguments.

  The lemmas show that a handshake never succeeds without the check that makes it mean
  something (the server proof in M4, the accessory signature in M6 and in pair-verify M2),
  that an honest accessory is accepted and shares the session key, and that pair-verify
  identifies us by the identifier under which the accessory filed the pairing.
\<close>

section \<open>Data\<close>

record pairing_crypto =
  sha512 :: hash
  hkdf :: "bytes \<Rightarrow> bytes \<Rightarrow> bytes \<Rightarrow> bytes"
  aead_seal :: "bytes \<Rightarrow> bytes \<Rightarrow> bytes \<Rightarrow> bytes \<Rightarrow> bytes option"
  aead_open :: "bytes \<Rightarrow> bytes \<Rightarrow> bytes \<Rightarrow> bytes \<Rightarrow> bytes option"
  ed_public :: "bytes \<Rightarrow> bytes"
  ed_key_ok :: "bytes \<Rightarrow> bool"
  ed_sign :: "bytes \<Rightarrow> bytes \<Rightarrow> bytes"
  ed_verify :: "bytes \<Rightarrow> bytes \<Rightarrow> bytes \<Rightarrow> bool"
  x_public :: "bytes \<Rightarrow> bytes"
  x_dh :: "bytes \<Rightarrow> bytes \<Rightarrow> bytes"

record pair_setup_result =
  r_client_ltsk :: bytes
  r_client_ltpk :: bytes
  r_client_pairing_id :: string
  r_accessory_ltpk :: bytes
  r_accessory_id :: string

record paired_device =
  device_id :: string
  client_pairing_id :: string
  accessory_ltpk :: bytes
  client_ltsk :: bytes
  client_ltpk :: bytes

definition paired_from_result :: "pair_setup_result \<Rightarrow> paired_device" where
  "paired_from_result r =
     \<lparr> device_id = r_accessory_id r, client_pairing_id = r_client_pairing_id r,
       accessory_ltpk = r_accessory_ltpk r, client_ltsk = r_client_ltsk r,
       client_ltpk = r_client_ltpk r \<rparr>"

datatype hap_error =
    Http http_error
  | Tlv decode_error
  | Srp srp_error
  | HapBackOff "u64 option"
  | HapError u8 string
  | MissingState
  | UnexpectedState u8 u8
  | Missing string
  | ServerProofFailed
  | EncryptionFailed
  | DecryptionFailed
  | BadLength string
  | BadKey
  | BadSignature

definition PAIR_SETUP_USERNAME :: string where "PAIR_SETUP_USERNAME = ''Pair-Setup''"
definition TRANSIENT_PIN :: string where "TRANSIENT_PIN = ''3939''"
definition FLAG_TRANSIENT :: u8 where "FLAG_TRANSIENT = 0x10"


section \<open>TLV checks\<close>

definition check_state :: "tlv8_item list \<Rightarrow> u8 \<Rightarrow> hap_error + unit" where
  "check_state items expected =
     (case lookup items TAG_STATE of
        Some (s # _) \<Rightarrow> if s \<noteq> expected then Inl (UnexpectedState s expected) else Inr ()
      | _ \<Rightarrow> Inl MissingState)"

definition retry_delay_secs :: "tlv8_item list \<Rightarrow> u64 option" where
  "retry_delay_secs items =
     (case lookup items TAG_RETRY_DELAY of
        None \<Rightarrow> None
      | Some raw \<Rightarrow>
          if raw = [] \<or> length raw > 8 then None
          else Some (of_nat (from_le (raw @ replicate (8 - length raw) 0))))"

definition show_backoff :: "u64 option \<Rightarrow> string" where
  "show_backoff retry_after =
     ''HAP back-off (kTLVError_BackOff 0x03): the receiver is rate-limiting pairing attempts'' @
     (case retry_after of
        Some d \<Rightarrow> '' and asked to retry after '' @ show_radix 10 (unat d) @ '' s''
      | None \<Rightarrow> '' and sent no kTLVType_RetryDelay'') @
     ''. This is a retry-after, not an authentication failure '' @ [CHR 0xE2, CHR 0x80, CHR 0x94] @
     '' the PIN and keys are not implicated''"

definition error_text :: "u8 \<Rightarrow> string" where
  "error_text code =
     (if code = ERR_UNKNOWN then ''Unknown error''
      else if code = ERR_AUTHENTICATION then ''Authentication failed''
      else if code = ERR_MAX_PEERS then ''Maximum peers reached''
      else if code = ERR_MAX_TRIES then ''Maximum tries reached''
      else if code = ERR_UNAVAILABLE then ''Resource unavailable''
      else if code = ERR_BUSY then ''Device busy''
      else ''Unknown HAP error'')"

definition hap_error_text :: "u8 \<Rightarrow> string" where
  "hap_error_text code = ''HAP error '' @ show_radix 10 (unat code) @ '': '' @ error_text code"

definition check_error :: "tlv8_item list \<Rightarrow> hap_error + unit" where
  "check_error items =
     (case lookup items TAG_ERROR of
        None \<Rightarrow> Inr ()
      | Some [] \<Rightarrow> Inr ()
      | Some (code # _) \<Rightarrow>
          if code = ERR_NONE then Inr ()
          else if code = ERR_BACKOFF then Inl (HapBackOff (retry_delay_secs items))
          else Inl (HapError code (error_text code)))"

definition pairing_nonce :: "string \<Rightarrow> bytes" where
  "pairing_nonce label = replicate 4 0 @ str_bytes label"

text \<open>Decode a response and run both checks: the start of every step after a reply.\<close>

definition checked_items :: "u8 \<Rightarrow> http_error + bytes \<Rightarrow> hap_error + tlv8_item list" where
  "checked_items expected reply =
     (case reply of
        Inl e \<Rightarrow> Inl (Http e)
      | Inr body \<Rightarrow>
          (case tlv_decode body of
             Inl e \<Rightarrow> Inl (Tlv e)
           | Inr items \<Rightarrow>
               result_bind (check_error items) (\<lambda>_.
               result_bind (check_state items expected) (\<lambda>_. Inr items))))"

definition need :: "string \<Rightarrow> tlv8_item list \<Rightarrow> u8 \<Rightarrow> hap_error + bytes" where
  "need what items t = ok_or (Missing what) (lookup items t)"


section \<open>Pair-setup\<close>

definition setup_m1 :: "bool \<Rightarrow> bytes" where
  "setup_m1 transient =
     tlv_encode ([item_u8 TAG_STATE 1, item_u8 TAG_METHOD METHOD_PAIR_SETUP] @
       (if transient then [item_u8 TAG_FLAGS FLAG_TRANSIENT] else []))"

definition setup_m3 :: "client_session \<Rightarrow> bytes" where
  "setup_m3 c = tlv_encode [item_u8 TAG_STATE 3, item TAG_PUBLIC_KEY (public_a c), item TAG_PROOF (m1 c)]"

type_synonym peer = "bytes list \<Rightarrow> http_error + bytes"

definition connect :: "peer \<Rightarrow> hap_error + unit" where
  "connect peer = (case peer [] of Inl e \<Rightarrow> Inl (Http e) | Inr _ \<Rightarrow> Inr ())"

definition setup_client ::
  "pairing_crypto \<Rightarrow> string \<Rightarrow> nat \<Rightarrow> http_error + bytes \<Rightarrow> hap_error + client_session" where
  "setup_client C pin a reply2 =
     result_bind (checked_items 2 reply2) (\<lambda>items.
     result_bind (need ''server public key'' items TAG_PUBLIC_KEY) (\<lambda>server_pk.
     result_bind (need ''salt'' items TAG_SALT) (\<lambda>salt.
     case client_compute (sha512 C) (str_bytes PAIR_SETUP_USERNAME) (str_bytes pin) salt server_pk a of
       Inl e \<Rightarrow> Inl (Srp e)
     | Inr c \<Rightarrow> Inr c)))"

definition pair_setup_srp ::
  "pairing_crypto \<Rightarrow> peer \<Rightarrow> string \<Rightarrow> bool \<Rightarrow> nat \<Rightarrow> hap_error + bytes list \<times> bytes" where
  "pair_setup_srp C peer pin transient a =
     result_bind (connect peer) (\<lambda>_.
     let m1 = setup_m1 transient in
     result_bind (setup_client C pin a (peer [m1])) (\<lambda>c.
     let m3 = setup_m3 c in
     result_bind (checked_items 4 (peer [m1, m3])) (\<lambda>items.
     result_bind (need ''server proof'' items TAG_PROOF) (\<lambda>server_proof.
     if server_proof \<noteq> expected_m2 c then Inl ServerProofFailed
     else Inr ([m1, m3], session_key c)))))"

definition pair_setup_transient ::
  "pairing_crypto \<Rightarrow> peer \<Rightarrow> nat \<Rightarrow> hap_error + bytes list \<times> bytes" where
  "pair_setup_transient C peer a = pair_setup_srp C peer TRANSIENT_PIN True a"

definition setup_key :: "pairing_crypto \<Rightarrow> bytes \<Rightarrow> bytes" where
  "setup_key C key =
     hkdf C (str_bytes ''Pair-Setup-Encrypt-Salt'') key (str_bytes ''Pair-Setup-Encrypt-Info'')"

definition controller_x :: "pairing_crypto \<Rightarrow> bytes \<Rightarrow> bytes" where
  "controller_x C key =
     hkdf C (str_bytes ''Pair-Setup-Controller-Sign-Salt'') key
       (str_bytes ''Pair-Setup-Controller-Sign-Info'')"

definition accessory_x :: "pairing_crypto \<Rightarrow> bytes \<Rightarrow> bytes" where
  "accessory_x C key =
     hkdf C (str_bytes ''Pair-Setup-Accessory-Sign-Salt'') key
       (str_bytes ''Pair-Setup-Accessory-Sign-Info'')"

definition setup_m5_sub :: "pairing_crypto \<Rightarrow> bytes \<Rightarrow> bytes \<Rightarrow> string \<Rightarrow> bytes" where
  "setup_m5_sub C key ltsk pid =
     (let info = controller_x C key @ str_bytes pid @ ed_public C ltsk
      in tlv_encode [item TAG_IDENTIFIER (str_bytes pid), item TAG_PUBLIC_KEY (ed_public C ltsk),
           item TAG_SIGNATURE (ed_sign C ltsk info)])"

definition setup_m5 :: "pairing_crypto \<Rightarrow> bytes \<Rightarrow> bytes \<Rightarrow> string \<Rightarrow> hap_error + bytes" where
  "setup_m5 C key ltsk pid =
     (case aead_seal C (setup_key C key) (pairing_nonce ''PS-Msg05'') [] (setup_m5_sub C key ltsk pid) of
        None \<Rightarrow> Inl EncryptionFailed
      | Some sealed \<Rightarrow> Inr (tlv_encode [item_u8 TAG_STATE 5, item TAG_ENCRYPTED_DATA sealed]))"

definition decode_sub :: "bytes \<Rightarrow> hap_error + tlv8_item list" where
  "decode_sub b = (case tlv_decode b of Inl e \<Rightarrow> Inl (Tlv e) | Inr items \<Rightarrow> Inr items)"

definition open_with :: "pairing_crypto \<Rightarrow> bytes \<Rightarrow> string \<Rightarrow> bytes \<Rightarrow> hap_error + bytes" where
  "open_with C key label sealed = ok_or DecryptionFailed (aead_open C key (pairing_nonce label) [] sealed)"

text \<open>The signature check shared by M6 and pair-verify M2: the verifying key must be a key and the
  signature 64 bytes long.\<close>

definition verify_signature :: "pairing_crypto \<Rightarrow> bytes \<Rightarrow> bytes \<Rightarrow> bytes \<Rightarrow> hap_error + unit" where
  "verify_signature C pk info sig =
     (if \<not> ed_key_ok C pk then Inl BadKey
      else if length sig \<noteq> 64 then Inl (BadLength ''signature'')
      else if \<not> ed_verify C pk info sig then Inl BadSignature
      else Inr ())"

definition pair_setup_identity_exchange ::
  "pairing_crypto \<Rightarrow> peer \<Rightarrow> bytes list \<Rightarrow> bytes \<Rightarrow> bytes \<Rightarrow> string \<Rightarrow> hap_error + pair_setup_result" where
  "pair_setup_identity_exchange C peer sent key ltsk pid =
     result_bind (setup_m5 C key ltsk pid) (\<lambda>m5.
     result_bind (checked_items 6 (peer (sent @ [m5]))) (\<lambda>items.
     result_bind (need ''encrypted data'' items TAG_ENCRYPTED_DATA) (\<lambda>sealed.
     result_bind (open_with C (setup_key C key) ''PS-Msg06'' sealed) (\<lambda>plain.
     result_bind (decode_sub plain) (\<lambda>sub.
     result_bind (need ''accessory ID'' sub TAG_IDENTIFIER) (\<lambda>aid.
     result_bind (need ''accessory LTPK'' sub TAG_PUBLIC_KEY) (\<lambda>ltpk.
     result_bind (need ''accessory signature'' sub TAG_SIGNATURE) (\<lambda>sig.
     if length ltpk \<noteq> 32 then Inl (BadLength ''accessory LTPK'')
     else result_bind (verify_signature C ltpk (accessory_x C key @ aid @ ltpk) sig) (\<lambda>_.
       Inr \<lparr> r_client_ltsk = ltsk, r_client_ltpk = ed_public C ltsk, r_client_pairing_id = pid,
             r_accessory_ltpk = ltpk, r_accessory_id = lossy_str aid \<rparr>)))))))))"

definition pair_setup ::
  "pairing_crypto \<Rightarrow> peer \<Rightarrow> string \<Rightarrow> nat \<Rightarrow> bytes \<Rightarrow> string \<Rightarrow> hap_error + pair_setup_result" where
  "pair_setup C peer pin a ltsk pid =
     result_bind (pair_setup_srp C peer pin False a) (\<lambda>(sent, key).
     pair_setup_identity_exchange C peer sent key ltsk pid)"


section \<open>Pair-verify\<close>

definition verify_m1 :: "pairing_crypto \<Rightarrow> bytes \<Rightarrow> bytes" where
  "verify_m1 C eph = tlv_encode [item_u8 TAG_STATE 1, item TAG_PUBLIC_KEY (x_public C eph)]"

definition verify_key :: "pairing_crypto \<Rightarrow> bytes \<Rightarrow> bytes" where
  "verify_key C secret =
     hkdf C (str_bytes ''Pair-Verify-Encrypt-Salt'') secret (str_bytes ''Pair-Verify-Encrypt-Info'')"

definition verify_m3_sub_tlv :: "pairing_crypto \<Rightarrow> bytes \<Rightarrow> string \<Rightarrow> bytes \<Rightarrow> bytes \<Rightarrow> bytes" where
  "verify_m3_sub_tlv C ltsk pid client_epk accessory_epk =
     tlv_encode [item TAG_IDENTIFIER (str_bytes pid),
       item TAG_SIGNATURE (ed_sign C ltsk (client_epk @ str_bytes pid @ accessory_epk))]"

text \<open>M2 to M3: the session key and the M3 message.\<close>

definition verify_respond ::
  "pairing_crypto \<Rightarrow> paired_device \<Rightarrow> bytes \<Rightarrow> http_error + bytes \<Rightarrow> hap_error + bytes \<times> bytes" where
  "verify_respond C paired eph reply2 =
     result_bind (checked_items 2 reply2) (\<lambda>items.
     result_bind (need ''server ephemeral PK'' items TAG_PUBLIC_KEY) (\<lambda>server_epk.
     result_bind (need ''encrypted data'' items TAG_ENCRYPTED_DATA) (\<lambda>sealed.
     if length server_epk \<noteq> 32 then Inl (BadLength ''server EPK'')
     else let key = verify_key C (x_dh C eph server_epk) in
       result_bind (open_with C key ''PV-Msg02'' sealed) (\<lambda>plain.
       result_bind (decode_sub plain) (\<lambda>sub.
       result_bind (need ''identifier'' sub TAG_IDENTIFIER) (\<lambda>server_id.
       result_bind (need ''signature'' sub TAG_SIGNATURE) (\<lambda>sig.
       result_bind (verify_signature C (accessory_ltpk paired)
           (server_epk @ server_id @ x_public C eph) sig) (\<lambda>_.
       case aead_seal C key (pairing_nonce ''PV-Msg03'') []
           (verify_m3_sub_tlv C (client_ltsk paired) (client_pairing_id paired) (x_public C eph) server_epk) of
         None \<Rightarrow> Inl EncryptionFailed
       | Some sealed3 \<Rightarrow>
           Inr (key, tlv_encode [item_u8 TAG_STATE 3, item TAG_ENCRYPTED_DATA sealed3])))))))))"

definition pair_verify :: "pairing_crypto \<Rightarrow> peer \<Rightarrow> paired_device \<Rightarrow> bytes \<Rightarrow> hap_error + bytes" where
  "pair_verify C peer paired eph =
     result_bind (connect peer) (\<lambda>_.
     let m1 = verify_m1 C eph in
     result_bind (verify_respond C paired eph (peer [m1])) (\<lambda>(key, m3).
     result_bind (checked_items 4 (peer [m1, m3])) (\<lambda>_. Inr key)))"


section \<open>The table of paired devices\<close>

text \<open>The rows of \<open>paired_devices\<close>, primary key \<open>device_id\<close>; the blobs are as wide as what was
  stored. \<open>INSERT OR REPLACE\<close> removes a row with the same key first.\<close>

record paired_row =
  row_device_id :: string
  row_client_pairing_id :: string
  row_accessory_ltpk :: bytes
  row_client_ltsk :: bytes
  row_client_ltpk :: bytes

type_synonym paired_db = "paired_row list"

definition row_of :: "paired_device \<Rightarrow> paired_row" where
  "row_of d = \<lparr> row_device_id = device_id d, row_client_pairing_id = client_pairing_id d,
     row_accessory_ltpk = accessory_ltpk d, row_client_ltsk = client_ltsk d,
     row_client_ltpk = client_ltpk d \<rparr>"

definition store_paired_device :: "paired_device \<Rightarrow> paired_db \<Rightarrow> paired_db" where
  "store_paired_device d db = filter (\<lambda>r. row_device_id r \<noteq> device_id d) db @ [row_of d]"

definition load_paired_device :: "paired_db \<Rightarrow> string \<Rightarrow> hap_error + paired_device option" where
  "load_paired_device db i =
     (case find (\<lambda>r. row_device_id r = i) db of
        None \<Rightarrow> Inr None
      | Some r \<Rightarrow>
          if length (row_accessory_ltpk r) \<noteq> 32 then Inl (BadLength ''LTPK'')
          else if length (row_client_ltsk r) \<noteq> 32 then Inl (BadLength ''LTSK'')
          else if length (row_client_ltpk r) \<noteq> 32 then Inl (BadLength ''client LTPK'')
          else Inr (Some \<lparr> device_id = row_device_id r, client_pairing_id = row_client_pairing_id r,
                 accessory_ltpk = row_accessory_ltpk r, client_ltsk = row_client_ltsk r,
                 client_ltpk = row_client_ltpk r \<rparr>))"

definition list_paired_devices :: "paired_db \<Rightarrow> string list" where
  "list_paired_devices db = map row_device_id db"

text \<open>What the callers rely on: a keyed store with distinct keys.\<close>

locale keyed_store =
  fixes keys :: "'db \<Rightarrow> 'k list"
    and put :: "'v \<Rightarrow> 'db \<Rightarrow> 'db"
    and get :: "'db \<Rightarrow> 'k \<Rightarrow> 'r"
    and key :: "'v \<Rightarrow> 'k"
    and found :: "'v \<Rightarrow> 'r"
    and good :: "'v \<Rightarrow> bool"
  assumes put_distinct: "distinct (keys db) \<Longrightarrow> distinct (keys (put v db))"
    and put_keys: "set (keys (put v db)) = insert (key v) (set (keys db))"
    and get_put_same: "good v \<Longrightarrow> get (put v db) (key v) = found v"
    and get_put_other: "k \<noteq> key v \<Longrightarrow> get (put v db) k = get db k"
begin

definition put_all :: "'v list \<Rightarrow> 'db \<Rightarrow> 'db" where
  "put_all vs db = foldl (\<lambda>db v. put v db) db vs"

lemma put_all_distinct: "distinct (keys db) \<Longrightarrow> distinct (keys (put_all vs db))"
  by (induction vs arbitrary: db) (auto simp: put_all_def put_distinct)

lemma put_all_keys: "set (keys (put_all vs db)) = key ` set vs \<union> set (keys db)"
  by (induction vs arbitrary: db) (auto simp: put_all_def put_keys)

lemma put_all_untouched: "k \<notin> key ` set vs \<Longrightarrow> get (put_all vs db) k = get db k"
  by (induction vs arbitrary: db) (auto simp: put_all_def get_put_other)

lemma put_all_latest:
  "good v \<Longrightarrow> key v \<notin> key ` set later \<Longrightarrow> get (put_all (earlier @ v # later) db) (key v) = found v"
proof -
  assume "good v" "key v \<notin> key ` set later"
  then have "get (put_all later (put v (put_all earlier db))) (key v) = found v"
    by (simp add: put_all_untouched get_put_same)
  then show ?thesis by (simp add: put_all_def)
qed

end

definition device_ok :: "paired_device \<Rightarrow> bool" where
  "device_ok d \<longleftrightarrow> length (accessory_ltpk d) = 32 \<and> length (client_ltsk d) = 32 \<and>
     length (client_ltpk d) = 32"

lemma find_append: "find P (xs @ ys) = (case find P xs of None \<Rightarrow> find P ys | Some x \<Rightarrow> Some x)"
  by (induction xs) auto

lemma find_filter_other:
  "(\<And>x. P x \<Longrightarrow> Q x) \<Longrightarrow> find P (filter Q xs) = find P xs"
  by (induction xs) auto

interpretation paired: keyed_store list_paired_devices store_paired_device load_paired_device
  device_id "\<lambda>d. Inr (Some d)" device_ok
proof (unfold_locales, goal_cases)
  case (1 db v)
  then show ?case
    by (auto simp: list_paired_devices_def store_paired_device_def row_of_def distinct_map_filter)
next
  case (2 v db)
  then show ?case
    by (auto simp: list_paired_devices_def store_paired_device_def row_of_def)
next
  case (3 v db)
  have "find (\<lambda>r. row_device_id r = device_id v) (filter (\<lambda>r. row_device_id r \<noteq> device_id v) db) = None"
    by (simp add: find_None_iff)
  with 3 show ?case
    by (cases v) (simp add: load_paired_device_def store_paired_device_def find_append row_of_def device_ok_def)
next
  case (4 k v db)
  then have "find (\<lambda>r. row_device_id r = k) (filter (\<lambda>r. row_device_id r \<noteq> device_id v) db) =
      find (\<lambda>r. row_device_id r = k) db"
    by (intro find_filter_other) auto
  with 4 show ?case
    by (simp add: load_paired_device_def store_paired_device_def find_append row_of_def
        split: option.splits)
qed



section \<open>Lemmas\<close>

lemmas tag_defs = TAG_METHOD_def TAG_IDENTIFIER_def TAG_SALT_def TAG_PUBLIC_KEY_def TAG_PROOF_def
  TAG_ENCRYPTED_DATA_def TAG_STATE_def TAG_ERROR_def TAG_RETRY_DELAY_def TAG_SIGNATURE_def
  TAG_FLAGS_def

lemmas item_defs = item_def item_u8_def

lemma checked_items_encoded:
  assumes "distinct_adj (map tag items)"
  shows "checked_items st (Inr (tlv_encode items)) =
    result_bind (check_error items) (\<lambda>_. result_bind (check_state items st) (\<lambda>_. Inr items))"
  by (simp add: checked_items_def tlv.decode_encode [OF assms])

lemma checked_items_ok:
  "checked_items st reply = Inr items \<Longrightarrow>
   \<exists>body rest. reply = Inr body \<and> tlv_decode body = Inr items \<and> lookup items TAG_STATE = Some (st # rest)"
  by (auto simp: checked_items_def check_state_def error_simps split: sum.splits option.splits list.splits
      if_splits)

lemma need_ok [error_simps]: "need w items t = Inr v \<longleftrightarrow> lookup items t = Some v"
  by (simp add: need_def error_simps)

lemma verify_signature_ok [error_simps]:
  "verify_signature C pk info sig = Inr u \<longleftrightarrow> ed_key_ok C pk \<and> length sig = 64 \<and> ed_verify C pk info sig"
  by (simp add: verify_signature_def)

lemma open_with_ok [error_simps]:
  "open_with C k l c = Inr p \<longleftrightarrow> aead_open C k (pairing_nonce l) [] c = Some p"
  by (simp add: open_with_def error_simps)

lemma decode_sub_ok [error_simps]: "decode_sub b = Inr items \<longleftrightarrow> tlv_decode b = Inr items"
  by (auto simp: decode_sub_def split: sum.splits)

lemma connect_ok [error_simps]: "connect peer = Inr u \<longleftrightarrow> (\<exists>r. peer [] = Inr r)"
  by (auto simp: connect_def split: sum.splits)

lemma pair_setup_srp_ok:
  "pair_setup_srp C peer pin tr a = Inr (sent, k) \<longleftrightarrow>
   (\<exists>r c items. peer [] = Inr r \<and> setup_client C pin a (peer [setup_m1 tr]) = Inr c \<and>
     sent = [setup_m1 tr, setup_m3 c] \<and> checked_items 4 (peer sent) = Inr items \<and>
     lookup items TAG_PROOF = Some (expected_m2 c) \<and> k = session_key c)"
  by (auto simp: pair_setup_srp_def error_simps Let_def split: if_splits)

lemmas encoded_items = checked_items_encoded item_defs tag_defs check_error_def check_state_def lookup_def

lemma setup_client_honest:
  assumes "client_compute (sha512 C) (str_bytes PAIR_SETUP_USERNAME) (str_bytes pin) salt pk a = Inr c"
  shows "setup_client C pin a (Inr (tlv_encode [item_u8 TAG_STATE 2, item TAG_SALT salt,
    item TAG_PUBLIC_KEY pk])) = Inr c"
  using assms by (simp add: setup_client_def encoded_items need_def)

lemma from_le_pad: "from_le (raw @ replicate k 0) = from_le raw"
  by (simp add: from_le_append from_le_zeros)


section \<open>A specification accessory\<close>

text \<open>The other side of the HAP specification: an accessory that knows a PIN, checks the proof of
  M3, the signature of M5 and of pair-verify M3, files a pairing under the identifier M5
  names and looks it up by the identifier pair-verify M3 names. It reads every message
  through the TLV decoder.\<close>

record accessory =
  acc_id :: bytes
  acc_ltsk :: bytes
  acc_pin :: string
  acc_salt :: bytes
  acc_b :: nat
  acc_eph :: bytes

definition acc_verifier :: "pairing_crypto \<Rightarrow> accessory \<Rightarrow> nat" where
  "acc_verifier C acc =
     verifier (sha512 C) (str_bytes PAIR_SETUP_USERNAME) (str_bytes (acc_pin acc)) (acc_salt acc)"

definition acc_public :: "pairing_crypto \<Rightarrow> accessory \<Rightarrow> bytes" where
  "acc_public C acc = pad_to_n (server_public_key (sha512 C) (acc_verifier C acc) (acc_b acc)) group_n"

definition acc_key :: "pairing_crypto \<Rightarrow> accessory \<Rightarrow> bytes \<Rightarrow> bytes" where
  "acc_key C acc a_bytes = server_key (sha512 C) (acc_verifier C acc) (acc_b acc) a_bytes"

definition acc_proof :: "pairing_crypto \<Rightarrow> accessory \<Rightarrow> bytes \<Rightarrow> bytes" where
  "acc_proof C acc a_bytes =
     srp_m1 (sha512 C) (str_bytes PAIR_SETUP_USERNAME) (acc_salt acc) a_bytes (acc_public C acc)
       (acc_key C acc a_bytes)"

definition field :: "bytes \<Rightarrow> u8 \<Rightarrow> bytes" where
  "field msg t =
     (case tlv_decode msg of Inl _ \<Rightarrow> [] | Inr items \<Rightarrow>
        (case lookup items t of None \<Rightarrow> [] | Some v \<Rightarrow> v))"

definition refuse :: "u8 \<Rightarrow> bytes" where
  "refuse st = tlv_encode [item_u8 TAG_STATE st, item_u8 TAG_ERROR ERR_AUTHENTICATION]"

text \<open>What M5 asks the accessory to file: an identifier and a key, if the signature holds.\<close>

definition acc_register :: "pairing_crypto \<Rightarrow> bytes \<Rightarrow> bytes \<Rightarrow> (bytes \<times> bytes) option" where
  "acc_register C key m5 =
     (case aead_open C (setup_key C key) (pairing_nonce ''PS-Msg05'') [] (field m5 TAG_ENCRYPTED_DATA) of
        None \<Rightarrow> None
      | Some sub \<Rightarrow>
          (let i = field sub TAG_IDENTIFIER; pk = field sub TAG_PUBLIC_KEY
           in if ed_verify C pk (controller_x C key @ i @ pk) (field sub TAG_SIGNATURE)
              then Some (i, pk) else None))"

definition acc_m6_sub :: "pairing_crypto \<Rightarrow> accessory \<Rightarrow> bytes \<Rightarrow> bytes" where
  "acc_m6_sub C acc key =
     (let pk = ed_public C (acc_ltsk acc)
      in tlv_encode [item TAG_IDENTIFIER (acc_id acc), item TAG_PUBLIC_KEY pk,
           item TAG_SIGNATURE (ed_sign C (acc_ltsk acc) (accessory_x C key @ acc_id acc @ pk))])"

definition sealed_reply :: "u8 \<Rightarrow> tlv8_item list \<Rightarrow> bytes option \<Rightarrow> bytes" where
  "sealed_reply st extra sealed =
     (case sealed of None \<Rightarrow> refuse st
      | Some c \<Rightarrow> tlv_encode ([item_u8 TAG_STATE st] @ extra @ [item TAG_ENCRYPTED_DATA c]))"

fun accessory_setup :: "pairing_crypto \<Rightarrow> accessory \<Rightarrow> peer" where
  "accessory_setup C acc [] = Inr []"
| "accessory_setup C acc [q1] =
     Inr (tlv_encode [item_u8 TAG_STATE 2, item TAG_SALT (acc_salt acc),
       item TAG_PUBLIC_KEY (acc_public C acc)])"
| "accessory_setup C acc [q1, q3] =
     (let a = field q3 TAG_PUBLIC_KEY
      in if field q3 TAG_PROOF \<noteq> acc_proof C acc a then Inr (refuse 4)
         else Inr (tlv_encode [item_u8 TAG_STATE 4,
           item TAG_PROOF (srp_m2 (sha512 C) a (acc_proof C acc a) (acc_key C acc a))]))"
| "accessory_setup C acc [q1, q3, q5] =
     (let key = acc_key C acc (field q3 TAG_PUBLIC_KEY)
      in case acc_register C key q5 of None \<Rightarrow> Inr (refuse 6)
         | Some _ \<Rightarrow> Inr (sealed_reply 6 []
             (aead_seal C (setup_key C key) (pairing_nonce ''PS-Msg06'') [] (acc_m6_sub C acc key))))"
| "accessory_setup C acc _ = Inl ConnectionClosed"

definition acc_verify_key :: "pairing_crypto \<Rightarrow> accessory \<Rightarrow> bytes \<Rightarrow> bytes" where
  "acc_verify_key C acc client_epk = verify_key C (x_dh C (acc_eph acc) client_epk)"

definition acc_verify_sub :: "pairing_crypto \<Rightarrow> accessory \<Rightarrow> bytes \<Rightarrow> bytes" where
  "acc_verify_sub C acc client_epk =
     tlv_encode [item TAG_IDENTIFIER (acc_id acc),
       item TAG_SIGNATURE (ed_sign C (acc_ltsk acc)
         (x_public C (acc_eph acc) @ acc_id acc @ client_epk))]"

definition acc_accepts :: "pairing_crypto \<Rightarrow> accessory \<Rightarrow> (bytes \<rightharpoonup> bytes) \<Rightarrow> bytes \<Rightarrow> bytes \<Rightarrow> bool" where
  "acc_accepts C acc filed client_epk q3 =
     (case aead_open C (acc_verify_key C acc client_epk) (pairing_nonce ''PV-Msg03'') []
         (field q3 TAG_ENCRYPTED_DATA) of
        None \<Rightarrow> False
      | Some sub \<Rightarrow>
          (case filed (field sub TAG_IDENTIFIER) of
             None \<Rightarrow> False
           | Some pk \<Rightarrow> ed_verify C pk
               (client_epk @ field sub TAG_IDENTIFIER @ x_public C (acc_eph acc)) (field sub TAG_SIGNATURE)))"

fun accessory_verify :: "pairing_crypto \<Rightarrow> accessory \<Rightarrow> (bytes \<rightharpoonup> bytes) \<Rightarrow> peer" where
  "accessory_verify C acc filed [] = Inr []"
| "accessory_verify C acc filed [q1] =
     (let epk = field q1 TAG_PUBLIC_KEY
      in Inr (sealed_reply 2 [item TAG_PUBLIC_KEY (x_public C (acc_eph acc))]
        (aead_seal C (acc_verify_key C acc epk) (pairing_nonce ''PV-Msg02'') []
          (acc_verify_sub C acc epk))))"
| "accessory_verify C acc filed [q1, q3] =
     Inr (if acc_accepts C acc filed (field q1 TAG_PUBLIC_KEY) q3
          then tlv_encode [item_u8 TAG_STATE 4] else refuse 4)"
| "accessory_verify C acc filed _ = Inl ConnectionClosed"

text \<open>What the primitives promise: sealing succeeds on messages below 64 KiB and opening inverts it;
  a signature verifies under the public key of its secret key; the key exchange commutes;
  keys and signatures have their documented sizes.\<close>

definition lawful :: "pairing_crypto \<Rightarrow> bool" where
  "lawful C \<longleftrightarrow>
     (\<forall>k n ad p. length p < 65536 \<longrightarrow>
       (\<exists>c. aead_seal C k n ad p = Some c \<and> aead_open C k n ad c = Some p)) \<and>
     (\<forall>sk m. ed_verify C (ed_public C sk) m (ed_sign C sk m) \<and> ed_key_ok C (ed_public C sk) \<and>
       length (ed_public C sk) = 32 \<and> length (ed_sign C sk m) = 64) \<and>
     (\<forall>s t. x_dh C s (x_public C t) = x_dh C t (x_public C s) \<and> length (x_public C s) = 32)"

definition acc_ok :: "accessory \<Rightarrow> bool" where
  "acc_ok acc \<longleftrightarrow> length (acc_id acc) < 1000"

lemma tlv_encode_length:
  "length (tlv_encode items) \<le> 3 * sum_list (map (length \<circ> val) items) + 2 * length items"
proof (induction items)
  case (Cons i items)
  have "length (concat (map (encode_chunk t) cs)) \<le> 3 * length (concat cs)"
    if "\<forall>c \<in> set cs. c \<noteq> []" for t cs
    using that
  proof (induction cs)
    case (Cons c cs)
    then have "1 \<le> length c" by (cases c) auto
    with Cons show ?case by (simp add: encode_chunk_def)
  qed simp
  moreover have "c \<noteq> []" if "c \<in> set (chunks255 v)" for c v
    using that by (induction v rule: chunks255.induct) auto
  ultimately have "length (encode_item t v) \<le> 3 * length v + 2" for t v
    by (metis (no_types, lifting) chunks255_concat encode_item_def le_add2 length_Cons list.size(3)
        numeral_2_eq_2 order_trans trans_le_add1)
  from this [of "tag i" "val i"] Cons show ?case by (simp add: tlv_encode_def)
qed (simp add: tlv_encode_def)

lemma field_encoded:
  "distinct_adj (map tag items) \<Longrightarrow>
   field (tlv_encode items) t = (case lookup items t of None \<Rightarrow> [] | Some v \<Rightarrow> v)"
  by (simp add: field_def tlv.decode_encode)

lemma setup_m3_fields:
  "field (setup_m3 c) TAG_PUBLIC_KEY = public_a c" "field (setup_m3 c) TAG_PROOF = m1 c"
  by (simp_all add: setup_m3_def field_encoded item_defs tag_defs lookup_def)

lemma honest_srp:
  assumes "client_compute (sha512 C) (str_bytes PAIR_SETUP_USERNAME) (str_bytes (acc_pin acc))
    (acc_salt acc) (acc_public C acc) a = Inr c"
  shows "pair_setup_srp C (accessory_setup C acc) (acc_pin acc) tr a =
    Inr ([setup_m1 tr, setup_m3 c], acc_key C acc (public_a c))"
proof -
  note agree = srp_agree [OF assms [unfolded acc_public_def acc_verifier_def],
    folded acc_verifier_def, folded acc_public_def acc_key_def, folded acc_proof_def]
  have "setup_client C (acc_pin acc) a (accessory_setup C acc [setup_m1 tr]) = Inr c"
    using setup_client_honest [OF assms] by simp
  moreover have "accessory_setup C acc [setup_m1 tr, setup_m3 c] =
      Inr (tlv_encode [item_u8 TAG_STATE 4, item TAG_PROOF (expected_m2 c)])"
    using agree by (simp add: setup_m3_fields Let_def)
  moreover have "checked_items 4 (Inr (tlv_encode [item_u8 TAG_STATE 4, item TAG_PROOF p])) =
      Inr [item_u8 TAG_STATE 4, item TAG_PROOF p]" for p
    by (simp add: encoded_items)
  moreover have "lookup [item_u8 TAG_STATE 4, item TAG_PROOF p] TAG_PROOF = Some p" for p
    by (simp add: item_defs tag_defs lookup_def)
  ultimately show ?thesis unfolding pair_setup_srp_ok using agree(1) by auto
qed

lemma lawful_seal:
  assumes "lawful C" and "length p < 65536"
  obtains c where "aead_seal C k n ad p = Some c" "aead_open C k n ad c = Some p"
  using assms unfolding lawful_def by blast

lemma lawful_keys:
  assumes "lawful C"
  shows "ed_verify C (ed_public C sk) m (ed_sign C sk m)" "ed_key_ok C (ed_public C sk)"
    "length (ed_public C sk) = 32" "length (ed_sign C sk m) = 64" "length (x_public C s) = 32"
    "x_dh C s (x_public C t) = x_dh C t (x_public C s)"
  using assms unfolding lawful_def by auto

lemma honest_register:
  assumes "lawful C" and "length pid < 1000"
  obtains m5 where "setup_m5 C key ltsk pid = Inr m5"
    "acc_register C key m5 = Some (str_bytes pid, ed_public C ltsk)"
proof -
  have "length (setup_m5_sub C key ltsk pid) < 65536"
    using tlv_encode_length [of "[item TAG_IDENTIFIER (str_bytes pid), item TAG_PUBLIC_KEY (ed_public C ltsk),
        item TAG_SIGNATURE (ed_sign C ltsk (controller_x C key @ str_bytes pid @ ed_public C ltsk))]"]
      assms lawful_keys(3,4) [OF assms(1)]
    by (simp add: setup_m5_sub_def Let_def item_def)
  from lawful_seal [OF assms(1) this] obtain c where
    c: "aead_seal C (setup_key C key) (pairing_nonce ''PS-Msg05'') [] (setup_m5_sub C key ltsk pid) = Some c"
      "aead_open C (setup_key C key) (pairing_nonce ''PS-Msg05'') [] c = Some (setup_m5_sub C key ltsk pid)"
    by blast
  have "field (tlv_encode [item_u8 TAG_STATE 5, item TAG_ENCRYPTED_DATA c]) TAG_ENCRYPTED_DATA = c"
    by (simp add: field_encoded item_defs tag_defs lookup_def)
  with c that lawful_keys(1) [OF assms(1)] show thesis
    by (simp add: setup_m5_def acc_register_def setup_m5_sub_def Let_def field_encoded item_defs tag_defs
        lookup_def)
qed

lemma honest_identity:
  assumes "lawful C" and "acc_ok acc" and "length pid < 1000" and "key = acc_key C acc (public_a c)"
    and "setup_m5 C key ltsk pid = Inr m5" and "acc_register C key m5 = Some r"
  shows "pair_setup_identity_exchange C (accessory_setup C acc) [q1, setup_m3 c] key ltsk pid =
    Inr \<lparr> r_client_ltsk = ltsk, r_client_ltpk = ed_public C ltsk, r_client_pairing_id = pid,
          r_accessory_ltpk = ed_public C (acc_ltsk acc), r_accessory_id = lossy_str (acc_id acc) \<rparr>"
proof -
  have "length (acc_m6_sub C acc key) < 65536"
    using tlv_encode_length [of "[item TAG_IDENTIFIER (acc_id acc),
        item TAG_PUBLIC_KEY (ed_public C (acc_ltsk acc)),
        item TAG_SIGNATURE (ed_sign C (acc_ltsk acc)
          (accessory_x C key @ acc_id acc @ ed_public C (acc_ltsk acc)))]"]
      assms(2) lawful_keys(3,4) [OF assms(1)]
    by (simp add: acc_m6_sub_def Let_def item_def acc_ok_def)
  from lawful_seal [OF assms(1) this] obtain s where
    s: "aead_seal C (setup_key C key) (pairing_nonce ''PS-Msg06'') [] (acc_m6_sub C acc key) = Some s"
      "aead_open C (setup_key C key) (pairing_nonce ''PS-Msg06'') [] s = Some (acc_m6_sub C acc key)"
    by blast
  have "accessory_setup C acc [q1, setup_m3 c, m5] =
      Inr (tlv_encode [item_u8 TAG_STATE 6, item TAG_ENCRYPTED_DATA s])"
    using s assms(4,6) by (simp add: setup_m3_fields sealed_reply_def Let_def)
  moreover have "decode_sub (acc_m6_sub C acc key) = Inr [item TAG_IDENTIFIER (acc_id acc),
      item TAG_PUBLIC_KEY (ed_public C (acc_ltsk acc)), item TAG_SIGNATURE (ed_sign C (acc_ltsk acc)
        (accessory_x C key @ acc_id acc @ ed_public C (acc_ltsk acc)))]"
    by (simp add: decode_sub_ok acc_m6_sub_def Let_def tlv.decode_encode item_defs tag_defs)
  ultimately show ?thesis
    using s(2) assms(5) lawful_keys [OF assms(1)]
    by (simp add: pair_setup_identity_exchange_def encoded_items need_def open_with_def
        verify_signature_def error_simps)
qed

lemma honest_verify:
  assumes law: "lawful C" and "acc_ok acc" and "length (client_pairing_id p) < 1000"
    and "filed (str_bytes (client_pairing_id p)) = Some (ed_public C (client_ltsk p))"
    and "accessory_ltpk p = ed_public C (acc_ltsk acc)"
  shows "pair_verify C (accessory_verify C acc filed) p eph = Inr (acc_verify_key C acc (x_public C eph))"
proof -
  let ?epk = "x_public C eph" and ?server = "x_public C (acc_eph acc)"
  let ?key = "acc_verify_key C acc ?epk"
  let ?sub = "verify_m3_sub_tlv C (client_ltsk p) (client_pairing_id p) ?epk ?server"
  have key: "verify_key C (x_dh C eph ?server) = ?key"
    using lawful_keys(6) [OF law] by (simp add: acc_verify_key_def)
  have "length (acc_verify_sub C acc ?epk) < 65536"
    using tlv_encode_length [of "[item TAG_IDENTIFIER (acc_id acc), item TAG_SIGNATURE
        (ed_sign C (acc_ltsk acc) (?server @ acc_id acc @ ?epk))]"]
      assms(2) lawful_keys(4) [OF law] by (simp add: acc_verify_sub_def item_def acc_ok_def)
  from lawful_seal [OF law this] obtain s2 where
    s2: "aead_seal C ?key (pairing_nonce ''PV-Msg02'') [] (acc_verify_sub C acc ?epk) = Some s2"
      "aead_open C ?key (pairing_nonce ''PV-Msg02'') [] s2 = Some (acc_verify_sub C acc ?epk)"
    by blast
  have "length ?sub < 65536"
    using tlv_encode_length [of "[item TAG_IDENTIFIER (str_bytes (client_pairing_id p)), item TAG_SIGNATURE
        (ed_sign C (client_ltsk p) (?epk @ str_bytes (client_pairing_id p) @ ?server))]"]
      assms(3) lawful_keys(4) [OF law] by (simp add: verify_m3_sub_tlv_def item_def)
  from lawful_seal [OF law this] obtain s3 where
    s3: "aead_seal C ?key (pairing_nonce ''PV-Msg03'') [] ?sub = Some s3"
      "aead_open C ?key (pairing_nonce ''PV-Msg03'') [] s3 = Some ?sub"
    by blast
  let ?m3 = "tlv_encode [item_u8 TAG_STATE 3, item TAG_ENCRYPTED_DATA s3]"
  have m1: "field (verify_m1 C eph) TAG_PUBLIC_KEY = ?epk"
    by (simp add: verify_m1_def field_encoded item_defs tag_defs lookup_def)
  have "decode_sub (acc_verify_sub C acc ?epk) = Inr [item TAG_IDENTIFIER (acc_id acc),
      item TAG_SIGNATURE (ed_sign C (acc_ltsk acc) (?server @ acc_id acc @ ?epk))]"
    by (simp add: decode_sub_ok acc_verify_sub_def tlv.decode_encode item_defs tag_defs)
  then have "verify_respond C p eph (accessory_verify C acc filed [verify_m1 C eph]) = Inr (?key, ?m3)"
    using s2 s3(1) assms(5) lawful_keys [OF law] key m1
    by (simp add: verify_respond_def sealed_reply_def encoded_items need_def open_with_def
        verify_signature_def error_simps Let_def)
  moreover have "field ?m3 TAG_ENCRYPTED_DATA = s3"
    by (simp add: field_encoded item_defs tag_defs lookup_def)
  then have "acc_accepts C acc filed ?epk ?m3"
    using s3(2) assms(4) lawful_keys(1) [OF law]
    by (simp add: acc_accepts_def verify_m3_sub_tlv_def field_encoded item_defs tag_defs lookup_def)
  ultimately show ?thesis
    using m1 by (simp add: pair_verify_def connect_def encoded_items Let_def)
qed


section \<open>Properties\<close>

text \<open>C13. Pairing with a PIN works end to end and lasts: against an accessory of the HAP
  specification that knows the PIN, with primitives that keep their promises and an SRP run
  that does not abort, pair-setup succeeds and returns the accessory's long-term key; the
  accessory has filed our key under the identifier we recorded; and with the record made
  from that result every later pair-verify against that accessory succeeds, with the session
  key the accessory derives.\<close>

theorem pairing_then_verify:
  assumes "lawful C" and "acc_ok acc" and "length pid < 1000"
    and "client_compute (sha512 C) (str_bytes PAIR_SETUP_USERNAME) (str_bytes (acc_pin acc))
      (acc_salt acc) (acc_public C acc) a = Inr c"
  shows "\<exists>res m5. pair_setup C (accessory_setup C acc) (acc_pin acc) a ltsk pid = Inr res \<and>
    r_accessory_ltpk res = ed_public C (acc_ltsk acc) \<and>
    setup_m5 C (acc_key C acc (public_a c)) ltsk pid = Inr m5 \<and>
    acc_register C (acc_key C acc (public_a c)) m5 = Some (str_bytes pid, ed_public C ltsk) \<and>
    (\<forall>eph. pair_verify C (accessory_verify C acc [str_bytes pid \<mapsto> ed_public C ltsk])
      (paired_from_result res) eph = Inr (acc_verify_key C acc (x_public C eph)))"
proof -
  obtain m5 where m5: "setup_m5 C (acc_key C acc (public_a c)) ltsk pid = Inr m5"
    "acc_register C (acc_key C acc (public_a c)) m5 = Some (str_bytes pid, ed_public C ltsk)"
    using honest_register [OF assms(1,3)] by blast
  have "pair_setup C (accessory_setup C acc) (acc_pin acc) a ltsk pid =
    Inr \<lparr> r_client_ltsk = ltsk, r_client_ltpk = ed_public C ltsk, r_client_pairing_id = pid,
          r_accessory_ltpk = ed_public C (acc_ltsk acc), r_accessory_id = lossy_str (acc_id acc) \<rparr>"
    using honest_srp [OF assms(4)] honest_identity [OF assms(1-3) refl m5] by (simp add: pair_setup_def)
  with m5 show ?thesis
    using honest_verify [OF assms(1,2)] assms(3) by (simp add: paired_from_result_def)
qed

definition toy_crypto :: pairing_crypto where
  "toy_crypto = \<lparr> sha512 = (\<lambda>_. [1]), hkdf = (\<lambda>_ k _. k), aead_seal = (\<lambda>_ _ _ p. Some p),
     aead_open = (\<lambda>_ _ _ p. Some p), ed_public = (\<lambda>_. replicate 32 7), ed_key_ok = (\<lambda>_. True),
     ed_sign = (\<lambda>_ _. replicate 64 9), ed_verify = (\<lambda>_ _ s. s = replicate 64 9),
     x_public = (\<lambda>_. replicate 32 5), x_dh = (\<lambda>_ _. [3]) \<rparr>"

definition toy_accessory :: accessory where
  "toy_accessory = \<lparr> acc_id = [65], acc_ltsk = [], acc_pin = ''1234'', acc_salt = [2], acc_b = 1,
     acc_eph = [] \<rparr>"

lemma toy_lawful: "lawful toy_crypto"
  by (simp add: lawful_def toy_crypto_def)

lemma toy_run:
  "\<exists>c. client_compute (sha512 toy_crypto) (str_bytes PAIR_SETUP_USERNAME)
    (str_bytes (acc_pin toy_accessory)) (acc_salt toy_accessory) (acc_public toy_crypto toy_accessory) 2 = Inr c"
  using constant_hash_run
  by (simp add: toy_crypto_def toy_accessory_def acc_public_def acc_verifier_def)

theorem pairing_then_verify_witness:
  "\<exists>res. pair_setup toy_crypto (accessory_setup toy_crypto toy_accessory) ''1234'' 2 [] ''me'' = Inr res \<and>
    pair_verify toy_crypto (accessory_verify toy_crypto toy_accessory
      [str_bytes ''me'' \<mapsto> ed_public toy_crypto []]) (paired_from_result res) [1] =
      Inr (acc_verify_key toy_crypto toy_accessory (x_public toy_crypto [1]))"
proof -
  obtain c where "client_compute (sha512 toy_crypto) (str_bytes PAIR_SETUP_USERNAME)
    (str_bytes (acc_pin toy_accessory)) (acc_salt toy_accessory) (acc_public toy_crypto toy_accessory) 2 = Inr c"
    using toy_run by blast
  from pairing_then_verify [OF toy_lawful _ _ this, of "''me''" "[]"] show ?thesis
    by (auto simp: acc_ok_def toy_accessory_def)
qed

text \<open>No session key without the server's proof: whenever pair-setup returns a key, the
  accessory's M4 reported state 4, carried no error and contained exactly the proof that
  only a holder of the password's verifier can compute for this exchange, and the messages
  sent were M1, with the transient flag as asked for, and M3 with our public value and proof.\<close>

theorem pair_setup_needs_server_proof:
  assumes "pair_setup_srp C peer pin tr a = Inr (sent, k)"
  shows "\<exists>c body items rest. setup_client C pin a (peer [setup_m1 tr]) = Inr c \<and> k = session_key c \<and>
    sent = [setup_m1 tr, setup_m3 c] \<and> peer sent = Inr body \<and>
    tlv_decode body = Inr items \<and> lookup items TAG_STATE = Some (4 # rest) \<and>
    check_error items = Inr () \<and> lookup items TAG_PROOF = Some (expected_m2 c)"
proof -
  from assms obtain c items where "setup_client C pin a (peer [setup_m1 tr]) = Inr c"
    "sent = [setup_m1 tr, setup_m3 c]" "checked_items 4 (peer sent) = Inr items"
    "lookup items TAG_PROOF = Some (expected_m2 c)" "k = session_key c"
    by (auto simp: pair_setup_srp_ok)
  moreover from this(3) have "check_error items = Inr ()"
    by (auto simp: checked_items_def error_simps split: sum.splits)
  ultimately show ?thesis using checked_items_ok [of 4 "peer sent" items] by blast
qed

theorem pair_setup_needs_server_proof_witness:
  "\<exists>sent k c. pair_setup_srp toy_crypto (accessory_setup toy_crypto toy_accessory) ''1234'' True 2 =
      Inr (sent, k) \<and> sent = [setup_m1 True, setup_m3 c] \<and> k = session_key c"
proof -
  obtain c where "client_compute (sha512 toy_crypto) (str_bytes PAIR_SETUP_USERNAME)
    (str_bytes (acc_pin toy_accessory)) (acc_salt toy_accessory) (acc_public toy_crypto toy_accessory) 2 = Inr c"
    using toy_run by blast
  from honest_srp [OF this, of True] pair_setup_needs_server_proof [OF honest_srp [OF this, of True]]
  show ?thesis by (auto simp: toy_accessory_def)
qed

text \<open>C15. A completed PIN pairing has verified the accessory: the long-term key it records is 32
  bytes long and made a valid signature over the session-bound accessory value, the
  recorded identifier and that very key; and it records our own key pair and identifier.\<close>

theorem pair_setup_verifies_accessory:
  assumes "pair_setup C peer pin a ltsk pid = Inr res"
  shows "\<exists>sent k aid sig. pair_setup_srp C peer pin False a = Inr (sent, k) \<and>
    length (r_accessory_ltpk res) = 32 \<and>
    ed_verify C (r_accessory_ltpk res) (accessory_x C k @ aid @ r_accessory_ltpk res) sig \<and>
    r_accessory_id res = lossy_str aid \<and> r_client_pairing_id res = pid \<and>
    r_client_ltsk res = ltsk \<and> r_client_ltpk res = ed_public C ltsk"
  using assms
  by (auto simp: pair_setup_def pair_setup_identity_exchange_def error_simps split: if_splits) blast

theorem pair_setup_verifies_accessory_witness:
  "\<exists>res. pair_setup toy_crypto (accessory_setup toy_crypto toy_accessory) ''1234'' 2 [] ''me'' = Inr res \<and>
    length (r_accessory_ltpk res) = 32 \<and> r_client_pairing_id res = ''me''"
proof -
  obtain c where c: "client_compute (sha512 toy_crypto) (str_bytes PAIR_SETUP_USERNAME)
    (str_bytes (acc_pin toy_accessory)) (acc_salt toy_accessory) (acc_public toy_crypto toy_accessory) 2 = Inr c"
    using toy_run by blast
  have small: "acc_ok toy_accessory" "length ''me'' < 1000" by (simp_all add: acc_ok_def toy_accessory_def)
  obtain m5 where m5: "setup_m5 toy_crypto (acc_key toy_crypto toy_accessory (public_a c)) [] ''me'' = Inr m5"
    "acc_register toy_crypto (acc_key toy_crypto toy_accessory (public_a c)) m5 =
      Some (str_bytes ''me'', ed_public toy_crypto [])"
    using honest_register [OF toy_lawful small(2)] by blast
  have "pair_setup toy_crypto (accessory_setup toy_crypto toy_accessory) (acc_pin toy_accessory) 2 [] ''me'' =
      Inr \<lparr> r_client_ltsk = [], r_client_ltpk = ed_public toy_crypto [], r_client_pairing_id = ''me'',
          r_accessory_ltpk = ed_public toy_crypto (acc_ltsk toy_accessory),
          r_accessory_id = lossy_str (acc_id toy_accessory) \<rparr>"
    using honest_srp [OF c] honest_identity [OF toy_lawful small refl m5] by (simp add: pair_setup_def)
  from this pair_setup_verifies_accessory [OF this] show ?thesis by (auto simp: toy_accessory_def)
qed

text \<open>C16. Pair-verify authenticates the accessory it was paired with: the returned key is derived
  from a key exchange whose accessory half is covered, together with our ephemeral key, by a
  valid signature of the stored long-term key, and the accessory answered M3 without error.\<close>

theorem pair_verify_authenticates:
  assumes "pair_verify C peer paired eph = Inr key"
  shows "\<exists>epk sid sig m3 items. length epk = 32 \<and> key = verify_key C (x_dh C eph epk) \<and>
    ed_verify C (accessory_ltpk paired) (epk @ sid @ x_public C eph) sig \<and>
    checked_items 4 (peer [verify_m1 C eph, m3]) = Inr items"
  using assms
  by (auto simp: pair_verify_def verify_respond_def error_simps Let_def split: if_splits option.splits)

theorem pair_verify_authenticates_witness:
  "\<exists>epk. pair_verify toy_crypto (accessory_verify toy_crypto toy_accessory
      [str_bytes ''me'' \<mapsto> ed_public toy_crypto []])
      \<lparr> device_id = ''A'', client_pairing_id = ''me'', accessory_ltpk = ed_public toy_crypto [],
        client_ltsk = [], client_ltpk = [] \<rparr> [1] = Inr (verify_key toy_crypto (x_dh toy_crypto [1] epk)) \<and>
    length epk = 32"
proof -
  let ?p = "\<lparr> device_id = ''A'', client_pairing_id = ''me'', accessory_ltpk = ed_public toy_crypto [],
    client_ltsk = [], client_ltpk = [] \<rparr>"
  have "pair_verify toy_crypto (accessory_verify toy_crypto toy_accessory
      [str_bytes ''me'' \<mapsto> ed_public toy_crypto []]) ?p [1] =
    Inr (acc_verify_key toy_crypto toy_accessory (x_public toy_crypto [1]))"
    by (rule honest_verify [OF toy_lawful]) (simp_all add: acc_ok_def toy_accessory_def)
  from this pair_verify_authenticates [OF this] show ?thesis by auto
qed

text \<open>The table of pairings gives back the latest pairing of each accessory: after any sequence
  of stores, loading a device identifier returns the record last stored under it, whatever
  else was stored before or after, and identifiers are never listed twice.\<close>

theorem paired_devices_latest:
  assumes "device_ok d" and "device_id d \<notin> device_id ` set later" and "distinct (list_paired_devices db)"
  shows "load_paired_device (foldl (\<lambda>db d. store_paired_device d db) db (earlier @ d # later)) (device_id d) =
      Inr (Some d) \<and>
    distinct (list_paired_devices (foldl (\<lambda>db d. store_paired_device d db) db (earlier @ d # later)))"
  using paired.put_all_latest [OF assms(1,2)] paired.put_all_distinct [OF assms(3)]
  unfolding paired.put_all_def by blast

theorem paired_devices_latest_witness:
  "let d = \<lparr> device_id = ''A'', client_pairing_id = ''me'', accessory_ltpk = replicate 32 1,
        client_ltsk = replicate 32 2, client_ltpk = replicate 32 3 \<rparr>
   in load_paired_device (foldl (\<lambda>db d. store_paired_device d db) [] [d\<lparr> client_pairing_id := ''old'' \<rparr>, d])
        ''A'' = Inr (Some d)"
proof -
  let ?d = "\<lparr> device_id = ''A'', client_pairing_id = ''me'', accessory_ltpk = replicate 32 1,
        client_ltsk = replicate 32 2, client_ltpk = replicate 32 3 \<rparr>"
  show ?thesis
    using paired_devices_latest [of ?d "[]" "[]" "[?d\<lparr> client_pairing_id := ''old'' \<rparr>]"]
    by (simp add: device_ok_def list_paired_devices_def)
qed

text \<open>The error TLV is read as the protocol means it: a reply is refused for its error exactly
  when it carries a non-zero code, back-off is told apart from every other code, and its
  delay is the little-endian value of the one to eight bytes sent.\<close>

theorem check_error_meaning:
  "check_error items =
    (case lookup items TAG_ERROR of
       Some (code # _) \<Rightarrow>
         if code = 0 then Inr ()
         else if code \<noteq> 3 then Inl (HapError code (error_text code))
         else Inl (HapBackOff (case lookup items TAG_RETRY_DELAY of
           None \<Rightarrow> None
         | Some raw \<Rightarrow> if 1 \<le> length raw \<and> length raw \<le> 8 then Some (of_nat (from_le raw)) else None))
     | _ \<Rightarrow> Inr ())"
  by (auto simp: check_error_def retry_delay_secs_def from_le_pad ERR_NONE_def ERR_BACKOFF_def
      not_le Suc_le_eq split: option.splits list.splits)

end
