(* ===== verification/Control_Channel.thy ===== *)
theory Control_Channel
  imports Http
begin

text \<open>
  The encrypted control channel, \<open>openplay-airplay/src/control_channel.rs\<close>. ChaCha20-Poly1305 and
  HKDF are parameters. A channel owns the bytes it has written (\<open>wire_out\<close>) and those the peer
  has sent and it has not read (\<open>wire_in\<close>, the end of which is the end of the stream); a write
  fails when the stream is broken. Counters are 64-bit words.

  The lemmas show that a channel whose read half matches another's write half receives exactly
  the messages sent, in order, that no two frames of a direction share a nonce, that every
  accepted frame was sealed for its position, and that \<open>request\<close> ends with the response.
\<close>

section \<open>Model\<close>

record channel_crypto =
  control_hkdf :: "bytes \<Rightarrow> bytes \<Rightarrow> bytes \<Rightarrow> bytes"
  seal :: "bytes \<Rightarrow> bytes \<Rightarrow> bytes \<Rightarrow> bytes \<Rightarrow> bytes option"
  unseal :: "bytes \<Rightarrow> bytes \<Rightarrow> bytes \<Rightarrow> bytes \<Rightarrow> bytes option"

datatype control_error =
    FrameTooLarge nat
  | SealFailed
  | WriteFailed
  | ClosedReadingLength
  | ClosedMidFrame
  | FrameAuthFailed

definition MAX_FRAME :: nat where "MAX_FRAME = 0xFFFF"

definition CONTROL_SALT :: bytes where "CONTROL_SALT = str_bytes ''Control-Salt''"
definition WRITE_INFO :: bytes where "WRITE_INFO = str_bytes ''Control-Write-Encryption-Key''"
definition READ_INFO :: bytes where "READ_INFO = str_bytes ''Control-Read-Encryption-Key''"

record control_channel =
  write_key :: bytes
  read_key :: bytes
  write_counter :: u64
  read_counter :: u64
  wire_out :: bytes
  wire_in :: bytes
  broken :: bool

definition cipher_from :: "channel_crypto \<Rightarrow> bytes \<Rightarrow> bytes \<Rightarrow> bytes" where
  "cipher_from C session_key info = control_hkdf C CONTROL_SALT session_key info"

definition control_new :: "channel_crypto \<Rightarrow> bytes \<Rightarrow> bytes \<Rightarrow> control_channel" where
  "control_new C session_key incoming =
     \<lparr> write_key = cipher_from C session_key WRITE_INFO, read_key = cipher_from C session_key READ_INFO,
       write_counter = 0, read_counter = 0, wire_out = [], wire_in = incoming, broken = False \<rparr>"

definition nonce_for :: "u64 \<Rightarrow> bytes" where
  "nonce_for counter = replicate 4 0 @ nat_to_le 8 (unat counter)"

definition control_send ::
  "channel_crypto \<Rightarrow> bytes \<Rightarrow> control_channel \<Rightarrow> (control_error + unit) \<times> control_channel" where
  "control_send C plaintext ch =
     (if length plaintext > MAX_FRAME then (Inl (FrameTooLarge (length plaintext)), ch)
      else let len = nat_to_le 2 (length plaintext)
           in case seal C (write_key ch) (nonce_for (write_counter ch)) len plaintext of
                None \<Rightarrow> (Inl SealFailed, ch)
              | Some sealed \<Rightarrow>
                  (let ch' = ch\<lparr> write_counter := write_counter ch + 1 \<rparr>
                   in if broken ch' then (Inl WriteFailed, ch')
                      else (Inr (), ch'\<lparr> wire_out := wire_out ch' @ len @ sealed \<rparr>)))"

definition control_recv ::
  "channel_crypto \<Rightarrow> control_channel \<Rightarrow> (control_error + bytes) \<times> control_channel" where
  "control_recv C ch =
     (if length (wire_in ch) < 2 then (Inl ClosedReadingLength, ch\<lparr> wire_in := [] \<rparr>)
      else let len_buf = take 2 (wire_in ch); len = from_le len_buf; rest = drop 2 (wire_in ch)
           in if length rest < len + 16 then (Inl ClosedMidFrame, ch\<lparr> wire_in := [] \<rparr>)
              else let ch' = ch\<lparr> wire_in := drop (len + 16) rest \<rparr>
                   in case unseal C (read_key ch) (nonce_for (read_counter ch)) len_buf
                          (take (len + 16) rest) of
                        None \<Rightarrow> (Inl FrameAuthFailed, ch')
                      | Some p \<Rightarrow> (Inr p, ch'\<lparr> read_counter := read_counter ch + 1 \<rparr>))"

definition control_header_end :: "bytes \<Rightarrow> nat option" where
  "control_header_end buf = map_option (\<lambda>i. i + 4) (find_sub header_end buf)"

definition control_content_length :: "bytes \<Rightarrow> nat option" where
  "control_content_length headers =
     (case find (\<lambda>l. starts_with ''content-length:'' (to_ascii_lowercase l)) (lines (lossy_str headers)) of
        None \<Rightarrow> None
      | Some l \<Rightarrow>
          (case split_char (CHR '':'') l of
             _ # v # _ \<Rightarrow> from_str_radix 10 (2 ^ 64) (trim_str v)
           | _ \<Rightarrow> None))"

definition response_complete :: "bytes \<Rightarrow> bool" where
  "response_complete buf =
     (case control_header_end buf of
        None \<Rightarrow> False
      | Some split \<Rightarrow> length buf - split \<ge> opt_or 0 (control_content_length (take split buf)))"

lemma recv_shortens:
  "control_recv C ch = (Inr p, ch') \<Longrightarrow> length (wire_in ch') < length (wire_in ch)"
  by (auto simp: control_recv_def Let_def split: if_splits option.splits)

function response_loop ::
  "channel_crypto \<Rightarrow> bytes \<Rightarrow> control_channel \<Rightarrow> (control_error + bytes) \<times> control_channel" where
  "response_loop C buf ch =
     (case control_recv C ch of
        (Inl e, ch') \<Rightarrow> (Inl e, ch')
      | (Inr p, ch') \<Rightarrow>
          (if response_complete (buf @ p) then (Inr (buf @ p), ch') else response_loop C (buf @ p) ch'))"
  by auto
termination
  by (relation "measure (\<lambda>(_, _, ch). length (wire_in ch))")
    (simp, metis case_prod_conv in_measure recv_shortens)

declare response_loop.simps [simp del]

definition control_request ::
  "channel_crypto \<Rightarrow> bytes \<Rightarrow> control_channel \<Rightarrow> (control_error + bytes) \<times> control_channel" where
  "control_request C req ch =
     (case control_send C req ch of
        (Inl e, ch') \<Rightarrow> (Inl e, ch')
      | (Inr _, ch') \<Rightarrow> response_loop C [] ch')"


section \<open>Lemmas\<close>

text \<open>What the cipher promises, documented by RFC 8439: sealing what fits a frame succeeds and adds a
  tag of 16 bytes, and opening succeeds exactly on what sealing produced.\<close>

definition aead_lawful :: "channel_crypto \<Rightarrow> bool" where
  "aead_lawful C \<longleftrightarrow>
     (\<forall>k n ad p. length p \<le> MAX_FRAME \<longrightarrow> seal C k n ad p \<noteq> None) \<and>
     (\<forall>k n ad p c. seal C k n ad p = Some c \<longrightarrow> length c = length p + 16) \<and>
     (\<forall>k n ad p c. unseal C k n ad c = Some p \<longleftrightarrow> seal C k n ad p = Some c)"

definition sealed_frame :: "channel_crypto \<Rightarrow> bytes \<Rightarrow> u64 \<Rightarrow> bytes \<Rightarrow> bytes" where
  "sealed_frame C k n p =
     nat_to_le 2 (length p) @
     (case seal C k (nonce_for n) (nat_to_le 2 (length p)) p of None \<Rightarrow> [] | Some c \<Rightarrow> c)"

text \<open>The bytes of a sequence of messages, sealed under successive counters.\<close>

fun sealed_frames :: "channel_crypto \<Rightarrow> bytes \<Rightarrow> u64 \<Rightarrow> bytes list \<Rightarrow> bytes" where
  "sealed_frames C k n [] = []"
| "sealed_frames C k n (p # ps) = sealed_frame C k n p @ sealed_frames C k (n + 1) ps"

fun send_all :: "channel_crypto \<Rightarrow> bytes list \<Rightarrow> control_channel \<Rightarrow> (control_error + unit) \<times> control_channel" where
  "send_all C [] ch = (Inr (), ch)"
| "send_all C (p # ps) ch =
     (case control_send C p ch of (Inl e, ch') \<Rightarrow> (Inl e, ch') | (Inr _, ch') \<Rightarrow> send_all C ps ch')"

fun recv_n :: "channel_crypto \<Rightarrow> nat \<Rightarrow> control_channel \<Rightarrow> (control_error + bytes list) \<times> control_channel" where
  "recv_n C 0 ch = (Inr [], ch)"
| "recv_n C (Suc n) ch =
     (case control_recv C ch of
        (Inl e, ch') \<Rightarrow> (Inl e, ch')
      | (Inr p, ch') \<Rightarrow>
          (case recv_n C n ch' of (Inl e, ch'') \<Rightarrow> (Inl e, ch'') | (Inr ps, ch'') \<Rightarrow> (Inr (p # ps), ch'')))"

lemma nonce_for_inj: "nonce_for m = nonce_for n \<Longrightarrow> m = n"
proof -
  assume "nonce_for m = nonce_for n"
  then have "from_le (nat_to_le 8 (unat m)) = from_le (nat_to_le 8 (unat n))"
    by (simp add: nonce_for_def)
  then have "unat m = unat n"
    using unsigned_less [of m, where ?'a = nat] unsigned_less [of n, where ?'a = nat]
    by (simp add: from_le_nat_to_le)
  then show ?thesis by (rule unsigned_word_eqI)
qed

lemma nonce_for_length: "length (nonce_for n) = 12"
  by (simp add: nonce_for_def)

lemma send_ok:
  assumes "aead_lawful C" and "length p \<le> MAX_FRAME" and "\<not> broken ch"
  shows "control_send C p ch =
    (Inr (), ch\<lparr> write_counter := write_counter ch + 1,
       wire_out := wire_out ch @ sealed_frame C (write_key ch) (write_counter ch) p \<rparr>)"
  using assms by (auto simp: control_send_def aead_lawful_def sealed_frame_def Let_def split: option.splits)

lemma send_all_ok:
  assumes "aead_lawful C" and "\<forall>p \<in> set ps. length p \<le> MAX_FRAME" and "\<not> broken ch"
  shows "send_all C ps ch =
    (Inr (), ch\<lparr> write_counter := write_counter ch + of_nat (length ps),
       wire_out := wire_out ch @ sealed_frames C (write_key ch) (write_counter ch) ps \<rparr>)"
  using assms
proof (induction ps arbitrary: ch)
  case (Cons p ps)
  then show ?case by (simp add: send_ok add.assoc add.commute [of 1])
qed simp

lemma recv_frame:
  assumes "aead_lawful C" and "length p \<le> MAX_FRAME"
    and "wire_in ch = sealed_frame C (read_key ch) (read_counter ch) p @ rest"
  shows "control_recv C ch = (Inr p, ch\<lparr> wire_in := rest, read_counter := read_counter ch + 1 \<rparr>)"
proof -
  let ?len = "nat_to_le 2 (length p)"
  obtain c where c: "seal C (read_key ch) (nonce_for (read_counter ch)) ?len p = Some c"
    "length c = length p + 16" "unseal C (read_key ch) (nonce_for (read_counter ch)) ?len c = Some p"
    using assms(1,2) unfolding aead_lawful_def by (metis not_None_eq)
  have "wire_in ch = ?len @ c @ rest" using assms(3) c(1) by (simp add: sealed_frame_def)
  moreover have "from_le ?len = length p" using assms(2) by (simp add: MAX_FRAME_def from_le_nat_to_le)
  ultimately show ?thesis using c(2,3) by (simp add: control_recv_def Let_def)
qed

lemma recv_n_frames:
  assumes "aead_lawful C" and "\<forall>p \<in> set ps. length p \<le> MAX_FRAME"
    and "wire_in ch = sealed_frames C (read_key ch) (read_counter ch) ps @ rest"
  shows "recv_n C (length ps) ch =
    (Inr ps, ch\<lparr> wire_in := rest, read_counter := read_counter ch + of_nat (length ps) \<rparr>)"
  using assms
proof (induction ps arbitrary: ch)
  case (Cons p ps)
  have "control_recv C ch = (Inr p, ch\<lparr> wire_in := sealed_frames C (read_key ch) (read_counter ch + 1) ps @ rest,
      read_counter := read_counter ch + 1 \<rparr>)"
    using Cons.prems by (intro recv_frame) auto
  then show ?case using Cons by (simp add: add.assoc add.commute [of 1])
qed simp

lemma recv_accepts_sealed:
  assumes "aead_lawful C" and "control_recv C ch = (Inr p, ch')"
  shows "wire_in ch = sealed_frame C (read_key ch) (read_counter ch) p @ wire_in ch' \<and>
    read_counter ch' = read_counter ch + 1 \<and> length p \<le> MAX_FRAME"
proof -
  let ?len = "take 2 (wire_in ch)" and ?rest = "drop 2 (wire_in ch)"
  have r: "2 \<le> length (wire_in ch)" "from_le ?len + 16 \<le> length ?rest"
    "unseal C (read_key ch) (nonce_for (read_counter ch)) ?len (take (from_le ?len + 16) ?rest) = Some p"
    "wire_in ch' = drop (from_le ?len + 16) ?rest" "read_counter ch' = read_counter ch + 1"
    using assms(2) by (auto simp: control_recv_def Let_def split: if_splits option.splits)
  have s: "seal C (read_key ch) (nonce_for (read_counter ch)) ?len p = Some (take (from_le ?len + 16) ?rest)"
    using assms(1) r(3) by (simp add: aead_lawful_def)
  then have "length (take (from_le ?len + 16) ?rest) = length p + 16"
    using assms(1) unfolding aead_lawful_def by blast
  then have l: "from_le ?len = length p" using r(2) by simp
  have "length ?len = 2" using r(1) by simp
  then have "?len = nat_to_le 2 (length p)" "length p \<le> MAX_FRAME"
    using nat_to_le_from_le [of ?len] from_le_less [of ?len] l by (simp_all add: MAX_FRAME_def)
  moreover have "wire_in ch = ?len @ take (from_le ?len + 16) ?rest @ wire_in ch'"
    unfolding r(4) by (simp only: append_take_drop_id)
  ultimately show ?thesis using s l r(5) by (simp add: sealed_frame_def)
qed

lemma response_loop_frames:
  assumes "aead_lawful C" and "\<forall>p \<in> set (ps @ [q]). length p \<le> MAX_FRAME"
    and "wire_in ch = sealed_frames C (read_key ch) (read_counter ch) (ps @ [q]) @ rest"
    and "\<forall>k < length ps. \<not> response_complete (buf @ concat (take (Suc k) ps))"
    and "response_complete (buf @ concat ps @ q)"
  shows "fst (response_loop C buf ch) = Inr (buf @ concat ps @ q) \<and>
    wire_in (snd (response_loop C buf ch)) = rest"
  using assms
proof (induction ps arbitrary: buf ch)
  case Nil
  then have "control_recv C ch = (Inr q, ch\<lparr> wire_in := rest, read_counter := read_counter ch + 1 \<rparr>)"
    by (intro recv_frame) auto
  with Nil show ?case by (simp add: response_loop.simps [of C buf ch])
next
  case (Cons p ps)
  let ?ch = "ch\<lparr> wire_in := sealed_frames C (read_key ch) (read_counter ch + 1) (ps @ [q]) @ rest,
    read_counter := read_counter ch + 1 \<rparr>"
  have "control_recv C ch = (Inr p, ?ch)"
    using Cons.prems by (intro recv_frame) auto
  moreover have "\<not> response_complete (buf @ p)" using Cons.prems(4) by force
  ultimately have "response_loop C buf ch = response_loop C (buf @ p) ?ch"
    by (simp add: response_loop.simps [of C buf ch])
  moreover have "\<forall>k < length ps. \<not> response_complete ((buf @ p) @ concat (take (Suc k) ps))"
    using Cons.prems(4) by fastforce
  ultimately show ?case using Cons.IH [of ?ch "buf @ p"] Cons.prems by simp
qed


section \<open>Properties\<close>

text \<open>C17. What one end sends is what the other receives: with a cipher that keeps its promises, any
  sequence of messages of at most 65535 bytes is sent without error, and the peer, whose
  read key and counter match, reads exactly these messages in this order and then stands at
  the matching counter again, with nothing left over.\<close>

theorem control_channel_in_order:
  assumes "aead_lawful C" and "\<forall>p \<in> set ps. length p \<le> MAX_FRAME" and "\<not> broken a"
    and "read_key b = write_key a" and "read_counter b = write_counter a"
    and "wire_out a = []" and "wire_in b = wire_out (snd (send_all C ps a))"
  shows "fst (send_all C ps a) = Inr () \<and> fst (recv_n C (length ps) b) = Inr ps \<and>
    read_counter (snd (recv_n C (length ps) b)) = write_counter (snd (send_all C ps a)) \<and>
    wire_in (snd (recv_n C (length ps) b)) = []"
  using send_all_ok [OF assms(1-3)] recv_n_frames [OF assms(1,2), of b "[]"] assms(4-7) by simp

definition toy_aead :: channel_crypto where
  "toy_aead = \<lparr> control_hkdf = (\<lambda>_ k i. k @ i),
     seal = (\<lambda>k n ad p. Some (p @ replicate 16 0)),
     unseal = (\<lambda>k n ad c. if 16 \<le> length c \<and> drop (length c - 16) c = replicate 16 0
       then Some (take (length c - 16) c) else None) \<rparr>"

lemma toy_aead_lawful: "aead_lawful toy_aead"
proof -
  have "(16 \<le> length c \<and> drop (length c - 16) c = replicate 16 0 \<and> take (length c - 16) c = p) \<longleftrightarrow>
      p @ replicate 16 0 = c" for p c :: bytes
    by (auto) (metis append_take_drop_id)
  then show ?thesis by (auto simp: aead_lawful_def toy_aead_def)
qed

theorem control_channel_in_order_witness:
  "let a = control_new toy_aead [7] [];
       b = a\<lparr> read_key := write_key a, wire_in := wire_out (snd (send_all toy_aead [[1, 2], [], [3]] a)) \<rparr>
   in fst (recv_n toy_aead 3 b) = Inr [[1, 2], [], [3]]"
  using control_channel_in_order [OF toy_aead_lawful, of "[[1, 2], [], [3]]" "control_new toy_aead [7] []"
      "(control_new toy_aead [7] [])\<lparr> read_key := write_key (control_new toy_aead [7] []),
        wire_in := wire_out (snd (send_all toy_aead [[1, 2], [], [3]] (control_new toy_aead [7] []))) \<rparr>"]
  by (simp add: control_new_def MAX_FRAME_def numeral_3_eq_3)

text \<open>C18. Nothing is accepted out of place, and no nonce is used twice: a message that is received is
  exactly the one sealed under the read key for the current counter, the counter then
  advances by one, and distinct counters have distinct nonces of twelve bytes.\<close>

theorem control_recv_authentic:
  assumes "aead_lawful C" and "control_recv C ch = (Inr p, ch')"
  shows "wire_in ch = sealed_frame C (read_key ch) (read_counter ch) p @ wire_in ch' \<and>
    read_counter ch' = read_counter ch + 1 \<and> read_key ch' = read_key ch \<and> length p \<le> MAX_FRAME \<and>
    (\<forall>n. n \<noteq> read_counter ch \<longrightarrow> nonce_for n \<noteq> nonce_for (read_counter ch)) \<and>
    length (nonce_for (read_counter ch)) = 12"
proof -
  have "read_key ch' = read_key ch"
    using assms(2) by (auto simp: control_recv_def Let_def split: if_splits option.splits)
  then show ?thesis using recv_accepts_sealed [OF assms] nonce_for_inj nonce_for_length by blast
qed

theorem control_recv_authentic_witness:
  "let ch = (control_new toy_aead [7] ([1, 0, 9] @ replicate 16 0 @ [4])) in
    wire_in ch = sealed_frame toy_aead (read_key ch) 0 [9] @ [4]"
proof -
  let ?ch = "control_new toy_aead [7] ([1, 0, 9] @ replicate 16 0 @ [4])"
  have "control_recv toy_aead ?ch = (Inr [9], ?ch\<lparr> wire_in := [4], read_counter := 1 \<rparr>)"
    by (simp add: control_recv_def control_new_def toy_aead_def)
  from control_recv_authentic [OF toy_aead_lawful this] show ?thesis by (simp add: control_new_def)
qed

text \<open>A request is answered: if the peer's frames carry a response that becomes complete (blank
  line seen and as many body bytes as \<open>Content-Length\<close> says) exactly with the last of them,
  \<open>request\<close> returns their concatenation and leaves what follows unread, whatever the frame
  boundaries, and it has put one sealed frame with the request on the wire.\<close>

theorem control_request_answered:
  assumes "aead_lawful C" and "\<not> broken ch" and "length req \<le> MAX_FRAME"
    and "\<forall>p \<in> set (ps @ [q]). length p \<le> MAX_FRAME"
    and "wire_in ch = sealed_frames C (read_key ch) (read_counter ch) (ps @ [q]) @ rest"
    and "\<forall>k < length ps. \<not> response_complete (concat (take (Suc k) ps))"
    and "response_complete (concat ps @ q)"
  shows "fst (control_request C req ch) = Inr (concat ps @ q) \<and>
    wire_in (snd (control_request C req ch)) = rest"
  using response_loop_frames [OF assms(1,4), of "ch\<lparr> write_counter := write_counter ch + 1,
      wire_out := wire_out ch @ sealed_frame C (write_key ch) (write_counter ch) req \<rparr>" rest "[]"]
    send_ok [OF assms(1,3,2)] assms(5-7)
  by (simp add: control_request_def)

theorem control_request_answered_witness:
  "let ch = control_new toy_aead [7] (sealed_frames toy_aead ([7] @ READ_INFO) 0 [[13, 10], [13, 10]])
   in fst (control_request toy_aead [1] ch) = Inr [13, 10, 13, 10]"
proof -
  let ?ch = "control_new toy_aead [7] (sealed_frames toy_aead ([7] @ READ_INFO) 0 [[13, 10], [13, 10]])"
  have "read_key ?ch = [7] @ READ_INFO"
    by (simp add: control_new_def cipher_from_def toy_aead_def)
  moreover have "\<not> response_complete [13, 10]"
    by (simp add: response_complete_def control_header_end_def header_end_def)
  moreover have "lossy_str [13, 10, 13, 10] = crlf @ crlf"
    using lossy_str_ascii [of "crlf @ crlf"]
    by (simp add: crlf_def cr_def newline_def str_bytes_def)
  then have "response_complete [13, 10, 13, 10]"
    by (simp add: response_complete_def control_header_end_def header_end_def control_content_length_def
        opt_or_def lines_def crlf_def cr_def newline_def strip_cr_def starts_with_def to_ascii_lowercase_def)
  ultimately show ?thesis
    using control_request_answered [OF toy_aead_lawful, of ?ch "[1]" "[[13, 10]]" "[13, 10]" "[]"]
    by (simp add: MAX_FRAME_def control_new_def)
qed

end
