(* ===== verification/Mirror.thy ===== *)
theory Mirror
  imports Prelude Text
begin

text \<open>
  The AirPlay mirror stream and its clock: the 128-byte packet header of
  \<open>mirror_header.rs\<close>, the packet writer of \<open>mirror_stream.rs\<close> and the NTP responder of
  \<open>ntp.rs\<close>, all of \<open>openplay-airplay\<close>. The system clock and the sockets are inputs. The
  lemmas give the header's round trip and layout, show that a reader of the stream recovers
  exactly the packets written, and fix the fields of an NTP answer.
\<close>

section \<open>Header\<close>

datatype packet_type = Video | CodecData | Heartbeat

fun packet_type_u16 :: "packet_type \<Rightarrow> u16" where
  "packet_type_u16 Video = 0"
| "packet_type_u16 CodecData = 1"
| "packet_type_u16 Heartbeat = 2"

definition from_u16 :: "u16 \<Rightarrow> packet_type option" where
  "from_u16 v = (if v = 0 then Some Video else if v = 1 then Some CodecData
     else if v = 2 then Some Heartbeat else None)"

record mirror_header =
  payload_size :: u32
  packet_type :: packet_type
  ntp_timestamp :: u64

definition HEADER_SIZE :: nat where "HEADER_SIZE = 128"

definition header_encode :: "mirror_header \<Rightarrow> bytes" where
  "header_encode h =
     nat_to_le 4 (unat (payload_size h)) @ nat_to_le 2 (unat (packet_type_u16 (packet_type h))) @
     nat_to_le 2 0 @ nat_to_be 8 (unat (ntp_timestamp h)) @ replicate (HEADER_SIZE - 16) 0"

definition header_decode :: "bytes \<Rightarrow> mirror_header option" where
  "header_decode data =
     (if length data < HEADER_SIZE then None
      else case from_u16 (of_nat (from_le (take 2 (drop 4 data)))) of
        None \<Rightarrow> None
      | Some t \<Rightarrow> Some \<lparr> payload_size = of_nat (from_le (take 4 data)), packet_type = t,
                        ntp_timestamp = of_nat (from_be (take 8 (drop 8 data))) \<rparr>)"


section \<open>Stream\<close>

datatype mirror_error = WriteHeaderFailed | WritePayloadFailed | FlushFailed

text \<open>What the socket answers to the three operations of one packet.\<close>

record write_result =
  header_written :: bool
  payload_written :: bool
  flushed :: bool

text \<open>The bytes handed to the socket before the first failure.\<close>

definition write_packet ::
  "write_result \<Rightarrow> bytes \<Rightarrow> mirror_header \<Rightarrow> bytes \<Rightarrow> bytes \<times> (mirror_error + unit)" where
  "write_packet w sent h payload =
     (if \<not> header_written w then (sent, Inl WriteHeaderFailed)
      else let sent1 = sent @ header_encode h
           in if payload \<noteq> [] \<and> \<not> payload_written w then (sent1, Inl WritePayloadFailed)
              else let sent2 = sent1 @ payload
                   in if \<not> flushed w then (sent2, Inl FlushFailed) else (sent2, Inr ()))"

definition send_codec_data ::
  "write_result \<Rightarrow> u64 \<Rightarrow> bytes \<Rightarrow> bytes \<Rightarrow> bytes \<times> (mirror_error + unit)" where
  "send_codec_data w now sent sps_pps =
     write_packet w sent \<lparr> payload_size = of_nat (length sps_pps), packet_type = CodecData,
       ntp_timestamp = now \<rparr> sps_pps"

definition send_video_frame ::
  "write_result \<Rightarrow> u64 \<Rightarrow> bytes \<Rightarrow> bytes \<Rightarrow> bytes \<times> (mirror_error + unit)" where
  "send_video_frame w now sent nalu =
     write_packet w sent \<lparr> payload_size = of_nat (length nalu), packet_type = Video,
       ntp_timestamp = now \<rparr> nalu"

definition send_heartbeat :: "write_result \<Rightarrow> u64 \<Rightarrow> bytes \<Rightarrow> bytes \<times> (mirror_error + unit)" where
  "send_heartbeat w now sent =
     write_packet w sent \<lparr> payload_size = 0, packet_type = Heartbeat, ntp_timestamp = now \<rparr> []"

text \<open>A receiver of the stream, as the header describes it: a header, then as many bytes as the
  header announces. It returns the packets and what is left when no whole packet follows.\<close>

function read_packets :: "bytes \<Rightarrow> (mirror_header \<times> bytes) list \<times> bytes" where
  "read_packets data =
     (case header_decode data of
        None \<Rightarrow> ([], data)
      | Some h \<Rightarrow>
          let rest = drop HEADER_SIZE data; n = unat (payload_size h)
          in if length rest < n then ([], data)
             else case read_packets (drop n rest) of
               (ps, left) \<Rightarrow> ((h, take n rest) # ps, left))"
  by pat_completeness auto
termination
proof (relation "measure length")
  fix data h rest n
  assume "header_decode data = Some h" "rest = drop HEADER_SIZE data"
  then show "(drop n rest, data) \<in> measure length"
    by (auto simp: header_decode_def HEADER_SIZE_def split: if_splits)
qed simp


section \<open>Clock\<close>

definition NTP_EPOCH_OFFSET :: u64 where "NTP_EPOCH_OFFSET = 2208988800"
definition NTP_PACKET_SIZE :: nat where "NTP_PACKET_SIZE = 48"

text \<open>\<open>secs\<close> and \<open>nanos\<close> are the time since the Unix epoch, both zero if the clock is before it.\<close>

definition ntp_timestamp_now :: "u64 \<Rightarrow> u32 \<Rightarrow> u64" where
  "ntp_timestamp_now secs nanos =
     (let s = secs + NTP_EPOCH_OFFSET; frac = (push_bit 32 (ucast nanos)) div 1000000000
      in push_bit 32 s OR frac)"

definition build_ntp_response :: "u64 \<Rightarrow> bytes \<Rightarrow> bytes" where
  "build_ntp_response now request =
     (let client_vn = (drop_bit 3 (request ! 0)) AND 0x07; now_bytes = nat_to_be 8 (unat now)
      in [push_bit 3 client_vn OR 4, 1, request ! 2, - 10] @ replicate 8 0 @
         [0x41, 0x49, 0x52, 0x50] @ now_bytes @ take 8 (drop 40 request) @ now_bytes @ now_bytes)"

text \<open>One datagram: answered only if it is at least a whole packet; the buffer holds its first
  48 bytes.\<close>

definition ntp_serve :: "u64 \<Rightarrow> bytes \<Rightarrow> bytes option" where
  "ntp_serve now datagram =
     (if length datagram \<ge> NTP_PACKET_SIZE
      then Some (build_ntp_response now (take NTP_PACKET_SIZE datagram)) else None)"


text \<open>The server: a bound socket with the sending half of the shutdown channel, and the task that
  answers until the socket fails or the shutdown comes. Each datagram carries the clock it is
  answered at and what \<open>send_to\<close> answers; a failed answer is only logged.\<close>

record ntp_server =
  ntp_shutdown :: bool
  ntp_local_addr :: socket_addr

definition ntp_start :: "u16 \<Rightarrow> string + (string + socket_addr) \<Rightarrow> string + ntp_server" where
  "ntp_start port answer =
     (case answer of
        Inl e \<Rightarrow> Inl (''Failed to bind NTP socket on port '' @ show_radix 10 (unat port) @ '': '' @ e)
      | Inr (Inl e) \<Rightarrow> Inl (''Failed to get local addr: '' @ e)
      | Inr (Inr a) \<Rightarrow> Inr \<lparr> ntp_shutdown = True, ntp_local_addr = a \<rparr>)"

datatype ntp_event =
    Datagram u64 bytes socket_addr bool
  | RecvFailed string
  | ShutdownSignal

fun ntp_loop :: "ntp_event list \<Rightarrow> (socket_addr \<times> bytes) list \<times> bool" where
  "ntp_loop [] = ([], True)"
| "ntp_loop (Datagram now d a sent # evs) =
     (case ntp_loop evs of
        (answers, running) \<Rightarrow>
          (case ntp_serve now d of
             None \<Rightarrow> (answers, running)
           | Some r \<Rightarrow> (if sent then (a, r) # answers else answers, running)))"
| "ntp_loop (RecvFailed e # evs) = ([], False)"
| "ntp_loop (ShutdownSignal # evs) = ([], False)"

text \<open>Stopping takes the sender, so only the first stop signals; dropping the server stops it.\<close>

definition ntp_stop :: "ntp_server \<Rightarrow> ntp_server \<times> ntp_event list" where
  "ntp_stop s = (s\<lparr> ntp_shutdown := False \<rparr>, if ntp_shutdown s then [ShutdownSignal] else [])"

definition ntp_drop :: "ntp_server \<Rightarrow> ntp_event list" where
  "ntp_drop s = snd (ntp_stop s)"


section \<open>Lemmas\<close>

lemma from_u16_type [simp]: "from_u16 (packet_type_u16 t) = Some t"
  by (cases t) (simp_all add: from_u16_def)

lemma header_length [simp]: "length (header_encode h) = HEADER_SIZE"
  by (simp add: header_encode_def HEADER_SIZE_def)

lemma take_append_exact: "length xs = n \<Longrightarrow> take n (xs @ ys) = xs"
  by simp

lemma header_fields:
  "take 4 (header_encode h @ rest) = nat_to_le 4 (unat (payload_size h))"
  "take 2 (drop 4 (header_encode h @ rest)) = nat_to_le 2 (unat (packet_type_u16 (packet_type h)))"
  "take 8 (drop 8 (header_encode h @ rest)) = nat_to_be 8 (unat (ntp_timestamp h))"
  by (simp_all add: header_encode_def)

lemma header_decode_encode: "header_decode (header_encode h @ rest) = Some h"
proof -
  have "from_le (nat_to_le 4 (unat (payload_size h))) = unat (payload_size h)"
    "from_le (nat_to_le 2 (unat (packet_type_u16 (packet_type h)))) =
       unat (packet_type_u16 (packet_type h))"
    "from_be (nat_to_be 8 (unat (ntp_timestamp h))) = unat (ntp_timestamp h)"
    by (rule from_le_nat_to_le from_be_nat_to_be, rule unat_u32 unat_u16 unat_u64)+
  then show ?thesis
    by (cases h) (simp add: header_decode_def header_fields del: take_append drop_append)
qed

interpretation header: codec header_encode "\<lambda>b. ok_or () (header_decode b)" "\<lambda>_. True"
  using header_decode_encode [where rest = "[]"] by unfold_locales simp

declare read_packets.simps [simp del]

lemma read_packets_cons:
  assumes "unat (payload_size h) = length p"
  shows "read_packets (header_encode h @ p @ rest) =
    ((h, p) # fst (read_packets rest), snd (read_packets rest))"
  using assms
  by (subst read_packets.simps) (simp add: header_decode_encode case_prod_beta)

definition packets_bytes :: "(mirror_header \<times> bytes) list \<Rightarrow> bytes" where
  "packets_bytes ps = concat (map (\<lambda>(h, p). header_encode h @ p) ps)"

lemma read_packets_bytes:
  "\<forall>(h, p) \<in> set ps. unat (payload_size h) = length p \<Longrightarrow> read_packets (packets_bytes ps) = (ps, [])"
proof (induction ps)
  case Nil
  show ?case
    by (subst read_packets.simps) (simp add: packets_bytes_def header_decode_def HEADER_SIZE_def)
next
  case (Cons hp ps)
  then show ?case
    by (cases hp) (simp add: packets_bytes_def read_packets_cons)
qed

datatype send_request = SendCodec bytes | SendVideo bytes | SendHeartbeat

fun send_one :: "bytes \<Rightarrow> u64 \<times> send_request \<Rightarrow> bytes" where
  "send_one sent (now, SendCodec d) =
     fst (send_codec_data \<lparr> header_written = True, payload_written = True, flushed = True \<rparr> now sent d)"
| "send_one sent (now, SendVideo d) =
     fst (send_video_frame \<lparr> header_written = True, payload_written = True, flushed = True \<rparr> now sent d)"
| "send_one sent (now, SendHeartbeat) =
     fst (send_heartbeat \<lparr> header_written = True, payload_written = True, flushed = True \<rparr> now sent)"

fun sent_packet :: "u64 \<times> send_request \<Rightarrow> mirror_header \<times> bytes" where
  "sent_packet (now, SendCodec d) =
     (\<lparr> payload_size = of_nat (length d), packet_type = CodecData, ntp_timestamp = now \<rparr>, d)"
| "sent_packet (now, SendVideo d) =
     (\<lparr> payload_size = of_nat (length d), packet_type = Video, ntp_timestamp = now \<rparr>, d)"
| "sent_packet (now, SendHeartbeat) =
     (\<lparr> payload_size = 0, packet_type = Heartbeat, ntp_timestamp = now \<rparr>, [])"

lemmas send_defs = send_codec_data_def send_video_frame_def send_heartbeat_def write_packet_def Let_def

lemma send_one_bytes: "send_one sent r = sent @ packets_bytes [sent_packet r]"
  by (cases "(sent, r)" rule: send_one.cases) (simp_all add: send_defs packets_bytes_def)

lemma send_all_bytes: "foldl send_one sent rs = sent @ packets_bytes (map sent_packet rs)"
  by (induction rs arbitrary: sent) (simp_all add: send_one_bytes packets_bytes_def)

fun request_bytes :: "send_request \<Rightarrow> bytes" where
  "request_bytes (SendCodec d) = d"
| "request_bytes (SendVideo d) = d"
| "request_bytes SendHeartbeat = []"

lemma sent_packet_size:
  "length (request_bytes (snd r)) < 2 ^ 32 \<Longrightarrow>
   unat (payload_size (fst (sent_packet r))) = length (snd (sent_packet r))"
  by (cases r rule: sent_packet.cases) (simp_all add: unat_of_nat take_bit_nat_eq_self)


lemma unat_push_32: "unat (push_bit 32 (w :: u64)) = (unat w mod 2 ^ 32) * 2 ^ 32"
proof -
  have "unat (push_bit 32 w) = (unat w * 2 ^ 32) mod 2 ^ 64"
    unfolding unsigned_push_bit_eq unfolding take_bit_eq_mod push_bit_eq_mult by simp
  also have "\<dots> = (unat w mod 2 ^ 32) * 2 ^ 32"
    using mult_mod_right [of "2 ^ 32 :: nat" "unat w" "2 ^ 32"] by (simp add: mult.commute)
  finally show ?thesis .
qed

lemma or_disjoint_add:
  "n < 2 ^ 32 \<Longrightarrow> (m * 2 ^ 32) OR n = m * 2 ^ 32 + (n :: nat)"
  by (metis disjunctive_add bit_take_bit_iff bit_push_bit_iff push_bit_eq_mult take_bit_nat_eq_self not_le)

lemma ntp_timestamp_value:
  assumes "unat secs + 2208988800 < 2 ^ 64" and "unat nanos < 1000000000"
  shows "unat (ntp_timestamp_now secs nanos) =
    ((unat secs + 2208988800) mod 2 ^ 32) * 2 ^ 32 + unat nanos * 2 ^ 32 div 1000000000"
proof -
  have n: "unat (ucast nanos :: u64) = unat nanos"
    by (simp add: unsigned_ucast_eq take_bit_nat_eq_self_iff order_less_trans [OF assms(2)])
  have "unat (push_bit 32 (ucast nanos :: u64)) = unat nanos * 2 ^ 32"
    using assms(2) by (simp add: unat_push_32 n)
  then have frac: "unat (push_bit 32 (ucast nanos :: u64) div 1000000000) = unat nanos * 2 ^ 32 div 1000000000"
    by (simp add: unat_div)
  have small: "unat nanos * 2 ^ 32 div 1000000000 < 2 ^ 32"
    using assms(2) by (simp add: div_less_iff_less_mult)
  have "unat (secs + 2208988800) = unat secs + 2208988800"
    using assms(1) by (subst unat_add_lem [THEN iffD1]) simp_all
  then have "unat (ntp_timestamp_now secs nanos) =
      ((unat secs + 2208988800) mod 2 ^ 32) * 2 ^ 32 OR (unat nanos * 2 ^ 32 div 1000000000)"
    by (simp only: ntp_timestamp_now_def NTP_EPOCH_OFFSET_def Let_def unsigned_or_eq unat_push_32 frac)
  then show ?thesis by (simp only: or_disjoint_add [OF small])
qed


lemma ntp_byte0:
  fixes b :: u8
  shows "(push_bit 3 (drop_bit 3 b AND 7) OR 4) AND 7 = 4"
    "drop_bit 3 (push_bit 3 (drop_bit 3 b AND 7) OR 4) = drop_bit 3 b AND 7"
proof -
  have c: "(7 :: u8) = mask 3" "(4 :: u8) = 2 ^ 2" by (simp_all add: mask_eq_exp_minus_1)
  show "(push_bit 3 (drop_bit 3 b AND 7) OR 4) AND 7 = 4"
    "drop_bit 3 (push_bit 3 (drop_bit 3 b AND 7) OR 4) = drop_bit 3 b AND 7"
    unfolding c by (rule bit_word_eqI, auto simp only: bit_simps comp_apply; simp?; linarith?)+
qed


section \<open>Properties\<close>

text \<open>A mirror header occupies exactly 128 bytes and decodes to itself, also with a payload
  behind it; decoding refuses exactly the buffers that are too short or whose type field is
  none of the three packet types.\<close>

theorem mirror_header_codec:
  "length (header_encode h) = 128 \<and> header_decode (header_encode h @ payload) = Some h \<and>
   (header_decode data = None \<longleftrightarrow> length data < 128 \<or> from_le (take 2 (drop 4 data)) \<ge> 3)"
proof -
  have "from_le (take 2 (drop 4 data)) < 2 ^ 16" if "length data \<ge> 128"
    using from_le_less [of "take 2 (drop 4 data)"] that by simp
  then have "header_decode data = None \<longleftrightarrow> length data < 128 \<or> from_le (take 2 (drop 4 data)) \<ge> 3"
    by (auto simp: header_decode_def from_u16_def HEADER_SIZE_def word_unat_eq_iff unat_of_nat
        take_bit_nat_eq_self split: option.splits if_splits)
  then show ?thesis by (simp add: header_decode_encode) (simp add: HEADER_SIZE_def)
qed

text \<open>A receiver that reads headers and as many bytes as each announces recovers exactly the
  packets that were sent, in order and with nothing left over, for every sequence of codec
  data, video frames and heartbeats whose payloads are shorter than 4 GiB.\<close>

theorem mirror_stream_readable:
  assumes "\<forall>r \<in> set rs. length (request_bytes (snd r)) < 2 ^ 32"
  shows "read_packets (foldl send_one [] rs) = (map sent_packet rs, [])"
proof -
  have "\<forall>(h, p) \<in> set (map sent_packet rs). unat (payload_size h) = length p"
    using assms sent_packet_size by (auto simp: case_prod_beta)
  then show ?thesis by (simp add: send_all_bytes read_packets_bytes)
qed

theorem mirror_stream_readable_witness:
  "read_packets (foldl send_one [] [(1, SendCodec [103, 104]), (2, SendHeartbeat), (3, SendVideo [101])]) =
   (map sent_packet [(1, SendCodec [103, 104]), (2, SendHeartbeat), (3, SendVideo [101])], [])"
  by (rule mirror_stream_readable) simp

text \<open>An NTP answer is a 48-byte server packet of the client's version with leap indicator 0
  and stratum 1 that echoes the client's transmit time as originate time and carries the
  present time as receive and transmit time; shorter datagrams get no answer.\<close>

theorem ntp_answer:
  assumes "ntp_serve now datagram = Some r"
  shows "length datagram \<ge> 48 \<and> length r = 48 \<and> (r ! 0) AND 7 = 4 \<and>
    drop_bit 3 (r ! 0) = drop_bit 3 (datagram ! 0) AND 7 \<and> r ! 1 = 1 \<and>
    take 8 (drop 24 r) = take 8 (drop 40 datagram) \<and>
    from_be (take 8 (drop 32 r)) = unat now \<and> from_be (take 8 (drop 40 r)) = unat now"
proof -
  from assms have len: "length datagram \<ge> 48"
    and r: "r = build_ntp_response now (take 48 datagram)"
    by (auto simp: ntp_serve_def NTP_PACKET_SIZE_def split: if_splits)
  have "from_be (nat_to_be 8 (unat now)) = unat now"
    by (rule from_be_nat_to_be, rule unat_u64)
  with len have "length r = 48 \<and> r ! 1 = 1 \<and> take 8 (drop 24 r) = take 8 (drop 40 datagram) \<and>
    from_be (take 8 (drop 32 r)) = unat now \<and> from_be (take 8 (drop 40 r)) = unat now"
    by (simp add: r build_ntp_response_def Let_def take_drop min_def)
  moreover have r0: "r ! 0 = push_bit 3 (drop_bit 3 (datagram ! 0) AND 7) OR 4"
    using len by (simp add: r build_ntp_response_def Let_def)
  ultimately show ?thesis using len by (simp only: r0 ntp_byte0 simp_thms)
qed

theorem ntp_answer_witness:
  "length (the (ntp_serve 5 (replicate 48 0x23))) = 48"
  using ntp_answer [of 5 "replicate 48 0x23" "the (ntp_serve 5 (replicate 48 0x23))"]
  by (simp add: ntp_serve_def NTP_PACKET_SIZE_def)

text \<open>The 64-bit timestamp is the NTP format of the clock: the seconds since 1900 modulo
  \<open>2 ^ 32\<close> in the upper half and the nanoseconds scaled to a 32-bit binary fraction, rounded
  down, in the lower half.\<close>

theorem ntp_timestamp_format:
  assumes "unat secs + 2208988800 < 2 ^ 64" and "unat nanos < 1000000000"
  shows "unat (ntp_timestamp_now secs nanos) =
    ((unat secs + 2208988800) mod 2 ^ 32) * 2 ^ 32 + unat nanos * 2 ^ 32 div 1000000000"
  using assms by (rule ntp_timestamp_value)

theorem ntp_timestamp_format_witness:
  "unat (ntp_timestamp_now 0 500000000) = 2208988800 * 2 ^ 32 + 2 ^ 31"
  using ntp_timestamp_format [of 0 500000000] by simp

text \<open>The clock is served as long as the session lasts and no longer: the task sends exactly the answers
  to the whole datagrams that come before the socket fails or the server is stopped or dropped, in
  order and each to the client that asked, and after a stop or a drop it has ended.\<close>

fun ntp_goes_on :: "ntp_event \<Rightarrow> bool" where
  "ntp_goes_on (Datagram _ _ _ _) = True"
| "ntp_goes_on _ = False"

fun ntp_reply :: "ntp_event \<Rightarrow> (socket_addr \<times> bytes) option" where
  "ntp_reply (Datagram now d a sent) = (if sent \<and> length d \<ge> 48 then Some (a, build_ntp_response now (take 48 d)) else None)"
| "ntp_reply _ = None"

theorem ntp_server_answers:
  "ntp_loop evs = (List.map_filter ntp_reply (takeWhile ntp_goes_on evs), list_all ntp_goes_on evs) \<and>
   (ntp_start port (Inr (Inr a)) = Inr s \<longrightarrow>
     (\<forall>later. \<not> snd (ntp_loop (evs @ ntp_drop s @ later)) \<and> \<not> snd (ntp_loop (evs @ snd (ntp_stop s) @ later))))"
proof -
  have "ntp_loop es = (List.map_filter ntp_reply (takeWhile ntp_goes_on es), list_all ntp_goes_on es)" for es
    by (induction es rule: ntp_loop.induct)
      (auto simp: ntp_serve_def NTP_PACKET_SIZE_def map_filter_def split: prod.splits)
  then show ?thesis by (auto simp: ntp_start_def ntp_drop_def ntp_stop_def)
qed

theorem ntp_server_answers_witness:
  "\<not> snd (ntp_loop ([Datagram 5 (replicate 48 0x23) (V4 1, 9) True] @ snd (ntp_stop \<lparr> ntp_shutdown = True, ntp_local_addr = (V4 2, 7010) \<rparr>) @ []))"
  using ntp_server_answers [of "[Datagram 5 (replicate 48 0x23) (V4 1, 9) True]" 7010 "(V4 2, 7010)"
      "\<lparr> ntp_shutdown = True, ntp_local_addr = (V4 2, 7010) \<rparr>"]
  by (simp only: ntp_start_def sum.case) blast

end
