(* ===== verification/Features.thy ===== *)
theory Features
  imports Text
begin

text \<open>
  The AirPlay feature mask of \<open>openplay-airplay/src/features.rs\<close>: 64 bits, printed as one hex
  number or as two 32-bit halves with the low half first.
\<close>

type_synonym airplay_features = u64

definition FEATURE_VIDEO :: u64 where "FEATURE_VIDEO = push_bit 0 1"
definition FEATURE_PHOTO :: u64 where "FEATURE_PHOTO = push_bit 1 1"
definition FEATURE_SCREEN :: u64 where "FEATURE_SCREEN = push_bit 7 1"
definition FEATURE_AUDIO :: u64 where "FEATURE_AUDIO = push_bit 9 1"
definition FEATURE_SUPPORTS_HK_PAIRING :: u64 where "FEATURE_SUPPORTS_HK_PAIRING = push_bit 46 1"
definition FEATURE_SUPPORTS_TRANSIENT_PAIRING :: u64 where
  "FEATURE_SUPPORTS_TRANSIENT_PAIRING = push_bit 48 1"

definition parse_hex :: "string \<Rightarrow> u64 option" where
  "parse_hex s =
     (let t = (case strip_prefix_str ''0x'' s of
                 Some r \<Rightarrow> r
               | None \<Rightarrow> (case strip_prefix_str ''0X'' s of Some r \<Rightarrow> r | None \<Rightarrow> s))
      in map_option of_nat (from_str_radix 16 (2 ^ 64) t))"

text \<open>\<open>u64::from(u32::try_from(v).ok()?)\<close>: the value if it fits 32 bits.\<close>

definition fits_u32 :: "u64 \<Rightarrow> u64 option" where
  "fits_u32 v = (if unat v < 2 ^ 32 then Some v else None)"

definition features_parse :: "string \<Rightarrow> airplay_features option" where
  "features_parse s =
     (case split_once (CHR '','') s of
        Some (lo_str, hi_str) \<Rightarrow>
          Option.bind (Option.bind (parse_hex (trim_str lo_str)) fits_u32) (\<lambda>lo.
          Option.bind (Option.bind (parse_hex (trim_str hi_str)) fits_u32) (\<lambda>hi.
          Some (push_bit 32 hi OR lo)))
      | None \<Rightarrow> parse_hex (trim_str s))"

definition supports_mirroring :: "airplay_features \<Rightarrow> bool" where
  "supports_mirroring f \<longleftrightarrow> f AND FEATURE_SCREEN \<noteq> 0"

definition supports_video :: "airplay_features \<Rightarrow> bool" where
  "supports_video f \<longleftrightarrow> f AND FEATURE_VIDEO \<noteq> 0"

definition supports_photo :: "airplay_features \<Rightarrow> bool" where
  "supports_photo f \<longleftrightarrow> f AND FEATURE_PHOTO \<noteq> 0"

definition supports_audio :: "airplay_features \<Rightarrow> bool" where
  "supports_audio f \<longleftrightarrow> f AND FEATURE_AUDIO \<noteq> 0"

definition requires_hk_pairing :: "airplay_features \<Rightarrow> bool" where
  "requires_hk_pairing f \<longleftrightarrow> f AND FEATURE_SUPPORTS_HK_PAIRING \<noteq> 0"

definition supports_transient_pairing :: "airplay_features \<Rightarrow> bool" where
  "supports_transient_pairing f \<longleftrightarrow> f AND FEATURE_SUPPORTS_TRANSIENT_PAIRING \<noteq> 0"


section \<open>Lemmas\<close>

lemma flag_bit: "n < 64 \<Longrightarrow> (f :: u64) AND push_bit n 1 \<noteq> 0 \<longleftrightarrow> bit f n"
proof -
  assume "n < 64"
  have "bit (f AND push_bit n 1) m \<longleftrightarrow> m = n \<and> bit f n" for m
    using \<open>n < 64\<close> by (auto simp: bit_simps)
  moreover have "w = 0 \<longleftrightarrow> (\<forall>m. \<not> bit w m)" for w :: u64
    by (auto intro: bit_eqI)
  ultimately show ?thesis by metis
qed

lemmas feature_defs = supports_mirroring_def supports_video_def supports_photo_def
  supports_audio_def requires_hk_pairing_def supports_transient_pairing_def FEATURE_VIDEO_def
  FEATURE_PHOTO_def FEATURE_SCREEN_def FEATURE_AUDIO_def FEATURE_SUPPORTS_HK_PAIRING_def
  FEATURE_SUPPORTS_TRANSIENT_PAIRING_def

lemma feature_bits:
  "supports_mirroring f \<longleftrightarrow> bit f 7" "supports_video f \<longleftrightarrow> bit f 0" "supports_photo f \<longleftrightarrow> bit f 1"
  "supports_audio f \<longleftrightarrow> bit f 9" "requires_hk_pairing f \<longleftrightarrow> bit f 46"
  "supports_transient_pairing f \<longleftrightarrow> bit f 48"
  unfolding feature_defs by (rule flag_bit, simp)+

definition show_hex :: "nat \<Rightarrow> string" where
  "show_hex n = ''0x'' @ show_radix 16 n"

lemma hex_digit_plain: "d < 16 \<Longrightarrow> \<not> is_ws (digit_char d) \<and> digit_char d \<noteq> CHR '',''"
  by (auto simp: digit_char_def is_ws_def dest!: arg_cong [where f = "of_char :: char \<Rightarrow> nat"])

lemma show_hex_plain: "c \<in> set (show_hex n) \<Longrightarrow> \<not> is_ws c \<and> c \<noteq> CHR '',''"
proof -
  assume "c \<in> set (show_hex n)"
  then consider "c = CHR ''0'' \<or> c = CHR ''x''" | d where "d < 16" "c = digit_char d"
    using show_radix_digits [of 16 c n] by (auto simp: show_hex_def)
  then show ?thesis using hex_digit_plain by cases (auto simp: is_ws_def)
qed

lemma trim_show_hex [simp]: "trim_str (show_hex n) = show_hex n"
  by (rule trim_str_noop)
    (use show_hex_plain [of "last (show_hex n)" n] in \<open>auto simp: show_hex_def is_ws_def\<close>)

lemma parse_show_hex: "n < 2 ^ 64 \<Longrightarrow> parse_hex (show_hex n) = Some (of_nat n)"
  by (simp add: parse_hex_def show_hex_def strip_prefix_str_def parse_show)

lemma no_comma: "CHR '','' \<notin> set (show_hex n)"
  using show_hex_plain by blast

lemma features_parse_single: "n < 2 ^ 64 \<Longrightarrow> features_parse (show_hex n) = Some (of_nat n)"
  using no_comma [of n] by (simp add: features_parse_def split_once_None [THEN iffD2] parse_show_hex)

lemma features_parse_split:
  assumes "lo < 2 ^ 64" and "hi < 2 ^ 64"
  shows "features_parse (show_hex lo @ '','' @ show_hex hi) =
    (if lo < 2 ^ 32 \<and> hi < 2 ^ 32 then Some (push_bit 32 (of_nat hi) OR of_nat lo) else None)"
proof -
  have "split_once (CHR '','') (show_hex lo @ '','' @ show_hex hi) = Some (show_hex lo, show_hex hi)"
    using split_once_notin [OF no_comma] by simp
  moreover have "unat (of_nat lo :: u64) = lo" "unat (of_nat hi :: u64) = hi"
    using assms by (simp_all add: unat_of_nat take_bit_nat_eq_self)
  ultimately show ?thesis
    using assms by (simp add: features_parse_def parse_show_hex fits_u32_def)
qed

lemma bit_halves:
  fixes lo hi :: u32
  shows "bit (push_bit 32 (of_nat (unat hi)) OR of_nat (unat lo) :: u64) n \<longleftrightarrow>
    (if n < 32 then bit lo n else n < 64 \<and> bit hi (n - 32))"
proof -
  have "(of_nat (unat lo) :: u64) = ucast lo" "(of_nat (unat hi) :: u64) = ucast hi"
    by (simp_all add: unsigned_of_nat)
  then show ?thesis by (auto simp: bit_simps dest: bit_imp_le_length)
qed

lemma feature_halves:
  fixes lo hi :: u32
  defines "f \<equiv> push_bit 32 (of_nat (unat hi)) OR of_nat (unat lo) :: u64"
  shows "supports_mirroring f \<longleftrightarrow> bit lo 7" "supports_video f \<longleftrightarrow> bit lo 0"
    "supports_photo f \<longleftrightarrow> bit lo 1" "supports_audio f \<longleftrightarrow> bit lo 9"
    "requires_hk_pairing f \<longleftrightarrow> bit hi 14" "supports_transient_pairing f \<longleftrightarrow> bit hi 16"
  unfolding f_def feature_bits bit_halves by simp_all


section \<open>Properties\<close>

text \<open>The mask survives both printed forms: one hex number parses to the 64-bit value, and two
  32-bit halves, low half first, parse to the mask whose pairing flags come from bits 14 and
  16 of the high half and whose media flags come from the low half.\<close>

theorem features_roundtrip:
  fixes raw :: u64 and lo hi :: u32
  shows "features_parse (show_hex (unat raw)) = Some raw \<and>
    (\<exists>f. features_parse (show_hex (unat lo) @ '','' @ show_hex (unat hi)) = Some f \<and>
       (supports_mirroring f \<longleftrightarrow> bit lo 7) \<and> (supports_video f \<longleftrightarrow> bit lo 0) \<and>
       (supports_photo f \<longleftrightarrow> bit lo 1) \<and> (supports_audio f \<longleftrightarrow> bit lo 9) \<and>
       (requires_hk_pairing f \<longleftrightarrow> bit hi 14) \<and> (supports_transient_pairing f \<longleftrightarrow> bit hi 16))"
proof -
  have "unat raw < 2 ^ 64" "unat lo < 2 ^ 32" "unat hi < 2 ^ 32"
    using unsigned_less [of raw, where ?'a = nat] unsigned_less [of lo, where ?'a = nat]
      unsigned_less [of hi, where ?'a = nat] by simp_all
  then have "features_parse (show_hex (unat raw)) = Some raw"
    "features_parse (show_hex (unat lo) @ '','' @ show_hex (unat hi)) =
       Some (push_bit 32 (of_nat (unat hi)) OR of_nat (unat lo))"
    using features_parse_single [of "unat raw"] features_parse_split [of "unat lo" "unat hi"]
    by simp_all
  with feature_halves [of hi lo] show ?thesis by blast
qed

text \<open>In the two-halves form a half wider than 32 bits is refused rather than shifted out of
  the mask.\<close>

theorem features_refuse_wide_half:
  assumes "lo < 2 ^ 64" and "hi < 2 ^ 64" and "2 ^ 32 \<le> lo \<or> 2 ^ 32 \<le> hi"
  shows "features_parse (show_hex lo @ '','' @ show_hex hi) = None"
  using features_parse_split [OF assms(1,2)] assms(3) by auto

theorem features_refuse_wide_half_witness:
  "features_parse (show_hex 7 @ '','' @ show_hex (2 ^ 32)) = None"
  by (rule features_refuse_wide_half) simp_all

end
