(* ===== verification/Airplay_Session.thy ===== *)
theory Airplay_Session
  imports Hap Control_Channel Mirror Features
begin

text \<open>
  An AirPlay mirroring session: HTTP negotiation (\<open>negotiate\<close>, \<open>get_info\<close>, \<open>post_stream\<close>,
  \<open>parse_info_response\<close>, \<open>build_stream_request\<close> of \<open>http_session.rs\<close>) and the session task
  (\<open>run_session\<close>, \<open>wants_authentication\<close>, \<open>status_code\<close>, \<open>negotiate_with_auth\<close> of \<open>session.rs\<close>,
  both in \<open>openplay-airplay/src\<close>).

  A receiver is a function from the requests sent on a connection to the chunks it answers the
  last one with (\<open>None\<close>: the write fails; on the empty list: whether the connection opens).
  Property lists are third-party: \<open>plist_lib\<close>. The task's inputs are the commands of its channel
  and the ticks of the heartbeat, in the order the mirror stream's lock is taken, each with
  the clock and the outcome of its writes.
\<close>

section \<open>Negotiation\<close>

datatype plist_value =
    PString string
  | PInteger int
  | PReal nat
  | PBoolean bool
  | PDictionary "(string \<times> plist_value) list"
  | POther

record plist_lib =
  to_writer_binary :: "plist_value \<Rightarrow> bytes option"
  plist_from_bytes :: "bytes \<Rightarrow> plist_value option"

datatype airplay_error =
    ConnectionError
  | HttpFailed http_error
  | WriteError
  | NtpError
  | PlistEncode
  | PlistNotDictionary
  | Negotiation string
  | TransientUnsupported string bool
  | TransientFailed hap_error
  | EncryptedRequestFailed control_error
  | MirrorFailed mirror_error

record server_info =
  model :: string
  device_name :: string
  features :: airplay_features
  source_version :: string
  mac_address :: string

definition default_server_info :: server_info where
  "default_server_info = \<lparr> model = [], device_name = [], features = 0, source_version = [], mac_address = [] \<rparr>"

record session_params =
  width :: u32
  height :: u32
  fps :: u32
  session_id :: string
  sender_name :: ustr

type_synonym http_request = "ustr \<times> bytes"
type_synonym http_peer = "http_request list \<Rightarrow> bytes list option"

record http_conn =
  conn_sent :: "http_request list"
  conn_unread :: "bytes list"

definition http_connect :: "http_peer \<Rightarrow> airplay_error + http_conn" where
  "http_connect peer =
     (case peer [] of None \<Rightarrow> Inl ConnectionError
      | Some cs \<Rightarrow> Inr \<lparr> conn_sent = [], conn_unread = cs \<rparr>)"

definition http_exchange ::
  "http_peer \<Rightarrow> http_request \<Rightarrow> http_conn \<Rightarrow> airplay_error + string \<times> bytes \<times> http_conn" where
  "http_exchange peer req conn =
     (let sent = conn_sent conn @ [req]
      in case peer sent of
           None \<Rightarrow> Inl WriteError
         | Some cs \<Rightarrow>
             (case read_http_response (conn_unread conn @ cs) of
                Inl e \<Rightarrow> Inl (HttpFailed e)
              | Inr (headers, body, rest) \<Rightarrow>
                  Inr (headers, body, \<lparr> conn_sent = sent, conn_unread = rest \<rparr>)))"

definition dict_get :: "(string \<times> plist_value) list \<Rightarrow> string \<Rightarrow> plist_value option" where
  "dict_get d k = map_of d k"

definition get_str :: "(string \<times> plist_value) list \<Rightarrow> string \<Rightarrow> string" where
  "get_str d k = (case dict_get d k of Some (PString s) \<Rightarrow> s | _ \<Rightarrow> [])"

text \<open>An integer is printed in hexadecimal and parsed back.\<close>

definition info_features :: "(string \<times> plist_value) list \<Rightarrow> airplay_features" where
  "info_features d =
     (let s = get_str d ''features'';
          parsed = (if s = [] then
              (case dict_get d ''features'' of
                 Some (PInteger i) \<Rightarrow>
                   if 0 \<le> i then features_parse (''0x'' @ show_hex_upper 0 (nat i)) else None
               | _ \<Rightarrow> None)
            else features_parse s)
      in case parsed of None \<Rightarrow> 0 | Some f \<Rightarrow> f)"

definition parse_info_response :: "plist_lib \<Rightarrow> bytes \<Rightarrow> airplay_error + server_info" where
  "parse_info_response L body =
     (if body = [] then Inr default_server_info
      else case plist_from_bytes L body of
        None \<Rightarrow> Inr default_server_info
      | Some (PDictionary d) \<Rightarrow>
          Inr \<lparr> model = get_str d ''model'', device_name = get_str d ''deviceName'',
               features = info_features d, source_version = get_str d ''sourceVersion'',
               mac_address = get_str d ''macAddress'' \<rparr>
      | Some _ \<Rightarrow> Inl PlistNotDictionary)"

definition get_info_raw ::
  "http_peer \<Rightarrow> session_params \<Rightarrow> http_conn \<Rightarrow> airplay_error + string \<times> bytes \<times> http_conn" where
  "get_info_raw peer p conn = http_exchange peer (info_request (lit (session_id p)) (sender_name p), []) conn"

definition get_info ::
  "plist_lib \<Rightarrow> http_peer \<Rightarrow> session_params \<Rightarrow> http_conn \<Rightarrow> airplay_error + server_info \<times> http_conn" where
  "get_info L peer p conn =
     result_bind (http_exchange peer (info_request (lit (session_id p)) (sender_name p), []) conn)
       (\<lambda>(_, body, conn'). result_bind (parse_info_response L body) (\<lambda>info. Inr (info, conn')))"

text \<open>The parameters in the order of the \<open>BTreeMap\<close> they are collected in.\<close>

definition stream_plist :: "session_params \<Rightarrow> plist_value" where
  "stream_plist p = PDictionary
     [(''fps'', PInteger (uint (fps p))), (''height'', PInteger (uint (height p))),
      (''overscanned'', PBoolean False), (''refreshRate'', PReal (unat (fps p))),
      (''sessionID'', PString (session_id p)), (''version'', PString ''1.0''),
      (''width'', PInteger (uint (width p)))]"

definition build_stream_request :: "plist_lib \<Rightarrow> session_params \<Rightarrow> airplay_error + http_request" where
  "build_stream_request L p =
     (case to_writer_binary L (stream_plist p) of
        None \<Rightarrow> Inl PlistEncode
      | Some body \<Rightarrow> Inr (stream_request_head (length body) (lit (session_id p)) (sender_name p), body))"

definition first_line_or :: "string \<Rightarrow> string \<Rightarrow> string" where
  "first_line_or d s = (case lines s of [] \<Rightarrow> d | l # _ \<Rightarrow> l)"

definition NO_STATUS :: string where "NO_STATUS = ''<no status line>''"
definition POST_FAILED :: string where "POST_FAILED = ''POST /stream failed: ''"

definition post_stream ::
  "plist_lib \<Rightarrow> http_peer \<Rightarrow> session_params \<Rightarrow> http_conn \<Rightarrow> airplay_error + http_conn" where
  "post_stream L peer p conn =
     result_bind (build_stream_request L p) (\<lambda>req.
     result_bind (http_exchange peer req conn) (\<lambda>(headers, _, conn').
       if status_is_success headers then Inr conn'
       else Inl (Negotiation (POST_FAILED @ first_line_or NO_STATUS headers))))"

definition negotiate ::
  "plist_lib \<Rightarrow> http_peer \<Rightarrow> session_params \<Rightarrow> airplay_error + server_info \<times> http_conn" where
  "negotiate L peer p =
     result_bind (http_connect peer) (\<lambda>conn.
     result_bind (get_info L peer p conn) (\<lambda>(info, conn1).
     result_bind (post_stream L peer p conn1) (\<lambda>conn2. Inr (info, conn2))))"


section \<open>The authenticated path\<close>

definition status_code :: "string \<Rightarrow> nat option" where
  "status_code msg =
     (case lines msg of
        [] \<Rightarrow> None
      | status_line # _ \<Rightarrow>
          (let after = (case after_pattern ''HTTP/1.1'' status_line of
               Some s \<Rightarrow> Some s | None \<Rightarrow> after_pattern ''HTTP/1.0'' status_line)
           in case after of
                None \<Rightarrow> None
              | Some s \<Rightarrow>
                  (case split_whitespace s of [] \<Rightarrow> None | w # _ \<Rightarrow> from_str_radix 10 (2 ^ 16) w)))"

definition wants_authentication :: "string \<Rightarrow> bool" where
  "wants_authentication msg =
     (case status_code msg of None \<Rightarrow> False | Some c \<Rightarrow> c \<in> {401, 403, 404, 470, 501})"

definition needs_fairplay :: "string \<Rightarrow> bool" where
  "needs_fairplay m \<longleftrightarrow> starts_with ''AppleTV3'' m \<or> starts_with ''AppleTV2'' m"

definition channel_of :: "pairing_crypto \<Rightarrow> channel_crypto" where
  "channel_of C = \<lparr> control_hkdf = hkdf C, seal = aead_seal C, unseal = aead_open C \<rparr>"

text \<open>The connections of the authenticated path: the second \<open>GET /info\<close>, the pairing, and the bytes
  the receiver sends on the pairing connection after M4; \<open>secret\<close> is the SRP exponent.\<close>

record auth_env =
  info_peer :: http_peer
  pairing_peer :: peer
  after_m4 :: bytes
  secret :: nat

definition MIRROR_UNSUPPORTED :: string where
  "MIRROR_UNSUPPORTED = ''Transient pairing and the encrypted control channel now succeed, but the '' @
     ''mirror stream cannot yet send video over an encrypted connection. See the '' @
     ''AirPlay status in docs/crypto.md.''"

definition negotiate_with_auth ::
  "plist_lib \<Rightarrow> pairing_crypto \<Rightarrow> auth_env \<Rightarrow> session_params \<Rightarrow> airplay_error + server_info \<times> http_conn" where
  "negotiate_with_auth L C env p =
     result_bind (http_connect (info_peer env)) (\<lambda>conn.
     result_bind (get_info_raw (info_peer env) p conn) (\<lambda>(_, body, _).
     result_bind (parse_info_response L body) (\<lambda>info.
     if \<not> supports_transient_pairing (features info)
     then Inl (TransientUnsupported (model info) (needs_fairplay (model info)))
     else case pair_setup_transient C (pairing_peer env) (secret env) of
       Inl e \<Rightarrow> Inl (TransientFailed e)
     | Inr (_, key) \<Rightarrow>
         result_bind (build_stream_request L p) (\<lambda>(head, body).
         case fst (control_request (channel_of C) (utf8 head @ body)
             (control_new (channel_of C) key (after_m4 env))) of
           Inl e \<Rightarrow> Inl (EncryptedRequestFailed e)
         | Inr response \<Rightarrow>
             (let status_line = first_line_or NO_STATUS (lossy_str response)
              in if \<not> contains ''200'' status_line
                 then Inl (Negotiation (''POST /stream over the encrypted channel returned: '' @ status_line))
                 else Inl (Negotiation MIRROR_UNSUPPORTED))))))"


section \<open>The session task\<close>

datatype session_command = SendCodecData bytes | SendVideoFrame bytes | Stop

datatype session_event = Ready | Ended "airplay_error option"

datatype session_input =
    Command session_command u64 write_result
  | HeartbeatTick u64 write_result

text \<open>The command loop and the heartbeat task behind one lock: the state is whether the heartbeat
  task still runs and the bytes written to the mirror stream. The end of the list is the
  command channel closing.\<close>

fun mirror_loop :: "bool \<Rightarrow> bytes \<Rightarrow> session_input list \<Rightarrow> bytes \<times> (airplay_error + unit)" where
  "mirror_loop hb sent [] = (sent, Inr ())"
| "mirror_loop hb sent (Command (SendCodecData d) now w # ins) =
     (case send_codec_data w now sent d of
        (sent', Inl e) \<Rightarrow> (sent', Inl (MirrorFailed e))
      | (sent', Inr _) \<Rightarrow> mirror_loop hb sent' ins)"
| "mirror_loop hb sent (Command (SendVideoFrame d) now w # ins) =
     (case send_video_frame w now sent d of
        (sent', Inl e) \<Rightarrow> (sent', Inl (MirrorFailed e))
      | (sent', Inr _) \<Rightarrow> mirror_loop hb sent' ins)"
| "mirror_loop hb sent (Command Stop now w # ins) = (sent, Inr ())"
| "mirror_loop hb sent (HeartbeatTick now w # ins) =
     (if \<not> hb then mirror_loop hb sent ins
      else case send_heartbeat w now sent of
        (sent', Inl e) \<Rightarrow> mirror_loop False sent' ins
      | (sent', Inr _) \<Rightarrow> mirror_loop hb sent' ins)"

definition session_negotiation ::
  "plist_lib \<Rightarrow> pairing_crypto \<Rightarrow> bool \<Rightarrow> http_peer \<Rightarrow> auth_env \<Rightarrow> session_params \<Rightarrow>
   airplay_error + server_info \<times> http_conn" where
  "session_negotiation L C ntp_ok peer env p =
     (if \<not> ntp_ok then Inl NtpError
      else case negotiate L peer p of
        Inl (Negotiation msg) \<Rightarrow>
          if wants_authentication msg then negotiate_with_auth L C env p else Inl (Negotiation msg)
      | r \<Rightarrow> r)"

text \<open>The task with its error report: the events it emits and the bytes of the mirror stream.\<close>

definition run_session ::
  "plist_lib \<Rightarrow> pairing_crypto \<Rightarrow> bool \<Rightarrow> http_peer \<Rightarrow> auth_env \<Rightarrow> session_params \<Rightarrow> session_input list \<Rightarrow>
   session_event list \<times> bytes" where
  "run_session L C ntp_ok peer env p ins =
     (case session_negotiation L C ntp_ok peer env p of
        Inl e \<Rightarrow> ([Ended (Some e)], [])
      | Inr _ \<Rightarrow>
          (case mirror_loop True [] ins of
             (sent, Inl e) \<Rightarrow> ([Ready, Ended (Some e)], sent)
           | (sent, Inr _) \<Rightarrow> ([Ready, Ended None], sent)))"


section \<open>Lemmas\<close>

lemma negotiate_with_auth_error: "\<exists>e. negotiate_with_auth L C env p = Inl e"
proof -
  have "negotiate_with_auth L C env p \<noteq> Inr r" for r
    unfolding negotiate_with_auth_def result_bind_Inr
    by (auto simp: result_bind_Inr Let_def split: if_splits sum.splits)
  then show ?thesis by (cases "negotiate_with_auth L C env p") auto
qed

lemma session_negotiation_ok:
  "session_negotiation L C ntp_ok peer env p = Inr r \<longleftrightarrow> ntp_ok \<and> negotiate L peer p = Inr r"
  using negotiate_with_auth_error [of L C env p]
  by (auto simp: session_negotiation_def split: sum.splits airplay_error.splits)

lemma http_exchange_ok:
  "http_exchange peer req conn = Inr (headers, body, conn') \<longleftrightarrow>
   (\<exists>cs. peer (conn_sent conn @ [req]) = Some cs \<and> conn_sent conn' = conn_sent conn @ [req] \<and>
     read_http_response (conn_unread conn @ cs) = Inr (headers, body, conn_unread conn'))"
  by (cases conn') (auto simp: http_exchange_def Let_def split: option.splits sum.splits)

definition input_ok :: "session_input \<Rightarrow> bool" where
  "input_ok i = (case i of
      Command _ _ w \<Rightarrow> header_written w \<and> payload_written w \<and> flushed w
    | HeartbeatTick _ w \<Rightarrow> header_written w \<and> payload_written w \<and> flushed w)"

fun is_stop :: "session_input \<Rightarrow> bool" where
  "is_stop (Command Stop _ _) = True"
| "is_stop _ = False"

fun input_request :: "session_input \<Rightarrow> u64 \<times> send_request" where
  "input_request (Command (SendCodecData d) now _) = (now, SendCodec d)"
| "input_request (Command (SendVideoFrame d) now _) = (now, SendVideo d)"
| "input_request (Command Stop now _) = (now, SendHeartbeat)"
| "input_request (HeartbeatTick now _) = (now, SendHeartbeat)"

lemma mirror_loop_bytes:
  "list_all input_ok ins \<Longrightarrow>
   mirror_loop True sent ins =
     (sent @ packets_bytes (map (sent_packet \<circ> input_request) (takeWhile (Not \<circ> is_stop) ins)), Inr ())"
  by (induction "True" sent ins rule: mirror_loop.induct)
    (auto simp: input_ok_def send_defs packets_bytes_def)

lemma first_word:
  "\<forall>c \<in> set w. \<not> is_ws c \<Longrightarrow> w \<noteq> [] \<Longrightarrow>
   split_whitespace (CHR '' '' # w @ CHR '' '' # rest) = w # split_whitespace rest"
  by (simp add: split_whitespace_def is_ws_def words_from_word)

lemma decimal_chars:
  assumes "c \<in> set (show_radix 10 n)"
  shows "\<not> is_ws c" "c \<noteq> newline" "c \<noteq> CHR ''H''"
  using show_decimal_plain [OF assms] by (auto simp: is_ws_def newline_def)

lemma session_stream_read:
  assumes "list_all input_ok ins" and "\<forall>i \<in> set ins. length (request_bytes (snd (input_request i))) < 2 ^ 32"
  shows "snd (mirror_loop True [] ins) = Inr () \<and>
    read_packets (fst (mirror_loop True [] ins)) =
      (map (sent_packet \<circ> input_request) (takeWhile (Not \<circ> is_stop) ins), [])"
proof -
  have "unat (payload_size (fst (sent_packet (input_request x)))) = length (snd (sent_packet (input_request x)))"
    if "x \<in> set ins" for x
    by (rule sent_packet_size) (use assms(2) that in blast)
  then have "\<forall>(h, p) \<in> set (map (sent_packet \<circ> input_request) (takeWhile (Not \<circ> is_stop) ins)).
      unat (payload_size h) = length p"
    by (auto simp: case_prod_beta dest!: set_takeWhileD)
  then show ?thesis using mirror_loop_bytes [OF assms(1), of "[]"] read_packets_bytes by simp
qed

text \<open>A status line of HTTP/1.1 as servers write it.\<close>

definition status_line :: "nat \<Rightarrow> string \<Rightarrow> string" where
  "status_line code reason = ''HTTP/1.1 '' @ show_radix 10 code @ '' '' @ reason"

lemma lines_single:
  "newline \<notin> set s \<Longrightarrow> s \<noteq> [] \<Longrightarrow> lines s = [s]"
  using lines_from_end [of s "[]"] by (simp add: lines_def)

lemma after_version:
  "\<exists>rest. after_pattern ''HTTP/1.1'' (POST_FAILED @ status_line code reason) =
     Some (CHR '' '' # show_radix 10 code @ CHR '' '' # rest)"
proof -
  let ?w = "CHR '' '' # show_radix 10 code @ [CHR '' '']"
  have f: "find_sub ''HTTP/1.1'' (POST_FAILED @ status_line code reason) = Some 21"
    by (simp add: POST_FAILED_def status_line_def)
  have d: "drop (21 + length ''HTTP/1.1'') (POST_FAILED @ status_line code reason) = ?w @ reason"
    by (simp add: POST_FAILED_def status_line_def)
  have "hd ''HTTP/1.1'' \<notin> set ?w" using decimal_chars(3) [of "CHR ''H''" code] by auto
  then have s: "find_sub ''HTTP/1.1'' (?w @ reason) =
      map_option (\<lambda>i. i + length ?w) (find_sub ''HTTP/1.1'' reason)"
    by (rule find_sub_skip) simp
  show ?thesis
  proof (cases "find_sub ''HTTP/1.1'' reason")
    case None
    then show ?thesis unfolding after_pattern_def f option.case d Let_def s by simp
  next
    case (Some j)
    have "take (j + length ?w) (?w @ reason) = ?w @ take j reason" by simp
    with Some show ?thesis unfolding after_pattern_def f option.case d Let_def s by simp
  qed
qed

lemma status_code_line:
  assumes "newline \<notin> set reason" and "code < 2 ^ 16"
  shows "status_code (POST_FAILED @ status_line code reason) = Some code"
proof -
  have "newline \<notin> set (POST_FAILED @ status_line code reason)"
    using assms(1) decimal_chars(2) [of newline code]
    by (auto simp: POST_FAILED_def status_line_def newline_def)
  then have "lines (POST_FAILED @ status_line code reason) = [POST_FAILED @ status_line code reason]"
    by (rule lines_single) (simp add: POST_FAILED_def)
  moreover obtain rest where "after_pattern ''HTTP/1.1'' (POST_FAILED @ status_line code reason) =
      Some (CHR '' '' # show_radix 10 code @ CHR '' '' # rest)"
    using after_version by blast
  moreover have "split_whitespace (CHR '' '' # show_radix 10 code @ CHR '' '' # rest) =
      show_radix 10 code # split_whitespace rest"
    using decimal_chars(1) show_radix_nonempty [of 10 code] by (intro first_word) auto
  ultimately show ?thesis using assms(2) by (simp add: status_code_def parse_show)
qed


section \<open>Properties\<close>

text \<open>A session reports its life exactly once and in order: it ends with one \<open>Ended\<close> event,
  preceded by \<open>Ready\<close> exactly when the clock started and the unauthenticated negotiation
  succeeded, and without \<open>Ready\<close> not a byte of video is written. A receiver that insists on
  authentication is therefore never mirrored to, whatever it answers.\<close>

theorem airplay_session_events:
  "(\<exists>outcome. fst (run_session L C ntp_ok peer env p ins) =
      (if ntp_ok \<and> is_ok (negotiate L peer p) then [Ready, Ended outcome] else [Ended outcome])) \<and>
   snd (run_session L C ntp_ok peer env p ins) =
      (if ntp_ok \<and> is_ok (negotiate L peer p) then fst (mirror_loop True [] ins) else [])"
proof (cases "ntp_ok \<and> is_ok (negotiate L peer p)")
  case True
  then obtain r where "session_negotiation L C ntp_ok peer env p = Inr r"
    by (auto simp: is_ok_iff session_negotiation_ok)
  with True show ?thesis by (auto simp: run_session_def split: prod.splits sum.splits)
next
  case False
  then have "session_negotiation L C ntp_ok peer env p \<noteq> Inr r" for r
    by (cases r) (auto simp: is_ok_iff session_negotiation_ok)
  then obtain e where "session_negotiation L C ntp_ok peer env p = Inl e"
    by (cases "session_negotiation L C ntp_ok peer env p") auto
  with False show ?thesis by (simp add: run_session_def)
qed

text \<open>Negotiation succeeds only on a success status: the connection handed to the mirror stream
  carried exactly \<open>GET /info\<close> and a \<open>POST /stream\<close> whose body encodes the requested size, rate and
  session, with the matching content length, and the answer to it had a 2xx status line.\<close>

theorem negotiate_accepted:
  assumes "negotiate L peer p = Inr (info, conn)"
  shows "\<exists>body cs unread headers b. to_writer_binary L (stream_plist p) = Some body \<and>
    conn_sent conn = [(info_request (lit (session_id p)) (sender_name p), []),
      (stream_request_head (length body) (lit (session_id p)) (sender_name p), body)] \<and>
    peer (conn_sent conn) = Some cs \<and>
    read_http_response (unread @ cs) = Inr (headers, b, conn_unread conn) \<and> status_is_success headers"
  using assms
  by (auto simp: negotiate_def get_info_def post_stream_def build_stream_request_def http_connect_def
      result_bind_Inr http_exchange_ok split: option.splits if_splits) blast

theorem negotiate_accepted_witness:
  "\<exists>conn. negotiate \<lparr> to_writer_binary = \<lambda>_. Some [7], plist_from_bytes = \<lambda>_. None \<rparr>
      (\<lambda>reqs. Some (if reqs = [] then [] else [ok_response []]))
      \<lparr> width = 1, height = 1, fps = 30, session_id = ''s'', sender_name = [] \<rparr> =
        Inr (default_server_info, conn) \<and> length (conn_sent conn) = 2"
proof -
  let ?L = "\<lparr> to_writer_binary = \<lambda>_. Some [7], plist_from_bytes = \<lambda>_. None \<rparr>"
  let ?peer = "\<lambda>reqs. Some (if reqs = [] then [] else [ok_response []])"
  let ?p = "\<lparr> width = 1, height = 1, fps = 30, session_id = ''s'', sender_name = [] \<rparr>"
  have "read_http_response [ok_response []] = Inr (ok_headers 0, [], [])"
    using find_header_end_ok [of 0 "[]"]
    by (simp add: read_http_response_def ok_response_def Let_def lossy_ok_headers header_end_def
        http_content_length_def lines_ok strip_prefix_str_def trim_str_def is_ws_def opt_or_def
        show_radix.simps digit_char_def from_str_radix_def digit_value_def)
  moreover have "status_is_success (ok_headers 0)"
    by (simp add: status_is_success_def lines_ok status_word_def split_whitespace_def is_ws_def
        from_str_radix_def digit_value_def)
  ultimately obtain conn where "negotiate ?L ?peer ?p = Inr (default_server_info, conn)"
    by (simp add: negotiate_def http_connect_def get_info_def http_exchange_def Let_def
        parse_info_response_def post_stream_def build_stream_request_def)
  with negotiate_accepted [OF this] show ?thesis by auto
qed

text \<open>Pairing is attempted for exactly the refusals that pairing can cure: if a receiver refuses
  \<open>POST /stream\<close> with an HTTP/1.1 status line, the session goes on to authenticate exactly when
  the status code is 401, 403, 404, 470 or 501, whatever digits the reason phrase contains.\<close>

theorem authentication_retry_codes:
  assumes "newline \<notin> set reason" and "code < 2 ^ 16"
    and "negotiate L peer p = Inl (Negotiation (POST_FAILED @ status_line code reason))"
  shows "session_negotiation L C True peer env p =
    (if code \<in> {401, 403, 404, 470, 501} then negotiate_with_auth L C env p
     else Inl (Negotiation (POST_FAILED @ status_line code reason)))"
  using assms by (simp add: session_negotiation_def wants_authentication_def status_code_line)

definition refusal :: bytes where
  "refusal = str_bytes (status_line 404 ''Not Found'') @ header_end"

lemma refusal_read:
  "read_http_response [refusal] = Inr (status_line 404 ''Not Found'', [], [])"
  "first_line_or NO_STATUS (status_line 404 ''Not Found'') = status_line 404 ''Not Found''"
  "\<not> status_is_success (status_line 404 ''Not Found'')"
proof -
  have s: "status_line 404 ''Not Found'' = ''HTTP/1.1 404 Not Found''"
    by (simp add: status_line_def show_radix.simps digit_char_def char_of_def bit_0)
  have l: "lines ''HTTP/1.1 404 Not Found'' = [''HTTP/1.1 404 Not Found'']"
    by (rule lines_single) (simp_all add: newline_def)
  have a: "lossy_str (str_bytes ''HTTP/1.1 404 Not Found'') = ''HTTP/1.1 404 Not Found''"
    by (rule lossy_str_ascii) simp
  have f: "find_header_end refusal = Some 22"
    by (simp add: refusal_def s find_header_end_def header_end_def str_bytes_def)
  have t: "take 22 refusal = str_bytes ''HTTP/1.1 404 Not Found''" "drop 26 refusal = []"
    "length refusal = 26" "refusal \<noteq> []"
    by (simp_all add: refusal_def s header_end_def str_bytes_def)
  show "read_http_response [refusal] = Inr (status_line 404 ''Not Found'', [], [])"
    by (simp add: read_http_response_def f t a Let_def s http_content_length_def l strip_prefix_str_def
        opt_or_def)
  show "first_line_or NO_STATUS (status_line 404 ''Not Found'') = status_line 404 ''Not Found''"
    by (simp add: s first_line_or_def l)
  show "\<not> status_is_success (status_line 404 ''Not Found'')"
    by (simp add: s status_is_success_def l status_word_def split_whitespace_def is_ws_def
        from_str_radix_def digit_value_def)
qed

theorem authentication_retry_codes_witness:
  "let L = \<lparr> to_writer_binary = \<lambda>_. Some [7], plist_from_bytes = \<lambda>_. None \<rparr>;
       p = \<lparr> width = 1, height = 1, fps = 30, session_id = ''s'', sender_name = [] \<rparr>;
       env = \<lparr> info_peer = \<lambda>_. None, pairing_peer = \<lambda>_. Inl ConnectionClosed, after_m4 = [], secret = 1 \<rparr>
   in session_negotiation L toy_crypto True (\<lambda>reqs. Some (if reqs = [] then [] else [refusal])) env p =
        negotiate_with_auth L toy_crypto env p"
proof -
  let ?L = "\<lparr> to_writer_binary = \<lambda>_. Some [7], plist_from_bytes = \<lambda>_. None \<rparr>"
  let ?p = "\<lparr> width = 1, height = 1, fps = 30, session_id = ''s'', sender_name = [] \<rparr>"
  have "negotiate ?L (\<lambda>reqs. Some (if reqs = [] then [] else [refusal])) ?p =
      Inl (Negotiation (POST_FAILED @ status_line 404 ''Not Found''))"
    by (simp add: negotiate_def http_connect_def get_info_def http_exchange_def Let_def
        parse_info_response_def post_stream_def build_stream_request_def refusal_read)
  from authentication_retry_codes [OF _ _ this] show ?thesis by (simp add: newline_def)
qed

text \<open>What a session writes is a readable mirror stream: if the socket takes every write, a
  reader of the stream recovers exactly the codec data, frames and heartbeats handed to the
  session before it was stopped, in order, each with its time, and nothing is left over.\<close>

theorem session_stream_readable:
  assumes "list_all input_ok ins" and "\<forall>i \<in> set ins. length (request_bytes (snd (input_request i))) < 2 ^ 32"
  shows "snd (mirror_loop True [] ins) = Inr () \<and>
    read_packets (fst (mirror_loop True [] ins)) =
      (map (sent_packet \<circ> input_request) (takeWhile (Not \<circ> is_stop) ins), [])"
  using assms by (rule session_stream_read)

theorem session_stream_readable_witness:
  "let w = \<lparr> header_written = True, payload_written = True, flushed = True \<rparr>;
       ins = [HeartbeatTick 1 w, Command (SendCodecData [103]) 2 w, Command (SendVideoFrame [101, 0]) 3 w,
              Command Stop 4 w, Command (SendVideoFrame [1]) 5 w]
   in fst (read_packets (fst (mirror_loop True [] ins))) =
        map sent_packet [(1, SendHeartbeat), (2, SendCodec [103]), (3, SendVideo [101, 0])]"
proof -
  let ?w = "\<lparr> header_written = True, payload_written = True, flushed = True \<rparr>"
  show ?thesis
    using session_stream_readable [of "[HeartbeatTick 1 ?w, Command (SendCodecData [103]) 2 ?w,
      Command (SendVideoFrame [101, 0]) 3 ?w, Command Stop 4 ?w, Command (SendVideoFrame [1]) 5 ?w]"]
    by (simp add: input_ok_def)
qed

end
