(* ===== verification/Encoder.thy ===== *)
theory Encoder
  imports Config
begin

text \<open>
  The choice and configuration of the H.264 encoder: \<open>openplay-pipeline/src/encoder.rs\<close> and
  \<open>select_encoder\<close> of \<open>openplay-sender/src/casting.rs\<close>. The GStreamer registry is what it answers:
  which factories it lists and which of them can be built. The rate an encoder makes of its
  \<open>bitrate\<close> property is a parameter, with the unit GStreamer documents as hypothesis. The lemmas show
  that the first working candidate of the platform is chosen, that no configured bitrate wraps, and
  at which rate each encoder is asked to encode.
\<close>

datatype encoder_type = VaH264 | VaH264Lp | VaapiH264 | NvH264 | VtH264 | MfH264 | X264

fun factory_name :: "encoder_type \<Rightarrow> string" where
  "factory_name VaH264 = ''vah264enc''"
| "factory_name VaH264Lp = ''vah264lpenc''"
| "factory_name VaapiH264 = ''vaapih264enc''"
| "factory_name NvH264 = ''nvh264enc''"
| "factory_name VtH264 = ''vtenc_h264''"
| "factory_name MfH264 = ''mfh264enc''"
| "factory_name X264 = ''x264enc''"

definition is_hardware :: "encoder_type \<Rightarrow> bool" where
  "is_hardware e \<longleftrightarrow> e \<noteq> X264"

datatype platform = Linux | MacOS | Windows | OtherPlatform

fun platform_encoder_candidates :: "platform \<Rightarrow> encoder_type list" where
  "platform_encoder_candidates Linux = [VaH264, VaH264Lp, VaapiH264, NvH264, X264]"
| "platform_encoder_candidates MacOS = [VtH264, X264]"
| "platform_encoder_candidates Windows = [MfH264, NvH264, X264]"
| "platform_encoder_candidates OtherPlatform = [X264]"

record registry =
  find_feature :: "string \<Rightarrow> bool"
  make_ok :: "string \<Rightarrow> bool"

fun probe_candidates :: "registry \<Rightarrow> encoder_type list \<Rightarrow> encoder_type option" where
  "probe_candidates reg [] = None"
| "probe_candidates reg (e # es) =
     (if find_feature reg (factory_name e) \<and> make_ok reg (factory_name e) then Some e
      else probe_candidates reg es)"

definition probe_best_encoder :: "registry \<Rightarrow> platform \<Rightarrow> encoder_type option" where
  "probe_best_encoder reg os = probe_candidates reg (platform_encoder_candidates os)"

definition select_encoder :: "registry \<Rightarrow> platform \<Rightarrow> bool \<Rightarrow> encoder_type" where
  "select_encoder reg os force_sw_encode =
     (if force_sw_encode then X264
      else case probe_best_encoder reg os of Some e \<Rightarrow> e | None \<Rightarrow> X264)"

text \<open>The values of element properties and of caps fields; a fraction is its two 32-bit integers.\<close>

datatype caps_value = CStr string | CInt "32 word" | CFraction "32 word" "32 word"

datatype property_value =
    FromStr string
  | Str string
  | U32 u32
  | I32 "32 word"
  | Flag bool
  | Caps string "(string \<times> caps_value) list"

fun configure_encoder :: "encoder_type \<Rightarrow> u32 \<Rightarrow> (string \<times> property_value) list" where
  "configure_encoder VaapiH264 kbps =
     [(''rate-control'', FromStr ''cbr''), (''bitrate'', U32 kbps), (''keyframe-period'', U32 60),
      (''max-bframes'', U32 0)]"
| "configure_encoder NvH264 kbps =
     [(''rc-mode'', FromStr ''cbr''), (''bitrate'', U32 kbps), (''gop-size'', I32 60), (''bframes'', U32 0),
      (''zerolatency'', Flag True)]"
| "configure_encoder VtH264 kbps =
     [(''bitrate'', U32 (kbps * 1000)), (''max-keyframe-interval'', I32 60), (''realtime'', Flag True),
      (''allow-frame-reordering'', Flag False)]"
| "configure_encoder MfH264 kbps =
     [(''bitrate'', U32 (kbps * 1000)), (''rc-mode'', FromStr ''cbr''), (''low-latency'', Flag True)]"
| "configure_encoder X264 kbps =
     [(''bitrate'', U32 kbps), (''key-int-max'', U32 60), (''bframes'', U32 0), (''tune'', FromStr ''zerolatency''),
      (''speed-preset'', FromStr ''ultrafast'')]"
| "configure_encoder _ kbps =
     [(''rate-control'', FromStr ''cbr''), (''bitrate'', U32 kbps), (''key-int-max'', U32 60),
      (''b-frames'', FromStr ''0''), (''ref-frames'', U32 1), (''target-usage'', FromStr ''6'')]"


section \<open>Lemmas\<close>

definition usable :: "registry \<Rightarrow> encoder_type \<Rightarrow> bool" where
  "usable reg e \<longleftrightarrow> find_feature reg (factory_name e) \<and> make_ok reg (factory_name e)"

lemma probe_candidates_find: "probe_candidates reg es = find (usable reg) es"
  by (induction es) (auto simp: usable_def)

text \<open>\<open>rate_of e v\<close> is the rate, in bits per second, that an encoder element asked for \<open>v\<close> in its
  \<open>bitrate\<close> property encodes at. GStreamer's documentation of all seven elements gives the unit of
  the property as kilobits per second.\<close>

definition kbit_units :: "(encoder_type \<Rightarrow> u32 \<Rightarrow> nat) \<Rightarrow> bool" where
  "kbit_units rate_of \<longleftrightarrow> (\<forall>e v. rate_of e v = 1000 * unat v)"

text \<open>The encoders for which the code multiplies the configured rate by a thousand.\<close>

definition scaled :: "encoder_type \<Rightarrow> bool" where
  "scaled e \<longleftrightarrow> e = VtH264 \<or> e = MfH264"

lemma no_overflow: "(kbps :: u32) \<le> 100000 \<Longrightarrow> unat (kbps * 1000) = unat kbps * 1000"
  by (simp add: unat_word_ariths word_le_nat_alt)


section \<open>Properties\<close>

text \<open>With a configuration that validates, every encoder a Linux sender can choose, and x264 everywhere,
  is asked for exactly the configured rate. The encoders of macOS and Windows take the same unit, so
  the factor the code gives them, without wrapping, asks for a thousand times that.\<close>

theorem encoder_bitrate_exact:
  assumes "config_validate c = Inr ()" and "kbit_units rate_of"
  shows "\<exists>v. map_of (configure_encoder e (cfg_max_bitrate_kbps c)) ''bitrate'' = Some (U32 v) \<and>
    rate_of e v = (if scaled e then 1000 else 1) * (1000 * unat (cfg_max_bitrate_kbps c)) \<and>
    (e \<in> set (platform_encoder_candidates Linux) \<longleftrightarrow> \<not> scaled e)"
proof -
  have "cfg_max_bitrate_kbps c \<le> 100000"
    using assms by (auto simp: config_validate_def MAX_BITRATE_KBPS_def split: if_splits)
  then show ?thesis using assms(2) by (cases e) (simp_all add: no_overflow kbit_units_def scaled_def)
qed

theorem encoder_bitrate_exact_witness:
  "\<exists>v. map_of (configure_encoder VtH264 6000) ''bitrate'' = Some (U32 v) \<and> 1000 * unat v = 6000000000"
  using encoder_bitrate_exact [of "default_config (Some (lit ''tv''))" "\<lambda>e v. 1000 * unat v" VtH264]
  by (simp add: config_validate_def default_config_def hostname_def DEFAULT_PORT_def lit_def trim_def is_whitespace_def
      MIN_BITRATE_KBPS_def MAX_BITRATE_KBPS_def MIN_FRAMERATE_def MAX_FRAMERATE_def kbit_units_def scaled_def)

text \<open>The encoder is the platform's first that works: forced software gives x264, otherwise the
  chosen encoder is a candidate that the registry lists and can build with none before it, and
  x264 when there is none.\<close>

theorem encoder_choice:
  "select_encoder reg os force =
     (if force then X264
      else case filter (usable reg) (platform_encoder_candidates os) of [] \<Rightarrow> X264 | e # _ \<Rightarrow> e)"
proof -
  have "find P xs = (case filter P xs of [] \<Rightarrow> None | x # _ \<Rightarrow> Some x)" for P and xs :: "encoder_type list"
    by (induction xs) auto
  then show ?thesis
    by (auto simp: select_encoder_def probe_best_encoder_def probe_candidates_find split: list.splits)
qed

end
