(* ===== verification/Casting.thy ===== *)
theory Casting
  imports Text Encoder
begin

text \<open>
  The outer layer of a cast, \<open>openplay-sender/src/casting.rs\<close>: the stop handle, the settings, and for
  each protocol the messages a cast reports while it starts, runs and ends. The capture session
  and the pipeline task are what they answer. The user interface recognises the end of a cast by
  a word in the message (\<open>app.rs\<close>, \<open>poll_status\<close>); the contract between the two is the locale
  \<open>cast_reports\<close>, and the four kinds of cast are its interpretations.
\<close>

record cast_stop_handle =
  stop_flag :: bool

definition stop_handle_new :: cast_stop_handle where
  "stop_handle_new = \<lparr> stop_flag = False \<rparr>"

definition handle_stop :: "cast_stop_handle \<Rightarrow> cast_stop_handle" where
  "handle_stop h = h\<lparr> stop_flag := True \<rparr>"

record cast_settings =
  set_bitrate_kbps :: u32
  set_framerate :: u32
  set_force_sw_encode :: bool
  set_display_name :: ustr

record openplay_target =
  target_addrs :: "socket_addr list"
  target_fingerprint :: string
  target_display_name :: ustr

text \<open>What awaiting the spawned pipeline gives: its result, or the join error of a cancelled or
  panicked task.\<close>

datatype join_result =
    Joined "string + unit"
  | Cancelled string
  | Panicked string

definition cast_outcome :: "join_result \<Rightarrow> string" where
  "cast_outcome r =
     (case r of
        Joined (Inr _) \<Rightarrow> ''Casting ended''
      | Joined (Inl e) \<Rightarrow>
          if contains ''stopped by user'' e then ''Casting stopped'' else ''Casting failed: '' @ e
      | Cancelled e \<Rightarrow> ''Casting stopped''
      | Panicked e \<Rightarrow> ''Casting error: '' @ e)"

definition p2p_cast_outcome :: "join_result \<Rightarrow> string" where
  "p2p_cast_outcome r =
     (case r of
        Joined (Inr _) \<Rightarrow> ''Casting ended''
      | Joined (Inl e) \<Rightarrow> ''Casting failed: '' @ e
      | Cancelled e \<Rightarrow> ''Casting error: '' @ e
      | Panicked e \<Rightarrow> ''Casting error: '' @ e)"

record cast_env =
  capture_result :: "string + unit"
  pipeline_result :: join_result

definition start_airplay_cast :: "cast_env \<Rightarrow> string list" where
  "start_airplay_cast env = ''Starting screen capture...'' #
     (case capture_result env of
        Inl e \<Rightarrow> [''Capture failed: '' @ e]
      | Inr _ \<Rightarrow> [''Connecting to AirPlay receiver...'', cast_outcome (pipeline_result env)])"

definition start_miracast_cast :: "cast_env \<Rightarrow> string list" where
  "start_miracast_cast env = ''Starting screen capture...'' #
     (case capture_result env of
        Inl e \<Rightarrow> [''Capture failed: '' @ e]
      | Inr _ \<Rightarrow> [''Connecting via Miracast...'', cast_outcome (pipeline_result env)])"

definition start_miracast_p2p_cast :: "cast_env \<Rightarrow> string list" where
  "start_miracast_p2p_cast env = ''Starting screen capture...'' #
     (case capture_result env of
        Inl e \<Rightarrow> [''Capture failed: '' @ e]
      | Inr _ \<Rightarrow> [''Forming Wi-Fi Direct P2P group...'', p2p_cast_outcome (pipeline_result env)])"

definition start_openplay_cast :: "cast_env \<Rightarrow> string list" where
  "start_openplay_cast env = ''Starting screen capture...'' #
     (case capture_result env of
        Inl e \<Rightarrow> [''Capture failed: '' @ e]
      | Inr _ \<Rightarrow> [''Connecting to OpenPlay receiver...'', cast_outcome (pipeline_result env)])"


section \<open>The end of a cast\<close>

text \<open>The test of \<open>poll_status\<close>.\<close>

definition is_done :: "string \<Rightarrow> bool" where
  "is_done msg \<longleftrightarrow>
     (let m = to_ascii_lowercase msg
      in contains ''ended'' m \<or> contains ''failed'' m \<or> contains ''stopped'' m \<or> contains ''error'' m)"

locale cast_reports =
  fixes reports :: "'env \<Rightarrow> string list"
  assumes reports_end: "reports e \<noteq> [] \<and> is_done (last (reports e))"
    and reports_go_on: "m \<in> set (butlast (reports e)) \<Longrightarrow> \<not> is_done m"
begin

lemma done_once: "\<exists>ms m. reports e = ms @ [m] \<and> is_done m \<and> (\<forall>m' \<in> set ms. \<not> is_done m')"
  using reports_end [of e] reports_go_on [of _ e] by (metis append_butlast_last_id)

lemma done_is_last: "reports e = ms @ m # ms' \<Longrightarrow> is_done m \<longleftrightarrow> ms' = []"
  using reports_end [of e] reports_go_on [of m e] by (cases ms' rule: rev_cases) (auto simp: butlast_append)

end

lemma contains_append: "contains p (a @ p @ b)"
proof -
  have "take (length p) (drop (length a) (a @ p @ b)) = p" by simp
  moreover have "length a \<le> length (a @ p @ b)" by simp
  ultimately show ?thesis unfolding contains_def using find_sub_None [of p "a @ p @ b"] by blast
qed

lemma lower_append [simp]: "to_ascii_lowercase (s @ t) = to_ascii_lowercase s @ to_ascii_lowercase t"
  by (simp add: to_ascii_lowercase_def)

lemma word_is_done: "w \<in> {''ended'', ''failed'', ''stopped'', ''error''} \<Longrightarrow> is_done (a @ w @ b)"
  using contains_append [of w "to_ascii_lowercase a" "to_ascii_lowercase b"]
  by (auto simp: is_done_def Let_def to_ascii_lowercase_def lower_char_def)

lemma failed_is_done: "is_done (''Capture failed: '' @ e)" "is_done (''Casting failed: '' @ e)"
  using word_is_done [of "''failed''" "''Capture ''" "'': '' @ e"] word_is_done [of "''failed''" "''Casting ''" "'': '' @ e"]
  by simp_all

lemma error_is_done: "is_done (''Casting error: '' @ e)"
  using word_is_done [of "''error''" "''Casting ''" "'': '' @ e"] by simp

lemma end_is_done: "is_done ''Casting ended''" "is_done ''Casting stopped''"
  by code_simp+

lemma start_is_not_done:
  "\<not> is_done ''Starting screen capture...''" "\<not> is_done ''Connecting to AirPlay receiver...''"
  "\<not> is_done ''Connecting via Miracast...''" "\<not> is_done ''Forming Wi-Fi Direct P2P group...''"
  "\<not> is_done ''Connecting to OpenPlay receiver...''"
  by code_simp+

lemmas done_simps = failed_is_done error_is_done end_is_done start_is_not_done

lemma cast_outcome_done [simp]: "is_done (cast_outcome r)" "is_done (p2p_cast_outcome r)"
  using done_simps by (auto simp: cast_outcome_def p2p_cast_outcome_def split: join_result.splits sum.splits)

interpretation airplay: cast_reports start_airplay_cast
  using done_simps by unfold_locales (auto simp: start_airplay_cast_def split: sum.splits)

interpretation miracast: cast_reports start_miracast_cast
  using done_simps by unfold_locales (auto simp: start_miracast_cast_def split: sum.splits)

interpretation miracast_p2p: cast_reports start_miracast_p2p_cast
  using done_simps by unfold_locales (auto simp: start_miracast_p2p_cast_def split: sum.splits)

interpretation openplay: cast_reports start_openplay_cast
  using done_simps by unfold_locales (auto simp: start_openplay_cast_def split: sum.splits)

end
