(* ===== verification/Airplay_Cast.thy ===== *)
theory Airplay_Cast
  imports Airplay_Session Casting "HOL-Library.Sublist"
begin

text \<open>
  The AirPlay cast of \<open>openplay-sender/src/casting.rs\<close>: finding the parameter sets in the encoder's
  Annex B output (\<open>find_nalu_starts\<close>, \<open>extract_sps_pps\<close>), the bounded queue between the
  encoder's callback and the cast, and the loop that hands codec data and frames to the session
  (\<open>run_airplay_pipeline\<close>). The encoder, the stop flag and the session's command channel are the
  inputs of the loop's steps.

  The lemmas show that the scan cuts an Annex B stream exactly at its start codes, that codec data
  is sent once and directly before the frame it came from, so after any earlier frames without
  parameter sets, and the exact sequence of packets a reader of the mirror stream then sees; and that the stop flag is not looked at while no frame comes.
\<close>

section \<open>Parameter sets\<close>

function find_nalu_from :: "bytes \<Rightarrow> nat \<Rightarrow> nat list" where
  "find_nalu_from data i =
     (if i + 2 < length data then
        (if data ! i = 0 \<and> data ! (i + 1) = 0 \<and> data ! (i + 2) = 1 then i # find_nalu_from data (i + 3)
         else if data ! i = 0 \<and> data ! (i + 1) = 0 \<and> i + 3 < length data \<and> data ! (i + 2) = 0 \<and> data ! (i + 3) = 1
         then i # find_nalu_from data (i + 4)
         else find_nalu_from data (i + 1))
      else [])"
  by pat_completeness auto
termination
  by (relation "measure (\<lambda>(data, i). length data - i)") auto

declare find_nalu_from.simps [simp del]

definition find_nalu_starts :: "bytes \<Rightarrow> nat list" where
  "find_nalu_starts data = find_nalu_from data 0"

definition header_offset :: "bytes \<Rightarrow> nat option" where
  "header_offset nalu =
     (if take 4 nalu = [0, 0, 0, 1] then Some 4 else if take 3 nalu = [0, 0, 1] then Some 3 else None)"

text \<open>One iteration of the loop over the units: the two slices seen last.\<close>

definition note_nalu :: "bytes \<Rightarrow> bytes option \<times> bytes option \<Rightarrow> bytes option \<times> bytes option" where
  "note_nalu nalu st =
     (case header_offset nalu of
        None \<Rightarrow> st
      | Some off \<Rightarrow>
          if length nalu \<le> off then st
          else if nalu ! off AND 0x1F = 7 then (Some nalu, snd st)
          else if nalu ! off AND 0x1F = 8 then (fst st, Some nalu)
          else st)"

fun note_nalus :: "bytes \<Rightarrow> nat list \<Rightarrow> bytes option \<times> bytes option \<Rightarrow> bytes option \<times> bytes option" where
  "note_nalus data [] st = st"
| "note_nalus data [start] st = note_nalu (drop start data) st"
| "note_nalus data (start # stop # rest) st =
     note_nalus data (stop # rest) (note_nalu (take (stop - start) (drop start data)) st)"

definition extract_sps_pps :: "bytes \<Rightarrow> bytes option" where
  "extract_sps_pps data =
     (case note_nalus data (find_nalu_starts data) (None, None) of
        (Some s, Some p) \<Rightarrow> Some (s @ p)
      | (Some s, None) \<Rightarrow> Some s
      | _ \<Rightarrow> None)"


section \<open>The cast\<close>

definition FRAME_CAPACITY :: nat where "FRAME_CAPACITY = 32"

record airplay_cast =
  frames :: "bytes list"
  sent_codec_data :: bool
  frame_count :: u64
  commands :: "session_command list"
  running :: bool

definition cast_begin :: airplay_cast where
  "cast_begin = \<lparr> frames = [], sent_codec_data = False, frame_count = 0, commands = [], running = True \<rparr>"

text \<open>A step: the encoder's callback delivers a buffer, or the loop receives the next frame, reads
  the stop flag and finds the session's channel open or closed for each of its two sends, or the frame channel closes.\<close>

datatype cast_input =
    NewSample bytes
  | NextFrame bool bool bool
  | FramesClosed

definition new_sample :: "bytes \<Rightarrow> airplay_cast \<Rightarrow> airplay_cast" where
  "new_sample data c = (if length (frames c) < FRAME_CAPACITY then c\<lparr> frames := frames c @ [data] \<rparr> else c)"

text \<open>\<open>open\<close>: whether the session still takes commands.\<close>

definition send_codec :: "bool \<Rightarrow> bytes \<Rightarrow> airplay_cast \<Rightarrow> airplay_cast" where
  "send_codec open data c =
     (if sent_codec_data c then c
      else case extract_sps_pps data of
        None \<Rightarrow> c
      | Some sps_pps \<Rightarrow>
          if open then c\<lparr> commands := commands c @ [SendCodecData sps_pps], sent_codec_data := True \<rparr>
          else c\<lparr> running := False \<rparr>)"

definition send_frame :: "bool \<Rightarrow> bytes \<Rightarrow> airplay_cast \<Rightarrow> airplay_cast" where
  "send_frame open data c =
     (if \<not> running c then c
      else if open then c\<lparr> commands := commands c @ [SendVideoFrame data], frame_count := frame_count c + 1 \<rparr>
      else c\<lparr> running := False \<rparr>)"

definition next_frame :: "bool \<Rightarrow> bool \<Rightarrow> bool \<Rightarrow> bytes \<Rightarrow> airplay_cast \<Rightarrow> airplay_cast" where
  "next_frame stop codec_open frame_open data c =
     (if stop then c\<lparr> running := False \<rparr>
      else if data = [] then c
      else send_frame frame_open data (send_codec codec_open data c))"

fun airplay_cast_step :: "cast_input \<Rightarrow> airplay_cast \<Rightarrow> airplay_cast" where
  "airplay_cast_step (NewSample data) c = new_sample data c"
| "airplay_cast_step (NextFrame stop codec_open frame_open) c =
     (if \<not> running c then c
      else case frames c of
        [] \<Rightarrow> c
      | data # rest \<Rightarrow> next_frame stop codec_open frame_open data (c\<lparr> frames := rest \<rparr>))"
| "airplay_cast_step FramesClosed c = (if frames c = [] then c\<lparr> running := False \<rparr> else c)"

definition airplay_cast_run :: "cast_input list \<Rightarrow> airplay_cast" where
  "airplay_cast_run ins = fold airplay_cast_step ins cast_begin"

record airplay_env =
  air_pipeline :: "string + unit"
  air_session :: "string + unit"
  air_event :: "session_event option"
  air_start :: "string + unit"
  air_inputs :: "cast_input list"
  air_stop :: "string + unit"
  air_session_open :: bool

text \<open>The commands the session receives and the result; \<open>None\<close> while the loop waits.\<close>

definition run_airplay_pipeline ::
  "(airplay_error \<Rightarrow> string) \<Rightarrow> airplay_env \<Rightarrow> session_command list \<times> (string + unit) option" where
  "run_airplay_pipeline show_error env =
     (case air_pipeline env of
        Inl e \<Rightarrow> ([], Some (Inl e))
      | Inr _ \<Rightarrow>
     (case air_session env of
        Inl e \<Rightarrow> ([], Some (Inl (''AirPlay session start failed: '' @ e)))
      | Inr _ \<Rightarrow>
     (case air_event env of
        Some Ready \<Rightarrow>
          (case air_start env of
             Inl e \<Rightarrow> ([], Some (Inl e))
           | Inr _ \<Rightarrow>
               (let c = airplay_cast_run (air_inputs env)
                in if running c then (commands c, None)
                   else case air_stop env of
                     Inl e \<Rightarrow> (commands c, Some (Inl e))
                   | Inr _ \<Rightarrow>
                       (commands c @ (if air_session_open env then [Stop] else []), Some (Inr ()))))
      | Some (Ended (Some e)) \<Rightarrow> ([], Some (Inl (''AirPlay setup failed: '' @ show_error e)))
      | _ \<Rightarrow> ([], Some (Inl ''AirPlay session closed unexpectedly'')))))"


section \<open>Annex B\<close>

text \<open>The reference: a unit is never empty, does not end in a zero byte and contains no start code
  or run of three zeros (emulation prevention, H.264 section 7.4.1); a stream is units behind
  start codes of three or four bytes.\<close>

fun no_emulation :: "bytes \<Rightarrow> bool" where
  "no_emulation (a # b # c # rest) = (\<not> (a = 0 \<and> b = 0 \<and> (c = 0 \<or> c = 1)) \<and> no_emulation (b # c # rest))"
| "no_emulation _ = True"

definition nal_unit :: "bytes \<Rightarrow> bool" where
  "nal_unit u \<longleftrightarrow> u \<noteq> [] \<and> last u \<noteq> 0 \<and> no_emulation u"

definition start_code :: "bool \<Rightarrow> bytes" where
  "start_code long = (if long then [0, 0, 0, 1] else [0, 0, 1])"

definition framed :: "bool \<times> bytes \<Rightarrow> bytes" where
  "framed lu = start_code (fst lu) @ snd lu"

definition annex_b :: "(bool \<times> bytes) list \<Rightarrow> bytes" where
  "annex_b us = concat (map framed us)"

definition nal_type :: "bool \<times> bytes \<Rightarrow> u8" where
  "nal_type lu = hd (snd lu) AND 0x1F"

text \<open>The last sequence and picture parameter set of a stream, with their start codes.\<close>

definition parameter_sets :: "(bool \<times> bytes) list \<Rightarrow> bytes option" where
  "parameter_sets us =
     (case find (\<lambda>u. nal_type u = 7) (rev us) of
        None \<Rightarrow> None
      | Some s \<Rightarrow> Some (framed s @ (case find (\<lambda>u. nal_type u = 8) (rev us) of None \<Rightarrow> [] | Some p \<Rightarrow> framed p)))"

text \<open>The scan on the rest of the data.\<close>

fun starts :: "nat \<Rightarrow> bytes \<Rightarrow> nat list" where
  "starts i (a # b # c # rest) =
     (if a = 0 \<and> b = 0 \<and> c = 1 then i # starts (i + 3) rest
      else if a = 0 \<and> b = 0 \<and> c = 0 \<and> rest \<noteq> [] \<and> hd rest = 1 then i # starts (i + 4) (tl rest)
      else starts (i + 1) (b # c # rest))"
| "starts i _ = []"

lemma starts_short: "length xs \<le> 2 \<Longrightarrow> starts i xs = []"
  by (cases "(i, xs)" rule: starts.cases) simp_all

lemma find_nalu_from_starts: "find_nalu_from data i = starts i (drop i data)"
proof (induction data i rule: find_nalu_from.induct)
  case (1 data i)
  show ?case
  proof (cases "i + 2 < length data")
    case True
    have step: "drop k data = data ! k # drop (k + 1) data" if "k < length data" for k
      using that by (simp add: Cons_nth_drop_Suc)
    have n: "i + 1 + 1 = i + 2" "i + 2 + 1 = i + 3" by simp_all
    have d: "drop (i + 1) data = data ! (i + 1) # data ! (i + 2) # drop (i + 3) data"
      using step [of "i + 1"] step [of "i + 2"] True unfolding n by simp
    moreover from this have "drop i data = data ! i # data ! (i + 1) # data ! (i + 2) # drop (i + 3) data"
      using step [of i] True by simp
    moreover have "drop (i + 3) data \<noteq> [] \<longleftrightarrow> i + 3 < length data" by auto
    moreover have "i + 3 < length data \<Longrightarrow> hd (drop (i + 3) data) = data ! (i + 3)" by (simp add: hd_drop_conv_nth)
    moreover have "tl (drop (i + 3) data) = drop (i + 4) data" using drop_Suc [of "i + 3" data] by (simp add: drop_tl add.commute)
    ultimately show ?thesis
      using 1 True by (subst find_nalu_from.simps) (auto simp: add.commute simp del: drop_drop)
  next
    case False
    then have "starts i (drop i data) = []" by (intro starts_short) auto
    with False show ?thesis by (subst find_nalu_from.simps) simp
  qed
qed

lemma scan_unit:
  assumes "no_emulation u" and "u = [] \<or> last u \<noteq> 0"
    and "rest = [] \<or> (\<exists>long r. rest = start_code long @ r)"
  shows "starts i (u @ rest) = starts (i + length u) rest"
  using assms(1,2)
proof (induction u arbitrary: i)
  case (Cons a u)
  have u: "no_emulation u" "u = [] \<or> last u \<noteq> 0"
    using Cons.prems by (cases u rule: no_emulation.cases; auto split: if_splits)+
  have step: "starts i (a # u @ rest) = starts (Suc i) (u @ rest)"
  proof (cases "a = 0")
    case True
    then obtain b v where b: "u = b # v" using Cons.prems(2) by (cases u) auto
    show ?thesis
    proof (cases "b = 0")
      case False
      then show ?thesis using b by (cases "v @ rest") auto
    next
      case b0: True
      then obtain c w where "v = c # w" using Cons.prems(2) b by (cases v) auto
      with Cons.prems(1) b b0 True show ?thesis by simp
    qed
  next
    case False
    then show ?thesis by (cases "(i, a # u @ rest)" rule: starts.cases) auto
  qed
  then show ?case using Cons.IH [OF u] by simp
qed simp

lemma annex_b_rest: "annex_b us = [] \<or> (\<exists>long r. annex_b us = start_code long @ r)"
  by (cases us) (auto simp: annex_b_def framed_def)

text \<open>Where the units of a stream begin.\<close>

fun offsets :: "nat \<Rightarrow> (bool \<times> bytes) list \<Rightarrow> nat list" where
  "offsets i [] = []"
| "offsets i (u # us) = i # offsets (i + length (framed u)) us"

lemma starts_annex_b: "\<forall>u \<in> set us. nal_unit (snd u) \<Longrightarrow> starts i (annex_b us) = offsets i us"
proof (induction us arbitrary: i)
  case (Cons u us)
  obtain long v where u: "u = (long, v)" by (cases u)
  have v: "no_emulation v" "last v \<noteq> 0" "v \<noteq> []" using Cons.prems by (auto simp: nal_unit_def u)
  have "annex_b (u # us) = start_code long @ v @ annex_b us" by (simp add: annex_b_def framed_def u)
  moreover have "starts i (start_code long @ v @ annex_b us) = i # starts (i + length (start_code long)) (v @ annex_b us)"
    by (simp add: start_code_def eval_nat_numeral)
  moreover have "starts k (v @ annex_b us) = starts (k + length v) (annex_b us)" for k
    by (rule scan_unit) (use v annex_b_rest in auto)
  ultimately show ?case using Cons by (simp add: u framed_def add.assoc)
qed (simp add: annex_b_def)

lemma note_framed:
  assumes "nal_unit (snd u)"
  shows "note_nalu (framed u) st = (if nal_type u = 7 then (Some (framed u), snd st)
    else if nal_type u = 8 then (fst st, Some (framed u)) else st)"
proof -
  obtain h v where "snd u = h # v" using assms by (cases "snd u") (auto simp: nal_unit_def)
  then show ?thesis by (simp add: note_nalu_def header_offset_def framed_def start_code_def nal_type_def)
qed

lemma note_offsets:
  assumes "\<forall>u \<in> set us. nal_unit (snd u)"
  shows "note_nalus (pre @ annex_b us) (offsets (length pre) us) st =
    fold (\<lambda>u. note_nalu (framed u)) us st"
  using assms
proof (induction us arbitrary: pre st)
  case (Cons u us)
  have split: "pre @ annex_b (u # us) = (pre @ framed u) @ annex_b us" by (simp add: annex_b_def)
  show ?case
  proof (cases us)
    case Nil
    then show ?thesis by (simp add: annex_b_def)
  next
    case (Cons u' us')
    have "take (length pre + length (framed u) - length pre) (drop (length pre) (pre @ annex_b (u # us))) = framed u"
      by (simp add: annex_b_def)
    moreover have "offsets (length pre + length (framed u)) us = (length pre + length (framed u)) # offsets (length pre + length (framed u) + length (framed u')) us'"
      by (simp add: Cons)
    ultimately have "note_nalus (pre @ annex_b (u # us)) (offsets (length pre) (u # us)) st =
        note_nalus (pre @ annex_b (u # us)) (offsets (length (pre @ framed u)) us) (note_nalu (framed u) st)"
      by simp
    then show ?thesis using Cons.IH [of "pre @ framed u"] Cons.prems unfolding split by simp
  qed
qed simp

lemma fold_notes:
  assumes "\<forall>u \<in> set us. nal_unit (snd u)"
  shows "fold (\<lambda>u. note_nalu (framed u)) us (None, None) =
    (map_option framed (find (\<lambda>u. nal_type u = 7) (rev us)), map_option framed (find (\<lambda>u. nal_type u = 8) (rev us)))"
  using assms
proof (induction us rule: rev_induct)
  case (snoc u us)
  then show ?case by (simp add: note_framed)
qed simp

lemma extract_annex_b:
  assumes "\<forall>u \<in> set us. nal_unit (snd u)"
  shows "extract_sps_pps (annex_b us) = parameter_sets us"
  using note_offsets [OF assms, of "[]" "(None, None)"] fold_notes [OF assms] starts_annex_b [OF assms, of 0]
  by (simp add: extract_sps_pps_def find_nalu_starts_def find_nalu_from_starts parameter_sets_def split: option.splits)


section \<open>The commands of a cast\<close>

fun sample_of :: "cast_input \<Rightarrow> bytes list" where
  "sample_of (NewSample d) = [d]"
| "sample_of _ = []"

definition samples :: "cast_input list \<Rightarrow> bytes list" where
  "samples ins = concat (map sample_of ins)"

text \<open>What a session should be told of a list of frames: each frame, and before the first that has
  parameter sets those as codec data.\<close>

fun codec_first :: "bytes list \<Rightarrow> session_command list" where
  "codec_first [] = []"
| "codec_first (f # fs) =
     (case extract_sps_pps f of
        None \<Rightarrow> SendVideoFrame f # codec_first fs
      | Some x \<Rightarrow> SendCodecData x # SendVideoFrame f # map SendVideoFrame fs)"

definition has_sets :: "bytes list \<Rightarrow> bool" where
  "has_sets fs \<longleftrightarrow> (\<exists>f \<in> set fs. extract_sps_pps f \<noteq> None)"

lemma codec_first_snoc:
  "codec_first (fs @ [d]) = codec_first fs @
     (if has_sets fs then [SendVideoFrame d]
      else case extract_sps_pps d of None \<Rightarrow> [SendVideoFrame d] | Some x \<Rightarrow> [SendCodecData x, SendVideoFrame d])"
  by (induction fs) (auto simp: has_sets_def split: option.splits)

definition loop_inv :: "bytes list \<Rightarrow> airplay_cast \<Rightarrow> bool" where
  "loop_inv seen c \<longleftrightarrow> length (frames c) \<le> FRAME_CAPACITY \<and>
     (\<exists>fs. [] \<notin> set fs \<and> subseq (fs @ frames c) seen \<and> prefix (commands c) (codec_first fs) \<and>
       (running c \<longrightarrow> commands c = codec_first fs \<and> sent_codec_data c = has_sets fs))"

lemma loop_inv_begin: "loop_inv [] cast_begin"
  by (auto simp: loop_inv_def cast_begin_def has_sets_def intro!: exI [of _ "[]"])

lemma loop_inv_sample:
  assumes "loop_inv seen c"
  shows "loop_inv (seen @ [d]) (new_sample d c)"
proof -
  obtain fs where "[] \<notin> set fs" "subseq (fs @ frames c) seen" "prefix (commands c) (codec_first fs)"
    "running c \<longrightarrow> commands c = codec_first fs \<and> sent_codec_data c = has_sets fs"
    using assms by (auto simp: loop_inv_def)
  moreover have "subseq ((fs @ frames c) @ e) (seen @ [d])" if "e = [] \<or> e = [d]" for e
    using that list_emb_append_mono [OF calculation(2), of e "[d]"] by auto
  ultimately show ?thesis
    using assms unfolding loop_inv_def new_sample_def
    by (intro conjI exI [of _ fs]) (auto simp flip: append_assoc)
qed

lemma loop_inv_next:
  assumes "loop_inv seen c" and "running c" and "frames c = data # rest"
  shows "loop_inv seen (next_frame stop codec_open frame_open data (c\<lparr> frames := rest \<rparr>))"
proof -
  obtain fs where fs: "[] \<notin> set fs" "subseq (fs @ data # rest) seen" "commands c = codec_first fs"
    "sent_codec_data c = has_sets fs" and len: "length rest \<le> FRAME_CAPACITY"
    using assms by (auto simp: loop_inv_def)
  have skip: "subseq (fs @ rest) seen"
    using fs(2) by (meson list_emb_append_mono list_emb_Cons subseq_order.order_refl subseq_order.order_trans)
  have full: "subseq ((fs @ [data]) @ rest) seen" using fs(2) by simp
  have sets: "has_sets (fs @ [data]) \<longleftrightarrow> has_sets fs \<or> extract_sps_pps data \<noteq> None" by (auto simp: has_sets_def)
  consider (dropped) "stop \<or> data = []" | (sent) "\<not> stop" "data \<noteq> []" by blast
  then show ?thesis
  proof cases
    case dropped
    then show ?thesis using fs len skip by (auto simp: loop_inv_def next_frame_def intro!: exI [of _ fs])
  next
    case sent
    then show ?thesis using fs len full sets
      by (auto simp: loop_inv_def next_frame_def send_frame_def send_codec_def codec_first_snoc
          intro!: exI [of _ "fs @ [data]"] split: option.splits)
  qed
qed

lemma loop_inv_step:
  assumes "loop_inv seen c"
  shows "loop_inv (seen @ sample_of i) (airplay_cast_step i c)"
proof (cases i)
  case (NewSample d)
  then show ?thesis using loop_inv_sample [OF assms] by simp
next
  case (NextFrame stop a b)
  then show ?thesis using assms loop_inv_next [OF assms] by (auto split: list.splits)
next
  case FramesClosed
  then show ?thesis using assms by (auto simp: loop_inv_def)
qed

lemma loop_inv_run: "loop_inv (samples ins) (airplay_cast_run ins)"
proof (induction ins rule: rev_induct)
  case Nil
  show ?case using loop_inv_begin by (simp add: samples_def airplay_cast_run_def)
next
  case (snoc i ins)
  then show ?case using loop_inv_step [of "samples ins" _ i] by (simp add: samples_def airplay_cast_run_def)
qed

text \<open>A session that keeps up with the encoder: every frame is taken as it comes.\<close>

definition keeping_up :: "bytes list \<Rightarrow> cast_input list" where
  "keeping_up ds = concat (map (\<lambda>d. [NewSample d, NextFrame False True True]) ds)"

lemma keeping_up_run:
  "let c = airplay_cast_run (keeping_up ds); fs = filter (\<lambda>d. d \<noteq> []) ds
   in running c \<and> frames c = [] \<and> commands c = codec_first fs \<and> sent_codec_data c = has_sets fs"
proof (induction ds rule: rev_induct)
  case Nil
  show ?case by (simp add: keeping_up_def airplay_cast_run_def cast_begin_def has_sets_def)
next
  case (snoc d ds)
  then show ?case
    by (auto simp: keeping_up_def airplay_cast_run_def Let_def new_sample_def next_frame_def send_frame_def
        send_codec_def codec_first_snoc has_sets_def FRAME_CAPACITY_def split: option.splits)
qed

text \<open>The commands among a session's inputs, and what the receiver reads of a kind of packet.\<close>

fun command_of :: "session_input \<Rightarrow> session_command list" where
  "command_of (Command c _ _) = [c]"
| "command_of _ = []"

fun packet_of :: "session_command \<Rightarrow> (packet_type \<times> bytes) list" where
  "packet_of (SendCodecData d) = [(CodecData, d)]"
| "packet_of (SendVideoFrame d) = [(Video, d)]"
| "packet_of Stop = []"

text \<open>The packets a reader of the stream sees, in the order they arrive, but for the heartbeats.\<close>

definition media_packets :: "bytes \<Rightarrow> (packet_type \<times> bytes) list" where
  "media_packets stream =
     filter (\<lambda>p. fst p \<noteq> Heartbeat) (map (\<lambda>(h, d). (packet_type h, d)) (fst (read_packets stream)))"

text \<open>What it should see of a list of frames: the frames before the first with parameter sets, then those sets,
  then that frame and all that follow.\<close>

definition lacks_sets :: "bytes \<Rightarrow> bool" where
  "lacks_sets f \<longleftrightarrow> extract_sps_pps f = None"

definition mirrored :: "bytes list \<Rightarrow> (packet_type \<times> bytes) list" where
  "mirrored fs =
     map (Pair Video) (takeWhile lacks_sets fs) @
     (case dropWhile lacks_sets fs of
        [] \<Rightarrow> []
      | f # rest \<Rightarrow> (CodecData, the (extract_sps_pps f)) # map (Pair Video) (f # rest))"

lemma input_request_bytes:
  "request_bytes (snd (input_request i)) = (case command_of i of
     [SendCodecData d] \<Rightarrow> d | [SendVideoFrame d] \<Rightarrow> d | _ \<Rightarrow> [])"
  by (cases i rule: input_request.cases) simp_all

lemma packets_of_inputs:
  assumes "concat (map command_of ins) = cs @ [Stop]" and "Stop \<notin> set cs"
  shows "filter (\<lambda>p. fst p \<noteq> Heartbeat) (map (\<lambda>(h, d). (packet_type h, d))
      (map (sent_packet \<circ> input_request) (takeWhile (Not \<circ> is_stop) ins))) = concat (map packet_of cs)"
  using assms
proof (induction ins arbitrary: cs)
  case (Cons i ins)
  then show ?case using Cons.IH [of "tl cs"] Cons.IH [of cs]
    by (cases i rule: input_request.cases; cases cs) auto
qed simp

lemma codec_first_packets:
  "concat (map packet_of (codec_first fs)) = mirrored fs" "Stop \<notin> set (codec_first fs)"
proof -
  have v: "concat (map (packet_of \<circ> SendVideoFrame) gs) = map (Pair Video) gs" for gs by (induction gs) simp_all
  show "concat (map packet_of (codec_first fs)) = mirrored fs"
    by (induction fs) (auto simp: v mirrored_def lacks_sets_def split: option.splits)
  show "Stop \<notin> set (codec_first fs)" by (induction fs) (auto split: option.splits)
qed

definition within :: "nat \<Rightarrow> bytes option \<times> bytes option \<Rightarrow> bool" where
  "within n st \<longleftrightarrow> pred_option (\<lambda>x. length x \<le> n) (fst st) \<and> pred_option (\<lambda>x. length x \<le> n) (snd st)"

lemma note_nalu_within: "length nalu \<le> n \<Longrightarrow> within n st \<Longrightarrow> within n (note_nalu nalu st)"
  by (simp add: note_nalu_def within_def split: option.split)

lemma note_nalus_within: "within (length data) st \<Longrightarrow> within (length data) (note_nalus data ps st)"
  by (induction data ps st rule: note_nalus.induct) (simp_all add: note_nalu_within)

lemma extract_length:
  assumes "extract_sps_pps data = Some x"
  shows "length x \<le> 2 * length data"
proof -
  have "within (length data) (note_nalus data (find_nalu_starts data) (None, None))"
    by (rule note_nalus_within) (simp add: within_def)
  with assms show ?thesis by (auto simp: extract_sps_pps_def within_def split: option.splits prod.splits)
qed

lemma codec_first_sizes:
  assumes "\<forall>f \<in> set fs. length f < 2 ^ 31"
  shows "(SendVideoFrame d \<in> set (codec_first fs) \<longrightarrow> length d < 2 ^ 32) \<and>
    (SendCodecData d \<in> set (codec_first fs) \<longrightarrow> length d < 2 ^ 32)"
  using assms
proof (induction fs)
  case (Cons f fs)
  have "length x < 2 ^ 32" if "extract_sps_pps f = Some x" for x
    using extract_length [OF that] Cons.prems by simp
  with Cons show ?case by (auto split: option.splits)
qed simp


section \<open>Properties\<close>

text \<open>C23. The parameter sets are found: in an Annex B stream of well-formed NAL units, with start codes
  of three or four bytes in any mixture, the extraction returns the last sequence parameter set
  followed by the last picture parameter set, byte for byte with their start codes; with no
  picture parameter set the sequence parameter set alone, and with no sequence parameter set
  nothing.\<close>

theorem extract_finds_parameter_sets:
  assumes "\<forall>u \<in> set us. nal_unit (snd u)"
  shows "extract_sps_pps (annex_b us) = parameter_sets us"
  using assms by (rule extract_annex_b)

definition demo_units :: "(bool \<times> bytes) list" where
  "demo_units = [(True, [0x67, 0x42, 0, 0x1E]), (True, [0x68, 0xCE, 0x38, 0x80]), (False, [0x65, 0x88, 0, 0, 3, 1])]"

theorem extract_finds_parameter_sets_witness:
  "extract_sps_pps (annex_b demo_units) =
     Some [0, 0, 0, 1, 0x67, 0x42, 0, 0x1E, 0, 0, 0, 1, 0x68, 0xCE, 0x38, 0x80]"
proof -
  have "\<forall>u \<in> set demo_units. nal_unit (snd u)" by (simp add: demo_units_def nal_unit_def)
  from extract_finds_parameter_sets [OF this] show ?thesis
    by (simp add: demo_units_def parameter_sets_def nal_type_def framed_def start_code_def)
qed

text \<open>Whatever the encoder, the user and the session do, the cast never holds more than 32 frames,
  and what it tells the session is an initial part of: some captured, non-empty frames in
  captured order and unchanged, with the parameter sets of the first frame that has any as codec
  data immediately before it, and never again; while the cast runs it is all of that.\<close>

theorem airplay_commands_in_order:
  "length (frames (airplay_cast_run ins)) \<le> 32 \<and>
   (\<exists>fs. [] \<notin> set fs \<and> subseq fs (samples ins) \<and>
     (if running (airplay_cast_run ins) then commands (airplay_cast_run ins) = codec_first fs
      else prefix (commands (airplay_cast_run ins)) (codec_first fs)))"
proof -
  obtain fs where fs: "length (frames (airplay_cast_run ins)) \<le> FRAME_CAPACITY" "[] \<notin> set fs"
    "subseq (fs @ frames (airplay_cast_run ins)) (samples ins)" "prefix (commands (airplay_cast_run ins)) (codec_first fs)"
    "running (airplay_cast_run ins) \<longrightarrow> commands (airplay_cast_run ins) = codec_first fs"
    using loop_inv_run [of ins] by (auto simp: loop_inv_def)
  have "subseq fs (fs @ frames (airplay_cast_run ins))" by (rule prefix_imp_subseq) simp
  then have "subseq fs (samples ins)" using fs(3) by (rule subseq_order.order_trans)
  with fs show ?thesis unfolding FRAME_CAPACITY_def by (intro conjI exI [of _ fs]) auto
qed

text \<open>C22. From the encoder to the television: if the session keeps up, the user stops the cast and every
  write to the receiver succeeds, then whatever heartbeats are interleaved the other packets a reader of the
  mirror stream sees are exactly, and in this order: the non-empty frames before the first that holds
  parameter sets, as video; the parameter sets of that frame, as the only codec data; and that frame and
  all later ones, as video. So codec data precede all video exactly if the first non-empty frame has
  parameter sets; a stream that begins without them has its first frames sent ahead of the codec data.\<close>

theorem airplay_end_to_end:
  assumes "run_airplay_pipeline show_error env = (cmds, Some (Inr ()))"
    and "air_event env = Some Ready" and "air_inputs env = keeping_up ds @ [NewSample d, NextFrame True a b]" and "air_session_open env"
    and "\<forall>d \<in> set ds. length d < 2 ^ 31"
    and "concat (map command_of ins) = cmds" and "list_all input_ok ins"
  shows "media_packets (fst (mirror_loop True [] ins)) = mirrored (filter (\<lambda>d. d \<noteq> []) ds)"
proof -
  let ?fs = "filter (\<lambda>d. d \<noteq> []) ds"
  have "airplay_cast_run (air_inputs env) = (airplay_cast_run (keeping_up ds))\<lparr> running := False \<rparr>"
    using keeping_up_run [of ds]
    by (simp add: assms(3) airplay_cast_run_def Let_def new_sample_def FRAME_CAPACITY_def next_frame_def)
  then have cmds: "cmds = codec_first ?fs @ [Stop]"
    using assms(1,2,4) keeping_up_run [of ds] by (auto simp: run_airplay_pipeline_def Let_def split: sum.splits)
  have "length (request_bytes (snd (input_request i))) < 2 ^ 32" if "i \<in> set ins" for i
  proof -
    have "set (command_of i) \<subseteq> set (concat (map command_of ins))" using that by auto
    then have "set (command_of i) \<subseteq> set (codec_first ?fs) \<union> {Stop}" unfolding assms(6) cmds by simp
    then show ?thesis using codec_first_sizes [of ?fs] assms(5)
      by (auto simp: input_request_bytes split: list.splits session_command.splits)
  qed
  then have read: "fst (read_packets (fst (mirror_loop True [] ins))) =
      map (sent_packet \<circ> input_request) (takeWhile (Not \<circ> is_stop) ins)"
    using session_stream_read [OF assms(7)] by simp
  show ?thesis
    using packets_of_inputs [of ins "codec_first ?fs"] assms(6) cmds codec_first_packets [of ?fs]
    by (simp add: media_packets_def read)
qed

definition demo_sps :: bytes where
  "demo_sps = [0, 0, 0, 1, 0x67, 0x42, 0, 0x1E]"

theorem airplay_end_to_end_witness:
  "let w = \<lparr> header_written = True, payload_written = True, flushed = True \<rparr>
   in media_packets (fst (mirror_loop True []
        [Command (SendVideoFrame [9]) 1 w, HeartbeatTick 2 w, Command (SendCodecData demo_sps) 3 w,
         Command (SendVideoFrame demo_sps) 4 w, Command (SendVideoFrame [8]) 5 w, Command Stop 6 w])) =
      [(Video, [9]), (CodecData, demo_sps), (Video, demo_sps), (Video, [8])]"
proof -
  let ?w = "\<lparr> header_written = True, payload_written = True, flushed = True \<rparr>"
  let ?env = "\<lparr> air_pipeline = Inr (), air_session = Inr (), air_event = Some Ready, air_start = Inr (),
    air_inputs = keeping_up [[], [9], demo_sps, [8]] @ [NewSample [7], NextFrame True True True], air_stop = Inr (), air_session_open = True \<rparr>"
  have sets: "extract_sps_pps [9] = None" "extract_sps_pps demo_sps = Some demo_sps"
    by (simp_all add: extract_sps_pps_def find_nalu_starts_def find_nalu_from.simps demo_sps_def note_nalu_def header_offset_def)
  then have "run_airplay_pipeline (\<lambda>_. []) ?env =
      ([SendVideoFrame [9], SendCodecData demo_sps, SendVideoFrame demo_sps, SendVideoFrame [8], Stop], Some (Inr ()))"
    by (simp add: run_airplay_pipeline_def airplay_cast_run_def keeping_up_def cast_begin_def new_sample_def
        next_frame_def send_frame_def send_codec_def FRAME_CAPACITY_def) (simp add: demo_sps_def)
  from airplay_end_to_end [OF this, of "[[], [9], demo_sps, [8]]" "[7]" True True
      "[Command (SendVideoFrame [9]) 1 ?w, HeartbeatTick 2 ?w, Command (SendCodecData demo_sps) 3 ?w,
        Command (SendVideoFrame demo_sps) 4 ?w, Command (SendVideoFrame [8]) 5 ?w, Command Stop 6 ?w]"]
  have "media_packets (fst (mirror_loop True []
        [Command (SendVideoFrame [9]) 1 ?w, HeartbeatTick 2 ?w, Command (SendCodecData demo_sps) 3 ?w,
         Command (SendVideoFrame demo_sps) 4 ?w, Command (SendVideoFrame [8]) 5 ?w, Command Stop 6 ?w])) =
      mirrored [[9], demo_sps, [8]]"
    by (simp add: input_ok_def) (simp add: demo_sps_def)
  also have "\<dots> = [(Video, [9]), (CodecData, demo_sps), (Video, demo_sps), (Video, [8])]"
    by (simp add: mirrored_def lacks_sets_def sets)
  finally show ?thesis by (simp add: Let_def)
qed

text \<open>Stop is not heard while the screen is still: after the session is ready and as long as the
  encoder delivers no frame, the cast does not end, however often the stop flag is raised.\<close>

theorem stop_waits_for_a_frame:
  assumes "air_pipeline env = Inr ()" and "air_session env = Inr ()" and "air_event env = Some Ready" and "air_start env = Inr ()"
    and "\<forall>i \<in> set (air_inputs env). \<exists>stop a b. i = NextFrame stop a b"
  shows "run_airplay_pipeline show_error env = ([], None)"
proof -
  have "fold airplay_cast_step ins cast_begin = cast_begin" if "\<forall>i \<in> set ins. \<exists>stop a b. i = NextFrame stop a b" for ins
    using that by (induction ins) (auto simp: cast_begin_def)
  then have "airplay_cast_run (air_inputs env) = cast_begin" using assms(5) by (simp add: airplay_cast_run_def)
  then show ?thesis using assms(1-4) by (simp add: run_airplay_pipeline_def cast_begin_def)
qed

theorem stop_waits_for_a_frame_witness:
  "run_airplay_pipeline (\<lambda>_. []) \<lparr> air_pipeline = Inr (), air_session = Inr (), air_event = Some Ready, air_start = Inr (),
     air_inputs = [NextFrame True True True, NextFrame True True True], air_stop = Inr (), air_session_open = True \<rparr> = ([], None)"
  by (rule stop_waits_for_a_frame) auto

end
