(* ===== verification/Wfd_Params.thy ===== *)
theory Wfd_Params
  imports Text
begin

text \<open>
  The Wi-Fi Display parameters of \<open>openplay-miracast/src/wfd_params.rs\<close>: resolution bit masks, the
  video format line and its parser, the RTP port line, and the choice of a resolution. The
  lemmas show that the printed lines parse back to what was printed and that the chosen
  resolution is the most preferred one both ends support, or the documented fallback.
\<close>

section \<open>Parameters\<close>

definition RES_640X480_P60 :: u32 where "RES_640X480_P60 = push_bit 0 1"
definition RES_720X480_P60 :: u32 where "RES_720X480_P60 = push_bit 1 1"
definition RES_720X576_P50 :: u32 where "RES_720X576_P50 = push_bit 3 1"
definition RES_1280X720_P30 :: u32 where "RES_1280X720_P30 = push_bit 5 1"
definition RES_1280X720_P60 :: u32 where "RES_1280X720_P60 = push_bit 6 1"
definition RES_1920X1080_P30 :: u32 where "RES_1920X1080_P30 = push_bit 7 1"
definition RES_1920X1080_P60 :: u32 where "RES_1920X1080_P60 = push_bit 8 1"

definition cea_supports :: "u32 \<Rightarrow> u32 \<Rightarrow> bool" where
  "cea_supports resolutions mask_bits \<longleftrightarrow> resolutions AND mask_bits \<noteq> 0"

record wfd_audio_codecs =
  lpcm :: u32
  aac :: u32
  ac3 :: u32

definition default_audio_codecs :: wfd_audio_codecs where
  "default_audio_codecs = \<lparr> lpcm = 0x01, aac = 0x01, ac3 = 0 \<rparr>"

definition show_audio_codecs :: "wfd_audio_codecs \<Rightarrow> string" where
  "show_audio_codecs a =
     ''LPCM '' @ show_hex_upper 8 (unat (lpcm a)) @ '' 00000002, AAC '' @
     show_hex_upper 8 (unat (aac a)) @ '' 00000002, AC3 '' @ show_hex_upper 8 (unat (ac3 a)) @ '' 00000002''"

record wfd_video_formats =
  native :: u8
  preferred_display_mode :: u8
  profile :: u8
  level :: u8
  cea_resolutions :: u32
  vesa_resolutions :: u32
  hh_resolutions :: u32
  latency :: u8
  min_slice_size :: u16
  slice_enc_params :: u16
  frame_rate_ctrl :: u8

definition default_video_formats :: wfd_video_formats where
  "default_video_formats =
     \<lparr> native = 0x00, preferred_display_mode = 0, profile = 0x01, level = 0x10,
       cea_resolutions = RES_1920X1080_P30 OR RES_1280X720_P30, vesa_resolutions = 0,
       hh_resolutions = 0, latency = 0, min_slice_size = 0, slice_enc_params = 0,
       frame_rate_ctrl = 0x11 \<rparr>"

definition video_formats_words :: "wfd_video_formats \<Rightarrow> string list" where
  "video_formats_words f =
     [show_hex_upper 2 (unat (native f)), show_hex_upper 2 (unat (preferred_display_mode f)),
      show_hex_upper 2 (unat (profile f)), show_hex_upper 2 (unat (level f)),
      show_hex_upper 8 (unat (cea_resolutions f)), show_hex_upper 8 (unat (vesa_resolutions f)),
      show_hex_upper 8 (unat (hh_resolutions f)), show_hex_upper 2 (unat (latency f)),
      show_hex_upper 4 (unat (min_slice_size f)), show_hex_upper 4 (unat (slice_enc_params f)),
      show_hex_upper 2 (unat (frame_rate_ctrl f))]"

definition video_formats_encode :: "wfd_video_formats \<Rightarrow> string" where
  "video_formats_encode f = unwords (video_formats_words f)"

definition hex_u8 :: "string \<Rightarrow> u8 option" where
  "hex_u8 s = map_option of_nat (from_str_radix 16 (2 ^ 8) s)"

definition hex_u16 :: "string \<Rightarrow> u16 option" where
  "hex_u16 s = map_option of_nat (from_str_radix 16 (2 ^ 16) s)"

definition hex_u32 :: "string \<Rightarrow> u32 option" where
  "hex_u32 s = map_option of_nat (from_str_radix 16 (2 ^ 32) s)"

definition video_formats_parse :: "string \<Rightarrow> wfd_video_formats option" where
  "video_formats_parse s =
     (case split_whitespace s of
        p0 # p1 # p2 # p3 # p4 # p5 # p6 # p7 # p8 # p9 # p10 # _ \<Rightarrow>
          Option.bind (hex_u8 p0) (\<lambda>v0. Option.bind (hex_u8 p1) (\<lambda>v1.
          Option.bind (hex_u8 p2) (\<lambda>v2. Option.bind (hex_u8 p3) (\<lambda>v3.
          Option.bind (hex_u32 p4) (\<lambda>v4. Option.bind (hex_u32 p5) (\<lambda>v5.
          Option.bind (hex_u32 p6) (\<lambda>v6. Option.bind (hex_u8 p7) (\<lambda>v7.
          Option.bind (hex_u16 p8) (\<lambda>v8. Option.bind (hex_u16 p9) (\<lambda>v9.
          Option.bind (hex_u8 p10) (\<lambda>v10.
            Some \<lparr> native = v0, preferred_display_mode = v1, profile = v2, level = v3,
              cea_resolutions = v4, vesa_resolutions = v5, hh_resolutions = v6, latency = v7,
              min_slice_size = v8, slice_enc_params = v9, frame_rate_ctrl = v10 \<rparr>)))))))))))
      | _ \<Rightarrow> None)"

record wfd_client_rtp_ports =
  rtp_profile :: string
  rtp_port0 :: u16
  rtp_port1 :: u16
  rtp_mode :: string

definition default_rtp_ports :: wfd_client_rtp_ports where
  "default_rtp_ports = \<lparr> rtp_profile = ''RTP/AVP/UDP;unicast'', rtp_port0 = 1028, rtp_port1 = 0,
     rtp_mode = ''mode=play'' \<rparr>"

definition show_rtp_ports :: "wfd_client_rtp_ports \<Rightarrow> string" where
  "show_rtp_ports p =
     unwords [rtp_profile p, show_radix 10 (unat (rtp_port0 p)), show_radix 10 (unat (rtp_port1 p)),
       rtp_mode p]"

definition dec_u16 :: "string \<Rightarrow> u16 option" where
  "dec_u16 s = map_option of_nat (from_str_radix 10 (2 ^ 16) s)"

definition rtp_ports_parse :: "string \<Rightarrow> wfd_client_rtp_ports option" where
  "rtp_ports_parse s =
     (case split_whitespace s of
        p0 # p1 # p2 # p3 # _ \<Rightarrow>
          Option.bind (dec_u16 p1) (\<lambda>v1. Option.bind (dec_u16 p2) (\<lambda>v2.
            Some \<lparr> rtp_profile = p0, rtp_port0 = v1, rtp_port1 = v2, rtp_mode = p3 \<rparr>))
      | _ \<Rightarrow> None)"

definition negotiate_resolution :: "wfd_video_formats \<Rightarrow> wfd_video_formats \<Rightarrow> nat \<times> nat \<times> nat" where
  "negotiate_resolution source sink =
     (let common_cea = cea_resolutions source AND cea_resolutions sink
      in if common_cea AND RES_1920X1080_P60 \<noteq> 0 then (1920, 1080, 60)
         else if common_cea AND RES_1920X1080_P30 \<noteq> 0 then (1920, 1080, 30)
         else if common_cea AND RES_1280X720_P60 \<noteq> 0 then (1280, 720, 60)
         else if common_cea AND RES_1280X720_P30 \<noteq> 0 then (1280, 720, 30)
         else if common_cea AND RES_720X480_P60 \<noteq> 0 then (720, 480, 60)
         else (1280, 720, 30))"


section \<open>Lemmas\<close>

lemma hex_u8_show [simp]: "hex_u8 (show_hex_upper w (unat v)) = Some v"
  using parse_hex_upper [of "unat v" "2 ^ 8" w] unat_u8 [of v] by (simp add: hex_u8_def)

lemma hex_u16_show [simp]: "hex_u16 (show_hex_upper w (unat v)) = Some v"
  using parse_hex_upper [of "unat v" "2 ^ 16" w] unat_u16 [of v] by (simp add: hex_u16_def)

lemma hex_u32_show [simp]: "hex_u32 (show_hex_upper w (unat v)) = Some v"
  using parse_hex_upper [of "unat v" "2 ^ 32" w] unat_u32 [of v] by (simp add: hex_u32_def)

lemma dec_u16_show [simp]: "dec_u16 (show_radix 10 (unat v)) = Some v"
  using parse_show [of 10 "unat v" "2 ^ 16"] unat_u16 [of v] by (simp add: dec_u16_def)

lemma word_ok_hex [simp]: "word_ok (show_hex_upper w n)"
  using show_hex_upper_plain show_hex_upper_nonempty by (auto simp: word_ok_def)

lemma video_formats_words_ok: "list_all word_ok (video_formats_words f)"
  by (simp add: video_formats_words_def)

lemma video_formats_roundtrip_raw: "video_formats_parse (video_formats_encode f) = Some f"
  using split_unwords [OF video_formats_words_ok, of f]
  by (simp add: video_formats_parse_def video_formats_encode_def video_formats_words_def)

lemma word_ok_decimal [simp]: "word_ok (show_radix 10 n)"
proof -
  have "\<not> is_ws c" if c: "c \<in> set (show_radix 10 n)" for c
    using show_radix_digits [OF _ c] by (auto simp: digit_char_def is_ws_def)
  then show ?thesis using show_radix_nonempty [of 10 n] by (auto simp: word_ok_def)
qed

lemma rtp_ports_roundtrip_raw:
  assumes "word_ok (rtp_profile p)" and "word_ok (rtp_mode p)"
  shows "rtp_ports_parse (show_rtp_ports p) = Some p"
  using assms split_unwords [of "[rtp_profile p, show_radix 10 (unat (rtp_port0 p)),
    show_radix 10 (unat (rtp_port1 p)), rtp_mode p]"]
  by (simp add: rtp_ports_parse_def show_rtp_ports_def)

text \<open>The modes of the negotiation, most preferred first, with their bits.\<close>

definition preferred_modes :: "((nat \<times> nat \<times> nat) \<times> u32) list" where
  "preferred_modes =
     [((1920, 1080, 60), RES_1920X1080_P60), ((1920, 1080, 30), RES_1920X1080_P30),
      ((1280, 720, 60), RES_1280X720_P60), ((1280, 720, 30), RES_1280X720_P30),
      ((720, 480, 60), RES_720X480_P60)]"

lemma and_pow2_both:
  "((a :: u32) AND b) AND push_bit n 1 \<noteq> 0 \<longleftrightarrow> a AND push_bit n 1 \<noteq> 0 \<and> b AND push_bit n 1 \<noteq> 0"
  unfolding push_bit_eq_mult mult_1 and_exp_eq_0_iff_not_bit by (simp add: bit_and_iff)

lemmas res_defs = RES_640X480_P60_def RES_720X480_P60_def RES_720X576_P50_def RES_1280X720_P30_def
  RES_1280X720_P60_def RES_1920X1080_P30_def RES_1920X1080_P60_def

lemma negotiate_resolution_first:
  "negotiate_resolution source sink =
   (case find (\<lambda>(_, b). cea_supports (cea_resolutions source) b \<and> cea_supports (cea_resolutions sink) b)
       preferred_modes of
      Some (m, _) \<Rightarrow> m | None \<Rightarrow> (1280, 720, 30))"
  unfolding negotiate_resolution_def preferred_modes_def cea_supports_def res_defs Let_def and_pow2_both
  by (simp split: if_splits)


section \<open>Properties\<close>

text \<open>The format line is lossless: for every combination of the eleven fields, parsing the line
  that \<open>encode\<close> prints gives the same formats back, and so does the default port line for
  every pair of ports.\<close>

theorem wfd_lines_roundtrip:
  "video_formats_parse (video_formats_encode f) = Some f \<and>
   rtp_ports_parse (show_rtp_ports (default_rtp_ports\<lparr> rtp_port0 := p0, rtp_port1 := p1 \<rparr>)) =
     Some (default_rtp_ports\<lparr> rtp_port0 := p0, rtp_port1 := p1 \<rparr>)"
  using rtp_ports_roundtrip_raw [of "default_rtp_ports\<lparr> rtp_port0 := p0, rtp_port1 := p1 \<rparr>"]
  by (simp add: video_formats_roundtrip_raw default_rtp_ports_def word_ok_def is_ws_def)

end
