(* ===== verification/Rtsp.thy ===== *)
theory Rtsp
  imports Wfd_Params
begin

text \<open>
  The RTSP control connection of a Miracast source, \<open>openplay-miracast/src/rtsp_server.rs\<close>:
  message framing, the M1 to M7 negotiation, and the control channel that keeps a cast alive.

  What the socket will deliver is a list of read events: a chunk of bytes, a read error, or
  silence for as long as the timeout around the current read; the end of the list is the end
  of the stream. \<open>sent\<close> and \<open>received\<close> are the messages that have gone each way, \<open>write_ok n\<close> is
  whether the write after \<open>n\<close> messages succeeds. Lengths are \<open>usize\<close>: the total length of a message
  wraps at \<open>2 ^ 64\<close>, as it does in a release build. The control channel is a loop that need
  not end, so it takes fuel; the lemmas say how much is enough.
\<close>

section \<open>Framing and parsing\<close>

definition RTSP_MAX_MESSAGE_BYTES :: nat where "RTSP_MAX_MESSAGE_BYTES = 64 * 1024"
definition WFD_RTSP_PORT :: u16 where "WFD_RTSP_PORT = 7236"
definition SESSION_ID :: string where "SESSION_ID = ''1''"
definition SESSION_TIMEOUT_SECS :: nat where "SESSION_TIMEOUT_SECS = 30"
definition MAX_UNANSWERED_KEEPALIVES :: nat where "MAX_UNANSWERED_KEEPALIVES = 3"

definition rtsp_header_end :: bytes where "rtsp_header_end = [13, 10, 13, 10]"

definition find_subslice :: "bytes \<Rightarrow> bytes \<Rightarrow> nat option" where
  "find_subslice haystack needle = find_sub needle haystack"

text \<open>The number after the first line whose name, in any case, is the given one.\<close>

definition numeric_header :: "string \<Rightarrow> nat \<Rightarrow> string \<Rightarrow> nat option" where
  "numeric_header name bound headers =
     (case find (\<lambda>l. starts_with name (to_ascii_lowercase l)) (lines headers) of
        None \<Rightarrow> None
      | Some l \<Rightarrow>
          (case split_char (CHR '':'') l of
             _ # v # _ \<Rightarrow> from_str_radix 10 bound (trim_str v)
           | _ \<Rightarrow> None))"

definition or_zero :: "nat option \<Rightarrow> nat" where
  "or_zero v = (case v of None \<Rightarrow> 0 | Some n \<Rightarrow> n)"

definition framed_message_len :: "bytes \<Rightarrow> nat option" where
  "framed_message_len buf =
     (case find_subslice buf rtsp_header_end of
        None \<Rightarrow> None
      | Some e \<Rightarrow>
          (let content_length = or_zero (numeric_header ''content-length:'' (2 ^ 64) (lossy_str (take e buf)));
               total = (e + 4 + content_length) mod 2 ^ 64
           in if length buf \<ge> total then Some total else None))"

definition str_header_end :: string where "str_header_end = crlf @ crlf"

definition split_header_body :: "string \<Rightarrow> string \<times> string" where
  "split_header_body raw =
     (case find_sub str_header_end raw of
        Some pos \<Rightarrow> (take pos raw, drop (pos + 4) raw)
      | None \<Rightarrow> (raw, []))"

record rtsp_response =
  resp_code :: nat
  resp_status :: string
  resp_headers :: string
  resp_body :: string

record rtsp_request =
  req_method :: string
  req_uri :: string
  req_headers :: string
  req_body :: string
  req_cseq :: nat

definition first_line :: "string \<Rightarrow> string" where
  "first_line s = (case lines s of [] \<Rightarrow> [] | l # _ \<Rightarrow> l)"

definition parse_rtsp_response :: "string \<Rightarrow> rtsp_response" where
  "parse_rtsp_response raw =
     (case split_header_body raw of (header_part, body) \<Rightarrow>
        (let status = first_line header_part;
             code = (case split_whitespace status of _ # c # _ \<Rightarrow> or_zero (from_str_radix 10 (2 ^ 16) c) | _ \<Rightarrow> 0)
         in \<lparr> resp_code = code, resp_status = status, resp_headers = header_part, resp_body = body \<rparr>))"

definition parse_rtsp_request :: "string \<Rightarrow> rtsp_request" where
  "parse_rtsp_request raw =
     (case split_header_body raw of (header_part, body) \<Rightarrow>
        (let parts = split_whitespace (first_line header_part)
         in \<lparr> req_method = (case parts of m # _ \<Rightarrow> m | [] \<Rightarrow> []),
              req_uri = (case parts of _ # u # _ \<Rightarrow> u | _ \<Rightarrow> []),
              req_headers = header_part, req_body = body,
              req_cseq = or_zero (numeric_header ''cseq:'' (2 ^ 32) header_part) \<rparr>))"

text \<open>The first line with a prefix decides, parsable or not.\<close>

fun first_param :: "string \<Rightarrow> (string \<Rightarrow> 'a option) \<Rightarrow> string list \<Rightarrow> 'a option" where
  "first_param p f [] = None"
| "first_param p f (l # ls) =
     (case strip_prefix_str p l of Some v \<Rightarrow> f (trim_str v) | None \<Rightarrow> first_param p f ls)"

definition parse_sink_video_formats :: "string \<Rightarrow> wfd_video_formats option" where
  "parse_sink_video_formats body = first_param ''wfd_video_formats:'' video_formats_parse (lines body)"

definition parse_sink_rtp_ports :: "string \<Rightarrow> wfd_client_rtp_ports option" where
  "parse_sink_rtp_ports body = first_param ''wfd_client_rtp_ports:'' rtp_ports_parse (lines body)"

fun client_port :: "string list \<Rightarrow> u16 option" where
  "client_port [] = None"
| "client_port (part # parts) =
     (case strip_prefix_str ''client_port='' (trim_str part) of
        None \<Rightarrow> client_port parts
      | Some v \<Rightarrow>
          (case dec_u16 (trim_str (hd (split_char (CHR ''-'') v))) of
             Some port \<Rightarrow> Some port
           | None \<Rightarrow> client_port parts))"

fun transport_port :: "string list \<Rightarrow> u16 option" where
  "transport_port [] = None"
| "transport_port (line # ls) =
     (case (case strip_prefix_str ''Transport:'' line of
              Some t \<Rightarrow> Some t | None \<Rightarrow> strip_prefix_str ''transport:'' line) of
        None \<Rightarrow> transport_port ls
      | Some t \<Rightarrow>
          (case client_port (split_char (CHR '';'') t) of
             Some port \<Rightarrow> Some port
           | None \<Rightarrow> transport_port ls))"

definition parse_transport_port :: "string \<Rightarrow> u16 option" where
  "parse_transport_port headers = transport_port (lines headers)"


section \<open>The connection\<close>

datatype read_event = Data bytes | ReadFailed | Silence

datatype rtsp_error =
    SendFailed string
  | RtspTimeout
  | MessageTooLarge
  | ReadError
  | RtspClosed
  | Rejected string string
  | UnexpectedRequest string string
  | NoClientPort string

record rtsp_conn =
  rbuf :: bytes
  cseq :: u32
  events :: "read_event list"
  sent :: "string list"
  received :: "string list"
  write_ok :: "nat \<Rightarrow> bool"

type_synonym 'a rtsp = "rtsp_conn \<Rightarrow> (rtsp_error + 'a) \<times> rtsp_conn"

definition rbind :: "'a rtsp \<Rightarrow> ('a \<Rightarrow> 'b rtsp) \<Rightarrow> 'b rtsp" where
  "rbind m f c = (case m c of (Inl e, c') \<Rightarrow> (Inl e, c') | (Inr x, c') \<Rightarrow> f x c')"

definition rreturn :: "'a \<Rightarrow> 'a rtsp" where
  "rreturn x c = (Inr x, c)"

definition rfail :: "rtsp_error \<Rightarrow> 'a rtsp" where
  "rfail e c = (Inl e, c)"

definition conn_new :: "read_event list \<Rightarrow> (nat \<Rightarrow> bool) \<Rightarrow> rtsp_conn" where
  "conn_new evs w = \<lparr> rbuf = [], cseq = 0, events = evs, sent = [], received = [], write_ok = w \<rparr>"

definition next_cseq :: "u32 rtsp" where
  "next_cseq c = (Inr (cseq c + 1), c\<lparr> cseq := cseq c + 1 \<rparr>)"

definition rtsp_send :: "string \<Rightarrow> string \<Rightarrow> unit rtsp" where
  "rtsp_send msg what c =
     (if write_ok c (length (sent c)) then (Inr (), c\<lparr> sent := sent c @ [msg] \<rparr>)
      else (Inl (SendFailed what), c))"

fun read_from :: "bytes \<Rightarrow> read_event list \<Rightarrow> (rtsp_error + string) \<times> bytes \<times> read_event list" where
  "read_from buf [] =
     (case framed_message_len buf of
        Some len \<Rightarrow> (Inr (lossy_str (take len buf)), drop len buf, [])
      | None \<Rightarrow> if length buf > RTSP_MAX_MESSAGE_BYTES then (Inl MessageTooLarge, buf, [])
                else (Inl RtspClosed, buf, []))"
| "read_from buf (ev # evs) =
     (case framed_message_len buf of
        Some len \<Rightarrow> (Inr (lossy_str (take len buf)), drop len buf, ev # evs)
      | None \<Rightarrow>
          if length buf > RTSP_MAX_MESSAGE_BYTES then (Inl MessageTooLarge, buf, ev # evs)
          else (case ev of
                  Data chunk \<Rightarrow> if chunk = [] then (Inl RtspClosed, buf, evs) else read_from (buf @ chunk) evs
                | ReadFailed \<Rightarrow> (Inl ReadError, buf, evs)
                | Silence \<Rightarrow> (Inl RtspTimeout, buf, evs)))"

definition read_message :: "string rtsp" where
  "read_message c =
     (case read_from (rbuf c) (events c) of
        (Inl e, buf, evs) \<Rightarrow> (Inl e, c\<lparr> rbuf := buf, events := evs \<rparr>)
      | (Inr raw, buf, evs) \<Rightarrow>
          (Inr raw, c\<lparr> rbuf := buf, events := evs, received := received c @ [raw] \<rparr>))"

definition read_response :: "rtsp_response rtsp" where
  "read_response = rbind read_message (\<lambda>raw. rreturn (parse_rtsp_response raw))"

definition read_request :: "rtsp_request rtsp" where
  "read_request = rbind read_message (\<lambda>raw. rreturn (parse_rtsp_request raw))"


section \<open>Messages we send\<close>

definition show_u32 :: "u32 \<Rightarrow> string" where
  "show_u32 n = show_radix 10 (unat n)"

definition options_msg :: "u32 \<Rightarrow> string" where
  "options_msg n = ''OPTIONS * RTSP/1.0'' @ crlf @ ''CSeq: '' @ show_u32 n @ crlf @
     ''Require: org.wfa.wfd1.0'' @ crlf @ crlf"

definition options_response_msg :: "rtsp_request \<Rightarrow> string" where
  "options_response_msg req = ''RTSP/1.0 200 OK'' @ crlf @ ''CSeq: '' @ show_radix 10 (req_cseq req) @ crlf @
     ''Public: org.wfa.wfd1.0, GET_PARAMETER, SET_PARAMETER'' @ crlf @ crlf"

definition parameter_msg :: "string \<Rightarrow> u32 \<Rightarrow> string \<Rightarrow> string" where
  "parameter_msg method n body =
     method @ '' rtsp://localhost/wfd1.0 RTSP/1.0'' @ crlf @ ''CSeq: '' @ show_u32 n @ crlf @
     ''Content-Type: text/parameters'' @ crlf @ ''Content-Length: '' @ show_radix 10 (length body) @
     crlf @ crlf @ body"

definition get_parameter_msg :: "u32 \<Rightarrow> string" where
  "get_parameter_msg n = parameter_msg ''GET_PARAMETER'' n
     (''wfd_video_formats'' @ crlf @ ''wfd_audio_codecs'' @ crlf @ ''wfd_client_rtp_ports'' @ crlf)"

definition set_parameter_msg :: "u32 \<Rightarrow> wfd_video_formats \<Rightarrow> string" where
  "set_parameter_msg n f = parameter_msg ''SET_PARAMETER'' n
     (''wfd_video_formats: '' @ video_formats_encode f @ crlf @
      ''wfd_client_rtp_ports: RTP/AVP/UDP;unicast 1028 0 mode=play'' @ crlf)"

definition trigger_msg :: "u32 \<Rightarrow> string" where
  "trigger_msg n = parameter_msg ''SET_PARAMETER'' n (''wfd_trigger_method: SETUP'' @ crlf)"

definition setup_response_msg :: "rtsp_request \<Rightarrow> u16 \<Rightarrow> string" where
  "setup_response_msg req port =
     ''RTSP/1.0 200 OK'' @ crlf @ ''CSeq: '' @ show_radix 10 (req_cseq req) @ crlf @
     ''Session: '' @ SESSION_ID @ '';timeout='' @ show_radix 10 SESSION_TIMEOUT_SECS @ crlf @
     ''Transport: RTP/AVP/UDP;unicast;client_port='' @ show_radix 10 (unat port) @
     '';server_port='' @ show_radix 10 (unat port) @ crlf @ crlf"

definition ok_msg :: "rtsp_request \<Rightarrow> string" where
  "ok_msg req =
     ''RTSP/1.0 200 OK'' @ crlf @ ''CSeq: '' @ show_radix 10 (req_cseq req) @ crlf @
     ''Session: '' @ SESSION_ID @ crlf @ crlf"

definition keepalive_msg :: "u32 \<Rightarrow> string" where
  "keepalive_msg n =
     ''GET_PARAMETER rtsp://localhost/wfd1.0 RTSP/1.0'' @ crlf @ ''CSeq: '' @ show_u32 n @ crlf @
     ''Session: '' @ SESSION_ID @ crlf @ crlf"


section \<open>Negotiation\<close>

record wfd_negotiation_result =
  neg_width :: nat
  neg_height :: nat
  neg_fps :: nat
  neg_rtp_port :: u16
  neg_sink_addr :: socket_addr

definition announced_cea :: "nat \<times> nat \<times> nat \<Rightarrow> u32" where
  "announced_cea m =
     (if m = (1920, 1080, 60) then RES_1920X1080_P60
      else if fst m = 1920 \<and> fst (snd m) = 1080 then RES_1920X1080_P30
      else if m = (1280, 720, 60) then RES_1280X720_P60
      else RES_1280X720_P30)"

definition expect_ok :: "string \<Rightarrow> rtsp_response \<Rightarrow> unit rtsp" where
  "expect_ok what resp =
     (if resp_code resp \<noteq> 200 then rfail (Rejected what (resp_status resp)) else rreturn ())"

definition expect_method :: "string \<Rightarrow> rtsp_request \<Rightarrow> unit rtsp" where
  "expect_method m req =
     (if req_method req \<noteq> m then rfail (UnexpectedRequest m (req_method req)) else rreturn ())"

definition rtsp_negotiate :: "socket_addr \<Rightarrow> wfd_video_formats \<Rightarrow> wfd_negotiation_result rtsp" where
  "rtsp_negotiate sink_addr source_formats =
     rbind next_cseq (\<lambda>n1. rbind (rtsp_send (options_msg n1) ''M1'') (\<lambda>_.
     rbind read_response (\<lambda>m1. rbind (expect_ok ''M1 OPTIONS'' m1) (\<lambda>_.
     rbind read_request (\<lambda>m2. rbind (expect_method ''OPTIONS'' m2) (\<lambda>_.
     rbind (rtsp_send (options_response_msg m2) ''OPTIONS response'') (\<lambda>_.
     rbind next_cseq (\<lambda>n3. rbind (rtsp_send (get_parameter_msg n3) ''M3'') (\<lambda>_.
     rbind read_response (\<lambda>m3. rbind (expect_ok ''M3 GET_PARAMETER'' m3) (\<lambda>_.
     let sink = (case parse_sink_video_formats (resp_body m3) of None \<Rightarrow> default_video_formats | Some f \<Rightarrow> f);
         mode = negotiate_resolution source_formats sink
     in
     rbind next_cseq (\<lambda>n4.
     rbind (rtsp_send (set_parameter_msg n4 (source_formats\<lparr> cea_resolutions := announced_cea mode \<rparr>)) ''M4'') (\<lambda>_.
     rbind read_response (\<lambda>m4. rbind (expect_ok ''M4 SET_PARAMETER'' m4) (\<lambda>_.
     rbind next_cseq (\<lambda>n5. rbind (rtsp_send (trigger_msg n5) ''M5'') (\<lambda>_.
     rbind read_response (\<lambda>m5. rbind (expect_ok ''M5 trigger'' m5) (\<lambda>_.
     rbind read_request (\<lambda>m6. rbind (expect_method ''SETUP'' m6) (\<lambda>_.
     case parse_transport_port (req_headers m6) of
       None \<Rightarrow> rfail (NoClientPort (req_headers m6))
     | Some rtp_port \<Rightarrow>
         rbind (rtsp_send (setup_response_msg m6 rtp_port) ''M6 response'') (\<lambda>_.
         rbind read_request (\<lambda>m7. rbind (expect_method ''PLAY'' m7) (\<lambda>_.
         rbind (rtsp_send (ok_msg m7) ''M7 response'') (\<lambda>_.
         rreturn \<lparr> neg_width = fst mode, neg_height = fst (snd mode), neg_fps = snd (snd mode),
           neg_rtp_port = rtp_port, neg_sink_addr = sink_addr \<rparr>)))))))))))))))))))))))))"


section \<open>The control channel\<close>

definition handle_control_message :: "string \<Rightarrow> bool rtsp" where
  "handle_control_message raw =
     (if starts_with ''RTSP/'' raw then rreturn False
      else let req = parse_rtsp_request raw in
        if req_method req = ''TEARDOWN''
        then rbind (rtsp_send (ok_msg req) ''TEARDOWN response'') (\<lambda>_. rreturn True)
        else if req_method req = ''OPTIONS''
        then rbind (rtsp_send (options_response_msg req) ''OPTIONS response'') (\<lambda>_. rreturn False)
        else rbind (rtsp_send (ok_msg req) ''control response'') (\<lambda>_. rreturn False))"

definition send_keepalive :: "unit rtsp" where
  "send_keepalive = rbind next_cseq (\<lambda>n. rtsp_send (keepalive_msg n) ''keep-alive'')"

fun serve_control_channel :: "nat \<Rightarrow> nat \<Rightarrow> rtsp_conn \<Rightarrow> ((rtsp_error + unit) \<times> rtsp_conn) option" where
  "serve_control_channel 0 unanswered c = None"
| "serve_control_channel (Suc fuel) unanswered c =
     (case read_message c of
        (Inr raw, c1) \<Rightarrow>
          (case handle_control_message raw c1 of
             (Inl e, c2) \<Rightarrow> Some (Inl e, c2)
           | (Inr True, c2) \<Rightarrow> Some (Inr (), c2)
           | (Inr False, c2) \<Rightarrow> serve_control_channel fuel 0 c2)
      | (Inl RtspTimeout, c1) \<Rightarrow>
          (if unanswered + 1 > MAX_UNANSWERED_KEEPALIVES then Some (Inl RtspTimeout, c1)
           else (case send_keepalive c1 of
                   (Inl e, c2) \<Rightarrow> Some (Inl e, c2)
                 | (Inr _, c2) \<Rightarrow> serve_control_channel fuel (unanswered + 1) c2))
      | (Inl e, c1) \<Rightarrow> Some (Inl e, c1))"


section \<open>Framing lemmas\<close>

lemma framed_within: "framed_message_len buf = Some n \<Longrightarrow> n \<le> length buf"
  by (auto simp: framed_message_len_def Let_def split: option.splits if_splits)

lemma framed_append:
  assumes "framed_message_len buf = Some n"
  shows "framed_message_len (buf @ extra) = Some n"
proof -
  obtain e where e: "find_sub rtsp_header_end buf = Some e"
    using assms by (auto simp: framed_message_len_def find_subslice_def split: option.splits)
  then have "e + 4 \<le> length buf" using find_sub_found [OF e] by (simp add: rtsp_header_end_def)
  with assms e show ?thesis
    by (auto simp: framed_message_len_def find_subslice_def find_sub_append Let_def split: if_splits)
qed

lemma find_sub_map:
  assumes "inj f"
  shows "find_sub (map f pat) (map f s) = find_sub pat s"
proof (induction s)
  case (Cons a s)
  have "take (length pat) (map f (a # s)) = map f pat \<longleftrightarrow> take (length pat) (a # s) = pat"
    by (simp only: take_map inj_map_eq_map [OF assms])
  with Cons show ?case by simp
qed simp

lemma framed_ascii:
  assumes "ascii s"
  shows "framed_message_len (str_bytes s) =
    (case find_sub str_header_end s of
       None \<Rightarrow> None
     | Some e \<Rightarrow>
         (let total = (e + 4 + or_zero (numeric_header ''content-length:'' (2 ^ 64) (take e s))) mod 2 ^ 64
          in if length s \<ge> total then Some total else None))"
proof -
  have inj: "inj (of_char :: char \<Rightarrow> u8)" 
    by (rule injI) (metis of_char_eq_iff unat_of_char)
  have e: "rtsp_header_end = map of_char str_header_end"
    by (simp add: rtsp_header_end_def str_header_end_def crlf_def cr_def newline_def)
  have "lossy_str (take n (str_bytes s)) = take n s" for n
  proof -
    have "ascii (take n s)" using assms by (auto simp: ascii_def dest: in_set_takeD)
    then show ?thesis using lossy_str_ascii by (simp add: str_bytes_def take_map)
  qed
  moreover have "find_subslice (str_bytes s) rtsp_header_end = find_sub str_header_end s"
    unfolding find_subslice_def e str_bytes_def by (rule find_sub_map [OF inj])
  ultimately show ?thesis by (simp add: framed_message_len_def Let_def split: option.split)
qed

fun chunk_of :: "read_event \<Rightarrow> bytes" where
  "chunk_of (Data c) = c"
| "chunk_of _ = []"

fun is_data :: "read_event \<Rightarrow> bool" where
  "is_data (Data c) = (c \<noteq> [])"
| "is_data _ = False"

definition bytes_of :: "read_event list \<Rightarrow> bytes" where
  "bytes_of evs = concat (map chunk_of evs)"

definition whole :: "bytes \<Rightarrow> bool" where
  "whole msg \<longleftrightarrow> framed_message_len msg = Some (length msg)"

lemma framed_first:
  assumes "whole msg" and "buf @ extra = msg @ rest"
  shows "framed_message_len buf = (if length msg \<le> length buf then Some (length msg) else None)"
proof -
  have w: "framed_message_len (buf @ extra) = Some (length msg)"
    using framed_append [of msg "length msg" rest] assms by (simp add: whole_def)
  have "n = length msg" if "framed_message_len buf = Some n" for n
    using framed_append [OF that, of extra] w by simp
  moreover have "framed_message_len buf = Some (length msg)" if "length msg \<le> length buf"
  proof -
    have "take (length msg) buf = msg"
      using arg_cong [OF assms(2), of "take (length msg)"] that by simp
    then obtain x where "buf = msg @ x" by (metis append_take_drop_id)
    then show ?thesis using framed_append [of msg "length msg" x] assms(1) by (simp add: whole_def)
  qed
  ultimately show ?thesis using framed_within [of buf] by (cases "framed_message_len buf") auto
qed

lemma read_from_next:
  assumes "whole msg" and "list_all is_data evs" and "buf @ bytes_of evs = msg @ rest"
    and "length (msg @ rest) \<le> RTSP_MAX_MESSAGE_BYTES"
  shows "\<exists>buf' evs'. read_from buf evs = (Inr (lossy_str msg), buf', evs') \<and> list_all is_data evs' \<and>
    buf' @ bytes_of evs' = rest"
  using assms
proof (induction evs arbitrary: buf)
  case Nil
  then have "framed_message_len buf = Some (length msg)"
    using framed_first [of msg buf "[]" rest] by (simp add: bytes_of_def)
  with Nil show ?case by (simp add: bytes_of_def)
next
  case (Cons ev evs)
  obtain c where c: "ev = Data c" "c \<noteq> []" using Cons.prems(2) by (cases ev) auto
  note f = framed_first [OF Cons.prems(1,3)]
  show ?case
  proof (cases "length msg \<le> length buf")
    case True
    then have "take (length msg) buf = msg" "drop (length msg) buf @ bytes_of (ev # evs) = rest"
      using arg_cong [OF Cons.prems(3), of "take (length msg)"]
        arg_cong [OF Cons.prems(3), of "drop (length msg)"] by simp_all
    with True Cons.prems(2) show ?thesis by (simp add: f)
  next
    case False
    then have "length buf \<le> RTSP_MAX_MESSAGE_BYTES" using Cons.prems(4) by simp
    moreover have "(buf @ c) @ bytes_of evs = msg @ rest" using Cons.prems(3) c by (simp add: bytes_of_def)
    ultimately show ?thesis using False c Cons.IH [OF Cons.prems(1) _ _ Cons.prems(4)] Cons.prems(2)
      by (simp add: f)
  qed
qed

text \<open>A connection on which the given whole messages will arrive in time, however they are cut up,
  with more bytes behind them, and on which every write succeeds.\<close>

definition ready :: "rtsp_conn \<Rightarrow> bytes list \<Rightarrow> bool" where
  "ready c msgs \<longleftrightarrow> list_all is_data (events c) \<and> list_all whole msgs \<and> (\<forall>n. write_ok c n) \<and>
     (\<exists>rest. rbuf c @ bytes_of (events c) = concat msgs @ rest \<and>
        length (concat msgs @ rest) \<le> RTSP_MAX_MESSAGE_BYTES)"

lemma read_message_ready:
  assumes "ready c (m # ms)"
  shows "\<exists>c'. read_message c = (Inr (lossy_str m), c') \<and> ready c' ms"
proof -
  obtain rest where r: "list_all is_data (events c)" "whole m" "list_all whole ms" "\<forall>n. write_ok c n"
    "rbuf c @ bytes_of (events c) = m @ (concat ms @ rest)"
    "length (m @ (concat ms @ rest)) \<le> RTSP_MAX_MESSAGE_BYTES"
    using assms by (auto simp: ready_def)
  obtain buf' evs' where b: "read_from (rbuf c) (events c) = (Inr (lossy_str m), buf', evs')"
    "list_all is_data evs'" "buf' @ bytes_of evs' = concat ms @ rest"
    using read_from_next [OF r(2,1,5,6)] by blast
  moreover have "length (concat ms @ rest) \<le> RTSP_MAX_MESSAGE_BYTES" using r(6) by simp
  ultimately show ?thesis using r(3,4) by (auto simp: read_message_def ready_def)
qed

text \<open>Rules that run the monad on a ready connection.\<close>

lemma ready_update [simp]:
  "ready (c\<lparr> sent := s \<rparr>) ms = ready c ms" "ready (c\<lparr> cseq := n \<rparr>) ms = ready c ms"
  by (simp_all add: ready_def)

lemma ready_writes: "ready c ms \<Longrightarrow> write_ok c n"
  by (simp add: ready_def)

lemma ready_send:
  "ready c ms \<Longrightarrow> (\<And>c'. ready c' ms \<Longrightarrow> fst (f () c') = r) \<Longrightarrow> fst (rbind (rtsp_send m w) f c) = r"
  by (simp add: rbind_def rtsp_send_def ready_writes)

lemma ready_cseq:
  "ready c ms \<Longrightarrow> (\<And>n c'. ready c' ms \<Longrightarrow> fst (f n c') = r) \<Longrightarrow> fst (rbind next_cseq f c) = r"
  by (simp add: rbind_def next_cseq_def)

lemma ready_response:
  "ready c (m # ms) \<Longrightarrow> (\<And>c'. ready c' ms \<Longrightarrow> fst (f (parse_rtsp_response (lossy_str m)) c') = r) \<Longrightarrow>
   fst (rbind read_response f c) = r"
  using read_message_ready [of c m ms] by (auto simp: read_response_def rbind_def rreturn_def)

lemma ready_request:
  "ready c (m # ms) \<Longrightarrow> (\<And>c'. ready c' ms \<Longrightarrow> fst (f (parse_rtsp_request (lossy_str m)) c') = r) \<Longrightarrow>
   fst (rbind read_request f c) = r"
  using read_message_ready [of c m ms] by (auto simp: read_request_def rbind_def rreturn_def)

lemma run_expect_ok: "resp_code r = 200 \<Longrightarrow> fst (f () c) = v \<Longrightarrow> fst (rbind (expect_ok w r) f c) = v"
  by (simp add: rbind_def expect_ok_def rreturn_def)

lemma run_expect_method: "req_method r = m \<Longrightarrow> fst (f () c) = v \<Longrightarrow> fst (rbind (expect_method m r) f c) = v"
  by (simp add: rbind_def expect_method_def rreturn_def)

text \<open>And rules that take a successful run apart.\<close>

lemma ok_send:
  assumes "rbind (rtsp_send m w) f c = (Inr y, c')"
  obtains c1 where "f () c1 = (Inr y, c')" "sent c1 = sent c @ [m]" "received c1 = received c"
    "cseq c1 = cseq c"
  using assms by (auto simp: rbind_def rtsp_send_def split: if_splits)

lemma ok_cseq:
  assumes "rbind next_cseq f c = (Inr y, c')"
  obtains c1 where "f (cseq c + 1) c1 = (Inr y, c')" "sent c1 = sent c" "received c1 = received c"
    "cseq c1 = cseq c + 1"
  using assms by (auto simp: rbind_def next_cseq_def)

lemma ok_response:
  assumes "rbind read_response f c = (Inr y, c')"
  obtains raw c1 where "f (parse_rtsp_response raw) c1 = (Inr y, c')" "sent c1 = sent c"
    "received c1 = received c @ [raw]" "cseq c1 = cseq c"
  using assms
  by (auto simp: rbind_def read_response_def read_message_def rreturn_def split: prod.splits sum.splits)

lemma ok_request:
  assumes "rbind read_request f c = (Inr y, c')"
  obtains raw c1 where "f (parse_rtsp_request raw) c1 = (Inr y, c')" "sent c1 = sent c"
    "received c1 = received c @ [raw]" "cseq c1 = cseq c"
  using assms
  by (auto simp: rbind_def read_request_def read_message_def rreturn_def split: prod.splits sum.splits)

lemma ok_expect_ok:
  assumes "rbind (expect_ok w r) f c = (Inr y, c')"
  obtains "f () c = (Inr y, c')" "resp_code r = 200"
  using assms by (auto simp: rbind_def expect_ok_def rreturn_def rfail_def split: if_splits)

lemma ok_expect_method:
  assumes "rbind (expect_method m r) f c = (Inr y, c')"
  obtains "f () c = (Inr y, c')" "req_method r = m"
  using assms by (auto simp: rbind_def expect_method_def rreturn_def rfail_def split: if_splits)


section \<open>Negotiation lemmas\<close>

definition sink_formats :: "rtsp_response \<Rightarrow> wfd_video_formats" where
  "sink_formats m3 =
     (case parse_sink_video_formats (resp_body m3) of None \<Rightarrow> default_video_formats | Some f \<Rightarrow> f)"

definition negotiated :: "wfd_video_formats \<Rightarrow> rtsp_response \<Rightarrow> nat \<times> nat \<times> nat" where
  "negotiated source m3 = negotiate_resolution source (sink_formats m3)"

definition negotiation_result :: "socket_addr \<Rightarrow> nat \<times> nat \<times> nat \<Rightarrow> u16 \<Rightarrow> wfd_negotiation_result" where
  "negotiation_result addr mode port =
     \<lparr> neg_width = fst mode, neg_height = fst (snd mode), neg_fps = snd (snd mode), neg_rtp_port = port,
       neg_sink_addr = addr \<rparr>"

text \<open>What a sink that follows the protocol sends: four acceptances and the requests \<open>OPTIONS\<close>,
  \<open>SETUP\<close> with a usable port, and \<open>PLAY\<close>.\<close>

definition conforming :: "string list \<Rightarrow> u16 \<Rightarrow> bool" where
  "conforming raws port =
     (case raws of [r1, r2, r3, r4, r5, r6, r7] \<Rightarrow>
        resp_code (parse_rtsp_response r1) = 200 \<and> req_method (parse_rtsp_request r2) = ''OPTIONS'' \<and>
        resp_code (parse_rtsp_response r3) = 200 \<and> resp_code (parse_rtsp_response r4) = 200 \<and>
        resp_code (parse_rtsp_response r5) = 200 \<and> req_method (parse_rtsp_request r6) = ''SETUP'' \<and>
        parse_transport_port (req_headers (parse_rtsp_request r6)) = Some port \<and>
        req_method (parse_rtsp_request r7) = ''PLAY''
      | _ \<Rightarrow> False)"

text \<open>What the source has then sent, in order.\<close>

definition source_messages :: "wfd_video_formats \<Rightarrow> string list \<Rightarrow> u16 \<Rightarrow> string list" where
  "source_messages source raws port =
     [options_msg 1, options_response_msg (parse_rtsp_request (raws ! 1)), get_parameter_msg 2,
      set_parameter_msg 3 (source\<lparr> cea_resolutions :=
        announced_cea (negotiated source (parse_rtsp_response (raws ! 2))) \<rparr>),
      trigger_msg 4, setup_response_msg (parse_rtsp_request (raws ! 5)) port,
      ok_msg (parse_rtsp_request (raws ! 6))]"

lemma ok_port:
  assumes "(case p of None \<Rightarrow> rfail e | Some x \<Rightarrow> g x) c = (Inr y, c')"
  obtains x where "p = Some x" "g x c = (Inr y, c')"
  using assms by (auto simp: rfail_def split: option.splits)

lemma ok_return:
  assumes "rreturn x c = (Inr y, c')"
  obtains "y = x" "c' = c"
  using assms by (auto simp: rreturn_def)

lemmas ok_elims = ok_send ok_cseq ok_response ok_request ok_expect_ok ok_expect_method ok_port ok_return

lemma negotiate_success:
  assumes "rtsp_negotiate addr source (conn_new evs w) = (Inr res, c')"
  shows "\<exists>port. conforming (received c') port \<and> sent c' = source_messages source (received c') port \<and>
    res = negotiation_result addr (negotiated source (parse_rtsp_response (received c' ! 2))) port"
  using assms unfolding rtsp_negotiate_def Let_def
  by (elim ok_elims, intro exI)
    (simp add: conforming_def source_messages_def negotiation_result_def negotiated_def sink_formats_def
      conn_new_def)

lemma run_port:
  "p = Some x \<Longrightarrow> fst (g x c) = v \<Longrightarrow> fst ((case p of None \<Rightarrow> rfail e | Some x \<Rightarrow> g x) c) = v"
  by simp

lemma negotiate_ready:
  assumes "ready c msgs" and "conforming (map lossy_str msgs) port"
  shows "fst (rtsp_negotiate addr source c) =
    Inr (negotiation_result addr (negotiated source (parse_rtsp_response (lossy_str (msgs ! 2)))) port)"
proof -
  obtain b1 b2 b3 b4 b5 b6 b7 where b: "msgs = [b1, b2, b3, b4, b5, b6, b7]"
    using assms(2) by (auto simp: conforming_def split: list.splits)
  note conf = assms(2) [unfolded b conforming_def, simplified]
  show ?thesis
    unfolding rtsp_negotiate_def Let_def b
    by (insert assms(1) [unfolded b], ((erule ready_send ready_cseq ready_response ready_request)
        | (rule run_expect_ok run_expect_method run_port, simp add: conf))+,
       simp add: rreturn_def negotiation_result_def negotiated_def sink_formats_def)
qed


section \<open>Control channel lemmas\<close>

definition stream :: "rtsp_conn \<Rightarrow> bytes" where
  "stream c = rbuf c @ bytes_of (events c)"

text \<open>No part of the stream looks like a header block whose announced length wraps to nothing.\<close>

definition sane :: "bytes \<Rightarrow> bool" where
  "sane s \<longleftrightarrow> (\<forall>i j. framed_message_len (take j (drop i s)) \<noteq> Some 0)"

lemma sane_drop: "sane s \<Longrightarrow> sane (drop n s)"
  by (simp add: sane_def)

lemma read_from_progress:
  assumes "read_from buf evs = (r, buf', evs')" and "sane (buf @ bytes_of evs)"
  shows "length evs' \<le> length evs \<and>
    (case r of
       Inr _ \<Rightarrow> (\<exists>n > 0. n \<le> length (buf @ bytes_of evs) \<and> buf' @ bytes_of evs' = drop n (buf @ bytes_of evs))
     | Inl RtspTimeout \<Rightarrow> buf' @ bytes_of evs' = buf @ bytes_of evs \<and> length evs' < length evs
     | Inl _ \<Rightarrow> True)"
  using assms
proof (induction evs arbitrary: buf)
  case Nil
  have "framed_message_len buf \<noteq> Some 0" using Nil(2) unfolding sane_def
    by (metis append_Nil2 bytes_of_def concat.simps(1) drop0 list.simps(8) order_refl take_all)
  with Nil(1) show ?case
    by (auto simp: bytes_of_def split: option.splits if_splits) (blast intro: framed_within)
next
  case (Cons ev evs)
  have pos: "framed_message_len buf \<noteq> Some 0" using Cons.prems(2) unfolding sane_def
    by (metis append_eq_conv_conj drop0)
  show ?case
  proof (cases "framed_message_len buf")
    case (Some n)
    then have "0 < n" "n \<le> length buf" using pos framed_within by auto
    with Some Cons.prems(1) show ?thesis by (auto intro!: exI [of _ n])
  next
    case None
    show ?thesis
    proof (cases ev)
      case (Data c)
      then have "(buf @ c) @ bytes_of evs = buf @ bytes_of (ev # evs)" by (simp add: bytes_of_def)
      with Data None Cons.prems Cons.IH [of "buf @ c"] show ?thesis
        by (auto split: if_splits sum.splits rtsp_error.splits)
    qed (use None Cons.prems in \<open>auto simp: bytes_of_def split: if_splits\<close>)
  qed
qed

lemma read_message_progress:
  assumes "read_message c = (r, c')" and "sane (stream c)"
  shows "length (events c') \<le> length (events c) \<and>
    (case r of
       Inr _ \<Rightarrow> (\<exists>n > 0. n \<le> length (stream c) \<and> stream c' = drop n (stream c))
     | Inl RtspTimeout \<Rightarrow> stream c' = stream c \<and> length (events c') < length (events c)
     | Inl _ \<Rightarrow> True)"
proof -
  obtain r1 b es where f: "read_from (rbuf c) (events c) = (r1, b, es)" by (metis prod_cases3)
  with assms(1) have "r1 = r" "rbuf c' = b" "events c' = es"
    by (auto simp: read_message_def split: sum.splits)
  then show ?thesis using read_from_progress [OF f] assms(2) unfolding stream_def by blast
qed

lemma handle_control_stream:
  "handle_control_message raw c = (r, c') \<Longrightarrow> stream c' = stream c \<and> events c' = events c"
  by (auto simp: handle_control_message_def rbind_def rtsp_send_def rreturn_def Let_def stream_def
      split: if_splits)

lemma send_keepalive_stream:
  "send_keepalive c = (r, c') \<Longrightarrow> stream c' = stream c \<and> events c' = events c"
  by (auto simp: send_keepalive_def rbind_def next_cseq_def rtsp_send_def stream_def split: if_splits)

lemma serve_control_ends:
  assumes "sane (stream c)" and "length (stream c) + length (events c) < fuel"
  shows "serve_control_channel fuel un c \<noteq> None"
  using assms
proof (induction fuel arbitrary: un c)
  case (Suc fuel)
  obtain r c1 where r: "read_message c = (r, c1)" by fastforce
  note prog = read_message_progress [OF r Suc.prems(1)]
  show ?case
  proof (cases r)
    case (Inr raw)
    obtain b c2 where h: "handle_control_message raw c1 = (b, c2)" by fastforce
    have "sane (stream c2)" "length (stream c2) + length (events c2) < fuel"
      using prog Inr handle_control_stream [OF h] Suc.prems sane_drop by auto
    then show ?thesis using Suc.IH r Inr h by (auto split: sum.splits bool.splits)
  next
    case (Inl e)
    obtain b c2 where k: "send_keepalive c1 = (b, c2)" by fastforce
    show ?thesis
    proof (cases "e = RtspTimeout")
      case True
      then have "sane (stream c2)" "length (stream c2) + length (events c2) < fuel"
        using prog Inl send_keepalive_stream [OF k] Suc.prems by auto
      then show ?thesis using Suc.IH r Inl True k by (auto split: sum.splits)
    next
      case False
      then show ?thesis using r Inl by (cases e) auto
    qed
  qed
qed simp

text \<open>A quiet connection: no whole message is buffered and the sink stays silent for \<open>n\<close> periods.\<close>

lemma silence_read:
  assumes "framed_message_len (rbuf c) = None" and "length (rbuf c) \<le> RTSP_MAX_MESSAGE_BYTES"
    and "events c = Silence # evs"
  shows "read_message c = (Inl RtspTimeout, c\<lparr> events := evs \<rparr>)"
  using assms by (simp add: read_message_def)

lemma silence_give_up:
  assumes "framed_message_len (rbuf c) = None" and "length (rbuf c) \<le> RTSP_MAX_MESSAGE_BYTES"
    and "events c = Silence # evs" and "un + 1 > MAX_UNANSWERED_KEEPALIVES"
  shows "serve_control_channel (Suc fuel) un c = Some (Inl RtspTimeout, c\<lparr> events := evs \<rparr>)"
  using silence_read [OF assms(1-3)] assms(4) by simp

lemma silence_step:
  assumes "framed_message_len (rbuf c) = None" and "length (rbuf c) \<le> RTSP_MAX_MESSAGE_BYTES"
    and "events c = Silence # evs" and "write_ok c (length (sent c))"
    and "un + 1 \<le> MAX_UNANSWERED_KEEPALIVES"
  shows "serve_control_channel (Suc fuel) un c = serve_control_channel fuel (un + 1)
    (c\<lparr> events := evs, cseq := cseq c + 1, sent := sent c @ [keepalive_msg (cseq c + 1)] \<rparr>)"
  using silence_read [OF assms(1-3)] assms(4,5)
  by (simp add: send_keepalive_def rbind_def next_cseq_def rtsp_send_def)


section \<open>Properties\<close>

text \<open>C19. A negotiation that succeeds has followed the protocol: exactly seven messages were taken
  from the sink, accepting M1, M3, M4 and M5 with status 200 and asking for \<open>OPTIONS\<close>, \<open>SETUP\<close> and
  \<open>PLAY\<close> in this order; exactly the seven messages of the source were sent, with sequence
  numbers 1 to 4; the result is the resolution negotiated from the capabilities in M3 and
  the port the sink asked for in M6.\<close>

theorem rtsp_negotiation_sound:
  assumes "rtsp_negotiate addr source (conn_new evs w) = (Inr res, c')"
  shows "\<exists>port. conforming (received c') port \<and> sent c' = source_messages source (received c') port \<and>
    res = negotiation_result addr (negotiated source (parse_rtsp_response (received c' ! 2))) port"
  using assms by (rule negotiate_success)

text \<open>A message without body, given by its header lines.\<close>

lemma whole_plain:
  assumes "ascii h" and "find_sub str_header_end (h @ str_header_end) = Some (length h)"
    and "numeric_header ''content-length:'' (2 ^ 64) h = None" and "length h < 1000"
  shows "whole (str_bytes (h @ str_header_end))"
proof -
  have "ascii (h @ str_header_end)" using assms(1) by (simp add: str_header_end_def crlf_def cr_def newline_def)
  moreover have "length str_header_end = 4" by (simp add: str_header_end_def crlf_def)
  ultimately show ?thesis
    using assms(2-4) by (simp add: whole_def framed_ascii or_zero_def Let_def del: str_bytes_append)
qed

definition demo_headers :: "string list" where
  "demo_headers =
     [''RTSP/1.0 200 OK'', ''OPTIONS * RTSP/1.0'', ''RTSP/1.0 200 OK'', ''RTSP/1.0 200 OK'', ''RTSP/1.0 200 OK'',
      ''SETUP x RTSP/1.0'' @ crlf @ ''Transport: a;client_port=19000-19001'', ''PLAY x RTSP/1.0'']"

definition demo_messages :: "string list" where
  "demo_messages = map (\<lambda>h. h @ str_header_end) demo_headers"

lemmas text_eval = crlf_def cr_def newline_def lines_def strip_cr_def split_whitespace_def is_ws_def
  starts_with_def to_ascii_lowercase_def lower_char_def from_str_radix_def digit_value_def trim_str_def
  strip_prefix_str_def char_of_def bit_0

lemma demo_headers_plain:
  "list_all (\<lambda>h. ascii h \<and> find_sub str_header_end (h @ str_header_end) = Some (length h) \<and>
     numeric_header ''content-length:'' (2 ^ 64) h = None \<and> length h < 1000) demo_headers"
  by (simp add: demo_headers_def str_header_end_def numeric_header_def text_eval)

lemma demo_whole: "list_all whole (map str_bytes demo_messages)"
  using demo_headers_plain whole_plain by (auto simp: demo_messages_def list_all_iff)

lemma demo_lossy: "map lossy_str (map str_bytes demo_messages) = demo_messages"
proof -
  have "ascii str_header_end" by (simp add: str_header_end_def text_eval)
  then show ?thesis
    using demo_headers_plain by (auto simp: demo_messages_def list_all_iff lossy_str_ascii simp del: str_bytes_append)
qed

lemma demo_conforming: "conforming demo_messages 19000"
  by (simp add: demo_messages_def demo_headers_def conforming_def parse_rtsp_response_def
      parse_rtsp_request_def split_header_body_def str_header_end_def first_line_def or_zero_def
      numeric_header_def parse_transport_port_def dec_u16_def text_eval Let_def)

lemma demo_ready:
  "ready (conn_new [Data (concat (map str_bytes demo_messages))] (\<lambda>_. True)) (map str_bytes demo_messages)"
  using demo_whole unfolding ready_def
  by (simp add: conn_new_def bytes_of_def)
    (simp add: demo_messages_def demo_headers_def str_header_end_def RTSP_MAX_MESSAGE_BYTES_def text_eval
      str_bytes_def)

theorem rtsp_negotiation_sound_witness:
  "\<exists>res c'. rtsp_negotiate (V4 1, 7236) default_video_formats
      (conn_new [Data (concat (map str_bytes demo_messages))] (\<lambda>_. True)) = (Inr res, c') \<and>
    length (sent c') = 7"
proof -
  let ?c = "conn_new [Data (concat (map str_bytes demo_messages))] (\<lambda>_. True)"
  obtain res c' where "rtsp_negotiate (V4 1, 7236) default_video_formats ?c = (Inr res, c')"
    using negotiate_ready [OF demo_ready, unfolded demo_lossy, OF demo_conforming, of "(V4 1, 7236)"
      default_video_formats] by (metis prod.collapse)
  with rtsp_negotiation_sound [OF this] show ?thesis by (auto simp: source_messages_def)
qed

text \<open>C20. A conforming sink is always negotiated with: if the seven messages of the sink arrive in
  time, in whatever pieces and however many at once, in at most 64 KiB, and our writes
  succeed, negotiation returns the resolution negotiated from its capabilities and the port
  it asked for.\<close>

theorem rtsp_negotiation_complete:
  assumes "list_all is_data evs" and "bytes_of evs = concat msgs @ extra"
    and "length (bytes_of evs) \<le> 65536" and "list_all whole msgs"
    and "conforming (map lossy_str msgs) port"
  shows "fst (rtsp_negotiate addr source (conn_new evs (\<lambda>_. True))) =
    Inr (negotiation_result addr (negotiated source (parse_rtsp_response (lossy_str (msgs ! 2)))) port)"
proof -
  have "ready (conn_new evs (\<lambda>_. True)) msgs"
    using assms(1-4) unfolding ready_def conn_new_def RTSP_MAX_MESSAGE_BYTES_def by force
  then show ?thesis using assms(5) by (rule negotiate_ready)
qed

theorem rtsp_negotiation_complete_witness:
  "\<exists>res. fst (rtsp_negotiate (V4 1, 7236) default_video_formats
      (conn_new [Data (concat (map str_bytes demo_messages))] (\<lambda>_. True))) = Inr res \<and>
    neg_rtp_port res = 19000"
proof -
  have "list_all is_data [Data (concat (map str_bytes demo_messages))]"
    by (simp add: demo_messages_def demo_headers_def str_bytes_def)
  moreover have "length (concat (map str_bytes demo_messages)) \<le> 65536"
    by (simp add: demo_messages_def demo_headers_def str_header_end_def text_eval)
  ultimately show ?thesis
    using rtsp_negotiation_complete [of "[Data (concat (map str_bytes demo_messages))]"
        "map str_bytes demo_messages" "[]" 19000 "(V4 1, 7236)" default_video_formats]
      demo_whole demo_conforming
    unfolding demo_lossy by (simp add: bytes_of_def negotiation_result_def)
qed

text \<open>C21. The control channel always comes to an end when the stream does: for every stream none of
  whose parts announces a length that wraps to zero, as many rounds as there are bytes and
  read events, plus one, suffice.\<close>

theorem control_channel_ends:
  assumes "sane (stream c)"
  shows "\<exists>r. serve_control_channel (length (stream c) + length (events c) + 1) 0 c = Some r"
  using serve_control_ends [OF assms, of "length (stream c) + length (events c) + 1" 0] by auto

theorem control_channel_ends_witness:
  "\<exists>r. serve_control_channel 4 0 (conn_new [Data [65], Silence] (\<lambda>_. True)) = Some r"
proof -
  have "framed_message_len (take j (drop i [65])) \<noteq> Some 0" for i j
    by (cases i; cases j) (simp_all add: framed_message_len_def find_subslice_def rtsp_header_end_def)
  then have "sane (stream (conn_new [Data [65], Silence] (\<lambda>_. True)))"
    by (simp add: sane_def stream_def conn_new_def bytes_of_def)
  from control_channel_ends [OF this] show ?thesis
    by (simp add: stream_def conn_new_def bytes_of_def numeral_eq_Suc)
qed

text \<open>A silent sink is pinged three times and then given up: while no message arrives, each of
  the first three periods sends a keep-alive with the next sequence number, and the fourth
  ends the session with a timeout.\<close>

theorem silent_sink_is_given_up:
  assumes "framed_message_len (rbuf c) = None" and "length (rbuf c) \<le> RTSP_MAX_MESSAGE_BYTES"
    and "events c = [Silence, Silence, Silence, Silence] @ evs" and "\<forall>n. write_ok c n"
  shows "\<exists>c'. serve_control_channel (4 + fuel) 0 c = Some (Inl RtspTimeout, c') \<and>
    sent c' = sent c @ [keepalive_msg (cseq c + 1), keepalive_msg (cseq c + 2), keepalive_msg (cseq c + 3)]"
proof -
  have "(cseq c + 1) + 1 = cseq c + 2" "((cseq c + 1) + 1) + 1 = cseq c + 3" by (simp_all add: add.assoc)
  then show ?thesis
    using assms
    by (simp add: numeral_eq_Suc silence_step silence_give_up MAX_UNANSWERED_KEEPALIVES_def
        del: serve_control_channel.simps) (simp add: add.commute)
qed

theorem silent_sink_is_given_up_witness:
  "\<exists>c'. serve_control_channel 4 0 (conn_new [Silence, Silence, Silence, Silence] (\<lambda>_. True)) =
      Some (Inl RtspTimeout, c') \<and> sent c' = [keepalive_msg 1, keepalive_msg 2, keepalive_msg 3]"
proof -
  let ?c = "conn_new [Silence, Silence, Silence, Silence] (\<lambda>_. True)"
  have "framed_message_len (rbuf ?c) = None"
    by (simp add: conn_new_def framed_message_len_def find_subslice_def rtsp_header_end_def)
  from silent_sink_is_given_up [OF this, of "[]" 0] show ?thesis
    by (simp add: conn_new_def RTSP_MAX_MESSAGE_BYTES_def del: serve_control_channel.simps)
qed

text \<open>A hostile length makes the control channel spin: after a header block whose
  \<open>Content-Length\<close> is \<open>2 ^ 64 - 40\<close>, the total length of the message wraps to zero, so the same
  empty message is read and acknowledged again and again and no number of rounds suffices.\<close>

theorem wrapped_length_never_ends:
  "serve_control_channel fuel 0 (conn_new
     [Data (str_bytes (''Content-Length: 18446744073709551576'' @ crlf @ crlf))] (\<lambda>_. True)) = None"
proof -
  let ?s = "''Content-Length: 18446744073709551576'' @ crlf @ crlf"
  have f: "framed_message_len (str_bytes ?s) = Some 0"
    by (subst framed_ascii) (simp_all add: str_header_end_def or_zero_def numeric_header_def text_eval)
  have "lossy_str [] = []" using lossy_str_ascii [of "[]"] by (simp add: str_bytes_def)
  then have step: "read_message c = (Inr [], c\<lparr> received := received c @ [[]] \<rparr>)"
    if "rbuf c = str_bytes ?s" for c
    using that f by (cases "events c") (simp_all add: read_message_def)
  have ack: "\<exists>c'. handle_control_message [] c = (Inr False, c') \<and> rbuf c' = rbuf c \<and> write_ok c' = write_ok c"
    if "\<forall>n. write_ok c n" for c
    using that by (simp add: handle_control_message_def starts_with_def parse_rtsp_request_def
        split_header_body_def str_header_end_def text_eval first_line_def rbind_def rtsp_send_def rreturn_def)
  have loop: "serve_control_channel fuel 0 c = None" if "rbuf c = str_bytes ?s" "\<forall>n. write_ok c n" for c fuel
    using that
  proof (induction fuel arbitrary: c)
    case (Suc fuel)
    obtain c' where "handle_control_message [] (c\<lparr> received := received c @ [[]] \<rparr>) = (Inr False, c')"
      "rbuf c' = rbuf c" "write_ok c' = write_ok c"
      using ack [of "c\<lparr> received := received c @ [[]] \<rparr>"] Suc.prems(2) by auto
    with Suc step [OF Suc.prems(1)] show ?case by simp
  qed simp
  let ?c = "conn_new [Data (str_bytes ?s)] (\<lambda>_. True)"
  show ?thesis
  proof (cases fuel)
    case (Suc n)
    have "framed_message_len [] = None"
      by (simp add: framed_message_len_def find_subslice_def rtsp_header_end_def)
    then have r: "read_message ?c = (Inr [], ?c\<lparr> rbuf := str_bytes ?s, events := [], received := [[]] \<rparr>)"
      using f \<open>lossy_str [] = []\<close>
      by (simp add: read_message_def conn_new_def del: str_bytes_append) (simp add: str_bytes_def)
    obtain c' where "handle_control_message [] (?c\<lparr> rbuf := str_bytes ?s, events := [], received := [[]] \<rparr>) =
        (Inr False, c')" "rbuf c' = str_bytes ?s" "\<forall>n. write_ok c' n"
      using ack [of "?c\<lparr> rbuf := str_bytes ?s, events := [], received := [[]] \<rparr>"] by (auto simp: conn_new_def)
    then show ?thesis using Suc r loop [of c' n] by simp
  qed simp
qed

text \<open>What M4 announces is what will be streamed: with the formats a session offers, the mode
  negotiated against any sink and the bit announced in M4 are the same mode, one that the
  source offers, and the sink supports it exactly if the two ends have any mode in common.\<close>

theorem announced_mode_is_streamed:
  "let mode = negotiate_resolution default_video_formats sink;
       common = cea_resolutions default_video_formats AND cea_resolutions sink
   in (mode, announced_cea mode) \<in> {((1920, 1080, 30), RES_1920X1080_P30), ((1280, 720, 30), RES_1280X720_P30)} \<and>
      cea_supports (cea_resolutions default_video_formats) (announced_cea mode) \<and>
      (cea_supports (cea_resolutions sink) (announced_cea mode) \<longleftrightarrow> common \<noteq> 0)"
proof -
  have d: "cea_resolutions default_video_formats = 160"
    by (simp add: default_video_formats_def res_defs)
  have c: "160 AND x \<noteq> 0 \<longleftrightarrow> x AND 128 \<noteq> 0 \<or> x AND 32 \<noteq> 0" for x :: u32
  proof -
    have "(160 :: u32) = 128 OR 32" by simp
    then have "160 AND x = (x AND 128) OR (x AND 32)" by (simp only: and.commute [of _ x] bit.conj_disj_distrib)
    then show ?thesis by (simp add: or_eq_0_iff)
  qed
  show ?thesis
    using c [of "cea_resolutions sink"]
    by (simp add: negotiate_resolution_first preferred_modes_def cea_supports_def d res_defs announced_cea_def)
      blast
qed

text \<open>The general negotiation does not have this property: for a pair of ends whose only common mode
  is 720x480p60, that mode is returned while 1280x720p30 is announced.\<close>

lemma announced_mode_mismatch:
  assumes "cea_resolutions source = RES_720X480_P60" and "cea_resolutions sink = RES_720X480_P60"
  shows "negotiate_resolution source sink = (720, 480, 60) \<and>
    announced_cea (negotiate_resolution source sink) = RES_1280X720_P30"
  using assms by (simp add: negotiate_resolution_def announced_cea_def res_defs)

end
