(* ===== verification/Miracast_Session.thy ===== *)
theory Miracast_Session
  imports Rtsp Wifi_Direct
begin

text \<open>
  The session tasks of \<open>openplay-miracast/src/session.rs\<close>: \<open>run_session\<close> over infrastructure,
  \<open>run_wifi_direct_session\<close>, the guard that tears the P2P group down, and the cancellation that
  \<open>stop\<close> causes. Both tasks are step relations between phases; what D-Bus, the sockets and the
  clock answer is the choice of the step. A negotiation and the control channel are the
  functions of \<open>Rtsp\<close>; a control channel that never returns is a phase with no step but \<open>stop\<close>.

  A Wi-Fi Direct task can also be dropped unfinished, with the runtime that ran it: it then reports
  nothing, and the guard's \<open>drop\<close> may find no runtime to hand the teardown to. What the guard does
  hand over is a request: whether the runtime still gets round to it is the runtime's affair.

  The lemmas are invariants over all reachable states: the events a session emits, and that a
  session that reports its end has asked exactly once for the P2P group it formed to be taken down.
\<close>

section \<open>Sessions over infrastructure\<close>

datatype miracast_error =
    ConnectTimeout
  | ConnectionFailed string
  | RtspFailed rtsp_error

datatype miracast_event =
    SessionReady wfd_negotiation_result
  | SessionEnded "miracast_error option"

datatype mice_phase =
    MiceConnecting
  | MiceNegotiating rtsp_conn
  | MiceServing rtsp_conn
  | MiceDone

record mice_state =
  mice_phase :: mice_phase
  mice_emitted :: "miracast_event list"

definition mice_start :: mice_state where
  "mice_start = \<lparr> mice_phase = MiceConnecting, mice_emitted = [] \<rparr>"

definition mice_finish :: "miracast_error option \<Rightarrow> mice_state \<Rightarrow> mice_state" where
  "mice_finish r s = \<lparr> mice_phase = MiceDone, mice_emitted = mice_emitted s @ [SessionEnded r] \<rparr>"

inductive run_session_step :: "socket_addr \<Rightarrow> mice_state \<Rightarrow> mice_state \<Rightarrow> bool"
  for sink_addr :: socket_addr
where
  mice_timeout:
    "mice_phase s = MiceConnecting \<Longrightarrow>
     run_session_step sink_addr s (mice_finish (Some ConnectTimeout) s)"
| mice_refused:
    "mice_phase s = MiceConnecting \<Longrightarrow>
     run_session_step sink_addr s (mice_finish (Some (ConnectionFailed e)) s)"
| mice_connected:
    "mice_phase s = MiceConnecting \<Longrightarrow>
     run_session_step sink_addr s (s\<lparr> mice_phase := MiceNegotiating (conn_new evs w) \<rparr>)"
| mice_negotiated:
    "mice_phase s = MiceNegotiating c \<Longrightarrow>
     rtsp_negotiate sink_addr default_video_formats c = (Inr res, c') \<Longrightarrow>
     run_session_step sink_addr s
       (s\<lparr> mice_phase := MiceServing c', mice_emitted := mice_emitted s @ [SessionReady res] \<rparr>)"
| mice_negotiation_failed:
    "mice_phase s = MiceNegotiating c \<Longrightarrow>
     rtsp_negotiate sink_addr default_video_formats c = (Inl e, c') \<Longrightarrow>
     run_session_step sink_addr s (mice_finish (Some (RtspFailed e)) s)"
| mice_torn_down:
    "mice_phase s = MiceServing c \<Longrightarrow> serve_control_channel fuel 0 c = Some (Inr u, c') \<Longrightarrow>
     run_session_step sink_addr s (mice_finish None s)"
| mice_broken:
    "mice_phase s = MiceServing c \<Longrightarrow> serve_control_channel fuel 0 c = Some (Inl e, c') \<Longrightarrow>
     run_session_step sink_addr s (mice_finish (Some (RtspFailed e)) s)"
| mice_stop:
    "mice_phase s \<noteq> MiceDone \<Longrightarrow> run_session_step sink_addr s (mice_finish None s)"


section \<open>Sessions over Wi-Fi Direct\<close>

text \<open>What the session asks of the P2P manager: to connect and to disconnect, awaited, and a disconnect
  that is spawned on the runtime by the guard.\<close>

datatype p2p_action = P2pConnect string | P2pDisconnect | P2pSpawnDisconnect

datatype wd_phase =
    WdStarting
  | WdDiscovering
  | WdConnecting
  | WdForming
  | WdResolving p2p_group_info
  | WdListening ip_addr
  | WdNegotiating socket_addr rtsp_conn
  | WdServing rtsp_conn
  | WdDone
  | WdDropped

record wd_state =
  wd_phase :: wd_phase
  wd_emitted :: "miracast_event list"
  wd_actions :: "p2p_action list"
  wd_guard :: bool
  wd_left_up :: bool

definition wd_start :: wd_state where
  "wd_start = \<lparr> wd_phase = WdStarting, wd_emitted = [], wd_actions = [], wd_guard = False,
     wd_left_up = False \<rparr>"

text \<open>The guard's \<open>drop\<close>, if the guard exists: with a runtime the disconnect is spawned on it; without
  one there is only the warning, and the group is left up.\<close>

definition guard_drop :: "bool \<Rightarrow> wd_state \<Rightarrow> wd_state" where
  "guard_drop runtime s =
     (if \<not> wd_guard s then s
      else if \<not> runtime then s\<lparr> wd_guard := False, wd_left_up := True \<rparr>
      else s\<lparr> wd_guard := False, wd_actions := wd_actions s @ [P2pSpawnDisconnect] \<rparr>)"

text \<open>The task ends of itself or is stopped: its code, and so the guard's \<open>drop\<close>, runs on the runtime,
  and it sends the last event. A task that is dropped unfinished sends nothing.\<close>

definition wd_finish :: "miracast_error option \<Rightarrow> wd_state \<Rightarrow> wd_state" where
  "wd_finish r s =
     (guard_drop True s)\<lparr> wd_phase := WdDone, wd_emitted := wd_emitted s @ [SessionEnded r] \<rparr>"

definition wd_abandon :: "bool \<Rightarrow> wd_state \<Rightarrow> wd_state" where
  "wd_abandon runtime s = (guard_drop runtime s)\<lparr> wd_phase := WdDropped \<rparr>"

definition wd_over :: "wd_phase \<Rightarrow> bool" where
  "wd_over p \<longleftrightarrow> p = WdDone \<or> p = WdDropped"

inductive wifi_direct_step :: "string \<Rightarrow> u16 \<Rightarrow> wd_state \<Rightarrow> wd_state \<Rightarrow> bool"
  for target :: string and rtsp_port :: u16
where
  wd_manager_failed:
    "wd_phase s = WdStarting \<Longrightarrow>
     wifi_direct_step target rtsp_port s (wd_finish (Some (ConnectionFailed e)) s)"
| wd_manager_started:
    "wd_phase s = WdStarting \<Longrightarrow> wifi_direct_step target rtsp_port s (s\<lparr> wd_phase := WdDiscovering \<rparr>)"
| wd_peer_found:
    "wd_phase s = WdDiscovering \<Longrightarrow> eq_ignore_ascii_case (device_address (peer :: wifi_direct_peer)) target \<Longrightarrow>
     wifi_direct_step target rtsp_port s (s\<lparr> wd_phase := WdConnecting \<rparr>)"
| wd_peer_not_seen:
    "wd_phase s = WdDiscovering \<Longrightarrow> wifi_direct_step target rtsp_port s (s\<lparr> wd_phase := WdConnecting \<rparr>)"
| wd_connect_failed:
    "wd_phase s = WdConnecting \<Longrightarrow>
     wifi_direct_step target rtsp_port s (wd_finish (Some (ConnectionFailed e)) s)"
| wd_connect_ok:
    "wd_phase s = WdConnecting \<Longrightarrow>
     wifi_direct_step target rtsp_port s
       (s\<lparr> wd_phase := WdForming, wd_actions := wd_actions s @ [P2pConnect target] \<rparr>)"
| wd_formed:
    "wd_phase s = WdForming \<Longrightarrow>
     wifi_direct_step target rtsp_port s (s\<lparr> wd_phase := WdResolving info, wd_guard := True \<rparr>)"
| wd_form_error:
    "wd_phase s = WdForming \<Longrightarrow>
     wifi_direct_step target rtsp_port s
       (wd_finish (Some (ConnectionFailed e)) (s\<lparr> wd_actions := wd_actions s @ [P2pDisconnect] \<rparr>))"
| wd_form_removed:
    "wd_phase s = WdForming \<Longrightarrow>
     wifi_direct_step target rtsp_port s (wd_finish (Some (ConnectionFailed e)) s)"
| wd_resolved:
    "wd_phase s = WdResolving info \<Longrightarrow>
     ip = (if is_unspecified (peer_ip info) then resolved else peer_ip info) \<Longrightarrow>
     wifi_direct_step target rtsp_port s (s\<lparr> wd_phase := WdListening ip \<rparr>)"
| wd_resolve_failed:
    "wd_phase s = WdResolving info \<Longrightarrow> is_unspecified (peer_ip info) \<Longrightarrow>
     wifi_direct_step target rtsp_port s (wd_finish (Some (ConnectionFailed e)) s)"
| wd_accepted:
    "wd_phase s = WdListening ip \<Longrightarrow>
     wifi_direct_step target rtsp_port s
       (s\<lparr> wd_phase := WdNegotiating (sink_ip, rtsp_port) (conn_new evs w) \<rparr>)"
| wd_fallback:
    "wd_phase s = WdListening ip \<Longrightarrow>
     wifi_direct_step target rtsp_port s (s\<lparr> wd_phase := WdNegotiating (ip, rtsp_port) (conn_new evs w) \<rparr>)"
| wd_listen_failed:
    "wd_phase s = WdListening ip \<Longrightarrow>
     wifi_direct_step target rtsp_port s (wd_finish (Some (ConnectionFailed e)) s)"
| wd_negotiated:
    "wd_phase s = WdNegotiating addr c \<Longrightarrow>
     rtsp_negotiate addr default_video_formats c = (Inr res, c') \<Longrightarrow>
     wifi_direct_step target rtsp_port s
       (s\<lparr> wd_phase := WdServing c', wd_emitted := wd_emitted s @ [SessionReady res] \<rparr>)"
| wd_negotiation_failed:
    "wd_phase s = WdNegotiating addr c \<Longrightarrow>
     rtsp_negotiate addr default_video_formats c = (Inl err, c') \<Longrightarrow>
     wifi_direct_step target rtsp_port s (wd_finish (Some (RtspFailed err)) s)"
| wd_torn_down:
    "wd_phase s = WdServing c \<Longrightarrow> serve_control_channel fuel 0 c = Some (Inr u, c') \<Longrightarrow>
     wifi_direct_step target rtsp_port s (wd_finish None s)"
| wd_broken:
    "wd_phase s = WdServing c \<Longrightarrow> serve_control_channel fuel 0 c = Some (Inl err, c') \<Longrightarrow>
     wifi_direct_step target rtsp_port s (wd_finish (Some (RtspFailed err)) s)"
| wd_stop:
    "\<not> wd_over (wd_phase s) \<Longrightarrow> wifi_direct_step target rtsp_port s (wd_finish None s)"
| wd_dropped:
    "\<not> wd_over (wd_phase s) \<Longrightarrow> wifi_direct_step target rtsp_port s (wd_abandon runtime s)"

inductive_cases wifi_direct_stepE: "wifi_direct_step target rtsp_port s s'"
inductive_cases run_session_stepE: "run_session_step sink_addr s s'"


section \<open>The handle of a session\<close>

text \<open>\<open>MiracastSession\<close> holds the sending half of the shutdown channel until \<open>stop\<close> takes it;
  dropping the handle calls \<open>stop\<close>. A task that has already ended does not see the signal.\<close>

record 'st miracast_session =
  ms_task :: 'st
  ms_shutdown :: bool

definition session_handle :: "'st \<Rightarrow> 'st miracast_session" where
  "session_handle task = \<lparr> ms_task = task, ms_shutdown = True \<rparr>"

definition mice_cancel :: "mice_state \<Rightarrow> mice_state" where
  "mice_cancel s = (case mice_phase s of MiceDone \<Rightarrow> s | _ \<Rightarrow> mice_finish None s)"

definition wd_cancel :: "wd_state \<Rightarrow> wd_state" where
  "wd_cancel s = (if wd_over (wd_phase s) then s else wd_finish None s)"

definition session_stop :: "('st \<Rightarrow> 'st) \<Rightarrow> 'st miracast_session \<Rightarrow> 'st miracast_session" where
  "session_stop cancel h =
     (if ms_shutdown h then h\<lparr> ms_task := cancel (ms_task h), ms_shutdown := False \<rparr> else h)"

definition session_drop :: "('st \<Rightarrow> 'st) \<Rightarrow> 'st miracast_session \<Rightarrow> 'st miracast_session" where
  "session_drop cancel h = session_stop cancel h"


section \<open>Invariants\<close>

lemma mice_cancel_steps: "(run_session_step a)\<^sup>*\<^sup>* s (mice_cancel s)"
  by (auto simp: mice_cancel_def intro!: r_into_rtranclp mice_stop split: mice_phase.split)

lemma wd_cancel_steps: "(wifi_direct_step t p)\<^sup>*\<^sup>* s (wd_cancel s)"
  by (auto simp: wd_cancel_def intro!: r_into_rtranclp wd_stop)

lemmas wd_ends = wd_finish_def wd_abandon_def guard_drop_def

lemma cancel_done:
  "mice_phase (mice_cancel m) = MiceDone" "wd_phase (wd_cancel s) = (if wd_phase s = WdDropped then WdDropped else WdDone)"
  by (simp_all add: mice_cancel_def wd_cancel_def mice_finish_def wd_finish_def wd_over_def split: mice_phase.split)

fun is_ready :: "miracast_event \<Rightarrow> bool" where
  "is_ready (SessionReady _) = True"
| "is_ready _ = False"

definition mice_inv :: "mice_state \<Rightarrow> bool" where
  "mice_inv s =
     (case mice_phase s of
        MiceServing _ \<Rightarrow> (\<exists>res. mice_emitted s = [SessionReady res])
      | MiceDone \<Rightarrow> (\<exists>r. mice_emitted s = [SessionEnded r]) \<or>
          (\<exists>res r. mice_emitted s = [SessionReady res, SessionEnded r])
      | _ \<Rightarrow> mice_emitted s = [])"

lemma mice_inv_step: "run_session_step a s s' \<Longrightarrow> mice_inv s \<Longrightarrow> mice_inv s'"
  by (induction rule: run_session_step.induct)
    (auto simp: mice_inv_def mice_finish_def split: mice_phase.splits)

lemma mice_inv_reach: "(run_session_step a)\<^sup>*\<^sup>* mice_start s \<Longrightarrow> mice_inv s"
  by (induction rule: rtranclp_induct) (auto simp: mice_inv_step, simp add: mice_inv_def mice_start_def)

definition in_group :: "wd_phase \<Rightarrow> bool" where
  "in_group p = (case p of WdResolving _ \<Rightarrow> True | WdListening _ \<Rightarrow> True | WdNegotiating _ _ \<Rightarrow> True
     | WdServing _ \<Rightarrow> True | _ \<Rightarrow> False)"

text \<open>The events of a phase, and the actions: before the group is formed at most the connect; while
  it stands the connect and the guard; in the end the connect and, if the guard existed, one
  spawned disconnect, unless the task was dropped where there was no runtime.\<close>

definition torn_down :: "string \<Rightarrow> wd_state \<Rightarrow> bool" where
  "torn_down target s \<longleftrightarrow>
     wd_over (wd_phase s) \<and>
     wd_actions s = P2pConnect target # (if wd_left_up s then [] else [P2pSpawnDisconnect]) \<and>
     (wd_left_up s \<longrightarrow> wd_phase s = WdDropped)"

definition wd_inv :: "string \<Rightarrow> wd_state \<Rightarrow> bool" where
  "wd_inv target s \<longleftrightarrow>
     (wd_guard s = in_group (wd_phase s)) \<and> (wd_left_up s \<longrightarrow> wd_phase s = WdDropped) \<and>
     (case wd_phase s of
        WdServing _ \<Rightarrow> (\<exists>res. wd_emitted s = [SessionReady res])
      | WdDropped \<Rightarrow> wd_emitted s = [] \<or> (\<exists>res. wd_emitted s = [SessionReady res])
      | WdDone \<Rightarrow> (\<exists>r. wd_emitted s = [SessionEnded r]) \<or>
          (\<exists>res r. wd_emitted s = [SessionReady res, SessionEnded r])
      | _ \<Rightarrow> wd_emitted s = []) \<and>
     (if wd_over (wd_phase s) then
        wd_actions s \<in> {[], [P2pConnect target], [P2pConnect target, P2pDisconnect],
          [P2pConnect target, P2pSpawnDisconnect]} \<and>
        ((\<exists>e. is_ready e \<and> e \<in> set (wd_emitted s)) \<longrightarrow> torn_down target s)
      else wd_actions s = (if in_group (wd_phase s) \<or> wd_phase s = WdForming then [P2pConnect target] else []))"

lemma wd_inv_step: "wifi_direct_step t p s s' \<Longrightarrow> wd_inv t s \<Longrightarrow> wd_inv t s'"
  by (induction rule: wifi_direct_step.induct)
    (auto simp: wd_inv_def wd_ends torn_down_def wd_over_def in_group_def split: wd_phase.splits)

lemma wd_inv_reach: "(wifi_direct_step t p)\<^sup>*\<^sup>* wd_start s \<Longrightarrow> wd_inv t s"
  by (induction rule: rtranclp_induct)
    (auto simp: wd_inv_step, simp add: wd_inv_def wd_start_def wd_over_def in_group_def)

text \<open>Once the group stands it stands or is torn down.\<close>

lemma group_kept_step:
  assumes "wifi_direct_step t p s s'" and "wd_inv t s"
    and "in_group (wd_phase s) \<or> torn_down t s"
  shows "in_group (wd_phase s') \<or> torn_down t s'"
  using assms
  by (induction rule: wifi_direct_step.induct)
    (auto simp: wd_inv_def wd_ends torn_down_def wd_over_def in_group_def split: wd_phase.splits)

lemma group_kept_reach:
  assumes "(wifi_direct_step t p)\<^sup>*\<^sup>* s s'" and "wd_inv t s" and "in_group (wd_phase s)"
  shows "in_group (wd_phase s') \<or> torn_down t s'"
proof -
  have "wd_inv t s' \<and> (in_group (wd_phase s') \<or> torn_down t s')"
    using assms
  proof (induction rule: rtranclp_induct)
    case (step s1 s2)
    then show ?case using wd_inv_step group_kept_step by blast
  qed simp
  then show ?thesis by simp
qed

definition forming_state :: "string \<Rightarrow> wd_state" where
  "forming_state target =
     \<lparr> wd_phase = WdForming, wd_emitted = [], wd_actions = [P2pConnect target], wd_guard = False,
       wd_left_up = False \<rparr>"

definition grouped_state :: "string \<Rightarrow> p2p_group_info \<Rightarrow> wd_state" where
  "grouped_state target info = (forming_state target)\<lparr> wd_phase := WdResolving info, wd_guard := True \<rparr>"

lemma forming_reachable: "(wifi_direct_step target port)\<^sup>*\<^sup>* wd_start (forming_state target)"
proof -
  let ?step = "wifi_direct_step target port"
  let ?s1 = "wd_start\<lparr> wd_phase := WdDiscovering \<rparr>"
  let ?s2 = "?s1\<lparr> wd_phase := WdConnecting \<rparr>"
  let ?s3 = "?s2\<lparr> wd_phase := WdForming, wd_actions := wd_actions ?s2 @ [P2pConnect target] \<rparr>"
  have "?step wd_start ?s1" by (rule wd_manager_started) (simp add: wd_start_def)
  moreover have "?step ?s1 ?s2" by (rule wd_peer_not_seen) simp
  moreover have "?step ?s2 ?s3" by (rule wd_connect_ok) simp
  moreover have "?s3 = forming_state target" by (simp add: wd_start_def forming_state_def)
  ultimately show ?thesis by (metis rtranclp.rtrancl_refl rtranclp.rtrancl_into_rtrancl)
qed


lemma grouped_reachable: "(wifi_direct_step target port)\<^sup>*\<^sup>* wd_start (grouped_state target info)"
proof -
  have "wifi_direct_step target port (forming_state target) (grouped_state target info)"
    unfolding grouped_state_def by (rule wd_formed) (simp add: forming_state_def)
  then show ?thesis using forming_reachable by (meson rtranclp.rtrancl_into_rtrancl)
qed


section \<open>Properties\<close>

text \<open>C24. A formed P2P group does not outlive its session unnoticed. From any reachable state in
  which the group stands, whichever way the session is over afterwards, the connect has been asked
  for once, and after it exactly one disconnect has been handed to the runtime and nothing else,
  unless the task was dropped with no runtime left: only then does the group stay up. So a session
  that reports its end, whether the sink ended it, an error did at any later step, or \<open>stop\<close>, has
  handed that one disconnect over. That the runtime runs it is the runtime's part.\<close>

theorem p2p_group_torn_down:
  assumes "(wifi_direct_step target port)\<^sup>*\<^sup>* wd_start s" and "in_group (wd_phase s)"
    and "(wifi_direct_step target port)\<^sup>*\<^sup>* s s'" and "wd_phase s' \<in> {WdDone, WdDropped}"
  shows "wd_actions s' = P2pConnect target # (if wd_left_up s' then [] else [P2pSpawnDisconnect]) \<and>
    (wd_left_up s' \<longrightarrow> wd_phase s' = WdDropped) \<and>
    (wd_phase s' = WdDone \<longrightarrow> wd_actions s' = [P2pConnect target, P2pSpawnDisconnect])"
  using group_kept_reach [OF assms(3) wd_inv_reach [OF assms(1)] assms(2)] assms(4)
  by (auto simp: in_group_def torn_down_def)

theorem p2p_group_torn_down_witness:
  "\<exists>s s'. (wifi_direct_step ''aa'' 7236)\<^sup>*\<^sup>* wd_start s \<and> in_group (wd_phase s) \<and>
    (wifi_direct_step ''aa'' 7236)\<^sup>*\<^sup>* s s' \<and> wd_phase s' = WdDone \<and> wd_emitted s' = [SessionEnded None] \<and>
    wd_actions s' = [P2pConnect ''aa'', P2pSpawnDisconnect]"
proof -
  let ?info = "\<lparr> interface_name = ''p2p'', local_ip = V4 0, peer_ip = V4 1, peer_device_address = [] \<rparr>"
  let ?s = "grouped_state ''aa'' ?info"
  have g: "in_group (wd_phase ?s)" by (simp add: grouped_state_def in_group_def)
  have e: "(wifi_direct_step ''aa'' 7236)\<^sup>*\<^sup>* ?s (wd_finish None ?s)"
    by (intro r_into_rtranclp wd_stop) (simp add: grouped_state_def wd_over_def)
  have "wd_phase (wd_finish None ?s) = WdDone" "wd_emitted (wd_finish None ?s) = [SessionEnded None]"
    by (simp_all add: wd_finish_def grouped_state_def forming_state_def)
  with p2p_group_torn_down [OF grouped_reachable g e] grouped_reachable g e show ?thesis by blast
qed

text \<open>The branch the guard's own comment names: a group that stands when its task is dropped where
  there is no runtime stays up, nothing asks for it to be taken down, and nobody is told.\<close>

theorem group_left_up_without_runtime:
  "\<exists>s. (wifi_direct_step target port)\<^sup>*\<^sup>* wd_start s \<and> wd_phase s = WdDropped \<and> wd_left_up s \<and>
    wd_emitted s = [] \<and> wd_actions s = [P2pConnect target]"
proof -
  let ?s = "grouped_state target info"
  have "wifi_direct_step target port ?s (wd_abandon False ?s)"
    by (rule wd_dropped) (simp add: grouped_state_def wd_over_def)
  then have "(wifi_direct_step target port)\<^sup>*\<^sup>* wd_start (wd_abandon False ?s)"
    using grouped_reachable by (meson rtranclp.rtrancl_into_rtrancl)
  then show ?thesis
    by (intro exI conjI) (auto simp: wd_abandon_def guard_drop_def grouped_state_def forming_state_def)
qed

text \<open>Stopping while the group is still forming disconnects nothing: there is a run in which the
  connection to the peer was requested, the session is then stopped and ends, and no
  disconnect is ever issued.\<close>

theorem stop_while_forming_leaves_connect:
  "\<exists>s. (wifi_direct_step target port)\<^sup>*\<^sup>* wd_start s \<and> wd_phase s = WdDone \<and>
    wd_emitted s = [SessionEnded None] \<and> wd_actions s = [P2pConnect target]"
proof -
  have "wifi_direct_step target port (forming_state target) (wd_finish None (forming_state target))"
    by (rule wd_stop) (simp add: forming_state_def wd_over_def)
  then have "(wifi_direct_step target port)\<^sup>*\<^sup>* wd_start (wd_finish None (forming_state target))"
    using forming_reachable by (meson rtranclp.rtrancl_into_rtrancl)
  then show ?thesis by (intro exI conjI) (auto simp: wd_finish_def guard_drop_def forming_state_def)
qed

text \<open>Every session tells its caller how it ended, once and last: a finished session, over
  infrastructure or over Wi-Fi Direct, has emitted exactly one \<open>Ended\<close>, as its last event,
  preceded at most by one \<open>Ready\<close>; a session that has not finished, or was dropped unfinished, has
  emitted no \<open>Ended\<close>.\<close>

theorem miracast_session_events:
  assumes "(run_session_step addr)\<^sup>*\<^sup>* mice_start m" and "(wifi_direct_step target port)\<^sup>*\<^sup>* wd_start s"
  shows "(if mice_phase m = MiceDone
      then \<exists>r. mice_emitted m = [SessionEnded r] \<or> (\<exists>res. mice_emitted m = [SessionReady res, SessionEnded r])
      else list_all is_ready (mice_emitted m) \<and> length (mice_emitted m) \<le> 1) \<and>
    (if wd_phase s = WdDone
      then \<exists>r. wd_emitted s = [SessionEnded r] \<or> (\<exists>res. wd_emitted s = [SessionReady res, SessionEnded r])
      else list_all is_ready (wd_emitted s) \<and> length (wd_emitted s) \<le> 1)"
  using mice_inv_reach [OF assms(1)] wd_inv_reach [OF assms(2)]
  by (auto simp: mice_inv_def wd_inv_def split: mice_phase.splits wd_phase.splits)

theorem miracast_session_events_witness:
  "mice_emitted mice_start = [] \<and> length (wd_emitted wd_start) \<le> 1"
  using miracast_session_events [of "(V4 1, 7236)" mice_start "''aa''" 7236 wd_start]
  by (simp add: mice_start_def wd_start_def)

text \<open>Dropping the handle ends the session wherever it stands: the task is done and has told its
  caller so (unless it was dropped with its runtime before), one disconnect is handed over for a
  group that stood, and a second stop changes nothing.\<close>

theorem dropped_session_ends:
  assumes "(run_session_step addr)\<^sup>*\<^sup>* mice_start m" and "(wifi_direct_step target port)\<^sup>*\<^sup>* wd_start s"
  defines "m' \<equiv> session_drop mice_cancel (session_handle m)"
    and "s' \<equiv> session_drop wd_cancel (session_handle s)"
  shows "mice_phase (ms_task m') = MiceDone \<and> (\<exists>r. last (mice_emitted (ms_task m')) = SessionEnded r) \<and>
    (if wd_phase s = WdDropped then ms_task s' = s
     else wd_phase (ms_task s') = WdDone \<and> (\<exists>r. last (wd_emitted (ms_task s')) = SessionEnded r)) \<and>
    (in_group (wd_phase s) \<longrightarrow> wd_actions (ms_task s') = [P2pConnect target, P2pSpawnDisconnect]) \<and>
    session_stop mice_cancel m' = m' \<and> session_stop wd_cancel s' = s'"
proof -
  have t: "ms_task m' = mice_cancel m" "ms_task s' = wd_cancel s"
    and same: "session_stop mice_cancel m' = m'" "session_stop wd_cancel s' = s'"
    by (simp_all add: m'_def s'_def session_drop_def session_stop_def session_handle_def)
  have "mice_inv (mice_cancel m)"
    using assms(1) mice_cancel_steps by (meson rtranclp_trans mice_inv_reach)
  moreover have "wd_inv target (wd_cancel s)"
    using assms(2) wd_cancel_steps by (meson rtranclp_trans wd_inv_reach)
  moreover have "in_group (wd_phase s) \<Longrightarrow> wd_actions (wd_cancel s) = [P2pConnect target, P2pSpawnDisconnect]"
    using group_kept_reach [OF wd_cancel_steps wd_inv_reach [OF assms(2)]] cancel_done(2) [of s]
    by (auto simp: in_group_def torn_down_def split: if_splits)
  moreover have "wd_phase s = WdDropped \<Longrightarrow> wd_cancel s = s" by (simp add: wd_cancel_def wd_over_def)
  ultimately show ?thesis using cancel_done same by (auto simp: t mice_inv_def wd_inv_def)
qed

end
