(* ===== verification/Discovery.thy ===== *)
theory Discovery
  imports Text "HOL-Library.Product_Lexorder" "HOL-Library.Multiset"
begin

text \<open>
  Receiver discovery, \<open>openplay-discovery/src\<close>: the order of advertised addresses (\<open>address.rs\<close>),
  the TXT records (\<open>record.rs\<close>, \<open>airplay_record.rs\<close>), and what the three browsers make of an mDNS
  event (\<open>browser.rs\<close>, \<open>airplay_browser.rs\<close>, \<open>miracast_browser.rs\<close>). The mDNS daemon is the list of
  events it delivers.

  The lemmas show that the order of addresses does not depend on the order the hash set gave
  them in and puts the most connectable first, and that a TXT record survives its advertisement.
\<close>

section \<open>Addresses\<close>

text \<open>The order of \<open>IpAddr\<close>: IPv4 before IPv6, then by value.\<close>

instantiation ip_addr :: linorder
begin

definition less_eq_ip_addr :: "ip_addr \<Rightarrow> ip_addr \<Rightarrow> bool" where
  "less_eq_ip_addr a b =
     (case a of V4 x \<Rightarrow> (case b of V4 y \<Rightarrow> x \<le> y | V6 y \<Rightarrow> True)
      | V6 x \<Rightarrow> (case b of V4 y \<Rightarrow> False | V6 y \<Rightarrow> x \<le> y))"

definition less_ip_addr :: "ip_addr \<Rightarrow> ip_addr \<Rightarrow> bool" where
  "less_ip_addr a b \<longleftrightarrow> a \<le> b \<and> \<not> b \<le> (a :: ip_addr)"

instance
  by standard (auto simp: less_eq_ip_addr_def less_ip_addr_def split: ip_addr.splits)

end

definition v4_octet :: "nat \<Rightarrow> 32 word \<Rightarrow> u8" where
  "v4_octet i a = ucast (drop_bit (24 - 8 * i) a)"

definition v6_segment :: "nat \<Rightarrow> 128 word \<Rightarrow> u16" where
  "v6_segment i a = ucast (drop_bit (112 - 16 * i) a)"

definition is_loopback :: "ip_addr \<Rightarrow> bool" where
  "is_loopback ip = (case ip of V4 a \<Rightarrow> v4_octet 0 a = 127 | V6 a \<Rightarrow> a = 1)"

definition is_link_local :: "ip_addr \<Rightarrow> bool" where
  "is_link_local ip =
     (case ip of V4 a \<Rightarrow> v4_octet 0 a = 169 \<and> v4_octet 1 a = 254
      | V6 a \<Rightarrow> v6_segment 0 a AND 0xffc0 = 0xfe80)"

definition rank :: "ip_addr \<Rightarrow> u8" where
  "rank ip =
     (if is_unspecified ip then 4
      else if is_link_local ip then 3
      else if is_loopback ip then 2
      else case ip of V4 _ \<Rightarrow> 0 | V6 _ \<Rightarrow> 1)"

definition sort_by_connectability :: "ip_addr list \<Rightarrow> ip_addr list" where
  "sort_by_connectability addrs = sort_key (\<lambda>ip. (rank ip, ip)) addrs"


text \<open>\<open>IpAddr\<close> as text: dotted decimal, and RFC 5952 with the first longest run of at least two
  zero segments abbreviated; an IPv4-mapped address keeps its dots.\<close>

fun join_with :: "char \<Rightarrow> string list \<Rightarrow> string" where
  "join_with c [] = []"
| "join_with c [s] = s"
| "join_with c (s # ss) = s @ c # join_with c ss"

definition show_v4 :: "32 word \<Rightarrow> string" where
  "show_v4 a = join_with (CHR ''.'') (map (\<lambda>i. show_radix 10 (unat (v4_octet i a))) [0..<4])"

fun longest_zeros :: "nat \<Rightarrow> nat \<times> nat \<Rightarrow> nat \<times> nat \<Rightarrow> u16 list \<Rightarrow> nat \<times> nat" where
  "longest_zeros i cur best [] = best"
| "longest_zeros i cur best (x # xs) =
     (if x = 0
      then let cur' = (if snd cur = 0 then (i, 1) else (fst cur, snd cur + 1))
           in longest_zeros (i + 1) cur' (if snd cur' > snd best then cur' else best) xs
      else longest_zeros (i + 1) (0, 0) best xs)"

definition show_segments :: "u16 list \<Rightarrow> string" where
  "show_segments ss = join_with (CHR '':'') (map (\<lambda>s. show_radix 16 (unat s)) ss)"

definition show_v6 :: "128 word \<Rightarrow> string" where
  "show_v6 a =
     (let ss = map (\<lambda>i. v6_segment i a) [0..<8]
      in if take 5 ss = replicate 5 0 \<and> ss ! 5 = 0xFFFF then ''::ffff:'' @ show_v4 (ucast a)
         else case longest_zeros 0 (0, 0) (0, 0) ss of
           (start, len) \<Rightarrow>
             if len > 1 then show_segments (take start ss) @ ''::'' @ show_segments (drop (start + len) ss)
             else show_segments ss)"

definition show_ip :: "ip_addr \<Rightarrow> string" where
  "show_ip ip = (case ip of V4 a \<Rightarrow> show_v4 a | V6 a \<Rightarrow> show_v6 a)"


section \<open>TXT records\<close>

type_synonym properties = "(string \<times> string) list"

record txt_record =
  txt_version :: u32
  txt_display_name :: string
  txt_capabilities :: string
  txt_video_codecs :: string
  txt_audio_codecs :: string
  txt_resolution :: string
  txt_max_fps :: u32
  txt_fingerprint :: string
  txt_port :: u16

definition show_dec :: "('w::len) word \<Rightarrow> string" where
  "show_dec w = show_radix 10 (unat w)"

definition parse_u32 :: "string \<Rightarrow> u32 option" where
  "parse_u32 s = map_option of_nat (from_str_radix 10 (2 ^ 32) s)"

definition parse_u16 :: "string \<Rightarrow> u16 option" where
  "parse_u16 s = map_option of_nat (from_str_radix 10 (2 ^ 16) s)"

definition to_properties :: "txt_record \<Rightarrow> properties" where
  "to_properties r =
     [(''v'', show_dec (txt_version r)), (''dn'', txt_display_name r), (''cap'', txt_capabilities r),
      (''vc'', txt_video_codecs r), (''ac'', txt_audio_codecs r), (''res'', txt_resolution r),
      (''fps'', show_dec (txt_max_fps r)), (''fp'', txt_fingerprint r), (''port'', show_dec (txt_port r))]"

definition get_or :: "string \<Rightarrow> properties \<Rightarrow> string \<Rightarrow> string" where
  "get_or d props k = (case map_of props k of None \<Rightarrow> d | Some v \<Rightarrow> v)"

text \<open>The default port of this crate's \<open>lib.rs\<close>.\<close>

definition DISCOVERY_DEFAULT_PORT :: u16 where "DISCOVERY_DEFAULT_PORT = 7290"

definition from_properties :: "properties \<Rightarrow> txt_record option" where
  "from_properties props =
     (case map_of props ''v'' of
        None \<Rightarrow> None
      | Some v \<Rightarrow>
          (case parse_u32 v of
             None \<Rightarrow> None
           | Some n \<Rightarrow>
               (case map_of props ''dn'' of
                  None \<Rightarrow> None
                | Some dn \<Rightarrow> Some
                    \<lparr> txt_version = n, txt_display_name = dn, txt_capabilities = get_or [] props ''cap'',
                      txt_video_codecs = get_or ''h264'' props ''vc'',
                      txt_audio_codecs = get_or ''opus'' props ''ac'',
                      txt_resolution = get_or ''1920x1080'' props ''res'',
                      txt_max_fps = (case map_option parse_u32 (map_of props ''fps'') of
                          Some (Some f) \<Rightarrow> f | _ \<Rightarrow> 30),
                      txt_fingerprint = get_or [] props ''fp'',
                      txt_port = (case map_option parse_u16 (map_of props ''port'') of
                          Some (Some p) \<Rightarrow> p | _ \<Rightarrow> DISCOVERY_DEFAULT_PORT) \<rparr>)))"

record airplay_txt_record =
  ap_device_id :: string
  ap_features :: string
  ap_model :: string
  ap_pk :: string
  ap_flags :: string
  ap_source_version :: string
  ap_protocol_version :: string

definition airplay_from_properties :: "properties \<Rightarrow> airplay_txt_record option" where
  "airplay_from_properties props =
     (case map_of props ''deviceid'' of
        None \<Rightarrow> None
      | Some d \<Rightarrow> Some
          \<lparr> ap_device_id = d, ap_features = get_or [] props ''features'', ap_model = get_or [] props ''model'',
            ap_pk = get_or [] props ''pk'', ap_flags = get_or [] props ''flags'',
            ap_source_version = get_or [] props ''srcvers'',
            ap_protocol_version = get_or [] props ''protovers'' \<rparr>)"


section \<open>Browsers\<close>

record receiver_info =
  ri_name :: string
  ri_display_name :: string
  ri_addresses :: "ip_addr list"
  ri_port :: u16
  ri_fingerprint :: string
  ri_video_codecs :: "string list"
  ri_resolution :: string
  ri_max_fps :: u32

record airplay_receiver_info =
  air_name :: string
  air_display_name :: string
  air_addresses :: "ip_addr list"
  air_port :: u16
  air_device_id :: string
  air_features :: string
  air_model :: string

record miracast_receiver_info =
  mira_name :: string
  mira_display_name :: string
  mira_addresses :: "ip_addr list"
  mira_port :: u16
  mira_device_info :: string

datatype discovery_event =
    ReceiverFound receiver_info
  | ReceiverLost string
  | AirPlayReceiverFound airplay_receiver_info
  | AirPlayReceiverLost string
  | MiracastReceiverFound miracast_receiver_info
  | MiracastReceiverLost string

text \<open>What the mDNS daemon reports: a service as it was resolved, the addresses in the order the
  hash set gave them.\<close>

record service_info =
  fullname :: string
  svc_properties :: properties
  svc_addresses :: "ip_addr list"
  svc_port :: u16

datatype service_event =
    ServiceResolved service_info
  | ServiceRemoved string
  | SearchStarted
  | OtherServiceEvent

definition openplay_info :: "service_info \<Rightarrow> receiver_info" where
  "openplay_info info =
     (let txt = from_properties (svc_properties info)
      in \<lparr> ri_name = fullname info,
           ri_display_name = (case txt of None \<Rightarrow> fullname info | Some t \<Rightarrow> txt_display_name t),
           ri_addresses = sort_by_connectability (svc_addresses info), ri_port = svc_port info,
           ri_fingerprint = (case txt of None \<Rightarrow> [] | Some t \<Rightarrow> txt_fingerprint t),
           ri_video_codecs = (case txt of None \<Rightarrow> [''h264''] | Some t \<Rightarrow> split_char (CHR '','') (txt_video_codecs t)),
           ri_resolution = (case txt of None \<Rightarrow> ''1920x1080'' | Some t \<Rightarrow> txt_resolution t),
           ri_max_fps = (case txt of None \<Rightarrow> 30 | Some t \<Rightarrow> txt_max_fps t) \<rparr>)"

fun openplay_event :: "service_event \<Rightarrow> discovery_event option" where
  "openplay_event (ServiceResolved info) = Some (ReceiverFound (openplay_info info))"
| "openplay_event (ServiceRemoved n) = Some (ReceiverLost n)"
| "openplay_event _ = None"

definition first_label :: "string \<Rightarrow> string" where
  "first_label s = hd (split_char (CHR ''.'') s)"

definition airplay_info :: "service_info \<Rightarrow> airplay_receiver_info" where
  "airplay_info info =
     (let txt = airplay_from_properties (svc_properties info)
      in \<lparr> air_name = fullname info, air_display_name = first_label (fullname info),
           air_addresses = sort_by_connectability (svc_addresses info), air_port = svc_port info,
           air_device_id = (case txt of None \<Rightarrow> [] | Some t \<Rightarrow> ap_device_id t),
           air_features = (case txt of None \<Rightarrow> [] | Some t \<Rightarrow> ap_features t),
           air_model = (case txt of None \<Rightarrow> [] | Some t \<Rightarrow> ap_model t) \<rparr>)"

fun airplay_event :: "service_event \<Rightarrow> discovery_event option" where
  "airplay_event (ServiceResolved info) = Some (AirPlayReceiverFound (airplay_info info))"
| "airplay_event (ServiceRemoved n) = Some (AirPlayReceiverLost n)"
| "airplay_event _ = None"

definition miracast_device_info :: "properties \<Rightarrow> string" where
  "miracast_device_info props =
     (case find (\<lambda>(k, _). to_ascii_lowercase k \<in> {''model'', ''manufacturer'', ''deviceinfo'', ''fn''}) props of
        None \<Rightarrow> [] | Some (_, v) \<Rightarrow> v)"

definition miracast_info :: "service_info \<Rightarrow> miracast_receiver_info" where
  "miracast_info info =
     \<lparr> mira_name = fullname info, mira_display_name = first_label (fullname info),
       mira_addresses = sort_by_connectability (svc_addresses info),
       mira_port = (if svc_port info = 0 then 7236 else svc_port info),
       mira_device_info = miracast_device_info (svc_properties info) \<rparr>"

fun run_browser_event :: "service_event \<Rightarrow> discovery_event option" where
  "run_browser_event (ServiceResolved info) = Some (MiracastReceiverFound (miracast_info info))"
| "run_browser_event (ServiceRemoved n) = Some (MiracastReceiverLost n)"
| "run_browser_event _ = None"


section \<open>Lemmas\<close>

lemma parse_show_u32 [simp]: "parse_u32 (show_dec (w :: u32)) = Some w"
  using unsigned_less [of w, where ?'a = nat] by (simp add: parse_u32_def show_dec_def parse_show)

lemma parse_show_u16 [simp]: "parse_u16 (show_dec (w :: u16)) = Some w"
  using unsigned_less [of w, where ?'a = nat] by (simp add: parse_u16_def show_dec_def parse_show)

lemma sort_by_connectability_mset [simp]: "mset (sort_by_connectability addrs) = mset addrs"
  by (simp add: sort_by_connectability_def)

lemma sort_by_connectability_set [simp]: "set (sort_by_connectability addrs) = set addrs"
  by (simp add: sort_by_connectability_def)

lemma sort_by_connectability_unique:
  assumes "mset xs = mset ys"
  shows "sort_by_connectability xs = sort_by_connectability ys"
  unfolding sort_by_connectability_def
proof (rule sort_key_inj_key_eq)
  show "mset xs = mset (sort_key (\<lambda>ip. (rank ip, ip)) ys)" using assms by simp
  show "inj_on (\<lambda>ip. (rank ip, ip)) (set xs)" by (auto simp: inj_on_def)
  show "sorted (map (\<lambda>ip. (rank ip, ip)) (sort_key (\<lambda>ip. (rank ip, ip)) ys))" by simp
qed

lemma sort_by_connectability_ranks: "sorted (map rank (sort_by_connectability addrs))"
proof -
  have "sorted (map (\<lambda>ip. (rank ip, ip)) (sort_by_connectability addrs))"
    by (simp add: sort_by_connectability_def)
  then show ?thesis by (fastforce simp: sorted_map sorted_wrt_iff_nth_less less_eq_prod_def)
qed


section \<open>Properties\<close>

text \<open>The address a sender dials first does not depend on luck: the sorted list holds exactly
  the advertised addresses, is the same for every order in which the hash set yields them, and
  lists the ranks (routable IPv4, routable IPv6, loopback, link-local, unspecified) in order.\<close>

theorem addresses_are_ordered:
  "mset (sort_by_connectability addrs) = mset addrs \<and>
   (mset addrs' = mset addrs \<longrightarrow> sort_by_connectability addrs' = sort_by_connectability addrs) \<and>
   sorted (map rank (sort_by_connectability addrs))"
  using sort_by_connectability_unique [of addrs' addrs] sort_by_connectability_ranks [of addrs] by simp

theorem addresses_are_ordered_witness:
  "sort_by_connectability [V6 1, V4 0x7F000001, V4 0xC0A80061] =
   sort_by_connectability [V4 0xC0A80061, V6 1, V4 0x7F000001]"
  using addresses_are_ordered [of "[V4 0xC0A80061, V6 1, V4 0x7F000001]" "[V6 1, V4 0x7F000001, V4 0xC0A80061]"]
  by simp

text \<open>An advertised TXT record is read back unchanged, and the browser's report of the service
  carries its name, fingerprint and limits.\<close>

theorem txt_record_roundtrip:
  "from_properties (to_properties r) = Some r \<and>
   (let info = openplay_info \<lparr> fullname = n, svc_properties = to_properties r, svc_addresses = addrs, svc_port = p \<rparr>
    in ri_name info = n \<and> ri_display_name info = txt_display_name r \<and> ri_fingerprint info = txt_fingerprint r \<and>
       ri_max_fps info = txt_max_fps r \<and> ri_resolution info = txt_resolution r \<and> ri_port info = p)"
proof -
  have "from_properties (to_properties r) = Some r"
    by (simp add: from_properties_def to_properties_def get_or_def)
  then show ?thesis by (simp add: openplay_info_def Let_def)
qed

end
