(* ===== verification/Pipelines.thy ===== *)
theory Pipelines
  imports Text Encoder
begin

text \<open>
  Capture and the GStreamer element graphs: \<open>openplay-capture/src/portal.rs\<close>, \<open>make_capture_config\<close>
  of \<open>openplay-sender/src/casting.rs\<close>, and of \<open>openplay-pipeline/src\<close> the source, decoder and
  pipeline builders and the conversion of a decoded sample to a frame. A graph is its elements with
  their factories, names and properties and the links between them; GStreamer is what it answers
  to each request. The first four elements of every sending pipeline are the contract
  \<open>sending_graph\<close>, which the three pipelines interpret.

  The lemmas show that in a pipeline that is built source, rate limit, queue and encoder are linked in
  that order with the configured rate and bitrate,
  and that a decoded frame is packed tightly.
\<close>

section \<open>Capture\<close>

record capture_source =
  src_node_id :: u32
  src_width :: "u32 option"
  src_height :: "u32 option"

record capture_session =
  session_fd :: "32 word"
  session_sources :: "capture_source list"

datatype capture_error = Portal string | CaptureCancelled | NoScreens

text \<open>The portal's answers in the order they are asked for; a stream is its node and size.\<close>

record portal_env =
  portal_proxy :: "string + unit"
  portal_session :: "string + unit"
  portal_select :: "string + unit"
  portal_start :: "string + unit"
  portal_response :: "string + (u32 \<times> (32 word \<times> 32 word) option) list"
  portal_remote :: "string + 32 word"

definition portal_error :: "string \<Rightarrow> string + 'a \<Rightarrow> capture_error + 'a" where
  "portal_error what r = (case r of Inl e \<Rightarrow> Inl (Portal (what @ e)) | Inr x \<Rightarrow> Inr x)"

definition source_of_stream :: "u32 \<times> (32 word \<times> 32 word) option \<Rightarrow> capture_source" where
  "source_of_stream st =
     (case snd st of
        None \<Rightarrow> \<lparr> src_node_id = fst st, src_width = None, src_height = None \<rparr>
      | Some (w, h) \<Rightarrow> \<lparr> src_node_id = fst st, src_width = Some w, src_height = Some h \<rparr>)"

definition capture_start :: "portal_env \<Rightarrow> capture_error + capture_session" where
  "capture_start env =
     result_bind (portal_error ''Failed to create screencast proxy: '' (portal_proxy env)) (\<lambda>_.
     result_bind (portal_error ''Failed to create session: '' (portal_session env)) (\<lambda>_.
     result_bind (portal_error ''Failed to select sources: '' (portal_select env)) (\<lambda>_.
     result_bind (case portal_start env of
         Inl e \<Rightarrow> if contains ''Cancelled'' e then Inl CaptureCancelled
                  else Inl (Portal (''Failed to start session: '' @ e))
       | Inr u \<Rightarrow> Inr u) (\<lambda>_.
     result_bind (portal_error ''Failed to get start response: '' (portal_response env)) (\<lambda>streams.
     if streams = [] then Inl NoScreens
     else result_bind (portal_error ''Failed to open PipeWire remote: '' (portal_remote env)) (\<lambda>fd.
       Inr \<lparr> session_fd = fd, session_sources = map source_of_stream streams \<rparr>))))))"

definition primary_source :: "capture_session \<Rightarrow> capture_source option" where
  "primary_source s = (case session_sources s of [] \<Rightarrow> None | x # _ \<Rightarrow> Some x)"

record capture_config =
  cap_width :: u32
  cap_height :: u32
  cap_framerate :: u32
  cap_pw_fd :: "32 word"
  cap_node_id :: u32

definition make_capture_config :: "capture_session \<Rightarrow> u32 \<Rightarrow> capture_config" where
  "make_capture_config s framerate =
     \<lparr> cap_width = (case Option.bind (primary_source s) src_width of None \<Rightarrow> 1920 | Some w \<Rightarrow> w),
       cap_height = (case Option.bind (primary_source s) src_height of None \<Rightarrow> 1080 | Some h \<Rightarrow> h),
       cap_framerate = framerate, cap_pw_fd = session_fd s,
       cap_node_id = (case primary_source s of None \<Rightarrow> 0 | Some x \<Rightarrow> src_node_id x) \<rparr>"


section \<open>Elements and graphs\<close>

datatype pipeline_error =
    Gstreamer string
  | NoEncoder
  | MissingElement string
  | StateChange string
  | SdpError string
  | Missing string

record element =
  el_factory :: string
  el_name :: "string option"
  el_props :: "(string \<times> property_value) list"

record graph =
  pl_name :: string
  pl_elements :: "element list"
  pl_chain :: "element list"
  pl_pad_links :: "(element \<times> element) list"

text \<open>\<open>gst_make f\<close> is the error for factory \<open>f\<close>, \<open>None\<close> if an element can be made; so for the others.\<close>

record gstreamer =
  gst_make :: "string \<Rightarrow> string option"
  gst_add :: "string option"
  gst_link :: "string option"
  gst_request_pad :: bool
  gst_pad_link :: "string option"

definition make_element ::
  "gstreamer \<Rightarrow> string \<Rightarrow> string \<Rightarrow> string option \<Rightarrow> (string \<times> property_value) list \<Rightarrow> pipeline_error + element" where
  "make_element g label factory name props =
     (case gst_make g factory of
        Some e \<Rightarrow> Inl (MissingElement (label @ '': '' @ e))
      | None \<Rightarrow> Inr \<lparr> el_factory = factory, el_name = name, el_props = props \<rparr>)"

definition gst_call :: "string \<Rightarrow> string option \<Rightarrow> pipeline_error + unit" where
  "gst_call what e = (case e of Some e \<Rightarrow> Inl (Gstreamer (what @ '': '' @ e)) | None \<Rightarrow> Inr ())"

fun build_capture_element :: "platform \<Rightarrow> gstreamer \<Rightarrow> capture_config \<Rightarrow> pipeline_error + element" where
  "build_capture_element Linux g cap =
     make_element g ''pipewiresrc'' ''pipewiresrc'' None
       [(''fd'', I32 (cap_pw_fd cap)), (''path'', Str (show_radix 10 (unat (cap_node_id cap)))),
        (''do-timestamp'', Flag True), (''always-copy'', Flag False)]"
| "build_capture_element Windows g cap =
     make_element g ''d3d11screencapturesrc'' ''d3d11screencapturesrc'' None [(''show-cursor'', Flag True)]"
| "build_capture_element MacOS g cap =
     (case make_element g [] ''screencapturesrc'' None [(''show-cursor'', Flag True)] of
        Inr e \<Rightarrow> Inr e
      | Inl _ \<Rightarrow> make_element g ''avfvideosrc'' ''avfvideosrc'' None
          [(''capture-screen'', Flag True), (''capture-screen-cursor'', Flag True)])"
| "build_capture_element OtherPlatform g cap =
     Inl (MissingElement ''No screen capture element available for this platform'')"

fun hw_decoders :: "platform \<Rightarrow> string list" where
  "hw_decoders Linux = [''vah264dec'', ''nvh264dec'']"
| "hw_decoders MacOS = [''vtdec_hw'', ''vtdec'']"
| "hw_decoders Windows = [''d3d11h264dec'', ''nvh264dec'', ''mfdec'']"
| "hw_decoders OtherPlatform = []"

fun try_decoders :: "gstreamer \<Rightarrow> string list \<Rightarrow> pipeline_error + element" where
  "try_decoders g [] = make_element g ''avdec_h264 (software)'' ''avdec_h264'' None []"
| "try_decoders g (d # ds) =
     (case make_element g d d None [] of Inr e \<Rightarrow> Inr e | Inl _ \<Rightarrow> try_decoders g ds)"

definition build_decoder_element :: "platform \<Rightarrow> gstreamer \<Rightarrow> pipeline_error + element" where
  "build_decoder_element os g = try_decoders g (hw_decoders os)"


section \<open>The pipelines\<close>

definition raw_caps :: "capture_config \<Rightarrow> property_value" where
  "raw_caps cap = Caps ''video/x-raw'' [(''framerate'', CFraction (cap_framerate cap) 1)]"

definition rate_filter :: "gstreamer \<Rightarrow> capture_config \<Rightarrow> pipeline_error + element" where
  "rate_filter g cap = make_element g ''capsfilter'' ''capsfilter'' None [(''caps'', raw_caps cap)]"

definition leaky_queue :: "gstreamer \<Rightarrow> string \<Rightarrow> string option \<Rightarrow> u32 \<Rightarrow> pipeline_error + element" where
  "leaky_queue g label name n =
     make_element g label ''queue'' name [(''max-size-buffers'', U32 n), (''leaky'', FromStr ''downstream'')]"

definition encoder_element :: "gstreamer \<Rightarrow> encoder_type \<Rightarrow> u32 \<Rightarrow> pipeline_error + element" where
  "encoder_element g e kbps = make_element g (factory_name e) (factory_name e) None (configure_encoder e kbps)"

definition h264_caps :: property_value where
  "h264_caps = Caps ''video/x-h264'' [(''stream-format'', CStr ''byte-stream''), (''alignment'', CStr ''au'')]"

definition airplay_appsink :: element where
  "airplay_appsink = \<lparr> el_factory = ''appsink'', el_name = Some ''airplay_sink'',
     el_props = [(''max-buffers'', U32 2), (''drop'', Flag True), (''sync'', Flag False), (''caps'', h264_caps)] \<rparr>"

definition airplay_sender_pipeline ::
  "platform \<Rightarrow> gstreamer \<Rightarrow> capture_config \<Rightarrow> encoder_type \<Rightarrow> u32 \<Rightarrow> pipeline_error + graph" where
  "airplay_sender_pipeline os g cap e kbps =
     result_bind (build_capture_element os g cap) (\<lambda>src.
     result_bind (rate_filter g cap) (\<lambda>capsfilter.
     result_bind (leaky_queue g ''queue'' (Some ''video_queue'') 1) (\<lambda>video_queue.
     result_bind (encoder_element g e kbps) (\<lambda>encoder.
     result_bind (make_element g ''h264 capsfilter'' ''capsfilter'' None [(''caps'', h264_caps)]) (\<lambda>h264.
     result_bind (make_element g ''h264parse'' ''h264parse'' None []) (\<lambda>parse.
     let chain = [src, capsfilter, video_queue, encoder, parse, h264, airplay_appsink] in
     result_bind (gst_call ''Failed to add elements'' (gst_add g)) (\<lambda>_.
     result_bind (gst_call ''Failed to link elements'' (gst_link g)) (\<lambda>_.
     Inr \<lparr> pl_name = ''openplay-airplay-sender'', pl_elements = chain, pl_chain = chain, pl_pad_links = [] \<rparr>))))))))"

definition miracast_sender_pipeline ::
  "string \<Rightarrow> u16 \<Rightarrow> platform \<Rightarrow> gstreamer \<Rightarrow> capture_config \<Rightarrow> encoder_type \<Rightarrow> u32 \<Rightarrow> pipeline_error + graph" where
  "miracast_sender_pipeline sink_host sink_port os g cap e kbps =
     result_bind (build_capture_element os g cap) (\<lambda>src.
     result_bind (rate_filter g cap) (\<lambda>capsfilter.
     result_bind (leaky_queue g ''queue'' (Some ''video_queue'') 1) (\<lambda>video_queue.
     result_bind (encoder_element g e kbps) (\<lambda>encoder.
     result_bind (make_element g ''h264parse'' ''h264parse'' None []) (\<lambda>parse.
     result_bind (make_element g ''mpegtsmux'' ''mpegtsmux'' None [(''alignment'', I32 7)]) (\<lambda>mux.
     result_bind (make_element g ''rtpmp2tpay'' ''rtpmp2tpay'' None []) (\<lambda>rtppay.
     result_bind (make_element g ''udpsink'' ''udpsink'' None
       [(''host'', Str sink_host), (''port'', I32 (ucast sink_port)), (''sync'', Flag False), (''async'', Flag False)]) (\<lambda>udpsink.
     let chain = [src, capsfilter, video_queue, encoder, parse, mux, rtppay, udpsink] in
     result_bind (gst_call ''Failed to add elements'' (gst_add g)) (\<lambda>_.
     result_bind (gst_call ''Failed to link elements'' (gst_link g)) (\<lambda>_.
     Inr \<lparr> pl_name = ''openplay-miracast-sender'', pl_elements = chain, pl_chain = chain, pl_pad_links = [] \<rparr>))))))))))"

definition rtp_caps :: property_value where
  "rtp_caps = Caps ''application/x-rtp''
     [(''media'', CStr ''video''), (''encoding-name'', CStr ''H264''), (''payload'', CInt 96), (''clock-rate'', CInt 90000)]"

definition NO_SINK_PAD :: string where
  "NO_SINK_PAD = ''webrtcbin refused a sink pad. This is what a missing libnice plugin '' @
     ''looks like '' @ [CHR 0xE2, CHR 0x80, CHR 0x94] @
     '' install gstreamer1.0-nice and check `gst-inspect-1.0 nicesrc`''"

definition sender_pipeline ::
  "platform \<Rightarrow> gstreamer \<Rightarrow> capture_config \<Rightarrow> encoder_type \<Rightarrow> u32 \<Rightarrow> pipeline_error + graph" where
  "sender_pipeline os g cap e kbps =
     result_bind (build_capture_element os g cap) (\<lambda>src.
     result_bind (rate_filter g cap) (\<lambda>capsfilter.
     result_bind (leaky_queue g ''queue'' (Some ''video_queue'') 1) (\<lambda>video_queue.
     result_bind (encoder_element g e kbps) (\<lambda>encoder.
     result_bind (make_element g ''h264 capsfilter'' ''capsfilter'' None
       [(''caps'', Caps ''video/x-h264'' [(''alignment'', CStr ''au'')])]) (\<lambda>h264.
     result_bind (make_element g ''rtph264pay'' ''rtph264pay'' None
       [(''config-interval'', I32 (- 1)), (''aggregate-mode'', FromStr ''zero-latency''), (''mtu'', U32 1200), (''pt'', U32 96)]) (\<lambda>rtppay.
     result_bind (make_element g ''rtp capsfilter'' ''capsfilter'' None [(''caps'', rtp_caps)]) (\<lambda>rtp.
     result_bind (leaky_queue g ''rtp queue'' (Some ''rtp_queue'') 1) (\<lambda>rtp_queue.
     result_bind (make_element g ''webrtcbin'' ''webrtcbin'' (Some ''send'')
       [(''bundle-policy'', FromStr ''max-bundle''), (''latency'', U32 40)]) (\<lambda>webrtcbin.
     let chain = [src, capsfilter, video_queue, encoder, h264, rtppay, rtp, rtp_queue] in
     result_bind (gst_call ''Failed to add elements'' (gst_add g)) (\<lambda>_.
     result_bind (gst_call ''Failed to link elements'' (gst_link g)) (\<lambda>_.
     if \<not> gst_request_pad g then Inl (Missing NO_SINK_PAD)
     else result_bind (gst_call ''Failed to link to webrtcbin'' (gst_pad_link g)) (\<lambda>_.
     Inr \<lparr> pl_name = ''openplay-sender'', pl_elements = chain @ [webrtcbin], pl_chain = chain,
            pl_pad_links = [(rtp_queue, webrtcbin)] \<rparr>))))))))))))"


section \<open>The contract of a sending pipeline\<close>

text \<open>What GStreamer must answer for a pipeline to be built.\<close>

definition all_available :: "gstreamer \<Rightarrow> bool" where
  "all_available g \<longleftrightarrow> (\<forall>f. gst_make g f = None) \<and> gst_add g = None \<and> gst_link g = None \<and> gst_request_pad g \<and>
     gst_pad_link g = None"

text \<open>The start of a sending chain: the source, the rate limit, a queue and the encoder, linked in this
  order and all added to the pipeline.\<close>

definition sending_chain ::
  "platform \<Rightarrow> gstreamer \<Rightarrow> capture_config \<Rightarrow> encoder_type \<Rightarrow> u32 \<Rightarrow> graph \<Rightarrow> element \<Rightarrow> element \<Rightarrow> bool" where
  "sending_chain os g cap e kbps gr rate enc \<longleftrightarrow>
     (\<exists>src queue rest. build_capture_element os g cap = Inr src \<and> pl_chain gr = src # rate # queue # enc # rest) \<and>
     set (pl_chain gr) \<subseteq> set (pl_elements gr) \<and>
     el_factory rate = ''capsfilter'' \<and> el_props rate = [(''caps'', raw_caps cap)] \<and>
     el_factory (pl_chain gr ! 2) = ''queue'' \<and>
     el_factory enc = factory_name e \<and> el_props enc = configure_encoder e kbps"

locale sending_graph =
  fixes build :: "platform \<Rightarrow> gstreamer \<Rightarrow> capture_config \<Rightarrow> encoder_type \<Rightarrow> u32 \<Rightarrow> pipeline_error + graph"
  assumes front: "build os g cap e kbps = Inr gr \<Longrightarrow>
      \<exists>src rate queue enc rest. build_capture_element os g cap = Inr src \<and> rate_filter g cap = Inr rate \<and>
        leaky_queue g ''queue'' (Some ''video_queue'') 1 = Inr queue \<and> encoder_element g e kbps = Inr enc \<and>
        pl_chain gr = src # rate # queue # enc # rest"
    and contains_chain: "build os g cap e kbps = Inr gr \<Longrightarrow> set (pl_chain gr) \<subseteq> set (pl_elements gr)"
    and built: "all_available g \<Longrightarrow> os \<noteq> OtherPlatform \<Longrightarrow> \<exists>gr. build os g cap e kbps = Inr gr"
begin

text \<open>A missing encoder is never replaced by another one.\<close>

lemma missing_encoder: "gst_make g (factory_name e) = Some err \<Longrightarrow> \<exists>x. build os g cap e kbps = Inl x"
  using front [of os g cap e kbps] by (cases "build os g cap e kbps") (auto simp: encoder_element_def make_element_def)

lemma carries:
  assumes "build os g cap e kbps = Inr gr"
  shows "\<exists>rate enc. sending_chain os g cap e kbps gr rate enc"
proof -
  obtain src rate queue enc rest where "build_capture_element os g cap = Inr src" "rate_filter g cap = Inr rate"
    "encoder_element g e kbps = Inr enc" "leaky_queue g ''queue'' (Some ''video_queue'') 1 = Inr queue"
    "pl_chain gr = src # rate # queue # enc # rest"
    using front [OF assms] by blast
  then show ?thesis using contains_chain [OF assms]
    by (intro exI [of _ rate] exI [of _ enc])
      (auto simp: sending_chain_def rate_filter_def encoder_element_def leaky_queue_def make_element_def
        split: option.splits)
qed

end

lemma available:
  assumes "all_available g"
  shows "make_element g label f name props = Inr \<lparr> el_factory = f, el_name = name, el_props = props \<rparr>"
    "gst_call what (gst_add g) = Inr ()" "gst_call what (gst_link g) = Inr ()"
    "gst_call what (gst_pad_link g) = Inr ()" "gst_request_pad g"
  using assms by (simp_all add: all_available_def make_element_def gst_call_def)

lemma capture_available:
  assumes "all_available g" and "os \<noteq> OtherPlatform"
  obtains src where "build_capture_element os g cap = Inr src"
  using assms by (cases os) (auto simp: available)

lemmas element_defs = rate_filter_def leaky_queue_def encoder_element_def available

lemma pipelines_built:
  assumes "all_available g" and "os \<noteq> OtherPlatform"
  shows "\<exists>gr. airplay_sender_pipeline os g cap e kbps = Inr gr" "\<exists>gr. miracast_sender_pipeline host port os g cap e kbps = Inr gr"
    "\<exists>gr. sender_pipeline os g cap e kbps = Inr gr"
proof -
  obtain src where "build_capture_element os g cap = Inr src" using assms by (rule capture_available)
  then show "\<exists>gr. airplay_sender_pipeline os g cap e kbps = Inr gr" "\<exists>gr. miracast_sender_pipeline host port os g cap e kbps = Inr gr"
    "\<exists>gr. sender_pipeline os g cap e kbps = Inr gr"
    using assms(1)
    by (simp_all add: airplay_sender_pipeline_def miracast_sender_pipeline_def sender_pipeline_def element_defs Let_def)
qed

interpretation airplay_graph: sending_graph airplay_sender_pipeline
  by (unfold_locales; (rule pipelines_built)?) (auto simp: airplay_sender_pipeline_def result_bind_Inr Let_def)

interpretation miracast_graph: sending_graph "miracast_sender_pipeline host port"
  by (unfold_locales; (rule pipelines_built)?) (auto simp: miracast_sender_pipeline_def result_bind_Inr Let_def)

interpretation webrtc_graph: sending_graph sender_pipeline
  by (unfold_locales; (rule pipelines_built)?) (auto simp: sender_pipeline_def result_bind_Inr Let_def split: if_splits)

lemma capture_has_source: "capture_start env = Inr s \<Longrightarrow> primary_source s \<noteq> None"
  by (auto simp: capture_start_def result_bind_Inr primary_source_def split: list.splits if_splits)


section \<open>Properties\<close>

lemma valid_framerate:
  assumes "config_validate c = Inr ()"
  shows "sint (cfg_framerate c) = uint (cfg_framerate c)" and "0 < uint (cfg_framerate c)"
proof -
  have "1 \<le> cfg_framerate c" "cfg_framerate c \<le> 240"
    using assms by (auto simp: config_validate_def MIN_FRAMERATE_def MAX_FRAMERATE_def split: if_splits)
  then have u: "0 < uint (cfg_framerate c)" "uint (cfg_framerate c) \<le> 240" by (simp_all add: word_le_def)
  then show "sint (cfg_framerate c) = uint (cfg_framerate c)" "0 < uint (cfg_framerate c)"
    by (simp_all add: sint_uint signed_take_bit_int_eq_self)
qed

text \<open>C37. Whatever GStreamer answers, in a sending pipeline that is built the captured video runs through
  the configuration: for a configuration that validates, in each of the AirPlay, Miracast and WebRTC
  pipelines the capture source is linked to a filter that limits the raw video to exactly the
  configured rate, a positive fraction, that to a queue, and the queue to the chosen encoder, never a
  substitute. The encoder's bitrate property is in kilobits per second, as GStreamer documents. Then
  every encoder of a Linux sender, and x264 everywhere, is asked for exactly the configured rate;
  VideoToolbox and Media Foundation, whose property the code takes for bits per second, are asked for
  exactly a thousand times the configured rate.\<close>

theorem pipelines_stream_the_configuration:
  assumes "config_validate c = Inr ()" and "cap_framerate cap = cfg_framerate c"
    and "airplay_sender_pipeline os g cap e (cfg_max_bitrate_kbps c) = Inr gr \<or>
      miracast_sender_pipeline host port os g cap e (cfg_max_bitrate_kbps c) = Inr gr \<or>
      sender_pipeline os g cap e (cfg_max_bitrate_kbps c) = Inr gr"
    and "kbit_units rate_of"
  shows "\<exists>src rate queue enc rest n v. build_capture_element os g cap = Inr src \<and>
    pl_chain gr = src # rate # queue # enc # rest \<and> set (pl_chain gr) \<subseteq> set (pl_elements gr) \<and>
    el_factory rate = ''capsfilter'' \<and>
    el_props rate = [(''caps'', Caps ''video/x-raw'' [(''framerate'', CFraction n 1)])] \<and>
    sint n = uint (cfg_framerate c) \<and> 0 < sint n \<and> el_factory queue = ''queue'' \<and>
    el_factory enc = factory_name e \<and> map_of (el_props enc) ''bitrate'' = Some (U32 v) \<and>
    rate_of e v = (if scaled e then 1000 else 1) * (1000 * unat (cfg_max_bitrate_kbps c)) \<and>
    (e \<in> set (platform_encoder_candidates Linux) \<longleftrightarrow> \<not> scaled e)"
proof -
  obtain rate enc where "sending_chain os g cap e (cfg_max_bitrate_kbps c) gr rate enc"
    using assms(3) airplay_graph.carries [of os g cap e _ gr] miracast_graph.carries [of host port os g cap e _ gr]
      webrtc_graph.carries [of os g cap e _ gr] by meson
  then obtain src queue rest where c: "build_capture_element os g cap = Inr src"
    "pl_chain gr = src # rate # queue # enc # rest" "set (pl_chain gr) \<subseteq> set (pl_elements gr)"
    "el_factory rate = ''capsfilter''" "el_props rate = [(''caps'', raw_caps cap)]" "el_factory queue = ''queue''"
    "el_factory enc = factory_name e" "el_props enc = configure_encoder e (cfg_max_bitrate_kbps c)"
    by (auto simp: sending_chain_def)
  obtain v where v: "map_of (configure_encoder e (cfg_max_bitrate_kbps c)) ''bitrate'' = Some (U32 v)"
    "rate_of e v = (if scaled e then 1000 else 1) * (1000 * unat (cfg_max_bitrate_kbps c))"
    "e \<in> set (platform_encoder_candidates Linux) \<longleftrightarrow> \<not> scaled e"
    using encoder_bitrate_exact [OF assms(1,4)] by blast
  show ?thesis
    using valid_framerate [OF assms(1)] assms(2)
    by (intro exI [of _ src] exI [of _ rate] exI [of _ queue] exI [of _ enc] exI [of _ rest]
        exI [of _ "cfg_framerate c"] exI [of _ v] conjI c v) (simp_all only: c v raw_caps_def)
qed

definition demo_gst :: gstreamer where
  "demo_gst = \<lparr> gst_make = \<lambda>_. None, gst_add = None, gst_link = None, gst_request_pad = True, gst_pad_link = None \<rparr>"

definition demo_cap :: capture_config where
  "demo_cap = \<lparr> cap_width = 1920, cap_height = 1080, cap_framerate = 30, cap_pw_fd = 5, cap_node_id = 42 \<rparr>"

theorem pipelines_stream_the_configuration_witness:
  "\<exists>gr src rate queue enc rest v. sender_pipeline Linux demo_gst demo_cap X264 6000 = Inr gr \<and>
     pl_chain gr = src # rate # queue # enc # rest \<and> el_factory rate = ''capsfilter'' \<and>
     el_factory enc = ''x264enc'' \<and> map_of (el_props enc) ''bitrate'' = Some (U32 v) \<and> 1000 * unat v = 6000000"
proof -
  let ?c = "default_config (Some (lit ''tv''))"
  have v: "config_validate ?c = Inr ()" "cap_framerate demo_cap = cfg_framerate ?c" "cfg_max_bitrate_kbps ?c = 6000"
    by (simp_all add: config_validate_def default_config_def hostname_def DEFAULT_PORT_def lit_def trim_def is_whitespace_def
      MIN_BITRATE_KBPS_def MAX_BITRATE_KBPS_def MIN_FRAMERATE_def MAX_FRAMERATE_def demo_cap_def)
  have u: "kbit_units (\<lambda>e v. 1000 * unat v)" by (simp add: kbit_units_def)
  obtain gr where gr: "sender_pipeline Linux demo_gst demo_cap X264 (cfg_max_bitrate_kbps ?c) = Inr gr"
    using webrtc_graph.built [of demo_gst Linux demo_cap X264 6000] v(3) by (auto simp: demo_gst_def all_available_def)
  have "unat (6000 :: u32) = 6000" by simp
  with pipelines_stream_the_configuration [OF v(1,2) disjI2 [OF disjI2 [OF gr]] u] gr show ?thesis
    unfolding v(3) scaled_def by auto
qed

end
