(* ===== verification/Miracast_Cast.thy ===== *)
theory Miracast_Cast
  imports Miracast_Session Discovery Pipelines Casting
begin

text \<open>
  The Miracast casts of \<open>openplay-sender/src/casting.rs\<close>: \<open>run_miracast_pipeline\<close> and
  \<open>run_miracast_p2p_pipeline\<close> between the session task and the pipeline. What the session reports,
  the stop flag at the top of each iteration and GStreamer's answers are the inputs; the output
  is what is done to the pipeline and the session, with the drops at the end of the function, and
  the result (\<open>None\<close> while the cast goes on).

  The lemmas show where the video goes, that whatever was started is stopped again on every path,
  that a cast ends with its session, and that the negotiated mode has no effect on the pipeline.
\<close>

datatype cast_action =
    BuildPipeline graph
  | SetPlaying
  | SetNull
  | StopSession

datatype loop_input =
    SessionEvent "miracast_event option"
  | HalfSecond

fun stream_loop :: "(bool \<times> loop_input) list \<Rightarrow> unit option" where
  "stream_loop [] = None"
| "stream_loop ((stop, ev) # evs) =
     (if stop then Some ()
      else case ev of
        SessionEvent (Some (SessionEnded _)) \<Rightarrow> Some ()
      | SessionEvent None \<Rightarrow> Some ()
      | _ \<Rightarrow> stream_loop evs)"

text \<open>\<open>mira_first\<close>: the first event, \<open>None\<close> while there is none, \<open>Some None\<close> if the channel closed.\<close>

record miracast_env =
  mira_os :: platform
  mira_registry :: registry
  mira_gst :: gstreamer
  mira_capture :: capture_config
  mira_bitrate :: u32
  mira_force_sw :: bool
  mira_session :: "string + unit"
  mira_first :: "miracast_event option option"
  mira_start :: "string option"
  mira_inputs :: "(bool \<times> loop_input) list"
  mira_stop :: "string option"
  show_miracast_error :: "miracast_error \<Rightarrow> string"

fun show_pipeline_error :: "pipeline_error \<Rightarrow> string" where
  "show_pipeline_error (Gstreamer e) = ''GStreamer error: '' @ e"
| "show_pipeline_error NoEncoder = ''No suitable encoder found''"
| "show_pipeline_error (MissingElement e) = ''Pipeline element not found: '' @ e"
| "show_pipeline_error (StateChange e) = ''Pipeline state change failed: '' @ e"
| "show_pipeline_error (SdpError e) = ''SDP error: '' @ e"
| "show_pipeline_error (Missing e) = e"

definition pipeline_start :: "string option \<Rightarrow> pipeline_error + unit" where
  "pipeline_start r = (case r of Some e \<Rightarrow> Inl (StateChange (''Failed to start pipeline: '' @ e)) | None \<Rightarrow> Inr ())"

definition pipeline_stop :: "string option \<Rightarrow> pipeline_error + unit" where
  "pipeline_stop r = (case r of Some e \<Rightarrow> Inl (StateChange (''Failed to stop pipeline: '' @ e)) | None \<Rightarrow> Inr ())"

text \<open>After \<open>Ready\<close>: build, start, wait, stop. The pipeline is dropped, and so set to \<open>Null\<close>, before the
  session, whose drop stops it.\<close>

definition stream_to_sink ::
  "miracast_env \<Rightarrow> wfd_negotiation_result \<Rightarrow> cast_action list \<times> (string + unit) option" where
  "stream_to_sink env res =
     (case miracast_sender_pipeline (show_ip (fst (neg_sink_addr res))) (neg_rtp_port res) (mira_os env) (mira_gst env)
         (mira_capture env) (select_encoder (mira_registry env) (mira_os env) (mira_force_sw env)) (mira_bitrate env) of
        Inl e \<Rightarrow> ([StopSession], Some (Inl (show_pipeline_error e)))
      | Inr gr \<Rightarrow>
          (case pipeline_start (mira_start env) of
             Inl e \<Rightarrow> ([BuildPipeline gr, SetPlaying, SetNull, StopSession], Some (Inl (show_pipeline_error e)))
           | Inr _ \<Rightarrow>
               (case stream_loop (mira_inputs env) of
                  None \<Rightarrow> ([BuildPipeline gr, SetPlaying], None)
                | Some _ \<Rightarrow>
                    ([BuildPipeline gr, SetPlaying, SetNull, SetNull, StopSession],
                     Some (case pipeline_stop (mira_stop env) of
                             Inl e \<Rightarrow> Inl (show_pipeline_error e) | Inr _ \<Rightarrow> Inr ())))))"

definition run_miracast_pipeline :: "miracast_env \<Rightarrow> cast_action list \<times> (string + unit) option" where
  "run_miracast_pipeline env =
     (case mira_session env of
        Inl e \<Rightarrow> ([], Some (Inl (''Miracast session failed: '' @ e)))
      | Inr _ \<Rightarrow>
          (case mira_first env of
             None \<Rightarrow> ([], None)
           | Some (Some (SessionReady res)) \<Rightarrow> stream_to_sink env res
           | Some (Some (SessionEnded (Some e))) \<Rightarrow>
               ([StopSession], Some (Inl (''Miracast negotiation failed: '' @ show_miracast_error env e)))
           | _ \<Rightarrow> ([StopSession], Some (Inl ''Miracast session closed unexpectedly''))))"

definition run_miracast_p2p_pipeline :: "miracast_env \<Rightarrow> cast_action list \<times> (string + unit) option" where
  "run_miracast_p2p_pipeline env =
     (case mira_session env of
        Inl e \<Rightarrow> ([], Some (Inl (''P2P Miracast session failed: '' @ e)))
      | Inr _ \<Rightarrow>
          (case mira_first env of
             None \<Rightarrow> ([], None)
           | Some (Some (SessionReady res)) \<Rightarrow> stream_to_sink env res
           | Some (Some (SessionEnded (Some e))) \<Rightarrow>
               ([StopSession], Some (Inl (''P2P negotiation failed: '' @ show_miracast_error env e)))
           | _ \<Rightarrow> ([StopSession], Some (Inl ''P2P Miracast closed unexpectedly''))))"


section \<open>Lemmas\<close>

text \<open>A cast that ran its course: nothing after the session is stopped, and a playing pipeline was
  set to \<open>Null\<close> before.\<close>

definition cleaned_up :: "cast_action list \<Rightarrow> bool" where
  "cleaned_up as \<longleftrightarrow> as \<noteq> [] \<and> last as = StopSession \<and> StopSession \<notin> set (butlast as) \<and>
     (SetPlaying \<in> set as \<longrightarrow> SetNull \<in> set (tl (dropWhile (\<lambda>a. a \<noteq> SetPlaying) as)))"

lemma stream_to_sink_cleans: "snd (stream_to_sink env res) \<noteq> None \<Longrightarrow> cleaned_up (fst (stream_to_sink env res))"
  by (auto simp: stream_to_sink_def cleaned_up_def split: sum.splits option.splits)

lemma stream_to_sink_target:
  assumes "BuildPipeline gr \<in> set (fst (stream_to_sink env res))"
  shows "\<exists>udp. last (pl_chain gr) = udp \<and> el_factory udp = ''udpsink'' \<and>
    map_of (el_props udp) ''host'' = Some (Str (show_ip (fst (neg_sink_addr res)))) \<and>
    map_of (el_props udp) ''port'' = Some (I32 (ucast (neg_rtp_port res)))"
  using assms
  by (auto simp: stream_to_sink_def miracast_sender_pipeline_def make_element_def result_bind_Inr Let_def
      split: sum.splits option.splits)

lemma stream_loop_ends: "(True, i) \<in> set evs \<or> (b, SessionEvent (Some (SessionEnded r))) \<in> set evs \<Longrightarrow> stream_loop evs \<noteq> None"
  by (induction evs rule: stream_loop.induct) (auto split: loop_input.splits option.splits miracast_event.splits)

text \<open>The cast's inputs are the events of a session: the first one, and the others in the loop.\<close>

definition reads_events :: "miracast_env \<Rightarrow> miracast_event list \<Rightarrow> bool" where
  "reads_events env evs \<longleftrightarrow>
     (case evs of [] \<Rightarrow> mira_first env = Some None
      | e # es \<Rightarrow> mira_first env = Some (Some e) \<and> (\<forall>x \<in> set es. (False, SessionEvent (Some x)) \<in> set (mira_inputs env)))"

definition demo_mode :: "nat \<Rightarrow> nat \<Rightarrow> nat \<Rightarrow> wfd_negotiation_result" where
  "demo_mode w h f = \<lparr> neg_width = w, neg_height = h, neg_fps = f, neg_rtp_port = 19000, neg_sink_addr = (V4 1, 7236) \<rparr>"

definition demo_miracast :: "miracast_event option option \<Rightarrow> miracast_env" where
  "demo_miracast first = \<lparr> mira_os = Linux, mira_registry = \<lparr> find_feature = \<lambda>_. False, make_ok = \<lambda>_. False \<rparr>,
     mira_gst = demo_gst, mira_capture = \<lparr> cap_width = 1920, cap_height = 1080, cap_framerate = 30, cap_pw_fd = 5, cap_node_id = 42 \<rparr>,
     mira_bitrate = 6000, mira_force_sw = True, mira_session = Inr (), mira_first = first, mira_start = None,
     mira_inputs = [(False, HalfSecond), (True, HalfSecond)], mira_stop = None, show_miracast_error = \<lambda>_. [] \<rparr>"


section \<open>Properties\<close>

text \<open>C25. A Miracast cast, over infrastructure or Wi-Fi Direct, sends its video to the negotiated sink and
  leaves nothing behind: every pipeline it builds ends in a UDP sink for the address and port of
  the negotiation, and when the cast is over, on whichever path, a pipeline that was set playing
  has been set to \<open>Null\<close> and then the session was stopped, as the last action.\<close>

theorem miracast_cast_contained:
  assumes "run = run_miracast_pipeline env \<or> run = run_miracast_p2p_pipeline env" and "mira_session env = Inr ()"
  shows "(snd run \<noteq> None \<longrightarrow> cleaned_up (fst run)) \<and>
    (\<forall>gr. BuildPipeline gr \<in> set (fst run) \<longrightarrow> (\<exists>res. mira_first env = Some (Some (SessionReady res)) \<and>
      el_factory (last (pl_chain gr)) = ''udpsink'' \<and>
      map_of (el_props (last (pl_chain gr))) ''host'' = Some (Str (show_ip (fst (neg_sink_addr res)))) \<and>
      map_of (el_props (last (pl_chain gr))) ''port'' = Some (I32 (ucast (neg_rtp_port res)))))"
proof -
  have c: "cleaned_up [StopSession]" by (simp add: cleaned_up_def)
  show ?thesis
    using assms stream_to_sink_cleans [of env] stream_to_sink_target [of _ env] c
    by (auto simp: run_miracast_pipeline_def run_miracast_p2p_pipeline_def split: option.splits miracast_event.splits)
qed

theorem miracast_cast_contained_witness:
  "cleaned_up (fst (run_miracast_pipeline (demo_miracast (Some (Some (SessionReady (demo_mode 1280 720 30)))))))"
  using miracast_cast_contained [of _ "demo_miracast (Some (Some (SessionReady (demo_mode 1280 720 30))))", OF disjI1, OF refl]
    stream_loop_ends [of HalfSecond "[(False, HalfSecond), (True, HalfSecond)]"]
  by (auto simp: demo_miracast_def run_miracast_pipeline_def stream_to_sink_def pipeline_start_def split: sum.splits)

text \<open>The negotiated mode is never applied: two negotiations that agree on the sink's address and
  port lead to the same pipeline and the same cast, whatever width, height and frame rate they
  agreed on.\<close>

theorem negotiated_mode_has_no_effect:
  assumes "neg_sink_addr res = neg_sink_addr res'" and "neg_rtp_port res = neg_rtp_port res'"
  shows "run_miracast_pipeline (env\<lparr> mira_first := Some (Some (SessionReady res)) \<rparr>) =
    run_miracast_pipeline (env\<lparr> mira_first := Some (Some (SessionReady res')) \<rparr>)"
  using assms by (simp add: run_miracast_pipeline_def stream_to_sink_def split: sum.split)

theorem negotiated_mode_has_no_effect_witness:
  "run_miracast_pipeline (demo_miracast (Some (Some (SessionReady (demo_mode 1920 1080 60))))) =
   run_miracast_pipeline (demo_miracast (Some (Some (SessionReady (demo_mode 640 480 30)))))"
  using negotiated_mode_has_no_effect [of "demo_mode 1920 1080 60" "demo_mode 640 480 30" "demo_miracast None"]
  by (simp add: demo_mode_def demo_miracast_def)

text \<open>A cast is over when its session is: if the session task has finished, a cast that reads its
  events has a result, the session's error if it failed before it was ready, success if the sink
  or the connection ended it later and the pipeline could be built, started and stopped.\<close>

theorem cast_ends_with_session:
  assumes "(run_session_step addr)\<^sup>*\<^sup>* mice_start m" and "mice_phase m = MiceDone" and "reads_events env (mice_emitted m)"
    and "mira_session env = Inr ()"
  shows "\<exists>r. snd (run_miracast_pipeline env) = Some r \<and>
    (\<forall>e. mice_emitted m = [SessionEnded (Some e)] \<longrightarrow> r = Inl (''Miracast negotiation failed: '' @ show_miracast_error env e)) \<and>
    (\<forall>res x gr. mice_emitted m = [SessionReady res, x] \<and> BuildPipeline gr \<in> set (fst (run_miracast_pipeline env)) \<and>
      mira_start env = None \<and> mira_stop env = None \<longrightarrow> r = Inr ())"
proof -
  have inv: "mice_inv m" by (rule mice_inv_reach [OF assms(1)])
  then consider (early) r where "mice_emitted m = [SessionEnded r]"
    | (late) res r where "mice_emitted m = [SessionReady res, SessionEnded r]"
    using assms(2) by (auto simp: mice_inv_def)
  then show ?thesis
  proof cases
    case early
    then show ?thesis using assms(3,4) by (cases r) (auto simp: reads_events_def run_miracast_pipeline_def)
  next
    case late
    then have "stream_loop (mira_inputs env) \<noteq> None"
      using assms(3) stream_loop_ends [where b = False] by (auto simp: reads_events_def)
    then show ?thesis using late assms(3,4)
      by (auto simp: reads_events_def run_miracast_pipeline_def stream_to_sink_def pipeline_start_def pipeline_stop_def
          split: sum.splits option.splits)
  qed
qed

theorem cast_ends_with_session_witness:
  "\<exists>r. snd (run_miracast_pipeline (demo_miracast (Some (Some (SessionEnded (Some ConnectTimeout)))))) = Some (Inl r)"
proof -
  have m: "(run_session_step (V4 1, 7236))\<^sup>*\<^sup>* mice_start (mice_finish (Some ConnectTimeout) mice_start)"
    by (rule r_into_rtranclp) (rule mice_timeout, simp add: mice_start_def)
  show ?thesis
    using cast_ends_with_session [OF m, of "demo_miracast (Some (Some (SessionEnded (Some ConnectTimeout))))"]
    by (auto simp: mice_finish_def mice_start_def reads_events_def demo_miracast_def)
qed

end
