(* ===== verification/Sender_App.thy ===== *)
theory Sender_App
  imports Discovery Casting Wifi_Direct
begin

text \<open>
  The sender's application state: \<open>openplay-sender/src/receiver_list.rs\<close> (receivers of the three
  protocols and their keys) and \<open>app.rs\<close> (discovery and status polling, starting, failing and
  stopping a cast, the two dialogs), as built for Linux. Drawing is in \<open>Sender_Window\<close>: a frame here is the
  two polls, and a click is an input. The cast thread is the list of messages it has still to
  report, taken from \<open>Casting\<close>; the scan commands sent to wpa_supplicant are recorded. Parsing an
  IP address typed by the user is the parameter \<open>parse_ip\<close>.

  The lemmas are one invariant over all sequences of inputs: the list of receivers and the map
  agree, the selection exists, and the flags that decide which buttons are shown tell whether a
  cast is running.
\<close>

section \<open>Receivers\<close>

datatype protocol = POpenPlay | PAirPlay | PMiracast

datatype miracast_mode =
    Infrastructure ip_addr u16
  | WifiDirect string

record miracast_receiver =
  mr_display_name :: string
  mr_mode :: miracast_mode

datatype discovered_receiver =
    OpenPlay receiver_info
  | AirPlay airplay_receiver_info
  | Miracast miracast_receiver

fun receiver_display_name :: "discovered_receiver \<Rightarrow> string" where
  "receiver_display_name (OpenPlay r) = ri_display_name r"
| "receiver_display_name (AirPlay r) = air_display_name r"
| "receiver_display_name (Miracast r) = mr_display_name r"

fun receiver_protocol :: "discovered_receiver \<Rightarrow> protocol" where
  "receiver_protocol (OpenPlay _) = POpenPlay"
| "receiver_protocol (AirPlay _) = PAirPlay"
| "receiver_protocol (Miracast _) = PMiracast"

fun receiver_fingerprint :: "discovered_receiver \<Rightarrow> string option" where
  "receiver_fingerprint (OpenPlay r) = Some (ri_fingerprint r)"
| "receiver_fingerprint _ = None"

definition first_addr :: "ip_addr list \<Rightarrow> u16 \<Rightarrow> socket_addr option" where
  "first_addr addrs p = (case addrs of [] \<Rightarrow> None | ip # _ \<Rightarrow> Some (ip, p))"

fun receiver_addr :: "discovered_receiver \<Rightarrow> socket_addr option" where
  "receiver_addr (OpenPlay r) = first_addr (ri_addresses r) (ri_port r)"
| "receiver_addr (AirPlay r) = first_addr (air_addresses r) (air_port r)"
| "receiver_addr (Miracast r) =
     (case mr_mode r of Infrastructure a p \<Rightarrow> Some (a, p) | WifiDirect _ \<Rightarrow> None)"

fun receiver_addrs :: "discovered_receiver \<Rightarrow> socket_addr list" where
  "receiver_addrs (OpenPlay r) = map (\<lambda>ip. (ip, ri_port r)) (ri_addresses r)"
| "receiver_addrs (AirPlay r) = map (\<lambda>ip. (ip, air_port r)) (air_addresses r)"
| "receiver_addrs (Miracast r) = (case receiver_addr (Miracast r) of None \<Rightarrow> [] | Some a \<Rightarrow> [a])"

fun wifi_direct_address :: "discovered_receiver \<Rightarrow> string option" where
  "wifi_direct_address (Miracast r) =
     (case mr_mode r of WifiDirect a \<Rightarrow> Some a | Infrastructure _ _ \<Rightarrow> None)"
| "wifi_direct_address _ = None"

fun is_wifi_direct :: "discovered_receiver \<Rightarrow> bool" where
  "is_wifi_direct (Miracast r) = (case mr_mode r of WifiDirect _ \<Rightarrow> True | Infrastructure _ _ \<Rightarrow> False)"
| "is_wifi_direct _ = False"

fun receiver_key :: "discovered_receiver \<Rightarrow> string" where
  "receiver_key (OpenPlay r) = ri_name r"
| "receiver_key (AirPlay r) = air_name r"
| "receiver_key (Miracast r) =
     (case mr_mode r of
        Infrastructure a _ \<Rightarrow> ''miracast-'' @ show_ip a
      | WifiDirect d \<Rightarrow> ''miracast-p2p-'' @ d)"


section \<open>Application state\<close>

datatype p2p_scan = PauseDiscovery | ResumeDiscovery

datatype launch =
    LaunchAirPlay socket_addr cast_settings
  | LaunchMiracast socket_addr u32 u32 bool
  | LaunchMiracastP2p string u32 u32 bool
  | LaunchOpenPlay openplay_target u32 u32 bool

record sender_app =
  app_config :: app_config
  event_queue :: "discovery_event list"
  receivers :: "string \<rightharpoonup> discovered_receiver"
  receiver_keys :: "string list"
  selected_key :: "string option"
  app_status :: string
  is_casting :: bool
  stop_handle :: "cast_stop_handle option"
  p2p_discovery_paused :: bool
  status_queue :: "string list"
  show_add_airplay :: bool
  airplay_name :: string
  airplay_ip :: string
  airplay_port :: string
  show_add_miracast :: bool
  miracast_name :: string
  miracast_addr :: string
  miracast_port :: string
  miracast_is_p2p :: bool
  cast_thread :: "string list"
  launches :: "launch list"
  scans :: "p2p_scan list"

definition DEFAULT_AIRPLAY_PORT :: u16 where "DEFAULT_AIRPLAY_PORT = 7000"
definition DEFAULT_MIRACAST_PORT :: u16 where "DEFAULT_MIRACAST_PORT = 7236"

definition em_dash :: string where "em_dash = [CHR 0xE2, CHR 0x80, CHR 0x94]"

definition INVALID_PORT_MSG :: string where
  "INVALID_PORT_MSG = ''Invalid port '' @ em_dash @ '' expected 1-65535''"

definition parse_port :: "string \<Rightarrow> u16 option" where
  "parse_port raw =
     (case parse_u16 (trim_str raw) of None \<Rightarrow> None | Some p \<Rightarrow> if p = 0 then None else Some p)"

definition app_new :: "app_config \<Rightarrow> sender_app" where
  "app_new config =
     \<lparr> app_config = config, event_queue = [], receivers = Map.empty, receiver_keys = [], selected_key = None,
       app_status = ''Searching for receivers...'', is_casting = False, stop_handle = None,
       p2p_discovery_paused = False, status_queue = [],
       show_add_airplay = False, airplay_name = [], airplay_ip = [],
       airplay_port = show_dec DEFAULT_AIRPLAY_PORT,
       show_add_miracast = False, miracast_name = [], miracast_addr = [],
       miracast_port = show_dec DEFAULT_MIRACAST_PORT, miracast_is_p2p = False,
       cast_thread = [], launches = [], scans = [] \<rparr>"


section \<open>Discovery\<close>

definition add_receiver :: "discovered_receiver \<Rightarrow> sender_app \<Rightarrow> sender_app" where
  "add_receiver r s =
     (let key = receiver_key r
      in if receivers s key \<noteq> None then s
         else s\<lparr> receiver_keys := receiver_keys s @ [key], receivers := (receivers s)(key \<mapsto> r) \<rparr>)"

definition remove_receiver :: "string \<Rightarrow> sender_app \<Rightarrow> sender_app" where
  "remove_receiver key s =
     (if receivers s key = None then s
      else s\<lparr> receivers := (receivers s)(key := None), receiver_keys := filter (\<lambda>k. k \<noteq> key) (receiver_keys s),
              selected_key := (if selected_key s = Some key then None else selected_key s) \<rparr>)"

definition miracast_mode_of :: "miracast_receiver_info \<Rightarrow> miracast_mode" where
  "miracast_mode_of info =
     (let addr = (case mira_addresses info of [] \<Rightarrow> V4 0 | a # _ \<Rightarrow> a)
      in if CHR '':'' \<in> set (mira_device_info info) \<and> length (mira_device_info info) = 17
         then WifiDirect (mira_device_info info)
         else Infrastructure addr (mira_port info))"

fun handle_discovery :: "discovery_event \<Rightarrow> sender_app \<Rightarrow> sender_app" where
  "handle_discovery (ReceiverFound info) s = add_receiver (OpenPlay info) s"
| "handle_discovery (ReceiverLost n) s = remove_receiver n s"
| "handle_discovery (AirPlayReceiverFound info) s = add_receiver (AirPlay info) s"
| "handle_discovery (AirPlayReceiverLost n) s = remove_receiver n s"
| "handle_discovery (MiracastReceiverFound info) s =
     add_receiver (Miracast \<lparr> mr_display_name = mira_display_name info, mr_mode = miracast_mode_of info \<rparr>) s"
| "handle_discovery (MiracastReceiverLost n) s = remove_receiver n s"

definition poll_discovery :: "sender_app \<Rightarrow> sender_app" where
  "poll_discovery s = fold handle_discovery (event_queue s) (s\<lparr> event_queue := [] \<rparr>)"

text \<open>What the Wi-Fi Direct task of \<open>SenderApp::new\<close> forwards.\<close>

fun p2p_discovery_event :: "wifi_direct_event \<Rightarrow> discovery_event option" where
  "p2p_discovery_event (PeerFound peer) = Some (MiracastReceiverFound
     \<lparr> mira_name = ''miracast-p2p-'' @ device_address peer, mira_display_name = peer_name peer,
       mira_addresses = [], mira_port = 7236, mira_device_info = device_address peer \<rparr>)"
| "p2p_discovery_event (PeerLost a) = Some (MiracastReceiverLost (''miracast-p2p-'' @ a))"
| "p2p_discovery_event _ = None"


section \<open>Casting\<close>

definition pause_p2p_discovery :: "sender_app \<Rightarrow> sender_app" where
  "pause_p2p_discovery s =
     (if p2p_discovery_paused s then s
      else s\<lparr> p2p_discovery_paused := True, scans := scans s @ [PauseDiscovery] \<rparr>)"

definition resume_p2p_discovery :: "sender_app \<Rightarrow> sender_app" where
  "resume_p2p_discovery s =
     (if \<not> p2p_discovery_paused s then s
      else s\<lparr> p2p_discovery_paused := False, scans := scans s @ [ResumeDiscovery] \<rparr>)"

definition handle_status :: "string \<Rightarrow> sender_app \<Rightarrow> sender_app" where
  "handle_status msg s =
     (let s1 = s\<lparr> app_status := msg \<rparr>
      in if is_done msg
         then resume_p2p_discovery (s1\<lparr> is_casting := False, stop_handle := None \<rparr>)
         else s1)"

definition poll_status :: "sender_app \<Rightarrow> sender_app" where
  "poll_status s = fold handle_status (status_queue s) (s\<lparr> status_queue := [] \<rparr>)"

definition fail_cast :: "string \<Rightarrow> sender_app \<Rightarrow> sender_app" where
  "fail_cast reason s =
     resume_p2p_discovery (s\<lparr> app_status := reason, is_casting := False, stop_handle := None \<rparr>)"

definition spawn_cast :: "launch \<Rightarrow> string list \<Rightarrow> sender_app \<Rightarrow> sender_app" where
  "spawn_cast l reports s = s\<lparr> launches := launches s @ [l], cast_thread := cast_thread s @ reports \<rparr>"

definition NO_ADDRESS :: string where "NO_ADDRESS = ''Receiver has no reachable address''"

definition NO_FINGERPRINT :: string where
  "NO_FINGERPRINT = ''Receiver did not publish a certificate fingerprint '' @ em_dash @ '' cannot connect safely''"

definition settings_of :: "app_config \<Rightarrow> cast_settings" where
  "settings_of c = \<lparr> set_bitrate_kbps = cfg_max_bitrate_kbps c, set_framerate = cfg_framerate c,
     set_force_sw_encode = cfg_force_sw_encode c, set_display_name = cfg_display_name c \<rparr>"

definition begin_cast :: "discovered_receiver \<Rightarrow> sender_app \<Rightarrow> sender_app" where
  "begin_cast r s =
     (if is_wifi_direct r then s else pause_p2p_discovery s)
       \<lparr> stop_handle := Some stop_handle_new, is_casting := True, app_status := ''Starting capture...'' \<rparr>"

definition start_cast :: "cast_env \<Rightarrow> discovered_receiver \<Rightarrow> sender_app \<Rightarrow> sender_app" where
  "start_cast env r s =
     (let c = app_config s; bitrate = cfg_max_bitrate_kbps c; fps = cfg_framerate c;
          sw = cfg_force_sw_encode c; s1 = begin_cast r s
      in case receiver_protocol r of
           PAirPlay \<Rightarrow>
             (case receiver_addr r of
                None \<Rightarrow> fail_cast NO_ADDRESS s1
              | Some addr \<Rightarrow> spawn_cast (LaunchAirPlay addr (settings_of c)) (start_airplay_cast env) s1)
         | PMiracast \<Rightarrow>
             if is_wifi_direct r
             then (case wifi_direct_address r of
                     None \<Rightarrow> s1
                   | Some mac \<Rightarrow>
                       spawn_cast (LaunchMiracastP2p mac bitrate fps sw) (start_miracast_p2p_cast env) s1)
             else (case receiver_addr r of
                     None \<Rightarrow> fail_cast NO_ADDRESS s1
                   | Some addr \<Rightarrow>
                       spawn_cast (LaunchMiracast addr bitrate fps sw) (start_miracast_cast env) s1)
         | POpenPlay \<Rightarrow>
             (case (receiver_addrs r, receiver_fingerprint r) of
                (_ # _, Some fp) \<Rightarrow>
                  spawn_cast (LaunchOpenPlay \<lparr> target_addrs = receiver_addrs r, target_fingerprint = fp,
                      target_display_name = cfg_display_name c \<rparr> bitrate fps sw) (start_openplay_cast env) s1
              | ([], _) \<Rightarrow> fail_cast NO_ADDRESS s1
              | (_, None) \<Rightarrow> fail_cast NO_FINGERPRINT s1))"

definition stop_cast :: "sender_app \<Rightarrow> sender_app" where
  "stop_cast s = s\<lparr> stop_handle := map_option handle_stop (stop_handle s), app_status := ''Stopping...'' \<rparr>"


section \<open>Dialogs\<close>

definition add_airplay :: "(string \<Rightarrow> ip_addr option) \<Rightarrow> sender_app \<Rightarrow> sender_app" where
  "add_airplay parse_ip s =
     (case (parse_ip (airplay_ip s), parse_port (airplay_port s)) of
        (Some ip, Some p) \<Rightarrow>
          (let n = (if airplay_name s = [] then airplay_ip s else airplay_name s);
               s1 = add_receiver (AirPlay \<lparr> air_name = ''manual-airplay-'' @ show_ip ip, air_display_name = n,
                  air_addresses = [ip], air_port = p, air_device_id = [], air_features = [], air_model = ''Manual'' \<rparr>) s
           in s1\<lparr> show_add_airplay := False, airplay_name := [], airplay_ip := [],
                  airplay_port := show_dec DEFAULT_AIRPLAY_PORT \<rparr>)
      | (None, _) \<Rightarrow> s\<lparr> app_status := ''Invalid IP address'' \<rparr>
      | (_, None) \<Rightarrow> s\<lparr> app_status := INVALID_PORT_MSG \<rparr>)"

definition miracast_entry :: "(string \<Rightarrow> ip_addr option) \<Rightarrow> sender_app \<Rightarrow> string + miracast_receiver" where
  "miracast_entry parse_ip s =
     (let n = (if miracast_name s = [] then miracast_addr s else miracast_name s)
      in if miracast_is_p2p s
         then if length (miracast_addr s) \<ge> 11 \<and> CHR '':'' \<in> set (miracast_addr s)
              then Inr \<lparr> mr_display_name = n, mr_mode = WifiDirect (miracast_addr s) \<rparr>
              else Inl ''Invalid MAC address''
         else case (parse_ip (miracast_addr s), parse_port (miracast_port s)) of
           (Some ip, Some p) \<Rightarrow> Inr \<lparr> mr_display_name = n, mr_mode = Infrastructure ip p \<rparr>
         | (None, _) \<Rightarrow> Inl ''Invalid IP address''
         | (_, None) \<Rightarrow> Inl INVALID_PORT_MSG)"

definition add_miracast :: "(string \<Rightarrow> ip_addr option) \<Rightarrow> sender_app \<Rightarrow> sender_app" where
  "add_miracast parse_ip s =
     (case miracast_entry parse_ip s of
        Inl e \<Rightarrow> s\<lparr> app_status := e \<rparr>
      | Inr r \<Rightarrow>
          (add_receiver (Miracast r) s)\<lparr> show_add_miracast := False, miracast_name := [], miracast_addr := [],
             miracast_port := show_dec DEFAULT_MIRACAST_PORT, miracast_is_p2p := False \<rparr>)"


section \<open>Runs of the application\<close>

text \<open>The inputs: a discovery event arrives, a frame is drawn, the cast thread reports its next
  message (its channel holds 32), and the clicks, each as far as its widget is on screen.\<close>

datatype app_input =
    Arrives discovery_event
  | Frame
  | ThreadReports
  | ClickReceiver string
  | ClickStart cast_env
  | ClickStop
  | ClickAirPlay string string string
  | ClickMiracast string string string bool
  | ClickCancel

definition STATUS_CAPACITY :: nat where "STATUS_CAPACITY = 32"

fun app_step :: "(string \<Rightarrow> ip_addr option) \<Rightarrow> app_input \<Rightarrow> sender_app \<Rightarrow> sender_app" where
  "app_step parse_ip (Arrives ev) s = s\<lparr> event_queue := event_queue s @ [ev] \<rparr>"
| "app_step parse_ip Frame s = poll_status (poll_discovery s)"
| "app_step parse_ip ThreadReports s =
     (case cast_thread s of
        [] \<Rightarrow> s
      | m # ms \<Rightarrow>
          if length (status_queue s) < STATUS_CAPACITY
          then s\<lparr> cast_thread := ms, status_queue := status_queue s @ [m] \<rparr> else s)"
| "app_step parse_ip (ClickReceiver k) s =
     (if k \<in> set (receiver_keys s) then s\<lparr> selected_key := Some k \<rparr> else s)"
| "app_step parse_ip (ClickStart env) s =
     (if is_casting s then s
      else case selected_key s of
        None \<Rightarrow> s
      | Some k \<Rightarrow> (case receivers s k of None \<Rightarrow> s | Some r \<Rightarrow> start_cast env r s))"
| "app_step parse_ip ClickStop s = (if is_casting s then stop_cast s else s)"
| "app_step parse_ip (ClickAirPlay n ip p) s =
     add_airplay parse_ip (s\<lparr> show_add_airplay := True, airplay_name := n, airplay_ip := ip, airplay_port := p \<rparr>)"
| "app_step parse_ip (ClickMiracast n a p p2p) s =
     add_miracast parse_ip (s\<lparr> show_add_miracast := True, miracast_name := n, miracast_addr := a, miracast_port := p,
       miracast_is_p2p := p2p \<rparr>)"
| "app_step parse_ip ClickCancel s = s\<lparr> show_add_airplay := False, show_add_miracast := False \<rparr>"

definition app_run :: "(string \<Rightarrow> ip_addr option) \<Rightarrow> app_config \<Rightarrow> app_input list \<Rightarrow> sender_app" where
  "app_run parse_ip config ins = fold (app_step parse_ip) ins (app_new config)"


section \<open>The invariant\<close>

definition list_ok :: "string list \<Rightarrow> (string \<rightharpoonup> discovered_receiver) \<Rightarrow> string option \<Rightarrow> bool" where
  "list_ok ks rs sel \<longleftrightarrow> distinct ks \<and> set ks = dom rs \<and> (\<forall>k r. rs k = Some r \<longrightarrow> receiver_key r = k) \<and>
     (\<forall>k. sel = Some k \<longrightarrow> k \<in> set ks)"

definition list_inv :: "sender_app \<Rightarrow> bool" where
  "list_inv s \<longleftrightarrow> list_ok (receiver_keys s) (receivers s) (selected_key s)"

text \<open>A cast is on exactly as long as its last message has not been read.\<close>

definition reports_left :: "string list \<Rightarrow> bool" where
  "reports_left q \<longleftrightarrow> q \<noteq> [] \<and> is_done (last q) \<and> (\<forall>m \<in> set (butlast q). \<not> is_done m)"

definition scans_balanced :: "bool \<Rightarrow> p2p_scan list \<Rightarrow> bool" where
  "scans_balanced paused ps \<longleftrightarrow>
     count_list ps PauseDiscovery = count_list ps ResumeDiscovery + (if paused then 1 else 0)"

definition cast_ok ::
  "bool \<Rightarrow> cast_stop_handle option \<Rightarrow> bool \<Rightarrow> p2p_scan list \<Rightarrow> string list \<Rightarrow> string list \<Rightarrow> bool" where
  "cast_ok casting h paused ps q thread \<longleftrightarrow>
     (casting \<longleftrightarrow> h \<noteq> None) \<and> (paused \<longrightarrow> casting) \<and> scans_balanced paused ps \<and>
     (if casting then reports_left (q @ thread) else thread = [] \<and> (\<forall>m \<in> set q. \<not> is_done m))"

definition cast_inv :: "sender_app \<Rightarrow> bool" where
  "cast_inv s \<longleftrightarrow> cast_ok (is_casting s) (stop_handle s) (p2p_discovery_paused s) (scans s) (status_queue s)
     (cast_thread s)"

lemma list_inv_add: "list_inv s \<Longrightarrow> list_inv (add_receiver r s)"
  by (auto simp: list_inv_def list_ok_def add_receiver_def Let_def)

lemma list_inv_remove: "list_inv s \<Longrightarrow> list_inv (remove_receiver k s)"
  by (auto simp: list_inv_def list_ok_def remove_receiver_def split: if_splits)

lemma list_inv_handle: "list_inv s \<Longrightarrow> list_inv (handle_discovery ev s)"
  by (cases ev) (auto intro: list_inv_add list_inv_remove)

lemma fold_keeps: "P s \<Longrightarrow> (\<And>x s. P s \<Longrightarrow> P (f x s)) \<Longrightarrow> P (fold f xs s)"
  by (induction xs arbitrary: s) auto

lemma list_inv_poll_discovery: "list_inv s \<Longrightarrow> list_inv (poll_discovery s)"
  unfolding poll_discovery_def
  by (rule fold_keeps [where P = list_inv]) (simp add: list_inv_def, rule list_inv_handle)

lemma list_inv_status: "list_inv s \<Longrightarrow> list_inv (handle_status m s)"
  by (simp add: handle_status_def resume_p2p_discovery_def Let_def list_inv_def)

lemma list_inv_poll_status: "list_inv s \<Longrightarrow> list_inv (poll_status s)"
  unfolding poll_status_def
  by (rule fold_keeps [where P = list_inv]) (simp add: list_inv_def, rule list_inv_status)

lemmas cast_defs = start_cast_def begin_cast_def spawn_cast_def fail_cast_def pause_p2p_discovery_def
  resume_p2p_discovery_def Let_def

lemma list_inv_start: "list_inv s \<Longrightarrow> list_inv (start_cast env r s)"
  by (auto simp: cast_defs list_inv_def split: protocol.splits option.splits list.splits)

lemma list_inv_step: "list_inv s \<Longrightarrow> list_inv (app_step parse_ip i s)"
proof (cases i)
  case (ClickAirPlay n ip p)
  assume "list_inv s"
  then have "list_inv (s\<lparr> show_add_airplay := True, airplay_name := n, airplay_ip := ip, airplay_port := p \<rparr>)"
    by (simp add: list_inv_def)
  from list_inv_add [OF this] this ClickAirPlay show ?thesis
    by (auto simp: add_airplay_def Let_def list_inv_def split: option.splits)
next
  case (ClickMiracast n a p p2p)
  assume "list_inv s"
  then have "list_inv (s\<lparr> show_add_miracast := True, miracast_name := n, miracast_addr := a, miracast_port := p,
       miracast_is_p2p := p2p \<rparr>)"
    by (simp add: list_inv_def)
  from list_inv_add [OF this] this ClickMiracast show ?thesis
    by (auto simp: add_miracast_def list_inv_def split: sum.splits)
next
  case (ClickReceiver k)
  assume "list_inv s"
  with ClickReceiver show ?thesis by (auto simp: list_inv_def list_ok_def)
next
  case (ClickStart env)
  assume "list_inv s"
  with ClickStart show ?thesis by (auto intro: list_inv_start split: option.splits)
qed (auto simp: stop_cast_def list_inv_def intro: list_inv_poll_status [unfolded list_inv_def]
    list_inv_poll_discovery [unfolded list_inv_def] split: list.splits)

lemma cast_part_add [simp]:
  "is_casting (add_receiver r s) = is_casting s" "stop_handle (add_receiver r s) = stop_handle s"
  "p2p_discovery_paused (add_receiver r s) = p2p_discovery_paused s" "scans (add_receiver r s) = scans s"
  "status_queue (add_receiver r s) = status_queue s" "cast_thread (add_receiver r s) = cast_thread s"
  by (simp_all add: add_receiver_def Let_def)

lemma cast_inv_handle: "cast_inv (handle_discovery ev s) = cast_inv s"
  by (cases ev) (simp_all add: cast_inv_def remove_receiver_def)

lemma cast_inv_poll_discovery: "cast_inv s \<Longrightarrow> cast_inv (poll_discovery s)"
  unfolding poll_discovery_def
  by (rule fold_keeps [where P = cast_inv]) (simp add: cast_inv_def, simp add: cast_inv_handle)

lemma reports_left_append: "\<forall>m \<in> set q. \<not> is_done m \<Longrightarrow> reports_left r \<Longrightarrow> reports_left (q @ r)"
  by (auto simp: reports_left_def butlast_append)

lemma reports_left_Cons: "reports_left (m # q) \<longleftrightarrow> (if q = [] then is_done m else \<not> is_done m \<and> reports_left q)"
  by (auto simp: reports_left_def)

lemma reports_left_done: "reports_left q \<Longrightarrow> \<exists>m \<in> set q. is_done m"
  using last_in_set by (auto simp: reports_left_def)

lemma scans_step [simp]:
  "scans_balanced False ps \<Longrightarrow> scans_balanced True (ps @ [PauseDiscovery])"
  "scans_balanced True ps \<Longrightarrow> scans_balanced False (ps @ [ResumeDiscovery])"
  by (auto simp: scans_balanced_def)

lemma cast_ok_status:
  assumes "cast_ok (is_casting s) (stop_handle s) (p2p_discovery_paused s) (scans s) (m # q) (cast_thread s)"
    and "status_queue s = []"
  shows "cast_ok (is_casting (handle_status m s)) (stop_handle (handle_status m s))
      (p2p_discovery_paused (handle_status m s)) (scans (handle_status m s)) q (cast_thread (handle_status m s))"
    and "status_queue (handle_status m s) = []"
  using assms
  by (auto simp: cast_ok_def handle_status_def resume_p2p_discovery_def Let_def reports_left_Cons split: if_splits)

lemma cast_inv_fold_status:
  assumes "cast_ok (is_casting s) (stop_handle s) (p2p_discovery_paused s) (scans s) q (cast_thread s)"
    and "status_queue s = []"
  shows "cast_inv (fold handle_status q s) \<and> status_queue (fold handle_status q s) = []"
  using assms
proof (induction q arbitrary: s)
  case Nil
  then show ?case by (simp add: cast_inv_def)
next
  case (Cons m q)
  then show ?case using cast_ok_status [OF Cons.prems] by simp
qed

lemma cast_inv_poll_status: "cast_inv s \<Longrightarrow> cast_inv (poll_status s) \<and> status_queue (poll_status s) = []"
  unfolding poll_status_def by (rule cast_inv_fold_status) (simp_all add: cast_inv_def)

lemma reports_left_casts:
  "reports_left (start_airplay_cast env)" "reports_left (start_miracast_cast env)"
  "reports_left (start_miracast_p2p_cast env)" "reports_left (start_openplay_cast env)"
  using airplay.reports_end airplay.reports_go_on miracast.reports_end miracast.reports_go_on
    miracast_p2p.reports_end miracast_p2p.reports_go_on openplay.reports_end openplay.reports_go_on
  unfolding reports_left_def by blast+

text \<open>Starting a cast from an idle state either spawns a thread or leaves the application idle.\<close>

lemma begin_cast_fields:
  assumes "cast_inv s" and "\<not> is_casting s"
  shows "cast_thread (begin_cast r s) = []" "status_queue (begin_cast r s) = status_queue s"
    "\<forall>m \<in> set (status_queue s). \<not> is_done m" "is_casting (begin_cast r s)" "stop_handle (begin_cast r s) \<noteq> None"
    "scans_balanced (p2p_discovery_paused (begin_cast r s)) (scans (begin_cast r s))"
  using assms by (auto simp: cast_inv_def cast_ok_def begin_cast_def pause_p2p_discovery_def)

lemma cast_inv_spawn:
  assumes "cast_inv s" and "\<not> is_casting s" and "reports_left reports"
  shows "cast_inv (spawn_cast l reports (begin_cast r s))"
  using begin_cast_fields [OF assms(1,2)] reports_left_append [OF _ assms(3), of "status_queue s"]
  by (simp add: cast_inv_def cast_ok_def spawn_cast_def)

lemma cast_inv_fail:
  assumes "cast_inv s" and "\<not> is_casting s"
  shows "cast_inv (fail_cast reason (begin_cast r s))"
  using begin_cast_fields(1-3) [OF assms] begin_cast_fields(6) [OF assms, of r]
  by (cases "p2p_discovery_paused (begin_cast r s)")
    (simp_all add: cast_inv_def cast_ok_def fail_cast_def resume_p2p_discovery_def)

lemma cast_inv_start:
  assumes "cast_inv s" and "\<not> is_casting s"
  shows "cast_inv (start_cast env r s)"
  using assms
  by (cases r) (auto simp: start_cast_def Let_def intro!: cast_inv_spawn cast_inv_fail reports_left_casts
      split: option.splits list.splits miracast_mode.splits)

lemma cast_inv_step: "cast_inv s \<Longrightarrow> cast_inv (app_step parse_ip i s)"
proof (cases i)
  case (ClickStart env)
  assume "cast_inv s"
  with ClickStart show ?thesis by (auto intro: cast_inv_start split: option.splits)
next
  case Frame
  assume "cast_inv s"
  with Frame show ?thesis using cast_inv_poll_status cast_inv_poll_discovery by simp
next
  case (ClickAirPlay n ip p)
  assume "cast_inv s"
  with ClickAirPlay show ?thesis
    by (auto simp: add_airplay_def Let_def cast_inv_def split: option.splits)
next
  case (ClickMiracast n a p p2p)
  assume "cast_inv s"
  with ClickMiracast show ?thesis by (auto simp: add_miracast_def cast_inv_def split: sum.splits)
qed (auto simp: stop_cast_def cast_inv_def cast_ok_def split: list.splits if_splits)

interpretation app: machine "\<lambda>s. \<exists>config. s = app_new config" "\<lambda>s i. app_step parse_ip i s" "\<lambda>_. True"
  "\<lambda>s. list_inv s \<and> cast_inv s"
proof unfold_locales
  fix s assume "\<exists>config. s = app_new config"
  then show "list_inv s \<and> cast_inv s"
    by (auto simp: app_new_def list_inv_def list_ok_def cast_inv_def cast_ok_def scans_balanced_def)
qed (auto intro: list_inv_step cast_inv_step)

lemma app_run_inv: "list_inv (app_run parse_ip config ins) \<and> cast_inv (app_run parse_ip config ins)"
  using app.run_inv [of "app_new config" ins parse_ip] by (auto simp: app_run_def foldl_conv_fold list_all_iff)


lemma idle_after_frame:
  assumes "cast_inv s" and "cast_thread s = []"
  shows "let s' = app_step parse_ip Frame s in \<not> is_casting s' \<and> stop_handle s' = None \<and>
    \<not> p2p_discovery_paused s' \<and> count_list (scans s') PauseDiscovery = count_list (scans s') ResumeDiscovery"
proof -
  have "cast_thread (handle_discovery ev s) = cast_thread s" for ev s
    by (cases ev) (simp_all add: remove_receiver_def)
  then have d: "cast_thread (poll_discovery s) = []"
    using assms(2) fold_keeps [where P = "\<lambda>s. cast_thread s = []" and f = handle_discovery]
    by (simp add: poll_discovery_def)
  have "cast_thread (handle_status m s) = cast_thread s" for m s
    by (simp add: handle_status_def resume_p2p_discovery_def Let_def)
  then have "cast_thread (poll_status (poll_discovery s)) = []"
    using d fold_keeps [where P = "\<lambda>s. cast_thread s = []" and f = handle_status] by (simp add: poll_status_def)
  moreover have "cast_inv (poll_status (poll_discovery s)) \<and> status_queue (poll_status (poll_discovery s)) = []"
    using assms(1) cast_inv_poll_discovery cast_inv_poll_status by blast
  ultimately show ?thesis
    by (auto simp: cast_inv_def cast_ok_def reports_left_def scans_balanced_def Let_def split: if_splits)
qed


section \<open>Properties\<close>

text \<open>C31. The list on screen is the list of receivers: after any sequence of inputs the rows are
  distinct, they are exactly the known receivers, each stored under its own key, and the selected
  row exists.\<close>

theorem receiver_list_consistent:
  "let s = app_run parse_ip config ins in
   distinct (receiver_keys s) \<and> set (receiver_keys s) = dom (receivers s) \<and>
   (\<forall>k r. receivers s k = Some r \<longrightarrow> receiver_key r = k) \<and>
   (\<forall>k. selected_key s = Some k \<longrightarrow> receivers s k \<noteq> None)"
  using app_run_inv [of parse_ip config ins] by (auto simp: Let_def list_inv_def list_ok_def)

definition demo_receiver :: receiver_info where
  "demo_receiver = \<lparr> ri_name = ''TV._openplay._tcp.local.'', ri_display_name = ''TV'',
     ri_addresses = [V4 0xC0A80005], ri_port = 7290, ri_fingerprint = ''AB'', ri_video_codecs = [''h264''],
     ri_resolution = ''1920x1080'', ri_max_fps = 30 \<rparr>"

lemmas run_simps = app_run_def app_new_def poll_discovery_def poll_status_def add_receiver_def Let_def

theorem receiver_list_consistent_witness:
  "let s = app_run (\<lambda>_. None) (default_config None)
       [Arrives (ReceiverFound demo_receiver), Frame, ClickReceiver ''TV._openplay._tcp.local.''] in
   selected_key s = Some ''TV._openplay._tcp.local.'' \<and> receivers s ''TV._openplay._tcp.local.'' \<noteq> None"
proof -
  let ?s = "app_run (\<lambda>_. None) (default_config None)
       [Arrives (ReceiverFound demo_receiver), Frame, ClickReceiver ''TV._openplay._tcp.local.'']"
  have "selected_key ?s = Some ''TV._openplay._tcp.local.''" by (simp add: run_simps demo_receiver_def)
  then show ?thesis
    using receiver_list_consistent [of "\<lambda>_. None" "default_config None"
        "[Arrives (ReceiverFound demo_receiver), Frame, ClickReceiver ''TV._openplay._tcp.local.'']"]
    unfolding Let_def by blast
qed

text \<open>C34. The Stop button tells the truth: after any sequence of inputs a cast is shown exactly while
  its final message is unread, Wi-Fi Direct scanning is paused only during a cast, and when the
  cast's thread has reported everything the next frame is idle, with no stop handle and the scan
  resumed as often as it was paused.\<close>

theorem casting_flag_tracks_cast:
  "let s = app_run parse_ip config ins in
   (is_casting s \<longleftrightarrow> (\<exists>m \<in> set (status_queue s @ cast_thread s). is_done m)) \<and>
   (p2p_discovery_paused s \<longrightarrow> is_casting s) \<and>
   (cast_thread s = [] \<longrightarrow>
     (let s' = app_step parse_ip Frame s in \<not> is_casting s' \<and> stop_handle s' = None \<and>
       \<not> p2p_discovery_paused s' \<and> count_list (scans s') PauseDiscovery = count_list (scans s') ResumeDiscovery))"
proof -
  let ?s = "app_run parse_ip config ins"
  have inv: "cast_inv ?s" using app_run_inv by blast
  then have "is_casting ?s \<longleftrightarrow> (\<exists>m \<in> set (status_queue ?s @ cast_thread ?s). is_done m)"
    using reports_left_done [of "status_queue ?s @ cast_thread ?s"]
    by (cases "is_casting ?s") (auto simp: cast_inv_def cast_ok_def)
  moreover have "p2p_discovery_paused ?s \<longrightarrow> is_casting ?s" using inv unfolding cast_inv_def cast_ok_def by blast
  ultimately show ?thesis using idle_after_frame [OF inv] unfolding Let_def by blast
qed

theorem casting_flag_tracks_cast_witness:
  "let s = app_run (\<lambda>_. None) (default_config None)
       [Arrives (ReceiverFound demo_receiver), Frame, ClickReceiver ''TV._openplay._tcp.local.'',
        ClickStart \<lparr> capture_result = Inl ''denied'', pipeline_result = Joined (Inr ()) \<rparr>, ThreadReports, ThreadReports]
   in is_casting s \<and> \<not> is_casting (app_step (\<lambda>_. None) Frame s)"
proof -
  let ?ins = "[Arrives (ReceiverFound demo_receiver), Frame, ClickReceiver ''TV._openplay._tcp.local.'',
        ClickStart \<lparr> capture_result = Inl ''denied'', pipeline_result = Joined (Inr ()) \<rparr>, ThreadReports, ThreadReports]"
  let ?s = "app_run (\<lambda>_. None) (default_config None) ?ins"
  have "is_casting ?s" "cast_thread ?s = []"
    by (simp_all add: run_simps demo_receiver_def start_cast_def begin_cast_def spawn_cast_def
        pause_p2p_discovery_def start_openplay_cast_def STATUS_CAPACITY_def)
  then show ?thesis
    using casting_flag_tracks_cast [of "\<lambda>_. None" "default_config None" ?ins] unfolding Let_def by blast
qed

text \<open>A vanished Miracast receiver stays in the list: a receiver found over infrastructure is
  stored under its address, so the report that the service is gone, which carries the service's
  name, removes nothing.\<close>

theorem lost_mice_receiver_stays:
  assumes "CHR '':'' \<notin> set (mira_device_info info)" and "mira_addresses info = a # as"
    and "mira_name info \<noteq> ''miracast-'' @ show_ip a"
  shows "receivers (handle_discovery (MiracastReceiverLost (mira_name info))
      (handle_discovery (MiracastReceiverFound info) s)) (''miracast-'' @ show_ip a) \<noteq> None"
  using assms by (auto simp: miracast_mode_of_def add_receiver_def remove_receiver_def Let_def)

theorem lost_mice_receiver_stays_witness:
  "receivers (handle_discovery (MiracastReceiverLost ''TV._display._tcp.local.'')
      (handle_discovery (MiracastReceiverFound \<lparr> mira_name = ''TV._display._tcp.local.'', mira_display_name = ''TV'',
         mira_addresses = [V4 0x0A000001], mira_port = 7236, mira_device_info = ''X'' \<rparr>) (app_new (default_config None))))
      (''miracast-'' @ show_ip (V4 0x0A000001)) \<noteq> None"
  using lost_mice_receiver_stays [of "\<lparr> mira_name = ''TV._display._tcp.local.'', mira_display_name = ''TV'',
      mira_addresses = [V4 0x0A000001], mira_port = 7236, mira_device_info = ''X'' \<rparr>" "V4 0x0A000001" "[]"]
  by simp

end
