(* ===== verification/Crypto.thy ===== *)
theory Crypto
  imports Text
begin

text \<open>
  The receiver's identity, \<open>openplay-crypto/src\<close>: certificate fingerprints (\<open>lib.rs\<close>), the pinned
  certificate verifier (\<open>tls.rs\<close>), and the certificate manager with its files (\<open>certs.rs\<close>, the Unix
  branches). SHA-256, certificate generation and PEM parsing are parameters; the file system is
  the two files of the data directory with their modes.

  Every system call may fail: a run is given the number of calls that succeed, and it records
  the files after each of them, so that a property of all recorded states also covers a process
  that dies between two calls. The lemmas show what a pin accepts, that the private key is never
  readable by others while it holds the key, and that the identity survives a restart.
\<close>

section \<open>Fingerprints and pinning\<close>

fun join :: "string \<Rightarrow> string list \<Rightarrow> string" where
  "join sep [] = []"
| "join sep [s] = s"
| "join sep (s # ss) = s @ sep @ join sep ss"

definition certificate_fingerprint :: "(bytes \<Rightarrow> bytes) \<Rightarrow> bytes \<Rightarrow> string" where
  "certificate_fingerprint sha256 der = join '':'' (map (\<lambda>b. show_hex_upper 2 (unat b)) (sha256 der))"

definition normalise_fingerprint :: "string \<Rightarrow> string" where
  "normalise_fingerprint s = map lower_char (filter is_hexdigit s)"

record pinned_cert_verifier =
  expected :: string

datatype tls_error =
    BadFingerprintLength nat
  | FingerprintMismatch string string
  | CertificatePem
  | NoCertificate
  | KeyPem

definition client_config_pinned :: "string \<Rightarrow> tls_error + pinned_cert_verifier" where
  "client_config_pinned expected_fingerprint =
     (let normalised = normalise_fingerprint expected_fingerprint
      in if length normalised \<noteq> 64 then Inl (BadFingerprintLength (length normalised))
         else Inr \<lparr> expected = normalised \<rparr>)"

definition verify_server_cert ::
  "(bytes \<Rightarrow> bytes) \<Rightarrow> pinned_cert_verifier \<Rightarrow> bytes \<Rightarrow> tls_error + unit" where
  "verify_server_cert sha256 v end_entity =
     (let presented = normalise_fingerprint (certificate_fingerprint sha256 end_entity)
      in if presented = expected v then Inr () else Inl (FingerprintMismatch presented (expected v)))"


section \<open>The data directory\<close>

definition KEY_MODE :: u16 where "KEY_MODE = 0x180"
definition DATA_DIR_MODE :: u16 where "DATA_DIR_MODE = 0x1C0"

record stored_file =
  content :: string
  mode :: u16

record files =
  data_dir :: "u16 option"
  cert_file :: "stored_file option"
  key_file :: "stored_file option"

record fs =
  now :: files
  history :: "files list"
  calls_left :: nat

datatype cert_error =
    IoFailed
  | GenerateFailed
  | BadCertificatePem
  | NoCertificates

type_synonym 'a io = "fs \<Rightarrow> (cert_error + 'a) \<times> fs"

definition io_bind :: "'a io \<Rightarrow> ('a \<Rightarrow> 'b io) \<Rightarrow> 'b io" where
  "io_bind m k s = (case m s of (Inl e, s') \<Rightarrow> (Inl e, s') | (Inr x, s') \<Rightarrow> k x s')"

definition io_query :: "(files \<Rightarrow> 'a) \<Rightarrow> 'a io" where
  "io_query g s = (Inr (g (now s)), s)"

definition io_result :: "cert_error + 'a \<Rightarrow> 'a io" where
  "io_result r s = (r, s)"

text \<open>\<open>Path::exists\<close> does not fail. One system call: it fails when no call is left, and otherwise changes the files and gives an
  answer.\<close>

definition syscall :: "(files \<Rightarrow> files) \<Rightarrow> (files \<Rightarrow> 'a) \<Rightarrow> 'a io" where
  "syscall f g s =
     (if calls_left s = 0 then (Inl IoFailed, s)
      else let fs' = f (now s)
           in (Inr (g (now s)), \<lparr> now = fs', history = history s @ [fs'], calls_left = calls_left s - 1 \<rparr>))"

text \<open>\<open>DirBuilder::create\<close> with a mode; an existing directory keeps its own.\<close>

definition create_data_dir :: "unit io" where
  "create_data_dir =
     syscall (\<lambda>fs. fs\<lparr> data_dir := (case data_dir fs of None \<Rightarrow> Some DATA_DIR_MODE | d \<Rightarrow> d) \<rparr>) (\<lambda>_. ())"

text \<open>\<open>open\<close> truncates: a new file gets the requested mode less the umask, an existing one keeps
  its own until the \<open>fchmod\<close>.\<close>

definition open_private_file :: "u16 \<Rightarrow> unit io" where
  "open_private_file umask =
     io_bind (syscall (\<lambda>fs. fs\<lparr> key_file := Some \<lparr> content = [],
         mode = (case key_file fs of None \<Rightarrow> KEY_MODE AND NOT umask | Some f \<Rightarrow> mode f) \<rparr> \<rparr>) (\<lambda>_. ())) (\<lambda>_.
     syscall (\<lambda>fs. fs\<lparr> key_file := map_option (\<lambda>f. f\<lparr> mode := KEY_MODE \<rparr>) (key_file fs) \<rparr>) (\<lambda>_. ()))"

definition write_key_file :: "u16 \<Rightarrow> string \<Rightarrow> unit io" where
  "write_key_file umask key_pem =
     io_bind (open_private_file umask) (\<lambda>_.
     io_bind (syscall (\<lambda>fs. fs\<lparr> key_file := map_option (\<lambda>f. f\<lparr> content := key_pem \<rparr>) (key_file fs) \<rparr>) (\<lambda>_. ())) (\<lambda>_.
     syscall id (\<lambda>_. ())))"

text \<open>The mode as \<open>metadata\<close> gives it, then the repair.\<close>

definition enforce_key_permissions :: "unit io" where
  "enforce_key_permissions =
     io_bind (syscall id key_file) (\<lambda>f.
     case f of
       None \<Rightarrow> io_result (Inl IoFailed)
     | Some k \<Rightarrow>
         if (mode k AND 0x1FF) AND 0x3F = 0 then io_result (Inr ())
         else syscall (\<lambda>fs. fs\<lparr> key_file := map_option (\<lambda>f. f\<lparr> mode := KEY_MODE \<rparr>) (key_file fs) \<rparr>) (\<lambda>_. ()))"


section \<open>The certificate manager\<close>

record certificate_manager =
  cert_pem :: string
  key_pem :: string
  cert_der :: bytes
  fingerprint :: string

text \<open>What the crates provide: SHA-256, a fresh certificate (PEM, key PEM, DER), and PEM parsing.\<close>

record cert_lib =
  sha256 :: "bytes \<Rightarrow> bytes"
  generated :: "(string \<times> string \<times> bytes) option"
  pem_certs :: "string \<Rightarrow> bytes list option"
  pem_private_key :: "string \<Rightarrow> bytes option option"

definition generate :: "cert_lib \<Rightarrow> cert_error + certificate_manager" where
  "generate L =
     (case generated L of
        None \<Rightarrow> Inl GenerateFailed
      | Some (pem, key, der) \<Rightarrow>
          Inr \<lparr> cert_pem = pem, key_pem = key, cert_der = der,
                fingerprint = certificate_fingerprint (sha256 L) der \<rparr>)"

definition parse_first :: "cert_lib \<Rightarrow> string \<Rightarrow> cert_error + bytes" where
  "parse_first L pem =
     (case pem_certs L pem of
        None \<Rightarrow> Inl BadCertificatePem
      | Some [] \<Rightarrow> Inl NoCertificates
      | Some (c # _) \<Rightarrow> Inr c)"

definition load_from_files :: "cert_lib \<Rightarrow> certificate_manager io" where
  "load_from_files L =
     io_bind (syscall id cert_file) (\<lambda>c.
     io_bind (io_result (ok_or IoFailed c)) (\<lambda>cert.
     io_bind enforce_key_permissions (\<lambda>_.
     io_bind (syscall id key_file) (\<lambda>k.
     io_bind (io_result (ok_or IoFailed k)) (\<lambda>key.
     io_bind (io_result (parse_first L (content cert))) (\<lambda>der.
     io_result (Inr \<lparr> cert_pem = content cert, key_pem = content key, cert_der = der,
         fingerprint = certificate_fingerprint (sha256 L) der \<rparr>)))))))"

definition save_to_files :: "u16 \<Rightarrow> certificate_manager \<Rightarrow> unit io" where
  "save_to_files umask m =
     io_bind (syscall (\<lambda>fs. fs\<lparr> cert_file := Some \<lparr> content = [],
         mode = (case cert_file fs of None \<Rightarrow> 0x1B6 AND NOT umask | Some f \<Rightarrow> mode f) \<rparr> \<rparr>) (\<lambda>_. ())) (\<lambda>_.
     io_bind (syscall (\<lambda>fs. fs\<lparr> cert_file := map_option (\<lambda>f. f\<lparr> content := cert_pem m \<rparr>) (cert_file fs) \<rparr>) (\<lambda>_. ())) (\<lambda>_.
     write_key_file umask (key_pem m)))"

definition load_or_generate :: "cert_lib \<Rightarrow> u16 \<Rightarrow> certificate_manager io" where
  "load_or_generate L umask =
     io_bind create_data_dir (\<lambda>_.
     io_bind (io_query (\<lambda>fs. cert_file fs \<noteq> None \<and> key_file fs \<noteq> None)) (\<lambda>both.
     if both then load_from_files L
     else io_bind (io_result (generate L)) (\<lambda>m.
       io_bind (save_to_files umask m) (\<lambda>_. io_result (Inr m)))))"

text \<open>\<open>server_config\<close>: what the signaling server presents.\<close>

definition server_config :: "cert_lib \<Rightarrow> certificate_manager \<Rightarrow> tls_error + bytes list \<times> bytes" where
  "server_config L m =
     (case pem_certs L (cert_pem m) of
        None \<Rightarrow> Inl CertificatePem
      | Some [] \<Rightarrow> Inl NoCertificate
      | Some certs \<Rightarrow>
          (case pem_private_key L (key_pem m) of Some (Some key) \<Rightarrow> Inr (certs, key) | _ \<Rightarrow> Inl KeyPem))"


section \<open>Lemmas\<close>

definition hex2 :: "u8 \<Rightarrow> string" where
  "hex2 b = [digit_char (unat b div 16), digit_char (unat b mod 16)]"

lemma hex_digit_case:
  assumes "d < 16"
  shows "lower_char (upper_char (digit_char d)) = digit_char d" "is_hexdigit (upper_char (digit_char d))"
proof -
  have "(of_char (lower_char (upper_char (digit_char d))) :: nat) = of_char (digit_char d)"
    using assms by (auto simp: lower_char_code of_upper_char digit_char_code)
  then show "lower_char (upper_char (digit_char d)) = digit_char d" by (simp only: of_char_eq_iff)
  show "is_hexdigit (upper_char (digit_char d))"
    using assms by (auto simp: hexdigit_code of_upper_char digit_char_code)
qed

lemma show_byte:
  assumes "n < 256"
  shows "pad_left 2 (show_radix 16 n) = [digit_char (n div 16), digit_char (n mod 16)]"
proof (cases "n < 16")
  case True
  then show ?thesis by (subst show_radix.simps) (simp add: pad_left_def digit_char_zero)
next
  case False
  have "n div 16 < 16" using assms by simp
  then have "show_radix 16 (n div 16) = [digit_char (n div 16)]" by (subst show_radix.simps) simp
  with False have "show_radix 16 n = [digit_char (n div 16), digit_char (n mod 16)]"
    by (subst show_radix.simps) simp
  then show ?thesis by (simp add: pad_left_def)
qed

lemma hex_upper_byte: "show_hex_upper 2 (unat (b :: u8)) = map upper_char (hex2 b)"
  using unsigned_less [of b, where ?'a = nat] by (simp add: show_hex_upper_def hex2_def show_byte)

lemma normalise_byte: "normalise_fingerprint (show_hex_upper 2 (unat (b :: u8))) = hex2 b"
proof -
  have "unat b div 16 < 16" "unat b mod 16 < 16" using unsigned_less [of b, where ?'a = nat] by simp_all
  then show ?thesis
    unfolding hex_upper_byte by (simp add: normalise_fingerprint_def hex2_def hex_digit_case)
qed

lemma normalise_append [simp]: "normalise_fingerprint (s @ t) = normalise_fingerprint s @ normalise_fingerprint t"
  by (simp add: normalise_fingerprint_def)

lemma normalise_colon [simp]: "normalise_fingerprint '':'' = []"
  by (simp add: normalise_fingerprint_def is_hexdigit_def digit_value_def)

lemma normalise_join: "normalise_fingerprint (join '':'' ss) = concat (map normalise_fingerprint ss)"
  by (induction "'':''" ss rule: join.induct) (simp_all add: normalise_fingerprint_def is_hexdigit_def digit_value_def)

lemma normalise_certificate:
  "normalise_fingerprint (certificate_fingerprint sha der) = concat (map hex2 (sha der))"
  by (simp add: certificate_fingerprint_def normalise_join normalise_byte comp_def)

lemma digit_char_inj: "d < 16 \<Longrightarrow> e < 16 \<Longrightarrow> digit_char d = digit_char e \<Longrightarrow> d = e"
  by (metis digit_value_char le_refl option.inject)

lemma hex2_inj: "hex2 a = hex2 b \<Longrightarrow> a = b"
proof -
  assume eq: "hex2 a = hex2 b"
  have "unat a div 16 < 16" "unat b div 16 < 16"
    using unsigned_less [of a, where ?'a = nat] unsigned_less [of b, where ?'a = nat] by simp_all
  then have "unat a div 16 = unat b div 16" "unat a mod 16 = unat b mod 16"
    using eq digit_char_inj [of "unat a div 16" "unat b div 16"] digit_char_inj [of "unat a mod 16" "unat b mod 16"]
    by (simp_all add: hex2_def)
  then have "unat a = unat b" by (metis div_mult_mod_eq)
  then show "a = b" by (simp only: word_unat_eq_iff)
qed

lemma length_hex2 [simp]: "length (hex2 b) = 2"
  by (simp add: hex2_def)

lemma concat_hex2_inj: "concat (map hex2 xs) = concat (map hex2 ys) \<Longrightarrow> xs = ys"
proof (induction xs arbitrary: ys)
  case Nil
  then show ?case by (cases ys) (auto simp: hex2_def)
next
  case (Cons x xs)
  then obtain y ys' where ys: "ys = y # ys'" by (cases ys) (auto simp: hex2_def)
  then have "hex2 x @ concat (map hex2 xs) = hex2 y @ concat (map hex2 ys')" using Cons.prems by simp
  then have "hex2 x = hex2 y" "concat (map hex2 xs) = concat (map hex2 ys')" by simp_all
  then show ?case using Cons.IH ys hex2_inj by blast
qed

lemma verify_iff:
  "verify_server_cert sha v der = Inr () \<longleftrightarrow> concat (map hex2 (sha der)) = expected v"
  by (simp add: verify_server_cert_def Let_def normalise_certificate)

lemma length_concat_hex2: "length (concat (map hex2 xs)) = 2 * length xs"
  by (induction xs) (auto simp: hex2_def)


lemma pin_accepts:
  assumes "length (sha der) = 32"
    and "normalise_fingerprint fp = normalise_fingerprint (certificate_fingerprint sha der)"
  shows "\<exists>v. client_config_pinned fp = Inr v \<and>
    (\<forall>der'. verify_server_cert sha v der' = Inr () \<longleftrightarrow> sha der' = sha der)"
proof -
  let ?e = "concat (map hex2 (sha der))"
  have "client_config_pinned fp = Inr \<lparr> expected = ?e \<rparr>"
    using assms by (simp add: client_config_pinned_def normalise_certificate length_concat_hex2)
  moreover have "verify_server_cert sha \<lparr> expected = ?e \<rparr> der' = Inr () \<longleftrightarrow> sha der' = sha der" for der'
    by (auto simp: verify_iff dest: concat_hex2_inj)
  ultimately show ?thesis by blast
qed

text \<open>Files before and after: what a run is judged by.\<close>

definition start_with :: "files \<Rightarrow> nat \<Rightarrow> fs" where
  "start_with fs n = \<lparr> now = fs, history = [], calls_left = n \<rparr>"

definition group_other :: "stored_file \<Rightarrow> u16" where
  "group_other f = mode f AND 0x3F"

lemma key_mode_private: "KEY_MODE AND 0x3F = 0" "(KEY_MODE AND 0x1FF) AND 0x3F = 0" "(KEY_MODE AND NOT umask) AND 0x3F = 0"
proof -
  show "KEY_MODE AND 0x3F = 0" "(KEY_MODE AND 0x1FF) AND 0x3F = 0" by (simp_all add: KEY_MODE_def)
  then show "(KEY_MODE AND NOT umask) AND 0x3F = 0"
    by (metis and.assoc and.commute and_zero_eq)
qed

lemmas io_simps = io_bind_def syscall_def io_query_def io_result_def Let_def

lemma mode_mask: "(m AND 0x1FF) AND 0x3F = (m AND 0x3F :: u16)"
  by (simp add: and.assoc)

definition safe_from :: "files \<Rightarrow> files \<Rightarrow> bool" where
  "safe_from fs0 fs \<longleftrightarrow>
     (\<forall>f. key_file fs = Some f \<and> content f \<noteq> [] \<and> group_other f \<noteq> 0 \<longrightarrow> key_file fs0 = Some f)"

definition safe_run :: "files \<Rightarrow> fs \<Rightarrow> bool" where
  "safe_run fs0 s \<longleftrightarrow> safe_from fs0 (now s) \<and> (\<forall>h \<in> set (history s). safe_from fs0 h)"

lemma safe_syscall:
  assumes "safe_run fs0 s" and "\<And>fs. safe_from fs0 fs \<Longrightarrow> safe_from fs0 (f fs)"
  shows "safe_run fs0 (snd (syscall f g s))"
  using assms by (auto simp: safe_run_def io_simps)

lemma safe_bind:
  assumes "safe_run fs0 (snd (m s))" and "\<And>x s'. m s = (Inr x, s') \<Longrightarrow> safe_run fs0 s' \<Longrightarrow> safe_run fs0 (snd (k x s'))"
  shows "safe_run fs0 (snd (io_bind m k s))"
  using assms by (cases "m s") (auto simp: io_bind_def split: sum.splits)

lemma safe_pure [simp]: "safe_run fs0 (snd (io_result r s)) = safe_run fs0 s" "safe_run fs0 (snd (io_query q s)) = safe_run fs0 s"
  by (simp_all add: io_simps)

lemma safe_write_key:
  assumes "safe_run fs0 s"
  shows "safe_run fs0 (snd (write_key_file umask key s))"
  using assms
  by (auto simp: write_key_file_def open_private_file_def io_simps safe_run_def safe_from_def group_other_def
      key_mode_private)

lemma safe_enforce:
  assumes "safe_run fs0 s"
  shows "safe_run fs0 (snd (enforce_key_permissions s))"
  using assms
  by (auto simp: enforce_key_permissions_def io_simps safe_run_def safe_from_def group_other_def
      key_mode_private split: option.splits)

lemma safe_load:
  assumes "safe_run fs0 s"
  shows "safe_run fs0 (snd (load_from_files L s))"
  unfolding load_from_files_def using assms
  by (auto intro!: safe_bind safe_syscall safe_enforce)

lemma safe_save:
  assumes "safe_run fs0 s"
  shows "safe_run fs0 (snd (save_to_files umask m s))"
  unfolding save_to_files_def using assms
  by (auto intro!: safe_bind safe_syscall safe_write_key simp: safe_from_def)

lemma safe_load_or_generate:
  "safe_run fs0 (snd (load_or_generate L umask (start_with fs0 n)))"
proof -
  have "safe_run fs0 (start_with fs0 n)" by (simp add: safe_run_def start_with_def safe_from_def)
  then show ?thesis
    unfolding load_or_generate_def create_data_dir_def
    by (auto intro!: safe_bind safe_syscall safe_load safe_save simp: safe_from_def)
qed


lemma enforce_ok:
  assumes "enforce_key_permissions s = (Inr u, s')"
  shows "\<exists>f f'. key_file (now s) = Some f \<and> key_file (now s') = Some f' \<and> content f' = content f \<and>
    group_other f' = 0 \<and> cert_file (now s') = cert_file (now s)"
  using assms
  by (auto simp: enforce_key_permissions_def io_simps group_other_def mode_mask key_mode_private
      split: if_splits option.splits)

lemma io_bind_Inr: "io_bind m k s = (Inr y, s'') \<longleftrightarrow> (\<exists>x s'. m s = (Inr x, s') \<and> k x s' = (Inr y, s''))"
  by (cases "m s") (auto simp: io_bind_def split: sum.splits)

lemma syscall_Inr:
  "syscall f g s = (Inr x, s') \<longleftrightarrow> calls_left s \<noteq> 0 \<and> x = g (now s) \<and>
   s' = \<lparr> now = f (now s), history = history s @ [f (now s)], calls_left = calls_left s - 1 \<rparr>"
  by (auto simp: syscall_def Let_def)

lemma load_ok:
  assumes "load_from_files L s = (Inr m, s')"
  shows "\<exists>c f. cert_file (now s') = Some c \<and> content c = cert_pem m \<and> parse_first L (cert_pem m) = Inr (cert_der m) \<and>
    fingerprint m = certificate_fingerprint (sha256 L) (cert_der m) \<and>
    key_file (now s') = Some f \<and> content f = key_pem m \<and> group_other f = 0"
  using assms
  by (auto simp: load_from_files_def io_bind_Inr syscall_Inr io_result_def ok_or_Inr dest!: enforce_ok)

lemma save_ok:
  assumes "save_to_files umask m s = (Inr u, s')"
  shows "\<exists>c f. cert_file (now s') = Some c \<and> content c = cert_pem m \<and>
    key_file (now s') = Some f \<and> content f = key_pem m \<and> group_other f = 0"
  using assms
  by (auto simp: save_to_files_def write_key_file_def open_private_file_def io_bind_Inr syscall_Inr
      group_other_def key_mode_private)

lemma load_or_generate_cases:
  assumes "load_or_generate L umask s = (Inr m, s')"
  shows "(\<exists>s1. load_from_files L s1 = (Inr m, s')) \<or>
    (\<exists>s1 u. generate L = Inr m \<and> save_to_files umask m s1 = (Inr u, s'))"
  using assms
  by (auto simp: load_or_generate_def io_bind_Inr io_result_def split: if_splits)

lemma load_or_generate_key:
  assumes "load_or_generate L umask s = (Inr m, s')"
  shows "\<exists>f. key_file (now s') = Some f \<and> content f = key_pem m \<and> group_other f = 0"
  using load_or_generate_cases [OF assms] load_ok save_ok by blast

lemma load_or_generate_cert:
  assumes "load_or_generate L umask s = (Inr m, s')"
    and "\<And>pem key der. generated L = Some (pem, key, der) \<Longrightarrow> pem_certs L pem = Some [der]"
  shows "\<exists>c. cert_file (now s') = Some c \<and> content c = cert_pem m \<and> parse_first L (cert_pem m) = Inr (cert_der m) \<and>
    fingerprint m = certificate_fingerprint (sha256 L) (cert_der m)"
proof -
  have "parse_first L (cert_pem m) = Inr (cert_der m) \<and> fingerprint m = certificate_fingerprint (sha256 L) (cert_der m)"
    if "generate L = Inr m"
    using that assms(2) by (auto simp: generate_def parse_first_def split: option.splits)
  then show ?thesis using load_or_generate_cases [OF assms(1)] load_ok save_ok by blast
qed

definition no_files :: files where
  "no_files = \<lparr> data_dir = None, cert_file = None, key_file = None \<rparr>"

definition demo_lib :: cert_lib where
  "demo_lib = \<lparr> sha256 = \<lambda>b. take 32 (b @ replicate 32 0), generated = Some (''cert'', ''key'', [1, 2, 3]),
     pem_certs = (\<lambda>s. if s = ''cert'' then Some [[1, 2, 3]] else None),
     pem_private_key = (\<lambda>s. Some (if s = ''key'' then Some [9] else None)) \<rparr>"


section \<open>Properties\<close>

text \<open>A pin accepts one certificate: for a digest of 32 bytes the fingerprint a receiver
  advertises, in any case and with any separators, gives a client configuration that accepts
  exactly the certificates with the same digest as the receiver's.\<close>

theorem pin_accepts_exactly:
  assumes "length (sha der) = 32"
    and "normalise_fingerprint fp = normalise_fingerprint (certificate_fingerprint sha der)"
  shows "\<exists>v. client_config_pinned fp = Inr v \<and>
    (\<forall>der'. verify_server_cert sha v der' = Inr () \<longleftrightarrow> sha der' = sha der)"
  by (rule pin_accepts [OF assms])

theorem pin_accepts_exactly_witness:
  "\<exists>v. client_config_pinned (certificate_fingerprint (\<lambda>b. take 32 (b @ replicate 32 0)) [7]) = Inr v \<and>
    (\<forall>der'. verify_server_cert (\<lambda>b. take 32 (b @ replicate 32 0)) v der' = Inr () \<longleftrightarrow>
       take 32 (der' @ replicate 32 0) = take 32 ([7] @ replicate 32 0))"
  by (rule pin_accepts_exactly) simp_all

text \<open>C26. The private key is never exposed: in every state the files go through, however many
  system calls succeed, a non-empty key file that group or others may access is one that was
  there before; and once a manager is returned, the key it holds is in a file only its owner
  can access.\<close>

theorem key_never_exposed:
  assumes "load_or_generate L umask (start_with fs0 n) = (r, s)"
  shows "(\<forall>fs \<in> set (now s # history s). \<forall>f. key_file fs = Some f \<and> content f \<noteq> [] \<and> group_other f \<noteq> 0 \<longrightarrow>
      key_file fs0 = Some f) \<and>
    (\<forall>m. r = Inr m \<longrightarrow> (\<exists>f. key_file (now s) = Some f \<and> content f = key_pem m \<and> group_other f = 0))"
proof -
  have "safe_run fs0 s" using safe_load_or_generate [of fs0 L umask n] assms by simp
  moreover have "\<exists>f. key_file (now s) = Some f \<and> content f = key_pem m \<and> group_other f = 0" if "r = Inr m" for m
    using assms that load_or_generate_key by blast
  ultimately show ?thesis by (auto simp: safe_run_def safe_from_def)
qed

theorem key_never_exposed_witness:
  "\<not> (\<exists>fs \<in> set (now (snd (load_or_generate demo_lib 0x12 (start_with no_files 9))) #
      history (snd (load_or_generate demo_lib 0x12 (start_with no_files 9)))).
    \<exists>f. key_file fs = Some f \<and> content f \<noteq> [] \<and> group_other f \<noteq> 0)"
proof -
  have "key_file no_files = None" by (simp add: no_files_def)
  then show ?thesis using key_never_exposed [of demo_lib "0x12" no_files 9, OF surjective_pairing] by fastforce
qed

text \<open>C27. The identity lasts: what one start returned, having generated or loaded it, the next one
  returns again, whatever a fresh generation would have given, provided PEM parsing gives back the
  certificate that was generated and the five system calls of loading succeed.\<close>

theorem identity_is_stable:
  assumes "load_or_generate L umask (start_with fs0 n) = (Inr m, s)"
    and "\<And>pem key der. generated L = Some (pem, key, der) \<Longrightarrow> pem_certs L pem = Some [der]"
    and "5 \<le> n'"
  shows "\<exists>s'. load_or_generate (L\<lparr> generated := g \<rparr>) umask' (start_with (now s) n') = (Inr m, s')"
proof -
  obtain c k where c: "cert_file (now s) = Some c" "content c = cert_pem m" "parse_first L (cert_pem m) = Inr (cert_der m)"
    and k: "key_file (now s) = Some k" "content k = key_pem m" "group_other k = 0"
    and f: "fingerprint m = certificate_fingerprint (sha256 L) (cert_der m)"
    using load_or_generate_cert [OF assms(1)] assms(2) load_or_generate_key [OF assms(1)] by blast
  have n: "n' = Suc (Suc (Suc (n' - 3)))" "n' - 3 \<noteq> 0" "n' \<noteq> 0" "n' - 1 \<noteq> 0" "n' - 2 \<noteq> 0" using assms(3) by simp_all
  show ?thesis using c k f n
    by (simp add: load_or_generate_def create_data_dir_def load_from_files_def enforce_key_permissions_def
        io_simps start_with_def group_other_def mode_mask parse_first_def)
qed

theorem identity_is_stable_witness:
  "\<exists>m s. load_or_generate demo_lib 0x12 (start_with no_files 9) = (Inr m, s) \<and>
     (\<exists>s'. load_or_generate (demo_lib\<lparr> generated := None \<rparr>) 0 (start_with (now s) 5) = (Inr m, s'))"
proof -
  obtain m s where "load_or_generate demo_lib 0x12 (start_with no_files 9) = (Inr m, s)"
    by (simp add: load_or_generate_def create_data_dir_def generate_def save_to_files_def write_key_file_def
        open_private_file_def no_files_def demo_lib_def io_simps start_with_def numeral_eq_Suc)
  with identity_is_stable [OF this, of 5 None 0] show ?thesis by (auto simp: demo_lib_def)
qed

text \<open>An interrupted first start is not noticed: if the key file is opened but nothing more
  succeeds, every later start takes the empty file for the key, returns a manager, changes nothing,
  and that manager cannot serve.\<close>

theorem interrupted_save_is_loaded:
  assumes "generated L = Some (pem, key, der)" and "pem_certs L pem = Some [der]"
    and "pem_private_key L [] = Some None" and "5 \<le> n"
  shows "\<exists>s m s'. load_or_generate L umask (start_with no_files 4) = (Inl IoFailed, s) \<and>
    load_or_generate L umask (start_with (now s) n) = (Inr m, s') \<and> now s' = now s \<and>
    server_config L m = Inl KeyPem"
proof -
  have n: "n \<noteq> 0" "n - 1 \<noteq> 0" "n - 2 \<noteq> 0" "n - 3 \<noteq> 0" using assms(4) by simp_all
  show ?thesis using assms(1-3) n
    by (simp add: load_or_generate_def create_data_dir_def load_from_files_def enforce_key_permissions_def
        generate_def save_to_files_def write_key_file_def open_private_file_def no_files_def
        io_simps start_with_def key_mode_private mode_mask parse_first_def server_config_def numeral_eq_Suc)
qed

theorem interrupted_save_is_loaded_witness:
  "\<exists>s m s'. load_or_generate demo_lib 0x12 (start_with no_files 4) = (Inl IoFailed, s) \<and>
    load_or_generate demo_lib 0x12 (start_with (now s) 5) = (Inr m, s') \<and> now s' = now s \<and>
    server_config demo_lib m = Inl KeyPem"
  by (rule interrupted_save_is_loaded [of _ "''cert''" "''key''" "[1, 2, 3]"]) (simp_all add: demo_lib_def)

end
