(* ===== verification/Openplay_Cast.thy ===== *)
theory Openplay_Cast
  imports Receiver_Net Pipelines Crypto Discovery Casting
begin

text \<open>
  The OpenPlay cast of \<open>openplay-sender/src/casting.rs\<close>: finding the receiver among its advertised
  addresses, the session request, waiting for consent, and pumping SDP and ICE until the cast
  ends. The network is what answers at each address; the select loops run over the list of what
  happens in each iteration, with the stop flag as it is read at the top of the loop. A loop that
  has used up its list is still waiting (\<open>None\<close>). GStreamer's answers are part of the environment;
  the calls on the WebRTC peer are recorded.

  The lemmas show that the sender talks only to a host with the pinned certificate, asks before
  it offers, sends requests its receiver accepts, ends what it began, and always obeys the stop
  flag.
\<close>

section \<open>Finding the receiver\<close>

datatype host =
    Silent
  | Refuses string
  | Presents bytes

definition show_socket_addr :: "socket_addr \<Rightarrow> string" where
  "show_socket_addr a =
     (case a of
        (V4 ip, p) \<Rightarrow> show_v4 ip @ CHR '':'' # show_dec p
      | (V6 ip, p) \<Rightarrow> CHR ''['' # show_v6 ip @ '']:'' @ show_dec p)"

text \<open>One attempt, bounded by the per-address timeout: the handshake succeeds only with a
  certificate the verifier accepts.\<close>

definition dial :: "(bytes \<Rightarrow> bytes) \<Rightarrow> pinned_cert_verifier \<Rightarrow> host \<Rightarrow> string + bytes" where
  "dial sha v h =
     (case h of
        Silent \<Rightarrow> Inl ''timed out''
      | Refuses e \<Rightarrow> Inl e
      | Presents der \<Rightarrow>
          (case verify_server_cert sha v der of
             Inl _ \<Rightarrow> Inl ''WebSocket connect failed''
           | Inr _ \<Rightarrow> Inr der))"

fun try_addresses ::
  "(socket_addr \<Rightarrow> string + bytes) \<Rightarrow> string option \<Rightarrow> socket_addr list \<Rightarrow> string + socket_addr \<times> bytes" where
  "try_addresses attempt last_error [] =
     Inl (''Could not reach the receiver on any advertised address ('' @
       (case last_error of None \<Rightarrow> ''no addresses tried'' | Some e \<Rightarrow> e) @ '')'')"
| "try_addresses attempt last_error (a # as) =
     (case attempt a of
        Inr der \<Rightarrow> Inr (a, der)
      | Inl e \<Rightarrow> try_addresses attempt (Some (show_socket_addr a @ '': '' @ e)) as)"

definition connect_to_receiver ::
  "(bytes \<Rightarrow> bytes) \<Rightarrow> (socket_addr \<Rightarrow> host) \<Rightarrow> pinned_cert_verifier \<Rightarrow> openplay_target \<Rightarrow> string + socket_addr \<times> bytes" where
  "connect_to_receiver sha net v target =
     (if target_addrs target = [] then Inl ''Receiver has no reachable address''
      else try_addresses (\<lambda>a. dial sha v (net a)) None (target_addrs target))"


section \<open>Asking for a session\<close>

definition sanitise_display_name :: "ustr \<Rightarrow> ustr" where
  "sanitise_display_name name =
     (let cleaned = take MAX_NAME_CHARS (filter (\<lambda>c. \<not> is_control c) name)
      in if trim cleaned = [] then lit ''OpenPlay Sender'' else cleaned)"

text \<open>\<open>hash\<close> is the value of the standard hasher on the data directory.\<close>

definition openplay_sender_id :: "u64 \<Rightarrow> ustr" where
  "openplay_sender_id hash = lit (''openplay-'' @ pad_left 16 (show_radix 16 (unat hash)))"

definition session_request :: "u64 \<Rightarrow> capture_config \<Rightarrow> openplay_target \<Rightarrow> signaling_message" where
  "session_request hash cap target =
     SessionRequest (openplay_sender_id hash) (sanitise_display_name (target_display_name target)) PROTOCOL_VERSION
       \<lparr> video_codecs = [lit ''h264''], audio_codecs = [],
         max_resolution = Some \<lparr> width = cap_width cap, height = cap_height cap \<rparr>,
         max_framerate = Some (cap_framerate cap), supports_cursor = True \<rparr>"

definition dash :: string where "dash = [CHR 0xE2, CHR 0x80, CHR 0x94]"

fun describe_rejection :: "reject_reason \<Rightarrow> string" where
  "describe_rejection Busy = ''Receiver is already showing another device''"
| "describe_rejection VersionMismatch =
     ''Receiver runs a different OpenPlay version '' @ dash @ '' update both ends''"
| "describe_rejection NoCompatibleCodecs = ''Receiver does not support H.264''"
| "describe_rejection NotPaired = ''This device is not paired with the receiver''"
| "describe_rejection Denied = ''The person at the receiver declined the cast''"

definition STOPPED :: string where "STOPPED = ''Casting stopped by user''"
definition CLOSED :: string where "CLOSED = ''Receiver closed the connection''"

datatype incoming =
    FromReceiver signaling_message
  | ReceiverClosed
  | Quarter_Second

fun wait_for_session_accept :: "(bool \<times> incoming) list \<Rightarrow> (string + unit) option" where
  "wait_for_session_accept [] = None"
| "wait_for_session_accept ((stop, ev) # evs) =
     (if stop then Some (Inl STOPPED)
      else case ev of
        FromReceiver (SessionAccept _ _) \<Rightarrow> Some (Inr ())
      | FromReceiver (SessionReject reason) \<Rightarrow> Some (Inl (describe_rejection reason))
      | FromReceiver _ \<Rightarrow> wait_for_session_accept evs
      | ReceiverClosed \<Rightarrow> Some (Inl CLOSED)
      | Quarter_Second \<Rightarrow> wait_for_session_accept evs)"


section \<open>Driving the session\<close>

definition utf8_str :: "ustr \<Rightarrow> string" where
  "utf8_str s = bytes_str (utf8 s)"

datatype peer_call =
    SetRemoteAnswer ustr
  | AddIceCandidate u32 ustr

text \<open>An iteration: an event of the WebRTC peer and whether the outgoing channel is still open, a
  message and what the peer says to the answer in it, or the timer.\<close>

datatype drive_input =
    WebRtcClosed
  | WebRtcEvent webrtc_event bool
  | Message signaling_message "string + unit"
  | MessagesClosed
  | DriveTick

record drive_result =
  dr_sent :: "signaling_message list"
  dr_calls :: "peer_call list"
  dr_outcome :: "(string + unit) option"

definition drive_stop :: "(string + unit) option \<Rightarrow> drive_result" where
  "drive_stop r = \<lparr> dr_sent = [], dr_calls = [], dr_outcome = r \<rparr>"

definition drive_send :: "signaling_message \<Rightarrow> bool \<Rightarrow> drive_result \<Rightarrow> drive_result" where
  "drive_send m open rest =
     (if open then rest\<lparr> dr_sent := m # dr_sent rest \<rparr> else drive_stop (Some (Inl CLOSED)))"

fun drive_session :: "(bool \<times> drive_input) list \<Rightarrow> drive_result" where
  "drive_session [] = drive_stop None"
| "drive_session ((stop, ev) # evs) =
     (if stop then drive_stop (Some (Inl STOPPED))
      else case ev of
        WebRtcClosed \<Rightarrow> drive_stop (Some (Inl ''WebRTC event channel closed''))
      | WebRtcEvent (LocalDescription kind sdp) open \<Rightarrow>
          if kind \<noteq> Offer then drive_session evs
          else drive_send (SdpOffer sdp) open (drive_session evs)
      | WebRtcEvent (LocalCandidate i cand) open \<Rightarrow>
          drive_send (IceCandidate cand None (Some i)) open (drive_session evs)
      | WebRtcEvent IceGatheringComplete open \<Rightarrow> drive_send IceComplete open (drive_session evs)
      | WebRtcEvent PeerConnected open \<Rightarrow> drive_session evs
      | WebRtcEvent PeerDisconnected open \<Rightarrow> drive_stop (Some (Inr ()))
      | WebRtcEvent (PeerFailed reason) open \<Rightarrow>
          drive_stop (Some (Inl (''Media session failed: '' @ utf8_str reason)))
      | Message (SdpAnswer sdp) answer \<Rightarrow>
          (let rest = (case answer of
                 Inr _ \<Rightarrow> drive_session evs
               | Inl e \<Rightarrow> drive_stop (Some (Inl (''Receiver sent an unusable answer: '' @ e))))
           in rest\<lparr> dr_calls := SetRemoteAnswer sdp # dr_calls rest \<rparr>)
      | Message (IceCandidate cand _ idx) answer \<Rightarrow>
          (let rest = drive_session evs
           in rest\<lparr> dr_calls := AddIceCandidate (case idx of None \<Rightarrow> 0 | Some i \<Rightarrow> i) cand # dr_calls rest \<rparr>)
      | Message (SessionEnd _) answer \<Rightarrow> drive_stop (Some (Inr ()))
      | Message _ answer \<Rightarrow> drive_session evs
      | MessagesClosed \<Rightarrow> drive_stop (Some (Inl CLOSED))
      | DriveTick \<Rightarrow> drive_session evs)"


section \<open>The whole cast\<close>

record openplay_env =
  env_sha :: "bytes \<Rightarrow> bytes"
  env_net :: "socket_addr \<Rightarrow> host"
  env_hash :: u64
  env_capture :: capture_config
  env_request_sent :: bool
  env_waiting :: "(bool \<times> incoming) list"
  env_pipeline :: "string + unit"
  env_start :: "string + unit"
  env_driving :: "(bool \<times> drive_input) list"
  env_end_sent :: bool
  env_stop :: "string + unit"

definition show_tls_error :: "tls_error \<Rightarrow> string" where
  "show_tls_error e =
     (case e of
        BadFingerprintLength n \<Rightarrow>
          ''Expected a 64-hex-digit SHA-256 fingerprint, got '' @ show_radix 10 n @ '' digits''
      | _ \<Rightarrow> [])"

text \<open>After the receiver accepted: build, start, drive, end.\<close>

definition stream_session :: "openplay_env \<Rightarrow> signaling_message list \<times> (string + unit) option" where
  "stream_session env =
     (case env_pipeline env of
        Inl e \<Rightarrow> ([], Some (Inl e))
      | Inr _ \<Rightarrow>
          (case env_start env of
             Inl e \<Rightarrow> ([], Some (Inl e))
           | Inr _ \<Rightarrow>
               (let d = drive_session (env_driving env)
                in case dr_outcome d of
                     None \<Rightarrow> (dr_sent d, None)
                   | Some outcome \<Rightarrow>
                       (dr_sent d @ (if env_end_sent env then [SessionEnd UserStopped] else []),
                        Some (case env_stop env of Inl e \<Rightarrow> Inl e | Inr _ \<Rightarrow> outcome)))))"

text \<open>The messages the sender hands to its connection, and how the cast ends.\<close>

definition run_openplay_pipeline ::
  "openplay_env \<Rightarrow> openplay_target \<Rightarrow> signaling_message list \<times> (string + unit) option" where
  "run_openplay_pipeline env target =
     (case client_config_pinned (target_fingerprint target) of
        Inl e \<Rightarrow> ([], Some (Inl (''Receiver certificate is not usable: '' @ show_tls_error e)))
      | Inr v \<Rightarrow>
          (case connect_to_receiver (env_sha env) (env_net env) v target of
             Inl e \<Rightarrow> ([], Some (Inl e))
           | Inr _ \<Rightarrow>
               if \<not> env_request_sent env
               then ([], Some (Inl ''Signaling closed before the session request was sent''))
               else let request = session_request (env_hash env) (env_capture env) target
                 in case wait_for_session_accept (env_waiting env) of
                      None \<Rightarrow> ([request], None)
                    | Some (Inl e) \<Rightarrow> ([request], Some (Inl e))
                    | Some (Inr _) \<Rightarrow>
                        (case stream_session env of (ms, r) \<Rightarrow> (request # ms, r))))"


section \<open>Lemmas\<close>

lemma try_addresses_Inr:
  "try_addresses f e as = Inr (a, d) \<Longrightarrow>
   \<exists>pre post. as = pre @ a # post \<and> f a = Inr d \<and> (\<forall>b \<in> set pre. \<exists>x. f b = Inl x)"
proof (induction as arbitrary: e)
  case (Cons b as)
  show ?case
  proof (cases "f b")
    case (Inl x)
    then have "try_addresses f (Some (show_socket_addr b @ '': '' @ x)) as = Inr (a, d)" using Cons.prems by simp
    then obtain pre post where "as = pre @ a # post" "f a = Inr d" "\<forall>b \<in> set pre. \<exists>x. f b = Inl x"
      using Cons.IH by blast
    then have "b # as = (b # pre) @ a # post" "\<forall>c \<in> set (b # pre). \<exists>x. f c = Inl x" using Inl by auto
    then show ?thesis using \<open>f a = Inr d\<close> by blast
  next
    case (Inr y)
    then have "b # as = [] @ a # as" "f a = Inr d" using Cons.prems by auto
    then show ?thesis by fastforce
  qed
qed simp

lemma try_addresses_Inl: "try_addresses f e as = Inl x \<Longrightarrow> \<forall>b \<in> set as. \<exists>y. f b = Inl y"
  by (induction as arbitrary: e) (auto split: sum.splits)

lemma dial_Inr: "dial sha v h = Inr d \<longleftrightarrow> h = Presents d \<and> verify_server_cert sha v d = Inr ()"
  by (auto simp: dial_def split: host.splits sum.splits)

lemma connect_Inr:
  assumes "connect_to_receiver sha net v target = Inr (a, d)"
  shows "\<exists>pre post. target_addrs target = pre @ a # post \<and> net a = Presents d \<and> verify_server_cert sha v d = Inr () \<and>
    (\<forall>b \<in> set pre. \<forall>d'. net b = Presents d' \<longrightarrow> verify_server_cert sha v d' \<noteq> Inr ())"
proof -
  have "try_addresses (\<lambda>a. dial sha v (net a)) None (target_addrs target) = Inr (a, d)"
    using assms by (simp add: connect_to_receiver_def split: if_splits)
  then obtain pre post where p: "target_addrs target = pre @ a # post" "dial sha v (net a) = Inr d"
    "\<forall>b \<in> set pre. \<exists>x. dial sha v (net b) = Inl x"
    using try_addresses_Inr by blast
  have "verify_server_cert sha v d' \<noteq> Inr ()" if "b \<in> set pre" "net b = Presents d'" for b d'
    using p(3) that dial_Inr [of sha v "net b" d'] by fastforce
  then show ?thesis using p(1,2) dial_Inr by blast
qed

lemma connect_Inl:
  assumes "connect_to_receiver sha net v target = Inl e" and "b \<in> set (target_addrs target)" and "net b = Presents d"
  shows "verify_server_cert sha v d \<noteq> Inr ()"
proof -
  have "try_addresses (\<lambda>a. dial sha v (net a)) None (target_addrs target) = Inl e"
    using assms(1,2) by (auto simp: connect_to_receiver_def split: if_splits)
  then obtain x where "dial sha v (net b) = Inl x" using try_addresses_Inl assms(2) by blast
  then show ?thesis using dial_Inr [of sha v "net b" d] assms(3) by auto
qed

lemma control_lit: "list_ex is_control (lit s) \<longleftrightarrow> (\<exists>c \<in> set s. is_control (of_char c))"
  by (auto simp: lit_def list_ex_iff)

lemma hex_not_control:
  assumes "c \<in> set (show_radix 16 n)"
  shows "\<not> is_control (of_char c)"
proof -
  obtain d where "d < 16" "c = digit_char d" using assms show_radix_digits [of 16 c n] by auto
  then show ?thesis by (auto simp: is_control_def digit_char_code)
qed

lemma check_sender_id: "check_name f (openplay_sender_id hash) = Inr ()"
proof -
  let ?h = "show_radix 16 (unat hash)"
  have "unat hash < 16 ^ 16" using unsigned_less [of hash, where ?'a = nat] by simp
  then have "length ?h \<le> 16" by (rule length_show_radix) simp
  moreover have "\<not> list_ex is_control (lit (''openplay-'' @ pad_left 16 ?h))"
    unfolding control_lit using hex_not_control by (auto simp: pad_left_def is_control_def)
  ultimately show ?thesis
    by (simp add: check_name_def openplay_sender_id_def MAX_NAME_CHARS_def lit_def pad_left_def)
qed

lemma check_sanitised: "check_name f (sanitise_display_name name) = Inr ()"
proof -
  let ?c = "take MAX_NAME_CHARS (filter (\<lambda>c. \<not> is_control c) name)"
  have "\<not> list_ex is_control ?c" by (auto simp: list_ex_iff dest: in_set_takeD)
  moreover have "?c \<noteq> []" if "trim ?c \<noteq> []"
  proof
    assume "?c = []"
    then have "trim ?c = trim []" by (rule arg_cong)
    with that show False by (simp add: trim_def)
  qed
  moreover have "check_name f (lit ''OpenPlay Sender'') = Inr ()"
    by (simp add: check_name_def lit_def MAX_NAME_CHARS_def is_control_def)
  ultimately show ?thesis
    by (cases "trim ?c = []") (simp_all add: sanitise_display_name_def Let_def, simp add: check_name_def)
qed

lemma request_valid: "validate (session_request hash cap target) = Inr ()"
  by (simp add: session_request_def check_sender_id check_sanitised check_codecs_def MAX_CODECS_def
      MAX_CODEC_CHARS_def lit_def)

lemma drive_stop_simps [simp]:
  "dr_sent (drive_stop r) = []" "dr_calls (drive_stop r) = []" "dr_outcome (drive_stop r) = r"
  by (simp_all add: drive_stop_def)

text \<open>What the sender says once it streams.\<close>

fun media_message :: "signaling_message \<Rightarrow> bool" where
  "media_message (SdpOffer _) = True"
| "media_message (IceCandidate _ _ _) = True"
| "media_message IceComplete = True"
| "media_message _ = False"

lemma drive_sends_media: "m \<in> set (dr_sent (drive_session evs)) \<Longrightarrow> media_message m"
proof (induction evs rule: drive_session.induct)
  case (2 stop ev evs)
  then show ?case
    by (auto simp: drive_send_def Let_def split: if_splits drive_input.splits webrtc_event.splits
        signaling_message.splits sum.splits)
qed simp

lemma drive_stops: "(True, ev) \<in> set evs \<Longrightarrow> dr_outcome (drive_session evs) \<noteq> None"
proof (induction evs rule: drive_session.induct)
  case (2 stop e evs)
  then show ?case
    by (auto simp: drive_send_def Let_def split: drive_input.splits webrtc_event.splits
        signaling_message.splits sum.splits)
qed simp

lemma wait_stops: "(True, ev) \<in> set evs \<Longrightarrow> wait_for_session_accept evs \<noteq> None"
proof (induction evs rule: wait_for_session_accept.induct)
  case (2 stop e evs)
  then show ?case by (auto split: incoming.splits signaling_message.splits)
qed simp

lemma stream_session_sends:
  assumes "stream_session env = (ms, r)"
  shows "\<exists>media fin. ms = media @ fin \<and> (\<forall>m \<in> set media. media_message m) \<and> fin \<in> {[], [SessionEnd UserStopped]} \<and>
    (env_pipeline env = Inr () \<and> env_start env = Inr () \<and> env_end_sent env \<and> r \<noteq> None \<longrightarrow> fin = [SessionEnd UserStopped])"
proof -
  let ?d = "drive_session (env_driving env)"
  show ?thesis
  proof (cases "env_pipeline env = Inr () \<and> env_start env = Inr ()")
    case True
    then show ?thesis
      using assms drive_sends_media [of _ "env_driving env"]
      by (cases "dr_outcome ?d") (auto simp: stream_session_def Let_def split: if_splits)
  next
    case False
    then have "ms = []" using assms by (auto simp: stream_session_def split: sum.splits)
    then show ?thesis using False by auto
  qed
qed


section \<open>Properties\<close>

text \<open>C9. The sender finds its receiver and nobody else: with the fingerprint of a certificate whose
  digest has 32 bytes, the connection made is to the first advertised address that presents a
  certificate of that digest; if there is none, no connection is made.\<close>

theorem connects_to_pinned_receiver:
  assumes "length (sha der) = 32"
    and "normalise_fingerprint (target_fingerprint target) = normalise_fingerprint (certificate_fingerprint sha der)"
  shows "\<exists>v. client_config_pinned (target_fingerprint target) = Inr v \<and>
    (case connect_to_receiver sha net v target of
       Inr (a, d) \<Rightarrow> sha d = sha der \<and>
         (\<exists>pre post. target_addrs target = pre @ a # post \<and> net a = Presents d \<and>
           (\<forall>b \<in> set pre. \<forall>d'. net b = Presents d' \<longrightarrow> sha d' \<noteq> sha der))
     | Inl e \<Rightarrow> \<forall>b \<in> set (target_addrs target). \<forall>d'. net b = Presents d' \<longrightarrow> sha d' \<noteq> sha der)"
proof -
  obtain v where v: "client_config_pinned (target_fingerprint target) = Inr v"
    and acc: "\<And>d. verify_server_cert sha v d = Inr () \<longleftrightarrow> sha d = sha der"
    using pin_accepts [OF assms] by blast
  have "case connect_to_receiver sha net v target of
       Inr (a, d) \<Rightarrow> sha d = sha der \<and>
         (\<exists>pre post. target_addrs target = pre @ a # post \<and> net a = Presents d \<and>
           (\<forall>b \<in> set pre. \<forall>d'. net b = Presents d' \<longrightarrow> sha d' \<noteq> sha der))
     | Inl e \<Rightarrow> \<forall>b \<in> set (target_addrs target). \<forall>d'. net b = Presents d' \<longrightarrow> sha d' \<noteq> sha der"
  proof (cases "connect_to_receiver sha net v target")
    case (Inl e)
    then show ?thesis using connect_Inl [OF Inl] by (simp add: acc)
  next
    case (Inr c)
    then show ?thesis using connect_Inr [of sha net v target "fst c" "snd c"] by (simp add: acc split_beta) blast
  qed
  with v show ?thesis by blast
qed

definition demo_target :: openplay_target where
  "demo_target = \<lparr> target_addrs = [(V4 1, 7290), (V4 2, 7290)],
     target_fingerprint = certificate_fingerprint (sha256 demo_lib) [1, 2, 3], target_display_name = lit ''Laptop'' \<rparr>"

definition demo_net :: "socket_addr \<Rightarrow> host" where
  "demo_net a = (if a = (V4 1, 7290) then Presents [9] else if a = (V4 2, 7290) then Presents [1, 2, 3] else Silent)"

theorem connects_to_pinned_receiver_witness:
  "\<exists>v. client_config_pinned (target_fingerprint demo_target) = Inr v \<and>
     (\<exists>d. connect_to_receiver (sha256 demo_lib) demo_net v demo_target = Inr ((V4 2, 7290), d))"
proof -
  have sha: "length (sha256 demo_lib [1, 2, 3]) = 32" "sha256 demo_lib [9] \<noteq> sha256 demo_lib [1, 2, 3]"
    by (simp_all add: demo_lib_def)
  have n: "normalise_fingerprint (target_fingerprint demo_target) =
    normalise_fingerprint (certificate_fingerprint (sha256 demo_lib) [1, 2, 3])" by (simp add: demo_target_def)
  obtain v where v: "client_config_pinned (target_fingerprint demo_target) = Inr v"
    and c: "case connect_to_receiver (sha256 demo_lib) demo_net v demo_target of
       Inr (a, d) \<Rightarrow> sha256 demo_lib d = sha256 demo_lib [1, 2, 3] \<and>
         (\<exists>pre post. target_addrs demo_target = pre @ a # post \<and> demo_net a = Presents d \<and>
           (\<forall>b \<in> set pre. \<forall>d'. demo_net b = Presents d' \<longrightarrow> sha256 demo_lib d' \<noteq> sha256 demo_lib [1, 2, 3]))
     | Inl e \<Rightarrow> \<forall>b \<in> set (target_addrs demo_target). \<forall>d'. demo_net b = Presents d' \<longrightarrow>
         sha256 demo_lib d' \<noteq> sha256 demo_lib [1, 2, 3]"
    using connects_to_pinned_receiver [OF sha(1) n, of demo_net] by blast
  have at: "target_addrs demo_target = [(V4 1, 7290), (V4 2, 7290)]" "demo_net (V4 2, 7290) = Presents [1, 2, 3]"
    "demo_net (V4 1, 7290) = Presents [9]" by (simp_all add: demo_target_def demo_net_def)
  obtain r where "connect_to_receiver (sha256 demo_lib) demo_net v demo_target = Inr r"
    using c by (cases "connect_to_receiver (sha256 demo_lib) demo_net v demo_target") (simp_all add: at)
  moreover obtain a d where "r = (a, d)" by (cases r)
  moreover have "a \<in> {(V4 1, 7290), (V4 2, 7290)}" "demo_net a = Presents d"
    "sha256 demo_lib d = sha256 demo_lib [1, 2, 3]"
    using c calculation at(1) by (auto simp: Cons_eq_append_conv)
  ultimately show ?thesis using v at(3) sha(2) by auto
qed

text \<open>Every session request the sender makes is one its receiver admits: whatever the configured
  name, the message passes \<open>validate\<close>.\<close>

theorem session_request_admitted:
  "validate (session_request hash cap target) = Inr ()"
  by (rule request_valid)

text \<open>C10. The sender asks before it offers and ends what it began: it says nothing unless it reached a
  host whose certificate the pin accepts, its first message is the session request, anything after
  that comes after the receiver's acceptance and is media negotiation, and a stream that was started
  and is over is closed by a \<open>SessionEnd\<close>, the last message.\<close>

theorem sender_asks_before_offering:
  assumes "run_openplay_pipeline env target = (ms, r)" and "ms \<noteq> []"
  shows "\<exists>v a d media fin. client_config_pinned (target_fingerprint target) = Inr v \<and>
    connect_to_receiver (env_sha env) (env_net env) v target = Inr (a, d) \<and> verify_server_cert (env_sha env) v d = Inr () \<and>
    ms = session_request (env_hash env) (env_capture env) target # media @ fin \<and>
    (media @ fin \<noteq> [] \<longrightarrow> wait_for_session_accept (env_waiting env) = Some (Inr ())) \<and>
    (\<forall>m \<in> set media. media_message m) \<and> fin \<in> {[], [SessionEnd UserStopped]} \<and>
    (r \<noteq> None \<and> wait_for_session_accept (env_waiting env) = Some (Inr ()) \<and> env_pipeline env = Inr () \<and>
     env_start env = Inr () \<and> env_end_sent env \<longrightarrow> fin = [SessionEnd UserStopped])"
proof -
  let ?w = "wait_for_session_accept (env_waiting env)"
  let ?req = "session_request (env_hash env) (env_capture env) target"
  obtain v a d where v: "client_config_pinned (target_fingerprint target) = Inr v"
    and c: "connect_to_receiver (env_sha env) (env_net env) v target = Inr (a, d)" and "env_request_sent env"
    using assms by (auto simp: run_openplay_pipeline_def split: sum.splits if_splits)
  then have run: "(ms, r) = (case ?w of None \<Rightarrow> ([?req], None) | Some (Inl e) \<Rightarrow> ([?req], Some (Inl e))
      | Some (Inr _) \<Rightarrow> (case stream_session env of (ms, r) \<Rightarrow> (?req # ms, r)))"
    using assms(1) by (simp add: run_openplay_pipeline_def Let_def split: option.splits sum.splits)
  have ver: "verify_server_cert (env_sha env) v d = Inr ()" using connect_Inr [OF c] by blast
  show ?thesis
  proof (cases "?w = Some (Inr ())")
    case True
    obtain ms' r' where st: "stream_session env = (ms', r')" by (cases "stream_session env")
    with run True have "ms = ?req # ms'" "r = r'" by simp_all
    moreover obtain media fin where "ms' = media @ fin" "\<forall>m \<in> set media. media_message m"
      "fin \<in> {[], [SessionEnd UserStopped]}"
      "env_pipeline env = Inr () \<and> env_start env = Inr () \<and> env_end_sent env \<and> r' \<noteq> None \<longrightarrow> fin = [SessionEnd UserStopped]"
      using stream_session_sends [OF st] by blast
    ultimately show ?thesis using True v c ver
      by (intro exI [of _ v] exI [of _ a] exI [of _ d] exI [of _ media] exI [of _ fin]) simp
  next
    case False
    then have "ms = ?req # [] @ []" using run by (auto split: option.splits sum.splits)
    with False v c ver show ?thesis
      by (intro exI [of _ v] exI [of _ a] exI [of _ d] exI [of _ "[]"]) simp
  qed
qed

definition demo_env :: openplay_env where
  "demo_env = \<lparr> env_sha = sha256 demo_lib, env_net = demo_net, env_hash = 1,
     env_capture = \<lparr> cap_width = 1280, cap_height = 720, cap_framerate = 30, cap_pw_fd = 5, cap_node_id = 42 \<rparr>, env_request_sent = True,
     env_waiting = [(False, Quarter_Second), (False, FromReceiver (SessionAccept (lit ''TV'')
       \<lparr> video_codec = lit ''h264'', audio_codec = None,
          max_bitrate_kbps = 4000, framerate = 30 \<rparr>)), (True, Quarter_Second)],
     env_pipeline = Inr (), env_start = Inr (),
     env_driving = [(False, WebRtcEvent (LocalDescription Offer (lit ''v=0'')) True), (True, DriveTick)],
     env_end_sent = True, env_stop = Inr () \<rparr>"

lemma demo_env_run:
  "fst (run_openplay_pipeline demo_env demo_target) =
     [session_request 1 (env_capture demo_env) demo_target, SdpOffer (lit ''v=0''), SessionEnd UserStopped]"
proof -
  have "length (sha256 demo_lib [1, 2, 3]) = 32" by (simp add: demo_lib_def)
  then obtain v where v: "client_config_pinned (target_fingerprint demo_target) = Inr v"
    and "verify_server_cert (sha256 demo_lib) v [1, 2, 3] = Inr ()"
    using pin_accepts [of "sha256 demo_lib" "[1, 2, 3]" "target_fingerprint demo_target"] by (auto simp: demo_target_def)
  moreover have "(V4 2, 7290) \<in> set (target_addrs demo_target)" "demo_net (V4 2, 7290) = Presents [1, 2, 3]"
    by (simp_all add: demo_target_def demo_net_def)
  ultimately obtain c where "connect_to_receiver (sha256 demo_lib) demo_net v demo_target = Inr c"
    using connect_Inl [of "sha256 demo_lib" demo_net v demo_target] by (meson sumE)
  with v show ?thesis by (simp add: run_openplay_pipeline_def demo_env_def stream_session_def drive_send_def Let_def)
qed

theorem sender_asks_before_offering_witness:
  "\<exists>media fin. fst (run_openplay_pipeline demo_env demo_target) =
     session_request (env_hash demo_env) (env_capture demo_env) demo_target # media @ fin \<and> media @ fin \<noteq> [] \<and>
     (\<forall>m \<in> set media. media_message m) \<and> fin \<in> {[], [SessionEnd UserStopped]}"
proof -
  have "fst (run_openplay_pipeline demo_env demo_target) \<noteq> []" by (simp add: demo_env_run)
  from sender_asks_before_offering [OF surjective_pairing this]
  obtain media fin where "fst (run_openplay_pipeline demo_env demo_target) =
      session_request (env_hash demo_env) (env_capture demo_env) demo_target # media @ fin"
    "\<forall>m \<in> set media. media_message m" "fin \<in> {[], [SessionEnd UserStopped]}" by blast
  moreover from this(1) have "media @ fin \<noteq> []" unfolding demo_env_run by (metis list.distinct(1) list.inject)
  ultimately show ?thesis by blast
qed

text \<open>Stop always works: if the stop flag is seen raised in some iteration of the wait and in some
  iteration of the session loop, the cast is over, and when nothing else ended the wait first the
  status shown is that it was stopped.\<close>

theorem stop_ends_the_cast:
  assumes "(True, ev) \<in> set (env_waiting env)" and "(True, ev') \<in> set (env_driving env)"
  shows "snd (run_openplay_pipeline env target) \<noteq> None \<and>
    (wait_for_session_accept quiet = None \<longrightarrow>
      (\<exists>e. wait_for_session_accept (quiet @ [(True, ev)]) = Some (Inl e) \<and>
        cast_outcome (Joined (Inl e)) = ''Casting stopped''))"
proof -
  have "snd (stream_session env) \<noteq> None"
    using drive_stops [OF assms(2)] by (auto simp: stream_session_def Let_def split: sum.splits option.splits)
  then have "snd (run_openplay_pipeline env target) \<noteq> None"
    using wait_stops [OF assms(1)]
    by (auto simp: run_openplay_pipeline_def Let_def split: sum.splits option.splits prod.splits)
  moreover have "wait_for_session_accept (quiet @ [(True, ev)]) = Some (Inl STOPPED)"
    if "wait_for_session_accept quiet = None"
    using that by (induction quiet rule: wait_for_session_accept.induct)
      (auto split: if_splits incoming.splits signaling_message.splits)
  moreover have "cast_outcome (Joined (Inl STOPPED)) = ''Casting stopped''"
    using contains_append [of "''stopped by user''" "''Casting ''" "[]"] by (simp add: cast_outcome_def STOPPED_def)
  ultimately show ?thesis by blast
qed

theorem stop_ends_the_cast_witness:
  "snd (run_openplay_pipeline demo_env demo_target) \<noteq> None \<and>
   (\<exists>e. wait_for_session_accept [(False, Quarter_Second), (True, Quarter_Second)] = Some (Inl e) \<and>
     cast_outcome (Joined (Inl e)) = ''Casting stopped'')"
  using stop_ends_the_cast [of Quarter_Second demo_env DriveTick demo_target "[(False, Quarter_Second)]"]
  by (simp add: demo_env_def)

end
