(* ===== verification/Media.thy ===== *)
theory Media
  imports Pipelines Receiver_Net
begin

text \<open>
  The WebRTC layer and the receiving end of the media, \<open>webrtc.rs\<close> and \<open>receiver_pipeline.rs\<close> of
  \<open>openplay-pipeline/src\<close>. A peer is its role, the requests \<open>webrtcbin\<close> has not answered yet and the
  trace of what it did: calls on the element and events for the session layer, in order. The
  element's signals and promise replies are the inputs. A decoded sample is its dimensions,
  stride and bytes.

  The lemmas show that only the offerer offers and only the answerer answers, that a description
  is committed before it is published, and that a frame is packed tightly.
\<close>

section \<open>The WebRTC peer\<close>

datatype role = Offerer | Answerer

datatype bin_call =
    CreateDescription sdp_kind
  | SetLocalDescription sdp_kind ustr
  | SetRemoteDescription sdp_kind ustr
  | AddCandidate u32 ustr
  | SetStunServer string

datatype trace_item = Call bin_call | Event webrtc_event

record webrtc_peer =
  peer_role :: role
  requests :: "sdp_kind list"
  trace :: "trace_item list"

definition peer_new :: "role \<Rightarrow> webrtc_peer" where
  "peer_new r = \<lparr> peer_role = r, requests = [], trace = [] \<rparr>"

definition emit :: "trace_item \<Rightarrow> webrtc_peer \<Rightarrow> webrtc_peer" where
  "emit t p = p\<lparr> trace := trace p @ [t] \<rparr>"

definition field :: "sdp_kind \<Rightarrow> string" where
  "field k = (case k of Offer \<Rightarrow> ''offer'' | Answer \<Rightarrow> ''answer'')"

definition request_description :: "sdp_kind \<Rightarrow> webrtc_peer \<Rightarrow> webrtc_peer" where
  "request_description k p = emit (Call (CreateDescription k)) (p\<lparr> requests := requests p @ [k] \<rparr>)"

text \<open>What a promise brings: nothing, an error, a reply without the field, or a description and its
  text (or why it has none).\<close>

datatype promise_reply =
    EmptyReply
  | ReplyError string
  | NoField string
  | Described ustr "string + ustr"

definition fail_with :: "string \<Rightarrow> webrtc_peer \<Rightarrow> webrtc_peer" where
  "fail_with msg = emit (Event (PeerFailed (lit msg)))"

definition promise_replies :: "sdp_kind \<Rightarrow> promise_reply \<Rightarrow> webrtc_peer \<Rightarrow> webrtc_peer" where
  "promise_replies k r p =
     (case r of
        EmptyReply \<Rightarrow> fail_with (''create-'' @ field k @ '' returned an empty reply'') p
      | ReplyError e \<Rightarrow> fail_with (''create-'' @ field k @ '' failed: '' @ e) p
      | NoField e \<Rightarrow> fail_with (''create-'' @ field k @ '' reply had no '' @ field k @ '': '' @ e) p
      | Described desc txt \<Rightarrow>
          (let committed = emit (Call (SetLocalDescription k desc)) p
           in case txt of
                Inl e \<Rightarrow> fail_with (''Could not serialize the local '' @ field k @ '': '' @ e) committed
              | Inr sdp \<Rightarrow> emit (Event (LocalDescription k sdp)) committed))"

definition set_remote_description :: "(ustr \<Rightarrow> string option) \<Rightarrow> sdp_kind \<Rightarrow> ustr \<Rightarrow> webrtc_peer \<Rightarrow> pipeline_error + webrtc_peer" where
  "set_remote_description parse_sdp k sdp p =
     (case parse_sdp sdp of
        Some e \<Rightarrow> Inl (SdpError (''Failed to parse remote '' @ (case k of Offer \<Rightarrow> ''Offer'' | Answer \<Rightarrow> ''Answer'') @ '': '' @ e))
      | None \<Rightarrow>
          (let p' = emit (Call (SetRemoteDescription k sdp)) p
           in Inr (if k = Offer \<and> peer_role p = Answerer then request_description Answer p' else p')))"

definition add_ice_candidate :: "u32 \<Rightarrow> ustr \<Rightarrow> webrtc_peer \<Rightarrow> webrtc_peer" where
  "add_ice_candidate i cand = emit (Call (AddCandidate i cand))"

definition set_stun_server :: "string \<Rightarrow> webrtc_peer \<Rightarrow> webrtc_peer" where
  "set_stun_server uri = emit (Call (SetStunServer uri))"

datatype connection_state = NewState | Connecting | Connected | Disconnected | ConnectionFailedState | Closed

fun connection_event :: "connection_state \<Rightarrow> webrtc_event option" where
  "connection_event Connected = Some PeerConnected"
| "connection_event Disconnected = Some PeerDisconnected"
| "connection_event ConnectionFailedState = Some (PeerFailed (lit ''Peer connection failed''))"
| "connection_event Closed = Some (PeerFailed (lit ''Peer connection closed''))"
| "connection_event _ = None"

text \<open>The inputs: the element's signals, the reply to the \<open>i\<close>-th open request, and the calls of the
  session layer.\<close>

datatype peer_input =
    NegotiationNeeded bool
  | PromiseReply nat promise_reply
  | CandidateGathered "u32 option" "ustr option"
  | GatheringState bool
  | ConnectionState connection_state
  | RemoteDescription sdp_kind ustr
  | RemoteCandidate u32 ustr

fun peer_step :: "(ustr \<Rightarrow> string option) \<Rightarrow> peer_input \<Rightarrow> webrtc_peer \<Rightarrow> webrtc_peer" where
  "peer_step parse_sdp (NegotiationNeeded is_element) p =
     (if peer_role p \<noteq> Offerer \<or> \<not> is_element then p else request_description Offer p)"
| "peer_step parse_sdp (PromiseReply i r) p =
     (if i < length (requests p)
      then promise_replies (requests p ! i) r (p\<lparr> requests := take i (requests p) @ drop (Suc i) (requests p) \<rparr>)
      else p)"
| "peer_step parse_sdp (CandidateGathered (Some i) (Some cand)) p = emit (Event (LocalCandidate i cand)) p"
| "peer_step parse_sdp (CandidateGathered _ _) p = p"
| "peer_step parse_sdp (GatheringState complete) p = (if complete then emit (Event IceGatheringComplete) p else p)"
| "peer_step parse_sdp (ConnectionState st) p =
     (case connection_event st of Some e \<Rightarrow> emit (Event e) p | None \<Rightarrow> p)"
| "peer_step parse_sdp (RemoteDescription k sdp) p =
     (case set_remote_description parse_sdp k sdp p of Inl _ \<Rightarrow> p | Inr p' \<Rightarrow> p')"
| "peer_step parse_sdp (RemoteCandidate i cand) p = add_ice_candidate i cand p"

definition peer_run :: "(ustr \<Rightarrow> string option) \<Rightarrow> role \<Rightarrow> peer_input list \<Rightarrow> webrtc_peer" where
  "peer_run parse_sdp r ins = fold (peer_step parse_sdp) ins (peer_new r)"


section \<open>Receiving\<close>

text \<open>A new pad: \<open>None\<close> while it has no caps, else the \<open>media\<close> field of its first structure.\<close>

definition pad_is_video :: "string option option \<Rightarrow> bool" where
  "pad_is_video caps = (case caps of None \<Rightarrow> True | Some media \<Rightarrow> media = Some ''video'')"

definition receiver_pipeline :: "gstreamer \<Rightarrow> pipeline_error + graph" where
  "receiver_pipeline g =
     result_bind (make_element g ''webrtcbin'' ''webrtcbin'' (Some ''recv'') [(''bundle-policy'', FromStr ''max-bundle'')]) (\<lambda>webrtcbin.
     result_bind (gst_call ''Failed to add webrtcbin'' (gst_add g)) (\<lambda>_.
     Inr \<lparr> pl_name = ''openplay-receiver'', pl_elements = [webrtcbin], pl_chain = [], pl_pad_links = [] \<rparr>))"

definition video_appsink :: element where
  "video_appsink = \<lparr> el_factory = ''appsink'', el_name = Some ''video_sink'',
     el_props = [(''max-buffers'', U32 2), (''drop'', Flag True), (''sync'', Flag False)] \<rparr>"

text \<open>What is added behind \<open>webrtcbin\<close> for a video pad; \<open>sync\<close> and \<open>pads\<close>: whether each element
  follows its parent's state and the queue has a sink pad.\<close>

definition link_video_chain ::
  "platform \<Rightarrow> gstreamer \<Rightarrow> (element \<Rightarrow> string option) \<Rightarrow> bool \<Rightarrow> element \<Rightarrow> pipeline_error + graph" where
  "link_video_chain os g sync pads webrtcbin =
     result_bind (leaky_queue g ''queue'' None 3) (\<lambda>queue.
     result_bind (make_element g ''rtph264depay'' ''rtph264depay'' None []) (\<lambda>depay.
     result_bind (make_element g ''h264parse'' ''h264parse'' None []) (\<lambda>parse.
     result_bind (build_decoder_element os g) (\<lambda>decoder.
     result_bind (make_element g ''videoconvert'' ''videoconvert'' None []) (\<lambda>convert.
     result_bind (make_element g ''rgba capsfilter'' ''capsfilter'' None
       [(''caps'', Caps ''video/x-raw'' [(''format'', CStr ''RGBA'')])]) (\<lambda>rgba.
     let chain = [queue, depay, parse, decoder, convert, rgba, video_appsink] in
     result_bind (gst_call ''Failed to add decode chain'' (gst_add g)) (\<lambda>_.
     result_bind (gst_call ''Failed to link decode chain'' (gst_link g)) (\<lambda>_.
     case List.map_filter sync chain of
       e # _ \<Rightarrow> Inl (StateChange (''Failed to sync state: '' @ e))
     | [] \<Rightarrow>
         (if \<not> pads then Inl (Missing ''No sink pad on queue'')
          else result_bind (gst_call ''Failed to link to decode chain'' (gst_pad_link g)) (\<lambda>_.
            Inr \<lparr> pl_name = ''openplay-receiver'', pl_elements = chain, pl_chain = chain,
              pl_pad_links = [(webrtcbin, queue)] \<rparr>))))))))))"

text \<open>A sample: \<open>None\<close> if it has no caps, no buffer, or cannot be mapped as raw video. Sizes are
  computed in 64 bits; a vector cannot have \<open>2 ^ 63\<close> bytes, and slicing out of range panics.\<close>

record mapped_frame =
  mf_width :: u32
  mf_height :: u32
  mf_stride :: "32 word"
  mf_data :: bytes

datatype frame_outcome = Frame video_frame | NoFrame | Panicked

definition usize :: "nat \<Rightarrow> nat" where
  "usize n = n mod 2 ^ 64"

fun copy_rows :: "bytes \<Rightarrow> nat \<Rightarrow> nat \<Rightarrow> nat list \<Rightarrow> bytes \<Rightarrow> bytes option" where
  "copy_rows data stride row_bytes [] rgba = Some rgba"
| "copy_rows data stride row_bytes (row # rows) rgba =
     (let start = usize (row * stride); stop = usize (start + row_bytes)
      in if start \<le> stop \<and> stop \<le> length data
         then copy_rows data stride row_bytes rows (rgba @ take (stop - start) (drop start data))
         else None)"

definition frame_from_sample :: "mapped_frame option \<Rightarrow> frame_outcome" where
  "frame_from_sample sample =
     (case sample of
        None \<Rightarrow> NoFrame
      | Some f \<Rightarrow>
          (let stride = unat (scast (mf_stride f) :: u64);
               row_bytes = unat (mf_width f) * 4;
               total = usize (row_bytes * unat (mf_height f))
           in if total \<ge> 2 ^ 63 then Panicked
              else if stride = row_bytes then
                (if total \<le> length (mf_data f)
                 then Frame \<lparr> vf_width = mf_width f, vf_height = mf_height f, vf_rgba = take total (mf_data f) \<rparr>
                 else Panicked)
              else case copy_rows (mf_data f) stride row_bytes [0..<unat (mf_height f)] [] of
                None \<Rightarrow> NoFrame
              | Some rgba \<Rightarrow> Frame \<lparr> vf_width = mf_width f, vf_height = mf_height f, vf_rgba = rgba \<rparr>))"


section \<open>Lemmas\<close>

lemma copy_rows_exact:
  assumes "copy_rows data stride rb rows acc = Some rgba" and "\<forall>r \<in> set rows. r * stride + rb < 2 ^ 64"
  shows "rgba = acc @ concat (map (\<lambda>r. take rb (drop (r * stride) data)) rows) \<and>
    (\<forall>r \<in> set rows. r * stride + rb \<le> length data)"
  using assms
proof (induction rows arbitrary: acc)
  case (Cons r rows)
  have "usize (r * stride) = r * stride" "usize (r * stride + rb) = r * stride + rb"
    using Cons.prems(2) by (simp_all add: usize_def)
  then have "copy_rows data stride rb rows (acc @ take rb (drop (r * stride) data)) = Some rgba" "r * stride + rb \<le> length data"
    using Cons.prems(1) by (auto simp: Let_def split: if_splits)
  then show ?case using Cons.IH [of "acc @ take rb (drop (r * stride) data)"] Cons.prems(2) by simp
qed simp

lemma row_bound: "y < (n :: nat) \<Longrightarrow> x < k \<Longrightarrow> y * k + x < n * k"
proof -
  assume "y < n" "x < k"
  then have "y * k + x < (y + 1) * k" by simp
  also have "\<dots> \<le> n * k" using \<open>y < n\<close> by (intro mult_le_mono1) simp
  finally show ?thesis .
qed

lemma copy_bound:
  assumes "r < 2 ^ 32" and "s < 2 ^ 31" and "w < (2 :: nat) ^ 32"
  shows "r * s + 4 * w < 2 ^ 64"
proof -
  have "r * s \<le> 2 ^ 32 * 2 ^ 31" using assms by (intro mult_le_mono) auto
  with assms(3) show ?thesis by simp
qed

lemma stride_value:
  assumes "0 \<le> sint (w :: 32 word)"
  shows "unat (scast w :: u64) = nat (sint w)" "nat (sint w) < 2 ^ 31"
proof -
  have b: "sint w < 2 ^ 31" using sint_lt [of w] by simp
  then show "nat (sint w) < 2 ^ 31" using assms by simp
  have "unat (word_of_int i :: u64) = nat i" if "0 \<le> i" "i < 2 ^ 31" for i
    using that by (simp add: unsigned_of_int take_bit_int_eq_self)
  from this [OF assms b] show "unat (scast w :: u64) = nat (sint w)" by simp
qed

lemma length_uniform: "(\<And>r. r < n \<Longrightarrow> length (f r) = k) \<Longrightarrow> length (concat (map f [0..<n])) = n * k"
  by (induction n) auto

lemma concat_uniform:
  "(\<And>r. r < n \<Longrightarrow> length (f r) = k) \<Longrightarrow> y < n \<Longrightarrow> x < k \<Longrightarrow> concat (map f [0..<n]) ! (y * k + x) = f y ! x"
proof (induction n)
  case (Suc n)
  have len: "length (concat (map f [0..<n])) = n * k" using Suc.prems(1) by (intro length_uniform) simp
  show ?case
  proof (cases "y = n")
    case True
    then show ?thesis using len Suc.prems by (simp add: nth_append)
  next
    case False
    then have "y < n" using Suc.prems(2) by simp
    then show ?thesis using Suc row_bound [of y n x k] len by (simp add: nth_append)
  qed
qed simp

text \<open>The kind of description a role makes.\<close>

fun own_kind :: "role \<Rightarrow> sdp_kind" where
  "own_kind Offerer = Offer"
| "own_kind Answerer = Answer"

fun of_role :: "role \<Rightarrow> trace_item \<Rightarrow> bool" where
  "of_role r (Call (CreateDescription k)) = (k = own_kind r)"
| "of_role r (Call (SetLocalDescription k _)) = (k = own_kind r)"
| "of_role r (Event (LocalDescription k _)) = (k = own_kind r)"
| "of_role r _ = True"

fun creates :: "trace_item \<Rightarrow> bool" where
  "creates (Call (CreateDescription _)) = True"
| "creates _ = False"

fun publishes :: "trace_item \<Rightarrow> bool" where
  "publishes (Event (LocalDescription _ _)) = True"
| "publishes _ = False"

fun remote_offer :: "trace_item \<Rightarrow> bool" where
  "remote_offer (Call (SetRemoteDescription Offer _)) = True"
| "remote_offer _ = False"

text \<open>Every published description was committed just before.\<close>

fun commits :: "trace_item option \<Rightarrow> trace_item \<Rightarrow> bool" where
  "commits (Some (Call (SetLocalDescription k' _))) (Event (LocalDescription k _)) = (k' = k)"
| "commits _ (Event (LocalDescription k _)) = False"
| "commits _ _ = True"

fun committed_first :: "trace_item option \<Rightarrow> trace_item list \<Rightarrow> bool" where
  "committed_first prev [] = True"
| "committed_first prev (t # ts) = (commits prev t \<and> committed_first (Some t) ts)"

lemma committed_append:
  "committed_first prev (ts @ us) \<longleftrightarrow>
     committed_first prev ts \<and> committed_first (if ts = [] then prev else Some (last ts)) us"
  by (induction ts arbitrary: prev) auto

lemma commits_other: "\<not> publishes t \<Longrightarrow> commits prev t"
  by (cases t rule: publishes.cases) simp_all

definition peer_inv :: "webrtc_peer \<Rightarrow> bool" where
  "peer_inv p \<longleftrightarrow> list_all (of_role (peer_role p)) (trace p) \<and> list_all ((=) (own_kind (peer_role p))) (requests p) \<and>
     length (filter publishes (trace p)) + length (requests p) \<le> length (filter creates (trace p)) \<and>
     (peer_role p = Answerer \<longrightarrow> length (filter creates (trace p)) = length (filter remote_offer (trace p))) \<and>
     committed_first None (trace p)"

lemma emit_simps [simp]:
  "peer_role (emit t p) = peer_role p" "requests (emit t p) = requests p" "trace (emit t p) = trace p @ [t]"
  by (simp_all add: emit_def)

lemma peer_inv_emit:
  assumes "peer_inv p" and "of_role (peer_role p) t" and "\<not> publishes t" and "\<not> creates t" and "\<not> remote_offer t"
  shows "peer_inv (emit t p)"
  using assms by (simp add: peer_inv_def committed_append commits_other)

lemma fail_with_inv: "peer_inv p \<Longrightarrow> peer_inv (fail_with m p) \<and> peer_role (fail_with m p) = peer_role p"
  by (simp add: fail_with_def peer_inv_emit)

lemma offer_request_inv:
  assumes "peer_inv p" and "peer_role p = Offerer"
  shows "peer_inv (request_description Offer p)"
  using assms by (simp add: peer_inv_def request_description_def committed_append)

lemma remote_inv:
  assumes "peer_inv p" and "set_remote_description parse_sdp k sdp p = Inr p'"
  shows "peer_inv p' \<and> peer_role p' = peer_role p"
  using assms
  by (cases k; cases "peer_role p")
    (auto simp: set_remote_description_def request_description_def peer_inv_def committed_append Let_def split: option.splits)

lemma promise_inv:
  assumes "peer_inv p" and "i < length (requests p)"
  shows "peer_inv (promise_replies (requests p ! i) r (p\<lparr> requests := take i (requests p) @ drop (Suc i) (requests p) \<rparr>)) \<and>
    peer_role (promise_replies (requests p ! i) r (p\<lparr> requests := take i (requests p) @ drop (Suc i) (requests p) \<rparr>)) = peer_role p"
proof -
  let ?q = "p\<lparr> requests := take i (requests p) @ drop (Suc i) (requests p) \<rparr>"
  have k: "requests p ! i = own_kind (peer_role p)" using assms by (auto simp: peer_inv_def list_all_length)
  have len: "length (requests ?q) + 1 = length (requests p)" using assms(2) by simp
  have "list_all ((=) (own_kind (peer_role p))) (requests ?q)"
    using assms(1) by (auto simp: peer_inv_def list_all_iff dest: in_set_takeD in_set_dropD)
  then have q: "peer_inv ?q" "length (filter publishes (trace ?q)) + length (requests ?q) + 1 \<le> length (filter creates (trace ?q))"
    using assms(1) len by (auto simp: peer_inv_def)
  show ?thesis
  proof (cases r)
    case (Described desc body)
    let ?c = "emit (Call (SetLocalDescription (requests p ! i) desc)) ?q"
    have c: "peer_inv ?c" by (rule peer_inv_emit [OF q(1)]) (simp_all add: k)
    moreover have "peer_inv (emit (Event (LocalDescription (requests p ! i) sdp)) ?c)" for sdp
      using c q(2) k by (simp add: peer_inv_def committed_append)
    ultimately show ?thesis using fail_with_inv [OF c]
      by (simp add: promise_replies_def Described Let_def split: sum.splits)
  qed (use fail_with_inv [OF q(1)] in \<open>simp_all add: promise_replies_def\<close>)
qed

lemma connection_event_inv: "connection_event st = Some e \<Longrightarrow> peer_inv p \<Longrightarrow> peer_inv (emit (Event e) p)"
  by (cases st) (auto intro!: peer_inv_emit)

lemma peer_inv_step:
  assumes "peer_inv p"
  shows "peer_inv (peer_step parse_sdp i p) \<and> peer_role (peer_step parse_sdp i p) = peer_role p"
proof (cases i)
  case (NegotiationNeeded e)
  then show ?thesis using assms offer_request_inv [of p] by (auto simp: request_description_def)
next
  case (PromiseReply j r)
  then show ?thesis using assms promise_inv [of p j r] by auto
next
  case (CandidateGathered c d)
  then show ?thesis using assms by (cases c; cases d) (auto intro: peer_inv_emit)
next
  case (ConnectionState st)
  then show ?thesis using assms by (auto split: option.splits intro: connection_event_inv)
next
  case (RemoteDescription k sdp)
  then show ?thesis using assms remote_inv [of p] by (auto split: sum.splits)
qed (use assms in \<open>auto simp: add_ice_candidate_def intro!: peer_inv_emit\<close>)

lemma peer_inv_run: "peer_inv (peer_run parse_sdp r ins) \<and> peer_role (peer_run parse_sdp r ins) = r"
proof (induction ins rule: rev_induct)
  case Nil
  show ?case by (simp add: peer_run_def peer_new_def peer_inv_def)
next
  case (snoc i ins)
  then show ?case using peer_inv_step [of "peer_run parse_sdp r ins" parse_sdp i] by (simp add: peer_run_def)
qed


section \<open>Properties\<close>

text \<open>C29. Exactly one end offers: whatever the element signals, replies and is told, an offerer creates,
  commits and publishes only offers and an answerer only answers; nothing is published that was
  not committed as the local description immediately before; and an answerer has published at
  most as many answers as it was given remote offers.\<close>

theorem one_side_offers:
  "let p = peer_run parse_sdp r ins in
   list_all (of_role r) (trace p) \<and> committed_first None (trace p) \<and>
   length (filter publishes (trace p)) \<le> length (filter creates (trace p)) \<and>
   (r = Answerer \<longrightarrow> length (filter publishes (trace p)) \<le> length (filter remote_offer (trace p)))"
  using peer_inv_run [of parse_sdp r ins] by (auto simp: peer_inv_def Let_def)

theorem one_side_offers_witness:
  "let p = peer_run (\<lambda>_. None) Answerer [NegotiationNeeded True, RemoteDescription Offer (lit ''v=0''), PromiseReply 0 (Described (lit ''v=0'') (Inr (lit ''v=0'')))]
   in publishes (last (trace p)) \<and> length (filter publishes (trace p)) \<le> length (filter remote_offer (trace p))"
proof -
  let ?ins = "[NegotiationNeeded True, RemoteDescription Offer (lit ''v=0''), PromiseReply 0 (Described (lit ''v=0'') (Inr (lit ''v=0'')))]"
  have "publishes (last (trace (peer_run (\<lambda>_. None) Answerer ?ins)))"
    by (simp add: peer_run_def peer_new_def set_remote_description_def request_description_def promise_replies_def)
  with one_side_offers [of "\<lambda>_. None" Answerer ?ins] show ?thesis unfolding Let_def by blast
qed

text \<open>C30. A frame that reaches the window is what its type promises: the dimensions of the sample,
  exactly four bytes for each pixel, and every byte of every row the one found at that row's
  stride in the mapped buffer, for every stride that is not negative.\<close>

theorem decoded_frame_is_packed:
  assumes "frame_from_sample (Some f) = Frame v" and "0 \<le> sint (mf_stride f)"
    and "4 * unat (mf_width f) * unat (mf_height f) < 2 ^ 63"
  shows "vf_width v = mf_width f \<and> vf_height v = mf_height f \<and>
    length (vf_rgba v) = 4 * unat (mf_width f) * unat (mf_height f) \<and>
    (\<forall>y x. y < unat (mf_height f) \<and> x < 4 * unat (mf_width f) \<longrightarrow>
      vf_rgba v ! (y * (4 * unat (mf_width f)) + x) = mf_data f ! (y * nat (sint (mf_stride f)) + x))"
proof -
  let ?h = "unat (mf_height f)" and ?rb = "4 * unat (mf_width f)" and ?s = "nat (sint (mf_stride f))"
  have stride: "unat (scast (mf_stride f) :: u64) = ?s" "?s < 2 ^ 31" using stride_value [OF assms(2)] by auto
  have total: "usize (?rb * ?h) = ?rb * ?h" using assms(3) by (simp add: usize_def)
  show ?thesis
  proof (cases "?s = ?rb")
    case True
    then have "vf_width v = mf_width f" "vf_height v = mf_height f" "vf_rgba v = take (?rb * ?h) (mf_data f)"
      "?rb * ?h \<le> length (mf_data f)"
      using assms(1) stride total by (auto simp: frame_from_sample_def Let_def mult.commute split: if_splits)
    moreover have "y * ?rb + x < ?rb * ?h" if "y < ?h" "x < ?rb" for x y
      using row_bound [OF that] by (simp add: mult.commute)
    ultimately show ?thesis using True by simp
  next
    case False
    then obtain rgba where copy: "copy_rows (mf_data f) ?s ?rb [0..<?h] [] = Some rgba"
      and v: "v = \<lparr> vf_width = mf_width f, vf_height = mf_height f, vf_rgba = rgba \<rparr>"
      using assms(1) stride total by (auto simp: frame_from_sample_def Let_def mult.commute split: if_splits option.splits)
    have "r * ?s + ?rb < 2 ^ 64" if "r < ?h" for r
      using copy_bound [of r ?s "unat (mf_width f)"] that stride(2) unsigned_less [of "mf_height f", where 'a = nat]
        unsigned_less [of "mf_width f", where 'a = nat] by simp
    then have rgba: "rgba = concat (map (\<lambda>r. take ?rb (drop (r * ?s) (mf_data f))) [0..<?h])"
      and fits: "\<And>r. r < ?h \<Longrightarrow> r * ?s + ?rb \<le> length (mf_data f)"
      using copy_rows_exact [OF copy] by auto
    have len: "length (take ?rb (drop (r * ?s) (mf_data f))) = ?rb" if "r < ?h" for r using fits [OF that] by simp
    have "length rgba = ?h * ?rb" unfolding rgba by (rule length_uniform [OF len])
    moreover have "rgba ! (y * ?rb + x) = mf_data f ! (y * ?s + x)" if "y < ?h" "x < ?rb" for x y
      using concat_uniform [OF len that] fits [OF that(1)] that(2) unfolding rgba by simp
    ultimately show ?thesis using v by simp
  qed
qed

theorem decoded_frame_is_packed_witness:
  "length (vf_rgba \<lparr> vf_width = 1, vf_height = 2, vf_rgba = [1, 2, 3, 4, 5, 6, 7, 8] \<rparr>) = 8 \<and>
   frame_from_sample (Some \<lparr> mf_width = 1, mf_height = 2, mf_stride = 6, mf_data = [1, 2, 3, 4, 0, 0, 5, 6, 7, 8] \<rparr>) =
     Frame \<lparr> vf_width = 1, vf_height = 2, vf_rgba = [1, 2, 3, 4, 5, 6, 7, 8] \<rparr>"
proof -
  let ?f = "\<lparr> mf_width = 1, mf_height = 2, mf_stride = 6, mf_data = [1, 2, 3, 4, 0, 0, 5, 6, 7, 8] \<rparr>"
  have f: "frame_from_sample (Some ?f) = Frame \<lparr> vf_width = 1, vf_height = 2, vf_rgba = [1, 2, 3, 4, 5, 6, 7, 8] \<rparr>"
    by (simp add: frame_from_sample_def usize_def upt_rec)
  from decoded_frame_is_packed [OF this] f show ?thesis by simp
qed

end
