(* ===== verification/Receiver_Window.thy ===== *)
theory Receiver_Window
  imports Media
begin

text \<open>
  The receiver's window, \<open>openplay-receiver/src/window.rs\<close>, and what it has to do with the session
  loop. The window and the loop share the status cell and the frame slot, and the window's
  buttons send decisions to the loop over an unbounded channel: a run is any interleaving of loop
  events, of the loop taking a decision off the channel, and of repaints with or without a click.

  The texture library is a parameter: \<open>upload\<close> makes a texture of a frame, \<open>None\<close> if it refuses the
  pixels (\<open>ColorImage::from_rgba_unmultiplied\<close> asserts that there are four bytes for each pixel).
  The lines of a page are in \<open>Receiver_Pages\<close>. The lemmas show what is on the screen at every repaint.
\<close>

section \<open>The window\<close>

record 'tex receiver_window =
  w_config :: app_config
  texture :: "'tex option"
  texture_sequence :: u64

definition window_new :: "app_config \<Rightarrow> 'tex receiver_window" where
  "window_new cfg = \<lparr> w_config = cfg, texture = None, texture_sequence = 0 \<rparr>"

text \<open>A shared cell is \<open>None\<close> if the network side never started, \<open>Some None\<close> if its lock is poisoned.\<close>

type_synonym 'a shared = "'a option option"

definition STATUS_UNAVAILABLE :: ustr where "STATUS_UNAVAILABLE = lit ''Status unavailable''"

definition NOT_STARTED :: ustr where
  "NOT_STARTED = lit ''Discovery and signaling failed to start '' @ [0x2014] @ lit '' see the log''"

definition current_status :: "status shared \<Rightarrow> status" where
  "current_status shared =
     (case shared of
        Some (Some st) \<Rightarrow> st
      | Some None \<Rightarrow> Failed STATUS_UNAVAILABLE
      | None \<Rightarrow> Failed NOT_STARTED)"

text \<open>\<open>None\<close> is a panic; otherwise the window and the texture to paint.\<close>

definition refresh_texture ::
  "(video_frame \<Rightarrow> 'tex option) \<Rightarrow> frame_slot shared \<Rightarrow> 'tex receiver_window \<Rightarrow>
     ('tex receiver_window \<times> 'tex option) option" where
  "refresh_texture upload shared w =
     (case shared of
        Some (Some slot) \<Rightarrow>
          if fs_sequence slot = texture_sequence w then Some (w, texture w)
          else (case fs_frame slot of
            None \<Rightarrow> Some (w, None)
          | Some f \<Rightarrow> (case upload f of
              None \<Rightarrow> None
            | Some t \<Rightarrow> Some (w\<lparr> texture := Some t, texture_sequence := fs_sequence slot \<rparr>, Some t)))
      | _ \<Rightarrow> Some (w, None))"

datatype 'tex page =
    WaitingPage ustr u16
  | ConsentPage ustr connection_id
  | NegotiatingPage ustr ustr
  | FailedPage ustr ustr
  | SpinnerPage ustr
  | PicturePage 'tex

definition video_page ::
  "(video_frame \<Rightarrow> 'tex option) \<Rightarrow> frame_slot shared \<Rightarrow> ustr \<Rightarrow> 'tex receiver_window \<Rightarrow>
     ('tex receiver_window \<times> 'tex page) option" where
  "video_page upload shared sender_name w =
     (case refresh_texture upload shared w of
        None \<Rightarrow> None
      | Some (w', None) \<Rightarrow> Some (w', SpinnerPage sender_name)
      | Some (w', Some t) \<Rightarrow> Some (w', PicturePage t))"

definition STREAMING_REPAINT_MS :: nat where "STREAMING_REPAINT_MS = 16"
definition IDLE_REPAINT_MS :: nat where "IDLE_REPAINT_MS = 250"

text \<open>One repaint: the window, the page drawn and the milliseconds to the next repaint.\<close>

definition update ::
  "(video_frame \<Rightarrow> 'tex option) \<Rightarrow> status shared \<Rightarrow> frame_slot shared \<Rightarrow> 'tex receiver_window \<Rightarrow>
     ('tex receiver_window \<times> 'tex page \<times> nat) option" where
  "update upload st slot w =
     (let status = current_status st; name = cfg_display_name (w_config w)
      in map_option (\<lambda>(w', p).
             (w', p, case status of Streaming _ \<Rightarrow> STREAMING_REPAINT_MS | _ \<Rightarrow> IDLE_REPAINT_MS))
           (case status of
              Waiting \<Rightarrow> Some (w, WaitingPage name (cfg_port (w_config w)))
            | PendingConsent sender_name c \<Rightarrow> Some (w, ConsentPage sender_name c)
            | Negotiating sender_name \<Rightarrow> Some (w, NegotiatingPage name sender_name)
            | Streaming sender_name \<Rightarrow> video_page upload slot sender_name w
            | Failed reason \<Rightarrow> Some (w, FailedPage name reason)))"

text \<open>The buttons of a page: only the consent page has any.\<close>

fun click :: "'tex page \<Rightarrow> bool \<Rightarrow> decision list" where
  "click (ConsentPage _ c) accept = [\<lparr> d_connection = c, d_accept = accept \<rparr>]"
| "click _ accept = []"


section \<open>The window and the loop together\<close>

datatype ui_event =
    LoopEvent loop_event
  | TakeDecision
  | Repaint "bool option"

record 'tex receiver_ui =
  ui_loop :: session_loop
  ui_window :: "'tex receiver_window"
  ui_decisions :: "decision list"
  ui_panicked :: bool

definition ui_new :: "app_config \<Rightarrow> bool \<Rightarrow> 'tex receiver_ui" where
  "ui_new cfg adv = \<lparr> ui_loop = session_loop_new cfg adv, ui_window = window_new cfg, ui_decisions = [],
     ui_panicked = False \<rparr>"

text \<open>The loop hears of a decision only over the channel.\<close>

definition loop_side :: "loop_event \<Rightarrow> bool" where
  "loop_side e = (case e of Decide _ \<Rightarrow> False | _ \<Rightarrow> True)"

fun ui_step :: "(video_frame \<Rightarrow> 'tex option) \<Rightarrow> 'tex receiver_ui \<Rightarrow> ui_event \<Rightarrow> 'tex receiver_ui \<times> 'tex page option" where
  "ui_step upload u (LoopEvent e) =
     (if loop_side e then u\<lparr> ui_loop := loop_step (ui_loop u) e \<rparr> else u, None)"
| "ui_step upload u TakeDecision =
     (case ui_decisions u of
        [] \<Rightarrow> u
      | d # ds \<Rightarrow> u\<lparr> ui_loop := loop_step (ui_loop u) (Decide d), ui_decisions := ds \<rparr>, None)"
| "ui_step upload u (Repaint choice) =
     (case update upload (Some (Some (status (ui_loop u)))) (Some (Some (frame (ui_loop u)))) (ui_window u) of
        None \<Rightarrow> (u\<lparr> ui_panicked := True \<rparr>, None)
      | Some (w, p, _) \<Rightarrow>
          (u\<lparr> ui_window := w,
              ui_decisions := ui_decisions u @ (case choice of None \<Rightarrow> [] | Some a \<Rightarrow> click p a) \<rparr>, Some p))"

text \<open>A run with its history: the loop events in order, and the pages drawn with what was clicked. A
  panic of the window is the end of the process.\<close>

record 'tex ui_run =
  run_ui :: "'tex receiver_ui"
  run_events :: "loop_event list"
  run_pages :: "('tex page \<times> bool option) list"

definition taken :: "'tex receiver_ui \<Rightarrow> ui_event \<Rightarrow> loop_event list" where
  "taken u e = (case e of
      LoopEvent l \<Rightarrow> if loop_side l then [l] else []
    | TakeDecision \<Rightarrow> (case ui_decisions u of [] \<Rightarrow> [] | d # _ \<Rightarrow> [Decide d])
    | Repaint _ \<Rightarrow> [])"

definition run_step :: "(video_frame \<Rightarrow> 'tex option) \<Rightarrow> 'tex ui_run \<Rightarrow> ui_event \<Rightarrow> 'tex ui_run" where
  "run_step upload r e =
     (if ui_panicked (run_ui r) then r
      else case ui_step upload (run_ui r) e of (u, p) \<Rightarrow>
        \<lparr> run_ui = u, run_events = run_events r @ taken (run_ui r) e,
          run_pages = run_pages r @ (case (p, e) of (Some pg, Repaint choice) \<Rightarrow> [(pg, choice)] | _ \<Rightarrow> []) \<rparr>)"

definition ui_run_of :: "(video_frame \<Rightarrow> 'tex option) \<Rightarrow> app_config \<Rightarrow> bool \<Rightarrow> ui_event list \<Rightarrow> 'tex ui_run" where
  "ui_run_of upload cfg adv es =
     foldl (run_step upload) \<lparr> run_ui = ui_new cfg adv, run_events = [], run_pages = [] \<rparr> es"


section \<open>Lemmas on the loop\<close>

text \<open>Each turn changes the slot at most once, and then counts.\<close>

lemma loop_step_slot:
  "frame (loop_step s e) = frame s \<or> fs_sequence (frame (loop_step s e)) = fs_sequence (frame s) + 1"
  by (auto simp: loop_step_def handler_defs net_defs store_frame_def clear_frame_def
      split: loop_event.split signaling_message.split webrtc_event.split option.split sum.split list.split status.split)

text \<open>The window says it streams only under the name of the session there is.\<close>

definition streaming_inv :: "session_loop \<Rightarrow> bool" where
  "streaming_inv s \<longleftrightarrow>
     (\<forall>n. status s = Streaming n \<longrightarrow> (\<exists>a. active_session s = Some a \<and> a_display_name a = n))"

lemma streaming_step: "streaming_inv s \<Longrightarrow> streaming_inv (loop_step s e)"
  by (auto simp: streaming_inv_def loop_step_def handler_defs net_defs
      split: loop_event.split signaling_message.split webrtc_event.split option.split sum.split list.split status.split)

interpretation streaming: machine "\<lambda>s. \<exists>cfg adv. s = session_loop_new cfg adv" loop_step "\<lambda>_. True" streaming_inv
proof
  show "\<And>s. \<exists>cfg adv. s = session_loop_new cfg adv \<Longrightarrow> streaming_inv s"
    by (auto simp: streaming_inv_def session_loop_new_def Let_def split: option.splits)
qed (rule streaming_step)

lemma loop_run_streaming: "streaming_inv (loop_run cfg adv es)"
  unfolding loop_run_def by (rule streaming.run_inv) (auto simp: list_all_iff)


section \<open>Invariants of a run\<close>

text \<open>The loop of a run is the loop of its events; every decision taken or waiting was clicked on a
  prompt for its connection; the texture, if it has the number of the slot, is the frame's.\<close>

definition clicked :: "('tex page \<times> bool option) list \<Rightarrow> decision \<Rightarrow> bool" where
  "clicked ps d \<longleftrightarrow> (\<exists>n. (ConsentPage n (d_connection d), Some (d_accept d)) \<in> set ps)"

definition decisions_inv :: "app_config \<Rightarrow> bool \<Rightarrow> 'tex ui_run \<Rightarrow> bool" where
  "decisions_inv cfg adv r \<longleftrightarrow> ui_loop (run_ui r) = loop_run cfg adv (run_events r) \<and>
     (\<forall>d. d \<in> set (ui_decisions (run_ui r)) \<or> Decide d \<in> set (run_events r) \<longrightarrow> clicked (run_pages r) d)"

definition texture_inv :: "(video_frame \<Rightarrow> 'tex option) \<Rightarrow> 'tex ui_run \<Rightarrow> bool" where
  "texture_inv upload r \<longleftrightarrow> length (run_events r) < 2 ^ 64 \<longrightarrow> (\<exists>m n. m \<le> n \<and> n \<le> length (run_events r) \<and>
     fs_sequence (frame (ui_loop (run_ui r))) = of_nat n \<and> texture_sequence (ui_window (run_ui r)) = of_nat m \<and>
     (m = n \<longrightarrow> texture (ui_window (run_ui r)) = Option.bind (fs_frame (frame (ui_loop (run_ui r)))) upload))"

lemma clicked_append: "clicked ps d \<Longrightarrow> clicked (ps @ qs) d"
  by (auto simp: clicked_def)

lemma click_on_prompt: "d \<in> set (click p a) \<Longrightarrow> clicked [(p, Some a)] d"
  by (cases p) (auto simp: clicked_def)

lemma decisions_step: "decisions_inv cfg adv r \<Longrightarrow> decisions_inv cfg adv (run_step upload r e)"
proof (cases e)
  case (LoopEvent l)
  assume "decisions_inv cfg adv r"
  with LoopEvent show ?thesis by (auto simp: decisions_inv_def run_step_def taken_def loop_run_snoc loop_side_def)
next
  case TakeDecision
  assume "decisions_inv cfg adv r"
  with TakeDecision show ?thesis
    by (auto simp: decisions_inv_def run_step_def taken_def loop_run_snoc split: list.splits)
next
  case (Repaint choice)
  assume i: "decisions_inv cfg adv r"
  let ?u = "update upload (Some (Some (status (ui_loop (run_ui r))))) (Some (Some (frame (ui_loop (run_ui r))))) (ui_window (run_ui r))"
  show ?thesis
  proof (cases "?u")
    case None
    with i Repaint show ?thesis by (simp add: decisions_inv_def run_step_def taken_def)
  next
    case (Some x)
    obtain w p t where "x = (w, p, t)" by (cases x)
    with Some i Repaint show ?thesis
      by (auto simp: decisions_inv_def run_step_def taken_def clicked_append split: option.splits
          dest!: click_on_prompt [of _ p] intro: clicked_append) (auto simp: clicked_def)
  qed
qed

interpretation decisions: machine
  "\<lambda>r. r = \<lparr> run_ui = ui_new cfg adv, run_events = [], run_pages = [] \<rparr>" "run_step upload" "\<lambda>_. True" "decisions_inv cfg adv"
  for cfg adv upload
proof
  fix r :: "'b ui_run" assume "r = \<lparr> run_ui = ui_new cfg adv, run_events = [], run_pages = [] \<rparr>"
  then show "decisions_inv cfg adv r" by (simp add: decisions_inv_def ui_new_def loop_run_def)
qed (rule decisions_step)

lemma texture_slot:
  assumes "texture_inv upload r" and "ui_loop (run_ui r') = loop_step (ui_loop (run_ui r)) e"
    and "ui_window (run_ui r') = ui_window (run_ui r)" and "run_events r' = run_events r @ [e]"
  shows "texture_inv upload r'"
  unfolding texture_inv_def
proof
  assume "length (run_events r') < 2 ^ 64"
  then obtain m n where i: "m \<le> n" "n \<le> length (run_events r)" "fs_sequence (frame (ui_loop (run_ui r))) = of_nat n"
    "texture_sequence (ui_window (run_ui r)) = of_nat m"
    "m = n \<longrightarrow> texture (ui_window (run_ui r)) = Option.bind (fs_frame (frame (ui_loop (run_ui r)))) upload"
    using assms(1,4) unfolding texture_inv_def by auto
  let ?k = "if frame (ui_loop (run_ui r')) = frame (ui_loop (run_ui r)) then n else Suc n"
  have "fs_sequence (frame (ui_loop (run_ui r'))) = of_nat ?k"
    using loop_step_slot [of "ui_loop (run_ui r)" e] i(3) assms(2) by (auto simp: add.commute)
  then show "\<exists>m n. m \<le> n \<and> n \<le> length (run_events r') \<and>
     fs_sequence (frame (ui_loop (run_ui r'))) = of_nat n \<and> texture_sequence (ui_window (run_ui r')) = of_nat m \<and>
     (m = n \<longrightarrow> texture (ui_window (run_ui r')) = Option.bind (fs_frame (frame (ui_loop (run_ui r')))) upload)"
    using i assms(3,4) by (intro exI [of _ m] exI [of _ ?k]) auto
qed

text \<open>A repaint: the picture is the frame's, and the texture keeps up.\<close>

lemma refresh_current:
  assumes "texture_inv upload r" and "length (run_events r) < 2 ^ 64"
    and "refresh_texture upload (Some (Some (frame (ui_loop (run_ui r))))) (ui_window (run_ui r)) = Some (w, t)"
  shows "t = Option.bind (fs_frame (frame (ui_loop (run_ui r)))) upload \<and>
    (w = ui_window (run_ui r) \<or>
     texture_sequence w = fs_sequence (frame (ui_loop (run_ui r))) \<and>
     texture w = Option.bind (fs_frame (frame (ui_loop (run_ui r)))) upload)"
proof -
  obtain m n where i: "m \<le> n" "n \<le> length (run_events r)" "fs_sequence (frame (ui_loop (run_ui r))) = of_nat n"
    "texture_sequence (ui_window (run_ui r)) = of_nat m"
    "m = n \<longrightarrow> texture (ui_window (run_ui r)) = Option.bind (fs_frame (frame (ui_loop (run_ui r)))) upload"
    using assms(1,2) unfolding texture_inv_def by auto
  have "unat (of_nat n :: u64) = n" "unat (of_nat m :: u64) = m" using i(1,2) assms(2) by (auto simp: unat_of_nat)
  then have "(of_nat n :: u64) = of_nat m \<longleftrightarrow> m = n" by metis
  with i assms(3) show ?thesis by (auto simp: refresh_texture_def split: if_splits option.splits)
qed

lemma texture_repaint:
  assumes "texture_inv upload r" and "ui_loop (run_ui r') = ui_loop (run_ui r)" and "run_events r' = run_events r"
    and "ui_window (run_ui r') = ui_window (run_ui r) \<or>
     texture_sequence (ui_window (run_ui r')) = fs_sequence (frame (ui_loop (run_ui r))) \<and>
     texture (ui_window (run_ui r')) = Option.bind (fs_frame (frame (ui_loop (run_ui r)))) upload"
  shows "texture_inv upload r'"
  using assms unfolding texture_inv_def by (metis order_refl)

lemma texture_step:
  assumes "texture_inv upload r" shows "texture_inv upload (run_step upload r e)"
proof (cases "ui_panicked (run_ui r)")
  case False
  show ?thesis
  proof (cases e)
    case (LoopEvent l)
    show ?thesis
    proof (cases "loop_side l")
      case True
      then show ?thesis using LoopEvent False by (intro texture_slot [OF assms, of _ l]) (simp_all add: run_step_def taken_def)
    qed (use LoopEvent assms in \<open>simp add: run_step_def taken_def texture_inv_def\<close>)
  next
    case TakeDecision
    show ?thesis
    proof (cases "ui_decisions (run_ui r)")
      case (Cons d ds)
      then show ?thesis using TakeDecision False
        by (intro texture_slot [OF assms, of _ "Decide d"]) (simp_all add: run_step_def taken_def)
    qed (use TakeDecision assms in \<open>simp add: run_step_def taken_def texture_inv_def\<close>)
  next
    case (Repaint choice)
    show ?thesis
    proof (cases "length (run_events r) < 2 ^ 64")
      case True
      show ?thesis
        using Repaint refresh_current [OF assms True]
        by (intro texture_repaint [OF assms])
          (auto simp: run_step_def taken_def update_def video_page_def Let_def
            split: option.splits status.splits prod.splits)
    qed (use Repaint in \<open>simp add: run_step_def taken_def texture_inv_def split: option.splits prod.splits\<close>)
  qed
qed (use assms in \<open>simp add: run_step_def\<close>)

interpretation textures: machine
  "\<lambda>r. \<exists>cfg adv. r = \<lparr> run_ui = ui_new cfg adv, run_events = [], run_pages = [] \<rparr>" "run_step upload" "\<lambda>_. True"
  "texture_inv upload"
  for upload
proof
  fix r :: "'a ui_run" assume "\<exists>cfg adv. r = \<lparr> run_ui = ui_new cfg adv, run_events = [], run_pages = [] \<rparr>"
  then show "texture_inv upload r"
    by (auto simp: texture_inv_def ui_new_def window_new_def session_loop_new_def Let_def)
qed (rule texture_step)

lemma ui_run_inv:
  "decisions_inv cfg adv (ui_run_of upload cfg adv es)" "texture_inv upload (ui_run_of upload cfg adv es)"
  unfolding ui_run_of_def by (rule decisions.run_inv textures.run_inv; auto simp: list_all_iff)+

lemma run_step_grows: "length (run_events (run_step upload r e)) \<le> Suc (length (run_events r))"
  by (simp add: run_step_def taken_def split: prod.split ui_event.split list.split)

lemma run_events_length: "length (run_events (ui_run_of upload cfg adv es)) \<le> length es"
proof (induction es rule: rev_induct)
  case (snoc e es)
  then show ?case
    using run_step_grows [of upload "ui_run_of upload cfg adv es" e] by (simp add: ui_run_of_def)
qed (simp add: ui_run_of_def)

text \<open>Frames that come from the decoder are packed, so the texture library takes them.\<close>

definition packed :: "video_frame \<Rightarrow> bool" where
  "packed f \<longleftrightarrow> length (vf_rgba f) = 4 * unat (vf_width f) * unat (vf_height f)"

definition takes_packed :: "(video_frame \<Rightarrow> 'tex option) \<Rightarrow> bool" where
  "takes_packed upload \<longleftrightarrow> (\<forall>f. packed f \<longrightarrow> upload f \<noteq> None)"

definition decoded :: "video_frame \<Rightarrow> bool" where
  "decoded f \<longleftrightarrow> (\<exists>m. frame_from_sample (Some m) = Frame f \<and> 4 * unat (mf_width m) * unat (mf_height m) < 2 ^ 63)"

lemma usize_span:
  assumes "a < 2 ^ 64" and "b < 2 ^ 64" and "a \<le> usize (a + b)"
  shows "usize (a + b) = a + b"
proof (rule ccontr)
  assume "usize (a + b) \<noteq> a + b"
  then have "2 ^ 64 \<le> a + b" unfolding usize_def using mod_less [of "a + b" "2 ^ 64"] by linarith
  moreover from this assms(1,2) have "(a + b - 2 ^ 64) < 2 ^ 64" by linarith
  ultimately have "usize (a + b) = a + b - 2 ^ 64" unfolding usize_def by (metis le_mod_geq mod_less)
  with assms(2,3) \<open>2 ^ 64 \<le> a + b\<close> show False by linarith
qed

lemma usize_less: "usize n < 2 ^ 64"
  by (simp add: usize_def)

lemma copy_rows_length:
  "copy_rows data stride rb rows acc = Some rgba \<Longrightarrow> rb < 2 ^ 64 \<Longrightarrow> length rgba = length acc + rb * length rows"
proof (induction data stride rb rows acc rule: copy_rows.induct)
  case (2 data stride rb row rows acc)
  let ?start = "usize (row * stride)"
  have fits: "?start \<le> usize (?start + rb)" "usize (?start + rb) \<le> length data"
    and rest: "copy_rows data stride rb rows (acc @ take (usize (?start + rb) - ?start) (drop ?start data)) = Some rgba"
    using 2(2) by (auto simp: Let_def split: if_splits)
  have "usize (?start + rb) = ?start + rb" using usize_span [OF usize_less 2(3) fits(1)] .
  with 2(1) [OF refl refl _ rest 2(3)] fits show ?case by simp
qed simp

lemma decoded_packed: "decoded f \<Longrightarrow> packed f"
proof -
  assume "decoded f"
  then obtain m where m: "frame_from_sample (Some m) = Frame f" "4 * unat (mf_width m) * unat (mf_height m) < 2 ^ 63"
    by (auto simp: decoded_def)
  have "unat (mf_width m) * 4 < 2 ^ 64" using unsigned_less [of "mf_width m", where 'a = nat] by simp
  with m copy_rows_length show ?thesis
    by (fastforce simp: frame_from_sample_def packed_def Let_def usize_def mult.commute split: if_splits option.splits)
qed

definition good_frames :: "ui_event \<Rightarrow> bool" where
  "good_frames e = (case e of LoopEvent (FrameDecoded p f) \<Rightarrow> packed f | _ \<Rightarrow> True)"

definition window_inv :: "'tex ui_run \<Rightarrow> bool" where
  "window_inv r \<longleftrightarrow> \<not> ui_panicked (run_ui r) \<and>
     (\<forall>f. fs_frame (frame (ui_loop (run_ui r))) = Some f \<longrightarrow> packed f)"

lemma loop_step_frame:
  "fs_frame (frame (loop_step s e)) = Some f \<Longrightarrow> fs_frame (frame s) = Some f \<or> (\<exists>p. e = FrameDecoded p f)"
  by (auto simp: loop_step_def handler_defs net_defs store_frame_def clear_frame_def
      split: loop_event.splits signaling_message.splits webrtc_event.splits option.splits sum.splits list.splits
        status.splits if_splits)

lemma window_step:
  assumes "takes_packed upload" and "window_inv r" and "good_frames e"
  shows "window_inv (run_step upload r e)"
proof (cases e)
  case (LoopEvent l)
  then show ?thesis
    using assms(2,3) by (auto simp: window_inv_def run_step_def good_frames_def dest!: loop_step_frame)
next
  case TakeDecision
  then show ?thesis
    using assms(2) by (auto simp: window_inv_def run_step_def split: list.split dest!: loop_step_frame)
next
  case (Repaint choice)
  then show ?thesis
    using assms(1,2)
    by (auto simp: window_inv_def run_step_def update_def video_page_def refresh_texture_def takes_packed_def Let_def
        split: option.splits status.splits prod.splits if_splits)
qed

lemma run_window:
  assumes "takes_packed upload" and "list_all good_frames es"
  shows "window_inv (ui_run_of upload cfg adv es)"
  using assms(2)
proof (induction es rule: rev_induct)
  case (snoc e es)
  then show ?case using window_step [OF assms(1), of "ui_run_of upload cfg adv es" e] by (simp add: ui_run_of_def)
qed (simp add: ui_run_of_def ui_new_def window_inv_def session_loop_new_def Let_def)

lemma approved_clicked:
  assumes "decisions_inv cfg adv r" and "approved (run_events r) c n"
  shows "asked (run_events r) c n \<and> (\<exists>m. (ConsentPage m c, Some True) \<in> set (run_pages r))"
proof -
  obtain h1 d h2 where h: "run_events r = h1 @ Decide d # h2" "d_connection d = c" "d_accept d" "asked h1 c n"
    using assms(2) by (auto simp: approved_def)
  then have "clicked (run_pages r) d" using assms(1) unfolding decisions_inv_def by simp
  with h show ?thesis by (auto simp: clicked_def asked_def)
qed


section \<open>Properties\<close>

text \<open>C2. What is on the screen is the current sender's picture and was allowed on this screen: whenever
  a repaint draws a picture, it is the frame in the slot at that moment and never an older one,
  the session it belongs to streams under its own name, its connection asked for it under that
  name, and a prompt for that very connection was drawn earlier and its button for allowing was
  clicked. (For fewer than 2^64 events, the width of the frame counter.)\<close>

theorem pictures_are_allowed:
  assumes "r = ui_run_of upload cfg adv es" and "length es < 2 ^ 64"
    and "snd (ui_step upload (run_ui r) (Repaint choice)) = Some (PicturePage t)"
  shows "(\<exists>f. fs_frame (frame (ui_loop (run_ui r))) = Some f \<and> upload f = Some t) \<and>
    (\<exists>a n. active_session (ui_loop (run_ui r)) = Some a \<and>
       status (ui_loop (run_ui r)) = Streaming (a_display_name a) \<and>
       asked (run_events r) (a_connection a) (a_display_name a) \<and>
       (ConsentPage n (a_connection a), Some True) \<in> set (run_pages r))"
proof -
  let ?s = "ui_loop (run_ui r)"
  have d: "decisions_inv cfg adv r" and x: "texture_inv upload r" unfolding assms(1) by (rule ui_run_inv)+
  have len: "length (run_events r) < 2 ^ 64" using run_events_length [of upload cfg adv es] assms(2) by (simp add: assms(1))
  have s: "?s = loop_run cfg adv (run_events r)" using d by (simp add: decisions_inv_def)
  obtain n w where n: "status ?s = Streaming n"
    and w: "refresh_texture upload (Some (Some (frame ?s))) (ui_window (run_ui r)) = Some (w, Some t)"
    using assms(3) by (auto simp: update_def current_status_def video_page_def Let_def
        split: option.splits status.splits prod.splits)
  have "\<exists>f. fs_frame (frame ?s) = Some f \<and> upload f = Some t"
    using refresh_current [OF x len w] by (auto simp: bind_eq_Some_conv dest!: sym [of "Some t"])
  moreover obtain a where a: "active_session ?s = Some a" "a_display_name a = n"
    using loop_run_streaming [of cfg adv "run_events r"] n unfolding s streaming_inv_def by blast
  moreover have "approved (run_events r) (a_connection a) (a_display_name a)"
    using loop_run_traced [of cfg adv "run_events r"] a(1) by (simp add: traced_inv_def s)
  ultimately show ?thesis using approved_clicked [OF d] n by metis
qed

definition demo_frame :: video_frame where
  "demo_frame = \<lparr> vf_width = 1, vf_height = 1, vf_rgba = [1, 2, 3, 4] \<rparr>"

definition demo_session :: "ui_event list" where
  "demo_session = [LoopEvent (request_event 1 [98]), Repaint (Some True), TakeDecision,
     LoopEvent (from_conn 1 (SdpOffer [])), LoopEvent (WebRtc PeerConnected), LoopEvent (FrameDecoded 0 demo_frame)]"

lemmas ui_defs = ui_run_of_def run_step_def taken_def ui_new_def window_new_def update_def current_status_def video_page_def
  refresh_texture_def loop_side_def demo_session_def scenario_defs

theorem pictures_are_allowed_witness:
  "\<exists>n. (ConsentPage n 1, Some True) \<in> set (run_pages (ui_run_of Some (default_config None) True demo_session))"
proof -
  let ?r = "ui_run_of Some (default_config None) True demo_session"
  have "snd (ui_step Some (run_ui ?r) (Repaint None)) = Some (PicturePage demo_frame)"
    "map_option a_connection (active_session (ui_loop (run_ui ?r))) = Some 1"
    by (simp_all add: ui_defs store_frame_def)
  with pictures_are_allowed [OF refl, of demo_session Some "default_config None" True None demo_frame] show ?thesis
    by (auto simp: demo_session_def)
qed

text \<open>The window never panics over a picture: whatever the run, as long as the frames come from the
  decoder, every frame that reaches the texture library has four bytes for each pixel, and the
  window goes on painting.\<close>

theorem window_keeps_painting:
  assumes "takes_packed upload" and "\<forall>p f. LoopEvent (FrameDecoded p f) \<in> set es \<longrightarrow> decoded f"
  shows "\<not> ui_panicked (run_ui (ui_run_of upload cfg adv es)) \<and>
    snd (ui_step upload (run_ui (ui_run_of upload cfg adv es)) (Repaint choice)) \<noteq> None"
proof -
  have good: "good_frames e" if "e \<in> set es" for e
    using that assms(2) decoded_packed by (auto simp: good_frames_def split: ui_event.split loop_event.split)
  then have "list_all good_frames (es @ [Repaint choice])" by (auto simp: list_all_iff good_frames_def)
  then have i: "window_inv (ui_run_of upload cfg adv es)" "window_inv (ui_run_of upload cfg adv (es @ [Repaint choice]))"
    using run_window [OF assms(1)] by simp_all
  have "ui_run_of upload cfg adv (es @ [Repaint choice]) = run_step upload (ui_run_of upload cfg adv es) (Repaint choice)"
    by (simp add: ui_run_of_def)
  with i show ?thesis by (auto simp: window_inv_def run_step_def split: option.splits)
qed

theorem window_keeps_painting_witness:
  "snd (ui_step Some (run_ui (ui_run_of Some (default_config None) True demo_session)) (Repaint None)) \<noteq> None"
proof -
  have "frame_from_sample (Some \<lparr> mf_width = 1, mf_height = 1, mf_stride = 4, mf_data = [1, 2, 3, 4] \<rparr>) = Frame demo_frame"
    by (simp add: frame_from_sample_def usize_def demo_frame_def)
  then have "decoded demo_frame" unfolding decoded_def by fastforce
  then have "\<forall>p f. LoopEvent (FrameDecoded p f) \<in> set demo_session \<longrightarrow> decoded f"
    by (auto simp: demo_session_def request_event_def from_conn_def)
  with window_keeps_painting [of Some demo_session] show ?thesis by (simp add: takes_packed_def)
qed

text \<open>The name on the prompt can be exchanged after the click: a sender that repeats its request
  under another name before the loop takes the decision is shown under a name that no prompt ever
  displayed, because a decision carries only the connection.\<close>

theorem allowed_under_another_name:
  "\<exists>es. let r = ui_run_of Some cfg True es in
     (\<exists>a. active_session (ui_loop (run_ui r)) = Some a \<and> a_display_name a = [99]) \<and>
     status (ui_loop (run_ui r)) = Streaming [99] \<and>
     run_pages r = [(ConsentPage [98] 1, Some True)]"
  by (rule exI [of _ "[LoopEvent (request_event 1 [98]), Repaint (Some True), LoopEvent (request_event 1 [99]), TakeDecision,
      LoopEvent (from_conn 1 (SdpOffer [])), LoopEvent (WebRtc PeerConnected)]"])
    (simp add: ui_defs)

end
