(* ===== verification/Receiver_Start.thy ===== *)
theory Receiver_Start
  imports Openplay_Cast Receiver_Window
begin

text \<open>
  Starting a receiver: \<open>start\<close> and \<open>txt_record\<close> of \<open>openplay-receiver/src/net.rs\<close>, the mDNS
  advertiser of \<open>openplay-discovery/src/advertiser.rs\<close> and \<open>run\<close> of \<open>openplay-receiver/src/app.rs\<close>.
  The mDNS daemon, the socket and the runtime are what they answer; what was registered and
  unregistered is the trace of the calls.

  The lemmas show what a receiver that started presents and advertises, and that one that did not
  start leaves nothing registered.
\<close>

section \<open>The advertiser\<close>

definition SERVICE_TYPE :: string where "SERVICE_TYPE = ''_openplay._tcp.local.''"

datatype discovery_error =
    Mdns string
  | Registration string

record registration =
  reg_type :: string
  reg_instance :: string
  reg_host :: string
  reg_addresses :: string
  reg_port :: u16
  reg_properties :: properties
  reg_addr_auto :: bool

datatype mdns_call =
    RegisterService registration
  | UnregisterService string

text \<open>\<open>None\<close> is success.\<close>

record mdns_daemon =
  daemon_error :: "string option"
  service_info_error :: "registration \<Rightarrow> string option"
  register_error :: "registration \<Rightarrow> string option"
  host_name :: "string option"

record receiver_advertiser =
  instance_name :: string

definition advertiser_service :: "mdns_daemon \<Rightarrow> txt_record \<Rightarrow> registration" where
  "advertiser_service md txt =
     \<lparr> reg_type = SERVICE_TYPE, reg_instance = txt_display_name txt,
       reg_host = (case host_name md of Some h \<Rightarrow> h | None \<Rightarrow> ''openplay'') @ ''.local.'',
       reg_addresses = [], reg_port = txt_port txt, reg_properties = to_properties txt, reg_addr_auto = True \<rparr>"

definition advertiser_new :: "mdns_daemon \<Rightarrow> txt_record \<Rightarrow> mdns_call list \<times> (discovery_error + receiver_advertiser)" where
  "advertiser_new md txt =
     (case daemon_error md of
        Some e \<Rightarrow> ([], Inl (Mdns (''Failed to create mDNS daemon: '' @ e)))
      | None \<Rightarrow>
          (let reg = advertiser_service md txt
           in case service_info_error md reg of
                Some e \<Rightarrow> ([], Inl (Registration (''Failed to create service info: '' @ e)))
              | None \<Rightarrow>
                  (case register_error md reg of
                     Some e \<Rightarrow> ([], Inl (Registration (''Failed to register service: '' @ e)))
                   | None \<Rightarrow> ([RegisterService reg],
                       Inr \<lparr> instance_name = txt_display_name txt @ ''.'' @ SERVICE_TYPE \<rparr>))))"

text \<open>Dropping the advertiser stops it.\<close>

definition advertiser_stop :: "receiver_advertiser option \<Rightarrow> mdns_call list" where
  "advertiser_stop a = (case a of None \<Rightarrow> [] | Some x \<Rightarrow> [UnregisterService (instance_name x)])"


section \<open>The network side\<close>

definition txt_record_of :: "app_config \<Rightarrow> string \<Rightarrow> txt_record" where
  "txt_record_of cfg fp =
     \<lparr> txt_version = PROTOCOL_VERSION, txt_display_name = utf8_str (cfg_display_name cfg), txt_capabilities = [],
       txt_video_codecs = ''h264'', txt_audio_codecs = [], txt_resolution = ''1920x1080'',
       txt_max_fps = cfg_framerate cfg, txt_fingerprint = fp, txt_port = cfg_port cfg \<rparr>"

datatype start_error =
    RuntimeFailed string
  | CertificateFailed cert_error
  | TlsConfigFailed tls_error
  | BindFailed string

record start_env =
  runtime_error :: "string option"
  cert_crates :: cert_lib
  file_mask :: u16
  mdns :: mdns_daemon
  bind_error :: "socket_addr \<Rightarrow> string option"

text \<open>What runs once \<open>start\<close> has returned: the advertiser, the bound address, what the server presents,
  and the session loop with the cells it shares with the window.\<close>

record net_handle =
  advertiser :: "receiver_advertiser option"
  bound :: socket_addr
  presents :: "bytes list"
  net_loop :: session_loop

definition bind_signaling :: "(socket_addr \<Rightarrow> string option) \<Rightarrow> u16 \<Rightarrow> string + socket_addr" where
  "bind_signaling err p =
     (if err (V6 0, p) = None then Inr (V6 0, p)
      else case err (V4 0, p) of None \<Rightarrow> Inr (V4 0, p) | Some e \<Rightarrow> Inl e)"

definition net_start :: "start_env \<Rightarrow> app_config \<Rightarrow> fs \<Rightarrow> mdns_call list \<times> (start_error + net_handle) \<times> fs" where
  "net_start env cfg f =
     (case runtime_error env of
        Some e \<Rightarrow> ([], Inl (RuntimeFailed e), f)
      | None \<Rightarrow>
          (case load_or_generate (cert_crates env) (file_mask env) f of
             (Inl e, f') \<Rightarrow> ([], Inl (CertificateFailed e), f')
           | (Inr certs, f') \<Rightarrow>
               (case advertiser_new (mdns env) (txt_record_of cfg (fingerprint certs)) of (calls, adv) \<Rightarrow>
                  (let a = (case adv of Inr x \<Rightarrow> Some x | Inl _ \<Rightarrow> None)
                   in case server_config (cert_crates env) certs of
                        Inl e \<Rightarrow> (calls @ advertiser_stop a, Inl (TlsConfigFailed e), f')
                      | Inr (chain, _) \<Rightarrow>
                          (case bind_signaling (bind_error env) (cfg_port cfg) of
                             Inl e \<Rightarrow> (calls @ advertiser_stop a, Inl (BindFailed e), f')
                           | Inr addr \<Rightarrow> (calls, Inr \<lparr> advertiser = a, bound = addr, presents = chain,
                               net_loop = session_loop_new cfg (a \<noteq> None) \<rparr>, f'))))))"

text \<open>\<open>run\<close>: the window opens whether the network side started or not; this is its first page.\<close>

definition app_first_page :: "(video_frame \<Rightarrow> 'tex option) \<Rightarrow> start_error + net_handle \<Rightarrow> app_config \<Rightarrow> 'tex page option" where
  "app_first_page upload net cfg =
     (let handle = (case net of Inr h \<Rightarrow> Some h | Inl _ \<Rightarrow> None)
      in map_option (\<lambda>(w, p, t). p)
           (update upload (map_option (\<lambda>h. Some (status (net_loop h))) handle)
              (map_option (\<lambda>h. Some (frame (net_loop h))) handle) (window_new cfg)))"


section \<open>Lemmas\<close>

text \<open>The full name under which the daemon keeps a service.\<close>

definition service_fullname :: "registration \<Rightarrow> string" where
  "service_fullname reg = reg_instance reg @ ''.'' @ reg_type reg"

fun still_registered :: "string list \<Rightarrow> mdns_call list \<Rightarrow> string list" where
  "still_registered ns [] = ns"
| "still_registered ns (RegisterService reg # cs) = still_registered (service_fullname reg # ns) cs"
| "still_registered ns (UnregisterService n # cs) = still_registered (removeAll n ns) cs"

lemma advertiser_new_cases:
  "(\<exists>e. advertiser_new md txt = ([], Inl e)) \<or>
   (\<exists>a. advertiser_new md txt = ([RegisterService (advertiser_service md txt)], Inr a) \<and>
     instance_name a = service_fullname (advertiser_service md txt))"
  by (auto simp: advertiser_new_def advertiser_service_def service_fullname_def Let_def split: option.split)

text \<open>Parsing the generated PEM gives the generated certificate back.\<close>

definition pem_parses_back :: "cert_lib \<Rightarrow> bool" where
  "pem_parses_back L \<longleftrightarrow> (\<forall>pem key der. generated L = Some (pem, key, der) \<longrightarrow> pem_certs L pem = Some [der])"

lemma load_or_generate_served:
  assumes "load_or_generate L umask f = (Inr m, f')" and "pem_parses_back L" and "server_config L m = Inr (chain, key)"
  shows "\<exists>rest. chain = cert_der m # rest \<and> fingerprint m = certificate_fingerprint (sha256 L) (cert_der m)"
proof -
  have "parse_first L (cert_pem m) = Inr (cert_der m) \<and> fingerprint m = certificate_fingerprint (sha256 L) (cert_der m)"
    using load_or_generate_cert [OF assms(1)] assms(2) unfolding pem_parses_back_def by blast
  with assms(3) show ?thesis by (auto simp: parse_first_def server_config_def split: option.splits list.splits)
qed

lemma bind_signaling_port: "bind_signaling err p = Inr a \<Longrightarrow> snd a = p"
  by (auto simp: bind_signaling_def split: if_splits option.splits)

lemma net_start_outcome:
  obtains (early) e f' where "net_start env cfg f = ([], Inl e, f')"
  | (failed) md t calls adv e f' where "advertiser_new md t = (calls, adv)"
      "net_start env cfg f = (calls @ advertiser_stop (case adv of Inr x \<Rightarrow> Some x | Inl _ \<Rightarrow> None), Inl e, f')"
  | (running) certs calls adv chain key addr f' where
      "load_or_generate (cert_crates env) (file_mask env) f = (Inr certs, f')"
      "advertiser_new (mdns env) (txt_record_of cfg (fingerprint certs)) = (calls, adv)"
      "server_config (cert_crates env) certs = Inr (chain, key)" "snd addr = cfg_port cfg"
      "net_start env cfg f = (calls, Inr \<lparr> advertiser = (case adv of Inr x \<Rightarrow> Some x | Inl _ \<Rightarrow> None), bound = addr,
         presents = chain, net_loop = session_loop_new cfg ((case adv of Inr x \<Rightarrow> Some x | Inl _ \<Rightarrow> None) \<noteq> None) \<rparr>, f')"
proof (cases "runtime_error env")
  case None
  obtain lg f' where l: "load_or_generate (cert_crates env) (file_mask env) f = (lg, f')" by (meson prod.exhaust)
  show ?thesis
  proof (cases lg)
    case (Inr certs)
    obtain calls adv where a: "advertiser_new (mdns env) (txt_record_of cfg (fingerprint certs)) = (calls, adv)"
      by (meson prod.exhaust)
    show ?thesis
    proof (cases "server_config (cert_crates env) certs")
      case (Inl e)
      with None l Inr a show ?thesis by (intro failed [OF a]) (simp add: net_start_def Let_def)
    next
      case sc: (Inr ck)
      then obtain chain key where ck: "ck = (chain, key)" by (cases ck)
      show ?thesis
      proof (cases "bind_signaling (bind_error env) (cfg_port cfg)")
        case (Inl e)
        with None l Inr a sc ck show ?thesis by (intro failed [OF a]) (simp add: net_start_def Let_def)
      next
        case b: (Inr addr)
        show ?thesis
          using None l Inr a sc ck b bind_signaling_port [OF b]
          by (intro running [of certs f' calls adv chain key addr]) (simp_all add: net_start_def Let_def)
      qed
    qed
  qed (use None l in \<open>auto intro!: early simp: net_start_def\<close>)
qed (auto intro!: early simp: net_start_def)


section \<open>Properties\<close>

text \<open>C36. A receiver is registered exactly while it runs: when starting fails, at whatever point, no
  service of it stays registered, and the window says that it failed to start; when it succeeds
  it is registered under its name, port and fingerprint unless registering failed, in which case
  the window says that it cannot be discovered.\<close>

theorem start_registers_iff_running:
  "case net_start env cfg f of (calls, r, f') \<Rightarrow>
     (case r of
        Inl e \<Rightarrow> still_registered [] calls = [] \<and>
          app_first_page upload r cfg = Some (FailedPage (cfg_display_name cfg) NOT_STARTED)
      | Inr h \<Rightarrow>
          (case advertiser h of
             None \<Rightarrow> calls = [] \<and> app_first_page upload r cfg = Some (FailedPage (cfg_display_name cfg) undiscoverable_reason)
           | Some a \<Rightarrow>
               (\<exists>reg fp. calls = [RegisterService reg] \<and> still_registered [] calls = [instance_name a] \<and>
                  still_registered [] (calls @ advertiser_stop (Some a)) = [] \<and>
                  reg_port reg = snd (bound h) \<and> reg_properties reg = to_properties (txt_record_of cfg fp)) \<and>
               app_first_page upload r cfg = Some (WaitingPage (cfg_display_name cfg) (cfg_port cfg))))"
proof (cases rule: net_start_outcome [of env cfg f])
  case (early e f')
  then show ?thesis by (simp add: app_first_page_def update_def current_status_def window_new_def)
next
  case (failed md t calls adv e f')
  then show ?thesis
    using advertiser_new_cases [of md t]
    by (auto simp: advertiser_stop_def app_first_page_def update_def current_status_def window_new_def)
next
  case (running certs calls adv chain key addr f')
  then show ?thesis
    using advertiser_new_cases [of "mdns env" "txt_record_of cfg (fingerprint certs)"]
    by (auto simp: advertiser_stop_def app_first_page_def update_def current_status_def window_new_def session_loop_new_def
        advertiser_service_def txt_record_of_def)
qed

end
