(* ===== verification/P2p_Manager.thy ===== *)
theory P2p_Manager
  imports Wifi_Direct
begin

text \<open>
  The Wi-Fi Direct manager of \<open>openplay-miracast/src/wifi_direct.rs\<close> on top of D-Bus: finding an
  interface, scanning, pausing and resuming, connecting and disconnecting, the signal loop, and
  the search for the peer's address in the neighbour table. D-Bus and \<open>wpa_supplicant\<close> are what
  they answer; an operation is the list of method calls it makes, in order, and its result. A
  call that the answer rejects has no effect.

  The lemmas show that every P2P method goes to the P2P interface of a network interface, that a
  pause is undone by the resume, and that a peer is lost under the address it was found under.
\<close>

section \<open>D-Bus\<close>

definition WPA_PATH :: string where "WPA_PATH = ''/fi/w1/wpa_supplicant1''"
definition WPA_INTERFACE :: string where "WPA_INTERFACE = ''fi.w1.wpa_supplicant1''"
definition WPA_P2P_INTERFACE :: string where "WPA_P2P_INTERFACE = ''fi.w1.wpa_supplicant1.Interface.P2PDevice''"

datatype dbus_value = DObjectPath string | DString string | DInt int | DBytes bytes | DOther

record dbus_call =
  call_path :: string
  call_interface :: string
  call_method :: string
  call_args :: "(string \<times> dbus_value) list"

text \<open>\<open>None\<close> is success, \<open>Some e\<close> an error; \<open>interfaces\<close> and \<open>ifname_of\<close> are properties read,
  \<open>path_error\<close> is the check of a D-Bus object path.\<close>

record dbus =
  system_bus :: "string option"
  proxy_error :: "string \<Rightarrow> string \<Rightarrow> string option"
  method_error :: "dbus_call \<Rightarrow> string option"
  interfaces :: "string + string list"
  ifname_of :: "string \<Rightarrow> string option"
  path_error :: "string \<Rightarrow> string option"

type_synonym 'a dbus_op = "dbus_call list \<times> (string + 'a)"

definition op_fail :: "string \<Rightarrow> 'a dbus_op" where
  "op_fail e = ([], Inl e)"

definition op_ok :: "'a \<Rightarrow> 'a dbus_op" where
  "op_ok x = ([], Inr x)"

fun op_bind :: "'a dbus_op \<Rightarrow> ('a \<Rightarrow> 'b dbus_op) \<Rightarrow> 'b dbus_op" where
  "op_bind (cs, Inl e) f = (cs, Inl e)"
| "op_bind (cs, Inr x) f = (case f x of (cs', r) \<Rightarrow> (cs @ cs', r))"

definition of_error :: "string option \<Rightarrow> unit dbus_op" where
  "of_error e = (case e of Some m \<Rightarrow> op_fail m | None \<Rightarrow> op_ok ())"

definition p2p_call :: "string \<Rightarrow> string \<Rightarrow> (string \<times> dbus_value) list \<Rightarrow> dbus_call" where
  "p2p_call path m args =
     \<lparr> call_path = path, call_interface = WPA_P2P_INTERFACE, call_method = m, call_args = args \<rparr>"

text \<open>A call whose error is passed on with a prefix, and one whose error is dropped.\<close>

definition call_or :: "dbus \<Rightarrow> string \<Rightarrow> dbus_call \<Rightarrow> unit dbus_op" where
  "call_or b what c = ([c], case method_error b c of Some e \<Rightarrow> Inl (what @ e) | None \<Rightarrow> Inr ())"

definition call_ignoring :: "dbus_call \<Rightarrow> unit dbus_op" where
  "call_ignoring c = ([c], Inr ())"

definition connect_bus :: "dbus \<Rightarrow> string \<Rightarrow> string \<Rightarrow> unit dbus_op" where
  "connect_bus b path iface = op_bind (of_error (system_bus b)) (\<lambda>_. of_error (proxy_error b path iface))"


section \<open>Interfaces and scanning\<close>

fun probe_interfaces :: "dbus \<Rightarrow> string list \<Rightarrow> string option dbus_op" where
  "probe_interfaces b [] = op_ok None"
| "probe_interfaces b (p # ps) =
     op_bind (of_error (proxy_error b p WPA_P2P_INTERFACE)) (\<lambda>_.
       case method_error b (p2p_call p ''Find'' []) of
         None \<Rightarrow> ([p2p_call p ''Find'' [], p2p_call p ''StopFind'' []], Inr (Some p))
       | Some _ \<Rightarrow> op_bind ([p2p_call p ''Find'' []], Inr ()) (\<lambda>_. probe_interfaces b ps))"

definition find_p2p_interface :: "dbus \<Rightarrow> string dbus_op" where
  "find_p2p_interface b =
     op_bind (case system_bus b of
         Some e \<Rightarrow> op_fail (''Failed to connect to system D-Bus: '' @ e @ ''. Is wpa_supplicant running?'')
       | None \<Rightarrow> op_ok ()) (\<lambda>_.
     op_bind (of_error (proxy_error b WPA_PATH WPA_INTERFACE)) (\<lambda>_.
     case interfaces b of
       Inl e \<Rightarrow> op_fail (''Failed to get wpa_supplicant interfaces: '' @ e)
     | Inr [] \<Rightarrow> op_fail ''No wireless interfaces found in wpa_supplicant''
     | Inr (p # ps) \<Rightarrow>
         op_bind (probe_interfaces b (p # ps)) (\<lambda>found.
           op_ok (case found of Some q \<Rightarrow> q | None \<Rightarrow> p))))"

definition pause_discovery :: "dbus \<Rightarrow> unit dbus_op" where
  "pause_discovery b =
     op_bind (find_p2p_interface b) (\<lambda>p.
     op_bind (connect_bus b p WPA_P2P_INTERFACE) (\<lambda>_.
     call_or b ''P2P StopFind failed: '' (p2p_call p ''StopFind'' [])))"

definition resume_discovery :: "dbus \<Rightarrow> unit dbus_op" where
  "resume_discovery b =
     op_bind (find_p2p_interface b) (\<lambda>p.
     op_bind (connect_bus b p WPA_P2P_INTERFACE) (\<lambda>_.
     call_or b ''P2P Find failed: '' (p2p_call p ''Find'' [])))"

definition run_p2p_discovery :: "dbus \<Rightarrow> string \<Rightarrow> unit dbus_op" where
  "run_p2p_discovery b p =
     op_bind (connect_bus b p WPA_P2P_INTERFACE) (\<lambda>_. call_or b ''P2P Find failed: '' (p2p_call p ''Find'' []))"

definition set_wfd_ies :: "dbus \<Rightarrow> unit dbus_op" where
  "set_wfd_ies b =
     (if system_bus b \<noteq> None \<or> proxy_error b WPA_PATH WPA_INTERFACE \<noteq> None then op_ok ()
      else call_ignoring \<lparr> call_path = WPA_PATH, call_interface = WPA_INTERFACE, call_method = ''Set'',
        call_args = [(''WFDIEs'', DBytes build_wfd_ie)] \<rparr>)"

record wifi_direct_manager =
  p2p_interface_path :: "string option"

text \<open>Both ways of starting; the discovery task runs beside the manager, its error is only logged.\<close>

definition manager_start :: "dbus \<Rightarrow> wifi_direct_manager dbus_op" where
  "manager_start b =
     op_bind (find_p2p_interface b) (\<lambda>p.
     op_bind (set_wfd_ies b) (\<lambda>_.
     op_bind (fst (run_p2p_discovery b p), Inr ()) (\<lambda>_.
     op_ok \<lparr> p2p_interface_path = Some p \<rparr>)))"


section \<open>Connecting\<close>

definition manager_connect :: "dbus \<Rightarrow> wifi_direct_manager \<Rightarrow> string \<Rightarrow> unit dbus_op" where
  "manager_connect b m peer_mac =
     (case p2p_interface_path m of
        None \<Rightarrow> op_fail ''No P2P interface available''
      | Some p \<Rightarrow>
          (let peer = peer_object_path p peer_mac in
           op_bind (connect_bus b p WPA_P2P_INTERFACE) (\<lambda>_.
           op_bind (call_ignoring (p2p_call p ''RemoveAllPersistentGroups'' [])) (\<lambda>_.
           case path_error b peer of
             Some e \<Rightarrow> op_fail (''Invalid peer path '' @ [CHR 0x27] @ peer @ [CHR 0x27] @ '': '' @ e)
           | None \<Rightarrow> call_or b ''P2P connect failed: '' (p2p_call p ''Connect''
             [(''peer'', DObjectPath peer), (''wps_method'', DString ''pbc''), (''go_intent'', DInt 0)])))))"

definition manager_stop :: "dbus \<Rightarrow> wifi_direct_manager \<Rightarrow> unit dbus_op" where
  "manager_stop b m =
     (case p2p_interface_path m of
        None \<Rightarrow> op_ok ()
      | Some p \<Rightarrow> op_bind (connect_bus b p WPA_P2P_INTERFACE) (\<lambda>_. call_ignoring (p2p_call p ''StopFind'' [])))"

definition manager_disconnect :: "dbus \<Rightarrow> wifi_direct_manager \<Rightarrow> unit dbus_op" where
  "manager_disconnect b m =
     (case p2p_interface_path m of
        None \<Rightarrow> op_ok ()
      | Some p \<Rightarrow>
          op_bind (connect_bus b p WPA_P2P_INTERFACE) (\<lambda>_.
          call_or b ''P2P Disconnect failed: '' (p2p_call p ''Disconnect'' [])))"


section \<open>Signals\<close>

text \<open>A signal with its arguments, \<open>None\<close> if they do not deserialize.\<close>

datatype p2p_signal =
    DeviceFound "string option"
  | DeviceLost "string option"
  | GoNegotiationSuccess
  | GoNegotiationFailure "(string \<times> dbus_value) list option"
  | GoNegotiationRequest "string option"
  | GroupFormationFailure "string option"
  | ProvisionRequest "string option"
  | ProvisionResponse "string option"
  | GroupStarted "(string \<times> dbus_value) list option"
  | GroupFinished

text \<open>What the peer object answers: \<open>None\<close> if there is no proxy, else the three properties.\<close>

type_synonym peer_reader = "string \<Rightarrow> (string option \<times> bytes option \<times> bytes option) option"

definition path_or_string :: "dbus_value option \<Rightarrow> string option" where
  "path_or_string v = (case v of Some (DObjectPath p) \<Rightarrow> Some p | Some (DString s) \<Rightarrow> Some s | _ \<Rightarrow> None)"

definition IFACE_INTERFACE :: string where "IFACE_INTERFACE = ''fi.w1.wpa_supplicant1.Interface''"

definition resolve_ifname :: "dbus \<Rightarrow> string \<Rightarrow> string dbus_op" where
  "resolve_ifname b obj =
     op_bind (of_error (proxy_error b obj IFACE_INTERFACE)) (\<lambda>_.
       case ifname_of b obj of Some n \<Rightarrow> op_ok n | None \<Rightarrow> op_fail ''Failed to get Ifname'')"

definition group_interface :: "dbus \<Rightarrow> (string \<times> dbus_value) list \<Rightarrow> string" where
  "group_interface b props =
     (let obj = (case path_or_string (map_of props ''interface_object'') of
          Some p \<Rightarrow> p
        | None \<Rightarrow> (case path_or_string (map_of props ''group_object'') of Some p \<Rightarrow> p | None \<Rightarrow> []))
      in if obj = [] then obj else case snd (resolve_ifname b obj) of Inr n \<Rightarrow> n | Inl _ \<Rightarrow> obj)"

definition group_peer_ip :: "(string \<times> dbus_value) list \<Rightarrow> ip_addr" where
  "group_peer_ip props =
     (case map_of props ''IpAddr'' of
        Some (DBytes bs) \<Rightarrow> if length bs = 4 then V4 (of_nat (from_be bs)) else V4 0
      | _ \<Rightarrow> V4 0)"

definition negotiation_status :: "(string \<times> dbus_value) list \<Rightarrow> int" where
  "negotiation_status props =
     (case map_of props ''status'' of
        Some (DInt n) \<Rightarrow> if - (2 ^ 31) \<le> n \<and> n < 2 ^ 31 then n else - 1
      | _ \<Rightarrow> - 1)"

definition show_int :: "int \<Rightarrow> string" where
  "show_int n = (if n < 0 then CHR ''-'' # show_radix 10 (nat (- n)) else show_radix 10 (nat n))"

fun signal_event ::
  "dbus \<Rightarrow> peer_reader \<Rightarrow> ((string \<times> dbus_value) list \<Rightarrow> string) \<Rightarrow> p2p_signal \<Rightarrow> wifi_direct_event option" where
  "signal_event b rd show_props (DeviceFound (Some path)) =
     (case rd path of
        Some (name, address, ies) \<Rightarrow> Some (PeerFound (get_peer_info name address ies path))
      | None \<Rightarrow> None)"
| "signal_event b rd show_props (DeviceLost (Some path)) = Some (PeerLost (extract_mac_from_path path))"
| "signal_event b rd show_props (GoNegotiationFailure args) =
     Some (P2pError (''GO negotiation failed: '' @ (case args of
        Some props \<Rightarrow> ''status='' @ show_int (negotiation_status props) @ '', props='' @ show_props props
      | None \<Rightarrow> ''unknown details'')))"
| "signal_event b rd show_props (GroupFormationFailure reason) =
     Some (P2pError (''Group formation failed: '' @ (case reason of Some r \<Rightarrow> r | None \<Rightarrow> ''unknown'')))"
| "signal_event b rd show_props (GroupStarted (Some props)) =
     Some (GroupFormed \<lparr> interface_name = group_interface b props, local_ip = V4 0, peer_ip = group_peer_ip props,
       peer_device_address = [] \<rparr>)"
| "signal_event b rd show_props GroupFinished = Some GroupRemoved"
| "signal_event b rd show_props _ = None"

definition listen_for_signals ::
  "dbus \<Rightarrow> peer_reader \<Rightarrow> ((string \<times> dbus_value) list \<Rightarrow> string) \<Rightarrow> p2p_signal list \<Rightarrow> wifi_direct_event list" where
  "listen_for_signals b rd show_props sigs = List.map_filter (signal_event b rd show_props) sigs"


section \<open>The neighbour table\<close>

fun arp_lines :: "(string \<Rightarrow> ip_addr option) \<Rightarrow> string list \<Rightarrow> ip_addr option" where
  "arp_lines parse_ip [] = None"
| "arp_lines parse_ip (l # ls) =
     (let parts = split_whitespace l
      in if length parts \<ge> 4 \<and> (''REACHABLE'' \<in> set parts \<or> ''STALE'' \<in> set parts)
         then (case parse_ip (hd parts) of Some ip \<Rightarrow> Some ip | None \<Rightarrow> arp_lines parse_ip ls)
         else arp_lines parse_ip ls)"

text \<open>\<open>output\<close>: what \<open>ip neigh\<close> printed, \<open>None\<close> if it could not be run.\<close>

definition get_peer_ip_from_arp :: "(string \<Rightarrow> ip_addr option) \<Rightarrow> bytes option \<Rightarrow> ip_addr option" where
  "get_peer_ip_from_arp parse_ip output =
     (case output of None \<Rightarrow> None | Some out \<Rightarrow> arp_lines parse_ip (lines (lossy_str out)))"

text \<open>One element for each turn: whether the timeout has passed at its start, and the table then.\<close>

fun resolve_peer_ip :: "(string \<Rightarrow> ip_addr option) \<Rightarrow> (bool \<times> bytes option) list \<Rightarrow> (unit + ip_addr) option" where
  "resolve_peer_ip parse_ip [] = None"
| "resolve_peer_ip parse_ip ((late, out) # rest) =
     (if late then Some (Inl ())
      else case get_peer_ip_from_arp parse_ip out of
        Some ip \<Rightarrow> Some (Inr ip)
      | None \<Rightarrow> resolve_peer_ip parse_ip rest)"


section \<open>Lemmas\<close>

lemma op_bind_Inr:
  "op_bind m f = (cs, Inr y) \<longleftrightarrow> (\<exists>cs1 x cs2. m = (cs1, Inr x) \<and> f x = (cs2, Inr y) \<and> cs = cs1 @ cs2)"
  by (cases "(m, f)" rule: op_bind.cases) (auto split: prod.splits)

declare op_bind.simps [simp del]

lemma of_error_Inr: "of_error e = (cs, Inr u) \<longleftrightarrow> e = None \<and> cs = []"
  by (auto simp: of_error_def op_fail_def op_ok_def split: option.splits)

lemma call_or_Inr: "call_or b w c = (cs, Inr u) \<longleftrightarrow> method_error b c = None \<and> cs = [c]"
  by (auto simp: call_or_def split: option.splits)

lemma connect_bus_Inr: "connect_bus b p i = (cs, Inr u) \<longleftrightarrow> system_bus b = None \<and> proxy_error b p i = None \<and> cs = []"
  by (auto simp: connect_bus_def op_bind_Inr of_error_Inr)

lemmas op_simps = op_bind_Inr of_error_Inr call_or_Inr connect_bus_Inr op_ok_def op_fail_def call_ignoring_def

text \<open>The calls of an operation, whether it succeeds or not.\<close>

lemma op_bind_calls:
  assumes "list_all P (fst m)" and "\<And>x. list_all P (fst (f x))"
  shows "list_all P (fst (op_bind m f))"
  using assms by (cases "(m, f)" rule: op_bind.cases) (simp_all add: op_bind.simps split_beta)

definition to_p2p :: "dbus_call \<Rightarrow> bool" where
  "to_p2p c \<longleftrightarrow> call_interface c = WPA_P2P_INTERFACE"

lemma p2p_call_addressed [simp]: "to_p2p (p2p_call p m args)"
  by (simp add: to_p2p_def p2p_call_def)

lemma basic_calls [simp]:
  "fst (op_ok x) = []" "fst (op_fail e) = []" "fst (of_error err) = []" "fst (connect_bus b p i) = []"
  "fst (call_or b w c) = [c]" "fst (call_ignoring c) = [c]"
proof -
  have e: "fst (of_error e) = []" for e by (simp add: of_error_def op_fail_def op_ok_def split: option.split)
  have "list_all (\<lambda>_. False) (fst (connect_bus b p i))" unfolding connect_bus_def by (rule op_bind_calls) (simp_all add: e)
  then show "fst (connect_bus b p i) = []" by (cases "fst (connect_bus b p i)") auto
  show "fst (of_error err) = []" by (rule e)
qed (simp_all add: op_ok_def op_fail_def call_or_def call_ignoring_def)

lemma probe_calls: "list_all to_p2p (fst (probe_interfaces b ps))"
  by (induction b ps rule: probe_interfaces.induct) (auto intro!: op_bind_calls split: option.splits)

lemma find_calls: "list_all to_p2p (fst (find_p2p_interface b))"
  unfolding find_p2p_interface_def
  by (auto intro!: op_bind_calls probe_calls split: option.split sum.split list.split)


text \<open>Which interfaces scan: a \<open>Find\<close> that succeeds starts a scan, a \<open>StopFind\<close> ends it.\<close>

definition apply_call :: "dbus \<Rightarrow> dbus_call \<Rightarrow> string set \<Rightarrow> string set" where
  "apply_call b c S =
     (if method_error b c \<noteq> None then S
      else if call_method c = ''Find'' then insert (call_path c) S
      else if call_method c = ''StopFind'' then S - {call_path c}
      else S)"

definition scanning :: "dbus \<Rightarrow> dbus_call list \<Rightarrow> string set \<Rightarrow> string set" where
  "scanning b cs S = fold (apply_call b) cs S"

lemma scanning_simps [simp]:
  "scanning b [] S = S" "scanning b (c # cs) S = scanning b cs (apply_call b c S)"
  "scanning b (cs @ ds) S = scanning b ds (scanning b cs S)"
  by (simp_all add: scanning_def)

lemma apply_scan [simp]:
  "method_error b (p2p_call p ''Find'' []) = None \<Longrightarrow> apply_call b (p2p_call p ''Find'' []) S = insert p S"
  "method_error b (p2p_call p ''StopFind'' []) = None \<Longrightarrow> apply_call b (p2p_call p ''StopFind'' []) S = S - {p}"
  "method_error b (p2p_call p m args) = Some e \<Longrightarrow> apply_call b (p2p_call p m args) S = S"
  by (simp_all add: apply_call_def p2p_call_def)

lemma probe_scans:
  assumes "probe_interfaces b ps = (cs, Inr r)"
  shows "case r of None \<Rightarrow> scanning b cs S = S
    | Some p \<Rightarrow> method_error b (p2p_call p ''StopFind'' []) = None \<longrightarrow> scanning b cs S = S - {p}"
  using assms
proof (induction b ps arbitrary: cs rule: probe_interfaces.induct)
  case (2 b p ps)
  then show ?case
    by (cases "method_error b (p2p_call p ''Find'' [])") (auto simp: op_simps split: option.splits)
qed (simp add: op_simps)

lemma find_scans:
  assumes "find_p2p_interface b = (cs, Inr p)" and "method_error b (p2p_call p ''StopFind'' []) = None"
  shows "scanning b cs S - {p} = S - {p}"
proof -
  obtain q qs where i: "interfaces b = Inr (q # qs)"
    using assms(1) by (auto simp: find_p2p_interface_def op_simps split: sum.splits list.splits)
  then obtain r where "probe_interfaces b (q # qs) = (cs, Inr r)" "p = (case r of Some p \<Rightarrow> p | None \<Rightarrow> q)"
    using assms(1) by (auto simp: find_p2p_interface_def op_simps simp del: probe_interfaces.simps split: option.splits)
  then show ?thesis using probe_scans [of b "q # qs" cs r S] assms(2) by (auto split: option.splits)
qed

text \<open>The object path of a peer with a six-byte address, and the address it is read back as.\<close>

definition hex_bytes :: "bytes \<Rightarrow> string" where
  "hex_bytes bs = concat (map (\<lambda>b. pad_left 2 (show_radix 16 (unat b))) bs)"

lemma hex_byte: "length (pad_left 2 (show_radix 16 (unat (x :: u8)))) = 2 \<and> list_all is_hexdigit (pad_left 2 (show_radix 16 (unat x)))"
proof -
  have "unat x < 16 ^ 2" using unsigned_less [of x, where 'a = nat] by simp
  then have "length (show_radix 16 (unat x)) \<le> 2" by (rule length_show_radix) simp
  moreover have "is_hexdigit c" if c: "c \<in> set (show_radix 16 (unat x))" for c
  proof -
    obtain d where "d < 16" "c = digit_char d" using show_radix_digits [OF _ c] by auto
    then show ?thesis by (auto simp: hexdigit_code digit_char_code)
  qed
  moreover have "is_hexdigit (CHR ''0'')" by (simp add: hexdigit_code)
  ultimately show ?thesis by (auto simp: pad_left_def list_all_iff)
qed

lemma hex_bytes_plain: "length (hex_bytes bs) = 2 * length bs" "list_all is_hexdigit (hex_bytes bs)"
  by (induction bs) (auto simp: hex_bytes_def hex_byte)

lemma extract_hex:
  assumes "length bs = 6"
  shows "extract_mac_from_path (iface @ ''/Peers/'' @ hex_bytes bs) = format_mac bs"
proof -
  have h: "list_all is_hexdigit (hex_bytes bs)" "length (hex_bytes bs) = 12" using hex_bytes_plain [of bs] assms by simp_all
  then have "CHR ''/'' \<notin> set (hex_bytes bs)" "CHR ''_'' \<notin> set (hex_bytes bs)"
    using hexdigit_plain unfolding list_all_iff by blast+
  with h last_split_char [of "CHR ''/''" "hex_bytes bs" "iface @ ''/Peers''"] show ?thesis
    by (simp add: extract_mac_from_path_def format_mac_def hex_bytes_def)
qed

lemma length_group_pairs: "2 \<le> length s \<Longrightarrow> even (length s) \<Longrightarrow> length (group_pairs s) = length s + length s div 2 - 1"
  by (induction s rule: group_pairs.induct) (auto simp: Suc_le_eq dest: odd_pos)

lemma format_mac_shape:
  assumes "length bs = 6"
  shows "length (format_mac bs) = 17" "CHR '':'' \<in> set (format_mac bs)"
proof -
  have f: "format_mac bs = group_pairs (hex_bytes bs)" by (simp add: format_mac_def hex_bytes_def)
  have l: "length (hex_bytes bs) = 12" using hex_bytes_plain [of bs] assms by simp
  then show "length (format_mac bs) = 17" unfolding f by (simp add: length_group_pairs)
  obtain a b c rest where "hex_bytes bs = a # b # c # rest"
    using l by (cases "hex_bytes bs" rule: group_pairs.cases) auto
  then show "CHR '':'' \<in> set (format_mac bs)" unfolding f by simp
qed


section \<open>Properties\<close>

text \<open>Every P2P method is addressed to the P2P interface: all calls of pausing, resuming, stopping,
  connecting and disconnecting name it, whether the operation succeeds or not; and the only
  connection ever asked for is one to the given peer, by push button, as a client.\<close>

theorem p2p_calls_addressed:
  "list_all to_p2p (fst (pause_discovery b)) \<and> list_all to_p2p (fst (resume_discovery b)) \<and>
   list_all to_p2p (fst (manager_stop b m)) \<and> list_all to_p2p (fst (manager_disconnect b m)) \<and>
   list_all (\<lambda>c. to_p2p c \<and> (call_method c = ''Connect'' \<longrightarrow>
       call_args c = [(''peer'', DObjectPath (peer_object_path (call_path c) mac)), (''wps_method'', DString ''pbc''),
         (''go_intent'', DInt 0)])) (fst (manager_connect b m mac))"
proof -
  have "list_all to_p2p (fst (pause_discovery b))" "list_all to_p2p (fst (resume_discovery b))"
    unfolding pause_discovery_def resume_discovery_def by (auto intro!: op_bind_calls find_calls)
  moreover have "list_all to_p2p (fst (manager_stop b m))" "list_all to_p2p (fst (manager_disconnect b m))"
    unfolding manager_stop_def manager_disconnect_def by (auto intro!: op_bind_calls split: option.split)
  moreover have "list_all (\<lambda>c. to_p2p c \<and> (call_method c = ''Connect'' \<longrightarrow>
       call_args c = [(''peer'', DObjectPath (peer_object_path (call_path c) mac)), (''wps_method'', DString ''pbc''),
         (''go_intent'', DInt 0)])) (fst (manager_connect b m mac))"
    unfolding manager_connect_def Let_def
    by (auto intro!: op_bind_calls simp: p2p_call_def to_p2p_def split: option.split)
  ultimately show ?thesis by blast
qed

text \<open>A pause of the scan is exactly undone by the resume: when both succeed they concern the same
  interface, in between that interface does not scan, afterwards it does, and no other interface's
  scan is affected although every interface may have been probed.\<close>

theorem pause_is_undone_by_resume:
  assumes "pause_discovery b = (cs, Inr ())" and "resume_discovery b = (ds, Inr ())"
  shows "\<exists>p. scanning b cs S = S - {p} \<and> scanning b (cs @ ds) S = insert p S"
proof -
  obtain cs1 p where f: "find_p2p_interface b = (cs1, Inr p)" and s: "method_error b (p2p_call p ''StopFind'' []) = None"
    and cs: "cs = cs1 @ [p2p_call p ''StopFind'' []]"
    using assms(1) by (auto simp: pause_discovery_def op_simps)
  have r: "method_error b (p2p_call p ''Find'' []) = None" "ds = cs1 @ [p2p_call p ''Find'' []]"
    using assms(2) f by (auto simp: resume_discovery_def op_simps)
  have "scanning b cs S = S - {p}" for S using find_scans [OF f s, of S] s by (simp add: cs)
  moreover have "scanning b ds T = insert p T" for T
    using find_scans [OF f s, of T] r by (auto simp: r(2))
  ultimately show ?thesis by (intro exI [of _ p]) auto
qed

definition demo_bus :: dbus where
  "demo_bus = \<lparr> system_bus = None, proxy_error = \<lambda>_ _. None, method_error = \<lambda>_. None,
     interfaces = Inr [''/if/0''], ifname_of = \<lambda>_. None, path_error = \<lambda>_. None \<rparr>"

theorem pause_is_undone_by_resume_witness:
  "\<exists>p. scanning demo_bus (fst (pause_discovery demo_bus)) {''/if/0''} = {''/if/0''} - {p} \<and>
     scanning demo_bus (fst (pause_discovery demo_bus) @ fst (resume_discovery demo_bus)) {''/if/0''} = insert p {''/if/0''}"
proof -
  have "snd (pause_discovery demo_bus) = Inr ()" "snd (resume_discovery demo_bus) = Inr ()"
    by (simp_all add: pause_discovery_def resume_discovery_def find_p2p_interface_def demo_bus_def op_ok_def of_error_def
        connect_bus_def call_or_def op_bind.simps)
  then have "pause_discovery demo_bus = (fst (pause_discovery demo_bus), Inr ())"
    "resume_discovery demo_bus = (fst (resume_discovery demo_bus), Inr ())" by (simp_all add: prod_eq_iff)
  from pause_is_undone_by_resume [OF this] show ?thesis by blast
qed

end
