(* ===== verification/Fairplay.thy ===== *)
theory Fairplay
  imports Http
begin

text \<open>
  FairPlay set-up, \<open>openplay-airplay/src/fairplay.rs\<close>: the two requests of the handshake, reading
  the answers, the derivation of the stream key, and the stream cipher. The hashes and the AES
  key stream are parameters. No other module calls this one.

  The lemmas show what a completed set-up sent and derived, and that the cipher undoes itself
  however the two sides cut the stream.
\<close>

section \<open>Keys and cipher\<close>

definition FP_TYPE_RESPONSE :: u8 where "FP_TYPE_RESPONSE = 3"
definition FP_VERSION :: u8 where "FP_VERSION = 0x03"

record fairplay_keys =
  aes_key :: bytes
  aes_iv :: bytes

text \<open>\<open>keystream\<close> gives the byte at each position for a key and an initial counter.\<close>

record fairplay_cipher =
  stream_keys :: fairplay_keys
  stream_position :: nat

definition cipher_new :: "fairplay_keys \<Rightarrow> fairplay_cipher" where
  "cipher_new keys = \<lparr> stream_keys = keys, stream_position = 0 \<rparr>"

definition apply_keystream ::
  "(bytes \<Rightarrow> bytes \<Rightarrow> nat \<Rightarrow> u8) \<Rightarrow> bytes \<Rightarrow> fairplay_cipher \<Rightarrow> bytes \<times> fairplay_cipher" where
  "apply_keystream keystream data c =
     (map (\<lambda>(i, b). b XOR keystream (aes_key (stream_keys c)) (aes_iv (stream_keys c)) i)
        (enumerate (stream_position c) data),
      c\<lparr> stream_position := stream_position c + length data \<rparr>)"

definition cipher_encrypt ::
  "(bytes \<Rightarrow> bytes \<Rightarrow> nat \<Rightarrow> u8) \<Rightarrow> bytes \<Rightarrow> fairplay_cipher \<Rightarrow> bytes \<times> fairplay_cipher" where
  "cipher_encrypt keystream data c = apply_keystream keystream data c"

definition cipher_decrypt ::
  "(bytes \<Rightarrow> bytes \<Rightarrow> nat \<Rightarrow> u8) \<Rightarrow> bytes \<Rightarrow> fairplay_cipher \<Rightarrow> bytes \<times> fairplay_cipher" where
  "cipher_decrypt keystream data c = apply_keystream keystream data c"

text \<open>A sequence of calls.\<close>

fun cipher_run ::
  "(bytes \<Rightarrow> fairplay_cipher \<Rightarrow> bytes \<times> fairplay_cipher) \<Rightarrow> bytes list \<Rightarrow> fairplay_cipher \<Rightarrow> bytes list \<times> fairplay_cipher" where
  "cipher_run step [] c = ([], c)"
| "cipher_run step (d # ds) c =
     (case step d c of (e, c') \<Rightarrow> case cipher_run step ds c' of (es, c'') \<Rightarrow> (e # es, c''))"


section \<open>Messages\<close>

definition fply :: bytes where "fply = [0x46, 0x50, 0x4C, 0x59]"

definition FAIRPLAY_SEED :: bytes where
  "FAIRPLAY_SEED =
     [0x41, 0x69, 0x72, 0x50, 0x6C, 0x61, 0x79, 0x2D, 0x46, 0x61, 0x69, 0x72, 0x50, 0x6C, 0x61, 0x79,
      0x2D, 0x53, 0x65, 0x74, 0x75, 0x70, 0x2D, 0x4B, 0x65, 0x79, 0x2D, 0x53, 0x65, 0x65, 0x64, 0x31]"

definition build_setup_message :: bytes where
  "build_setup_message = fply @ [FP_VERSION, 0x01] @ [0x01] @ [0x00] @ replicate 8 0"

definition process_challenge_short :: "(bytes \<Rightarrow> bytes) \<Rightarrow> bytes \<Rightarrow> bytes \<times> bytes \<times> bytes" where
  "process_challenge_short sha512 challenge =
     (let hash = sha512 (challenge @ FAIRPLAY_SEED)
      in (fply @ [FP_VERSION, 0x01, FP_TYPE_RESPONSE, 0x00] @ take 24 (drop 32 hash),
          take 16 hash, take 16 (drop 16 hash)))"

definition process_challenge :: "(bytes \<Rightarrow> bytes) \<Rightarrow> (bytes \<Rightarrow> bytes) \<Rightarrow> bytes \<Rightarrow> bytes \<times> bytes \<times> bytes" where
  "process_challenge sha512 sha256 challenge =
     (if length challenge < 164 then process_challenge_short sha512 challenge
      else
        let server_data = take 128 (drop 12 challenge);
            hash = sha512 (server_data @ FAIRPLAY_SEED);
            proof_bytes = take 20 (sha256 (take 32 hash));
            response = fply @ [FP_VERSION, 0x01] @ [FP_TYPE_RESPONSE] @ [0x00] @ proof_bytes
        in (response @ replicate (164 - length response) 0, take 16 hash, take 16 (drop 16 hash)))"


section \<open>HTTP transport\<close>

datatype fp_error =
    WriteFailed
  | FpClosed
  | FpHttpError string
  | FpClosedMidBody
  | ChallengeTooShort nat

text \<open>The writes go to a connection on which so many more calls succeed: the bytes written, and
  what is left of that number, \<open>None\<close> after a failure.\<close>

fun write_calls :: "nat \<Rightarrow> bytes list \<Rightarrow> bytes \<times> nat option" where
  "write_calls n [] = ([], Some n)"
| "write_calls 0 (b # bs) = ([], None)"
| "write_calls (Suc n) (b # bs) = (case write_calls n bs of (out, r) \<Rightarrow> (b @ out, r))"

definition fp_header :: "bytes \<Rightarrow> bytes" where
  "fp_header body =
     str_bytes (''POST /fp-setup HTTP/1.1'' @ crlf @ ''Content-Type: application/octet-stream'' @ crlf @
       ''Content-Length: '' @ show_radix 10 (length body) @ crlf @ crlf)"

text \<open>The header, the body, and the flush.\<close>

definition send_fp_setup :: "nat \<Rightarrow> bytes \<Rightarrow> bytes \<times> nat option" where
  "send_fp_setup n body = write_calls n [fp_header body, body, []]"

fun fp_length_line :: "string list \<Rightarrow> nat option" where
  "fp_length_line [] = None"
| "fp_length_line (l # ls) =
     (case (case strip_prefix_str ''Content-Length: '' l of
              Some v \<Rightarrow> Some v | None \<Rightarrow> strip_prefix_str ''content-length: '' l) of
        None \<Rightarrow> fp_length_line ls
      | Some v \<Rightarrow> (case from_str_radix 10 (2 ^ 64) (trim_str v) of
          None \<Rightarrow> fp_length_line ls
        | Some n \<Rightarrow> Some n))"

definition fp_status :: "string \<Rightarrow> fp_error + unit" where
  "fp_status headers =
     (case lines headers of
        [] \<Rightarrow> Inr ()
      | first_line # _ \<Rightarrow> if contains ''200'' first_line then Inr () else Inl (FpHttpError first_line))"

fun recv_fp_body :: "nat \<Rightarrow> nat \<Rightarrow> bytes \<Rightarrow> bytes list \<Rightarrow> fp_error + bytes \<times> bytes list" where
  "recv_fp_body body_start n buf [] = Inl FpClosedMidBody"
| "recv_fp_body body_start n buf (c # cs) =
     (if c = [] then Inl FpClosedMidBody
      else let buf' = buf @ c
           in if length buf' - body_start < n then recv_fp_body body_start n buf' cs
              else Inr (take n (drop body_start buf'), cs))"

text \<open>The body and the reads that are left; what a read brought after the body is lost.\<close>

fun recv_fp_setup :: "bytes \<Rightarrow> bytes list \<Rightarrow> fp_error + bytes \<times> bytes list" where
  "recv_fp_setup buf [] = Inl FpClosed"
| "recv_fp_setup buf (c # cs) =
     (if c = [] then Inl FpClosed
      else let buf' = buf @ c
           in case find_header_end buf' of
                None \<Rightarrow> recv_fp_setup buf' cs
              | Some e \<Rightarrow>
                  (let headers = lossy_str (take e buf')
                   in result_bind (fp_status headers) (\<lambda>_.
                        let n = opt_or 0 (fp_length_line (lines headers)); body_start = e + 4
                        in if length buf' - body_start \<ge> n
                           then Inr (take n (drop body_start buf'), cs)
                           else recv_fp_body body_start n buf' cs)))"

text \<open>The bytes written and the outcome.\<close>

definition fp_setup ::
  "(bytes \<Rightarrow> bytes) \<Rightarrow> (bytes \<Rightarrow> bytes) \<Rightarrow> nat \<Rightarrow> bytes list \<Rightarrow> bytes \<times> (fp_error + fairplay_keys)" where
  "fp_setup sha512 sha256 writes reads =
     (case send_fp_setup writes build_setup_message of
        (out1, None) \<Rightarrow> (out1, Inl WriteFailed)
      | (out1, Some writes1) \<Rightarrow>
          (case recv_fp_setup [] reads of
             Inl e \<Rightarrow> (out1, Inl e)
           | Inr (challenge, reads1) \<Rightarrow>
               if length challenge < 4 then (out1, Inl (ChallengeTooShort (length challenge)))
               else case process_challenge sha512 sha256 challenge of (response, key, iv) \<Rightarrow>
                 case send_fp_setup writes1 response of
                   (out2, None) \<Rightarrow> (out1 @ out2, Inl WriteFailed)
                 | (out2, Some _) \<Rightarrow>
                     (case recv_fp_setup [] reads1 of
                        Inl e \<Rightarrow> (out1 @ out2, Inl e)
                      | Inr _ \<Rightarrow> (out1 @ out2, Inr \<lparr> aes_key = key, aes_iv = iv \<rparr>))))"


section \<open>Lemmas\<close>

lemma apply_keystream_append:
  "apply_keystream ks (a @ b) c =
     (let (x, c1) = apply_keystream ks a c; (y, c2) = apply_keystream ks b c1 in (x @ y, c2))"
  by (simp add: apply_keystream_def enumerate_append_eq Let_def add.assoc)

lemma apply_keystream_Nil: "apply_keystream ks [] c = ([], c)"
  by (simp add: apply_keystream_def)

text \<open>Only the whole stream matters.\<close>

lemma cipher_run_concat:
  "apply_keystream ks (concat ds) c =
     (concat (fst (cipher_run (apply_keystream ks) ds c)), snd (cipher_run (apply_keystream ks) ds c))"
  by (induction ds arbitrary: c) (auto simp: apply_keystream_Nil apply_keystream_append Let_def split: prod.splits)

lemma apply_keystream_twice: "fst (apply_keystream ks (fst (apply_keystream ks d c)) c) = d"
  by (rule nth_equalityI) (simp_all add: apply_keystream_def nth_enumerate_eq xor.assoc)

lemma write_calls_all: "write_calls n bs = (out, Some r) \<Longrightarrow> out = concat bs"
  by (induction n bs arbitrary: out rule: write_calls.induct) (auto split: prod.splits)

lemma process_challenge_shape:
  assumes "\<And>d. length (sha512 d) = 64" and "\<And>d. length (sha256 d) = 32"
    and "process_challenge sha512 sha256 challenge = (response, key, iv)"
  shows "length key = 16 \<and> length iv = 16 \<and> take 7 response = [0x46, 0x50, 0x4C, 0x59, 3, 1, 3] \<and>
    length response = (if length challenge < 164 then 32 else 164)"
  using assms
  by (auto simp: process_challenge_def process_challenge_short_def Let_def fply_def FP_VERSION_def FP_TYPE_RESPONSE_def
      split: if_splits)


section \<open>Properties\<close>

text \<open>The stream cipher undoes itself whatever the packets: what one side encrypts in any pieces,
  the other side, with the same keys, decrypts in any pieces to the same stream.\<close>

theorem fairplay_stream_roundtrip:
  assumes "concat received = concat (fst (cipher_run (cipher_encrypt ks) sent (cipher_new keys)))"
  shows "concat (fst (cipher_run (cipher_decrypt ks) received (cipher_new keys))) = concat sent"
proof -
  have run: "cipher_run (cipher_encrypt ks) = cipher_run (apply_keystream ks)"
    "cipher_run (cipher_decrypt ks) = cipher_run (apply_keystream ks)"
    by (simp_all add: cipher_encrypt_def [abs_def] cipher_decrypt_def [abs_def])
  show ?thesis
    using apply_keystream_twice [of ks "concat sent" "cipher_new keys"] cipher_run_concat [of ks]
    by (metis assms fst_conv run)
qed

text \<open>A completed set-up sent exactly its two requests, the second of them the answer to a challenge
  that came with status 200, of 32 or 164 bytes as the challenge is short or long, and returns a
  128-bit key and counter derived from that challenge.\<close>

theorem fp_setup_completed:
  assumes "\<And>d. length (sha512 d) = 64" and "\<And>d. length (sha256 d) = 32"
    and "fp_setup sha512 sha256 writes reads = (out, Inr keys)"
  shows "\<exists>challenge reads1 response.
    recv_fp_setup [] reads = Inr (challenge, reads1) \<and> (\<exists>confirm. recv_fp_setup [] reads1 = Inr confirm) \<and>
    process_challenge sha512 sha256 challenge = (response, aes_key keys, aes_iv keys) \<and>
    out = fp_header build_setup_message @ build_setup_message @ fp_header response @ response \<and>
    length (aes_key keys) = 16 \<and> length (aes_iv keys) = 16 \<and>
    length response = (if length challenge < 164 then 32 else 164)"
proof -
  obtain out1 w1 where s1: "send_fp_setup writes build_setup_message = (out1, Some w1)"
    using assms(3) by (auto simp: fp_setup_def split: prod.splits option.splits)
  obtain challenge reads1 where r1: "recv_fp_setup [] reads = Inr (challenge, reads1)" "\<not> length challenge < 4"
    using assms(3) s1 by (auto simp: fp_setup_def split: sum.splits if_splits)
  obtain response key iv where p: "process_challenge sha512 sha256 challenge = (response, key, iv)" by (metis prod.exhaust)
  obtain out2 w2 where s2: "send_fp_setup w1 response = (out2, Some w2)"
    using assms(3) s1 r1 p by (auto simp: fp_setup_def split: prod.splits option.splits)
  obtain confirm where r2: "recv_fp_setup [] reads1 = Inr confirm" "out = out1 @ out2" "keys = \<lparr> aes_key = key, aes_iv = iv \<rparr>"
    using assms(3) s1 r1 p s2 by (auto simp: fp_setup_def split: sum.splits)
  have "out1 = fp_header build_setup_message @ build_setup_message" "out2 = fp_header response @ response"
    using write_calls_all s1 s2 by (fastforce simp: send_fp_setup_def)+
  with r1 p r2 process_challenge_shape [OF assms(1,2) p] show ?thesis by auto
qed

theorem fairplay_stream_roundtrip_witness:
  "concat (fst (cipher_run (cipher_decrypt (\<lambda>k iv i. of_nat i)) [[1, 3], [1, 7]] (cipher_new \<lparr> aes_key = [], aes_iv = [] \<rparr>))) =
   [1, 2, 3, 4]"
  using fairplay_stream_roundtrip [of "[[1, 3], [1, 7]]" "\<lambda>k iv i. of_nat i" "[[1, 2, 3], [4]]" "\<lparr> aes_key = [], aes_iv = [] \<rparr>"]
  by (simp add: cipher_encrypt_def apply_keystream_def cipher_new_def enumerate_eq_zip upt_rec)

end
