(* ===== verification/Network.thy ===== *)
theory Network
  imports Openplay_Cast Consent_Spec
begin

text \<open>
  Senders and receiver together: the session loop of \<open>openplay-receiver/src/net.rs\<close>, the server and
  client of \<open>openplay-signaling\<close>, and any number of casts of \<open>openplay-sender/src/casting.rs\<close>, each
  with its queues and its two directions of a connection between them. One event of
  \<open>net_step\<close> is one turn of one task: a task's turn is a definition of the component it
  belongs to, and the events of a run are the schedule. A connection may also be that of a program
  that is not this one, which puts on its wire whatever it likes.

  \<open>'t\<close> is the text of a WebSocket message, \<open>parse\<close> and \<open>serialise\<close> are serde's. The wires of a
  connection carry what its ends write on them, in order: that is TLS's part, as is who is at the
  other end (theory \<open>Openplay_Cast\<close>). The trace of the session loop's events, what each sender has
  said and heard and what the server has written are kept beside the state for the statements.

  The lemmas show that whatever the schedule is, a sender streams only after the person at the
  receiver has accepted its connection under its own name, and that each end hears a prefix of what
  the other said.
\<close>

section \<open>One turn of a cast\<close>

text \<open>The turns of the two select loops of the sender, which the loops of theory \<open>Openplay_Cast\<close>
  iterate. \<open>None\<close> is to go on.\<close>

definition wait_turn :: "incoming \<Rightarrow> (string + unit) option" where
  "wait_turn ev =
     (case ev of
        FromReceiver m \<Rightarrow>
          (case m of
             SessionAccept _ _ \<Rightarrow> Some (Inr ())
           | SessionReject reason \<Rightarrow> Some (Inl (describe_rejection reason))
           | _ \<Rightarrow> None)
      | ReceiverClosed \<Rightarrow> Some (Inl CLOSED)
      | Quarter_Second \<Rightarrow> None)"

definition turn_send :: "signaling_message \<Rightarrow> bool \<Rightarrow> drive_result" where
  "turn_send m open =
     (if open then \<lparr> dr_sent = [m], dr_calls = [], dr_outcome = None \<rparr> else drive_stop (Some (Inl CLOSED)))"

definition turn_call :: "peer_call \<Rightarrow> (string + unit) option \<Rightarrow> drive_result" where
  "turn_call call r = \<lparr> dr_sent = [], dr_calls = [call], dr_outcome = r \<rparr>"

definition drive_turn :: "drive_input \<Rightarrow> drive_result" where
  "drive_turn ev =
     (case ev of
        WebRtcClosed \<Rightarrow> drive_stop (Some (Inl ''WebRTC event channel closed''))
      | WebRtcEvent e open \<Rightarrow>
          (case e of
             LocalDescription kind sdp \<Rightarrow> if kind \<noteq> Offer then drive_stop None else turn_send (SdpOffer sdp) open
           | LocalCandidate i cand \<Rightarrow> turn_send (IceCandidate cand None (Some i)) open
           | IceGatheringComplete \<Rightarrow> turn_send IceComplete open
           | PeerConnected \<Rightarrow> drive_stop None
           | PeerDisconnected \<Rightarrow> drive_stop (Some (Inr ()))
           | PeerFailed reason \<Rightarrow> drive_stop (Some (Inl (''Media session failed: '' @ utf8_str reason))))
      | Message m answer \<Rightarrow>
          (case m of
             SdpAnswer sdp \<Rightarrow>
               turn_call (SetRemoteAnswer sdp)
                 (case answer of
                    Inr _ \<Rightarrow> None
                  | Inl e \<Rightarrow> Some (Inl (''Receiver sent an unusable answer: '' @ e)))
           | IceCandidate cand _ idx \<Rightarrow> turn_call (AddIceCandidate (case idx of None \<Rightarrow> 0 | Some i \<Rightarrow> i) cand) None
           | SessionEnd _ \<Rightarrow> drive_stop (Some (Inr ()))
           | _ \<Rightarrow> drive_stop None)
      | MessagesClosed \<Rightarrow> drive_stop (Some (Inl CLOSED))
      | DriveTick \<Rightarrow> drive_stop None)"

definition then_drive :: "drive_result \<Rightarrow> drive_result \<Rightarrow> drive_result" where
  "then_drive t rest =
     (case dr_outcome t of
        Some r \<Rightarrow> t
      | None \<Rightarrow> \<lparr> dr_sent = dr_sent t @ dr_sent rest, dr_calls = dr_calls t @ dr_calls rest,
                  dr_outcome = dr_outcome rest \<rparr>)"

lemma wait_turns:
  "wait_for_session_accept ((stop, ev) # evs) =
   (if stop then Some (Inl STOPPED)
    else case wait_turn ev of None \<Rightarrow> wait_for_session_accept evs | Some r \<Rightarrow> Some r)"
  by (simp add: wait_turn_def split: incoming.splits signaling_message.splits)

lemma drive_turns:
  "drive_session ((stop, ev) # evs) =
   (if stop then drive_stop (Some (Inl STOPPED)) else then_drive (drive_turn ev) (drive_session evs))"
  by (simp add: drive_turn_def then_drive_def turn_send_def turn_call_def drive_send_def drive_stop_def Let_def
      split: drive_input.splits webrtc_event.splits signaling_message.splits sum.splits)


section \<open>A sender\<close>

datatype stage =
    Asking
  | Preparing
  | Casting
  | Closing "string + unit"
  | Over "string + unit"

text \<open>A cast with the two channels of its signaling client.\<close>

record sender_node =
  sn_request :: signaling_message
  sn_stage :: stage
  sn_out :: "signaling_message list"
  sn_out_closed :: bool
  sn_in :: "signaling_message list"
  sn_in_closed :: bool
  sn_said :: "signaling_message list"
  sn_heard :: "signaling_message list"

definition CLIENT_CAPACITY :: nat where "CLIENT_CAPACITY = 32"

text \<open>A connected cast has put its request in the empty channel to the receiver.\<close>

definition sender_start :: "u64 \<Rightarrow> capture_config \<Rightarrow> openplay_target \<Rightarrow> sender_node" where
  "sender_start hash cap target =
     (let m = session_request hash cap target
      in \<lparr> sn_request = m, sn_stage = Asking, sn_out = [m], sn_out_closed = False,
           sn_in = [], sn_in_closed = False, sn_said = [m], sn_heard = [] \<rparr>)"

datatype node_input =
    TakesMessage "string + unit"
  | PeerReports webrtc_event
  | PeerEventsClosed
  | Timer
  | Prepared "string + unit" "string + unit"
  | Finishes "string + unit"

text \<open>Taking from the incoming channel: \<open>None\<close> while it is empty and open.\<close>

definition node_recv :: "sender_node \<Rightarrow> (signaling_message option \<times> sender_node) option" where
  "node_recv nd =
     (case sn_in nd of
        m # ms \<Rightarrow> Some (Some m, nd\<lparr> sn_in := ms, sn_heard := sn_heard nd @ [m] \<rparr>)
      | [] \<Rightarrow> if sn_in_closed nd then Some (None, nd) else None)"

definition node_say :: "signaling_message list \<Rightarrow> sender_node \<Rightarrow> sender_node" where
  "node_say ms nd = nd\<lparr> sn_out := sn_out nd @ ms, sn_said := sn_said nd @ ms \<rparr>"

definition asking_turn :: "bool \<Rightarrow> node_input \<Rightarrow> sender_node \<Rightarrow> sender_node" where
  "asking_turn stop inp nd =
     (if stop then nd\<lparr> sn_stage := Over (Inl STOPPED) \<rparr>
      else
        let got = (case inp of
              TakesMessage _ \<Rightarrow>
                (case node_recv nd of
                   Some (Some m, nd') \<Rightarrow> (wait_turn (FromReceiver m), nd')
                 | Some (None, nd') \<Rightarrow> (wait_turn ReceiverClosed, nd')
                 | None \<Rightarrow> (None, nd))
            | Timer \<Rightarrow> (wait_turn Quarter_Second, nd)
            | _ \<Rightarrow> (None, nd))
        in case got of
             (None, nd') \<Rightarrow> nd'
           | (Some (Inl e), nd') \<Rightarrow> nd'\<lparr> sn_stage := Over (Inl e) \<rparr>
           | (Some (Inr _), nd') \<Rightarrow> nd'\<lparr> sn_stage := Preparing \<rparr>)"

text \<open>A send on a full channel waits: the turn is not taken until there is room.\<close>

definition casting_turn :: "bool \<Rightarrow> node_input \<Rightarrow> sender_node \<Rightarrow> sender_node" where
  "casting_turn stop inp nd =
     (if stop then nd\<lparr> sn_stage := Closing (Inl STOPPED) \<rparr>
      else
        let got = (case inp of
              TakesMessage answer \<Rightarrow>
                (case node_recv nd of
                   Some (Some m, nd') \<Rightarrow> Some (drive_turn (Message m answer), nd')
                 | Some (None, nd') \<Rightarrow> Some (drive_turn MessagesClosed, nd')
                 | None \<Rightarrow> None)
            | PeerReports e \<Rightarrow> Some (drive_turn (WebRtcEvent e (\<not> sn_out_closed nd)), nd)
            | PeerEventsClosed \<Rightarrow> Some (drive_turn WebRtcClosed, nd)
            | Timer \<Rightarrow> Some (drive_turn DriveTick, nd)
            | _ \<Rightarrow> None)
        in case got of
             None \<Rightarrow> nd
           | Some (d, nd') \<Rightarrow>
               if dr_sent d \<noteq> [] \<and> length (sn_out nd) \<ge> CLIENT_CAPACITY then nd
               else (case dr_outcome d of
                       None \<Rightarrow> node_say (dr_sent d) nd'
                     | Some r \<Rightarrow> node_say (dr_sent d) nd'\<lparr> sn_stage := Closing r \<rparr>))"

definition node_turn :: "bool \<Rightarrow> node_input \<Rightarrow> sender_node \<Rightarrow> sender_node" where
  "node_turn stop inp nd =
     (case sn_stage nd of
        Asking \<Rightarrow> asking_turn stop inp nd
      | Preparing \<Rightarrow>
          (case inp of
             Prepared (Inl e) start \<Rightarrow> nd\<lparr> sn_stage := Over (Inl e) \<rparr>
           | Prepared (Inr _) (Inl e) \<Rightarrow> nd\<lparr> sn_stage := Over (Inl e) \<rparr>
           | Prepared (Inr _) (Inr _) \<Rightarrow> nd\<lparr> sn_stage := Casting \<rparr>
           | _ \<Rightarrow> nd)
      | Casting \<Rightarrow> casting_turn stop inp nd
      | Closing r \<Rightarrow>
          (case inp of
             Finishes stopped \<Rightarrow>
               (let r' = (case stopped of Inl e \<Rightarrow> Inl e | Inr _ \<Rightarrow> r)
                in if sn_out_closed nd then nd\<lparr> sn_stage := Over r' \<rparr>
                   else if length (sn_out nd) \<ge> CLIENT_CAPACITY then nd
                   else node_say [SessionEnd UserStopped] nd\<lparr> sn_stage := Over r' \<rparr>)
           | _ \<Rightarrow> nd)
      | Over r \<Rightarrow> nd)"

text \<open>The client's tasks: one message from the channel to the wire, one text from the wire to the
  channel. A full channel holds the reader back; a cast that is over has dropped it.\<close>

definition client_write :: "(signaling_message \<Rightarrow> 't option) \<Rightarrow> bool \<Rightarrow> sender_node \<Rightarrow> sender_node \<times> 't option" where
  "client_write serialise ok nd =
     (case sn_out nd of
        [] \<Rightarrow> (nd, None)
      | m # ms \<Rightarrow>
          (case client_send_one serialise ok m of
             (out, True) \<Rightarrow> (nd\<lparr> sn_out := ms \<rparr>, out)
           | (out, False) \<Rightarrow> (nd\<lparr> sn_out := [], sn_out_closed := True \<rparr>, out)))"

definition dropped :: "sender_node \<Rightarrow> bool" where
  "dropped nd \<longleftrightarrow> (case sn_stage nd of Over _ \<Rightarrow> True | _ \<Rightarrow> False)"

definition client_read :: "('t \<Rightarrow> signaling_message option) \<Rightarrow> 't \<Rightarrow> sender_node \<Rightarrow> sender_node option" where
  "client_read parse t nd =
     (if sn_in_closed nd then None
      else case parse t of
        None \<Rightarrow> Some nd
      | Some m \<Rightarrow>
          if \<not> is_ok (validate m) then Some nd
          else if dropped nd then Some (nd\<lparr> sn_in_closed := True \<rparr>)
          else if length (sn_in nd) \<ge> CLIENT_CAPACITY then None
          else Some (nd\<lparr> sn_in := sn_in nd @ [m] \<rparr>))"


section \<open>The network\<close>

record 't network =
  nw_loop :: session_loop
  nw_server :: server
  nw_ids :: "connection_id list"
  nw_peer :: "connection_id \<Rightarrow> socket_addr"
  nw_inbox :: "incoming_message list"
  nw_up :: "connection_id \<Rightarrow> 't ws_event list"
  nw_down :: "connection_id \<Rightarrow> 't list"
  nw_node :: "connection_id \<Rightarrow> sender_node option"
  nw_trace :: "loop_event list"
  nw_taken :: "connection_id \<Rightarrow> signaling_message list"

definition INBOX_CAPACITY :: nat where "INBOX_CAPACITY = 32"

definition network_start :: "app_config \<Rightarrow> bool \<Rightarrow> 't network" where
  "network_start cfg advertised =
     \<lparr> nw_loop = session_loop_new cfg advertised, nw_server = server_new, nw_ids = [],
       nw_peer = (\<lambda>_. (V4 0, 0)), nw_inbox = [], nw_up = (\<lambda>_. []), nw_down = (\<lambda>_. []),
       nw_node = (\<lambda>_. None), nw_trace = [], nw_taken = (\<lambda>_. []) \<rparr>"

definition loop_turn :: "loop_event \<Rightarrow> 't network \<Rightarrow> 't network" where
  "loop_turn ev n = n\<lparr> nw_loop := loop_step (nw_loop n) ev, nw_trace := nw_trace n @ [ev] \<rparr>"

text \<open>The end of a served connection releases its permit and closes its reply channel.\<close>

definition hang_up :: "connection_id \<Rightarrow> 't network \<Rightarrow> 't network" where
  "hang_up c n =
     loop_turn (PeerGone c) (n\<lparr> nw_server := fst (accept_step (nw_server n) (ConnectionEnded c)) \<rparr>)"

definition server_accepts :: "socket_addr \<Rightarrow> sender_node option \<Rightarrow> 't network \<Rightarrow> 't network" where
  "server_accepts peer start n =
     (case accept_step (nw_server n) Accepted of
        (s, Served c) \<Rightarrow>
          n\<lparr> nw_server := s, nw_ids := nw_ids n @ [c], nw_peer := (nw_peer n)(c := peer),
             nw_up := (nw_up n)(c := []), nw_down := (nw_down n)(c := []),
             nw_node := (nw_node n)(c := start), nw_taken := (nw_taken n)(c := []) \<rparr>
      | (s, _) \<Rightarrow> n\<lparr> nw_server := s \<rparr>)"

definition server_reads :: "('t \<Rightarrow> signaling_message option) \<Rightarrow> connection_id \<Rightarrow> 't network \<Rightarrow> 't network" where
  "server_reads parse c n =
     (case nw_up n c of
        [] \<Rightarrow> n
      | ev # evs \<Rightarrow>
          (case read_one parse c (nw_peer n c) True ev of
             (Some i, True) \<Rightarrow>
               if length (nw_inbox n) < INBOX_CAPACITY
               then n\<lparr> nw_inbox := nw_inbox n @ [i], nw_up := (nw_up n)(c := evs) \<rparr> else n
           | (None, True) \<Rightarrow> n\<lparr> nw_up := (nw_up n)(c := evs) \<rparr>
           | (_, False) \<Rightarrow> hang_up c n))"

definition reply_written ::
  "(signaling_message \<Rightarrow> 't option) \<Rightarrow> connection_id \<Rightarrow> socket_write \<Rightarrow> 't network \<Rightarrow> 't network" where
  "reply_written serialise c w n =
     (case channel_recv (chans (nw_loop n) c) of
        (_, None) \<Rightarrow> n
      | (_, Some m) \<Rightarrow>
          (case send_one serialise w m of
             (Some t, True) \<Rightarrow>
               (loop_turn (PeerReads c) n)
                 \<lparr> nw_down := (nw_down n)(c := nw_down n c @ [t]),
                   nw_taken := (nw_taken n)(c := nw_taken n c @ [m]) \<rparr>
           | (None, True) \<Rightarrow> loop_turn (PeerReads c) n
           | (_, False) \<Rightarrow> loop_turn (PeerGone c) n))"

datatype 't net_event =
    Dials socket_addr "(u64 \<times> capture_config \<times> openplay_target) option"
  | Injects connection_id "'t ws_event"
  | SenderWrites connection_id bool
  | SenderReads connection_id
  | SenderLosesReceiver connection_id
  | SenderTurns connection_id bool node_input
  | ServerReads connection_id
  | ServerHangsUp connection_id
  | ReplyWritten connection_id socket_write
  | LoopTakes offer_env u64
  | LoopDoes loop_event

text \<open>What the loop does on its own account: not the transport's events.\<close>

definition own_event :: "loop_event \<Rightarrow> bool" where
  "own_event ev \<longleftrightarrow>
     (case ev of Decide _ \<Rightarrow> True | WebRtc _ \<Rightarrow> True | Tick \<Rightarrow> True | FrameDecoded _ _ \<Rightarrow> True
      | ServerStopped _ \<Rightarrow> True | _ \<Rightarrow> False)"

definition net_step ::
  "('t \<Rightarrow> signaling_message option) \<Rightarrow> (signaling_message \<Rightarrow> 't option) \<Rightarrow> 't network \<Rightarrow> 't net_event \<Rightarrow> 't network" where
  "net_step parse serialise n ev =
     (case ev of
        Dials peer start \<Rightarrow>
          server_accepts peer (map_option (\<lambda>(hash, cap, target). sender_start hash cap target) start) n
      | Injects c e \<Rightarrow>
          (case nw_node n c of
             None \<Rightarrow> n\<lparr> nw_up := (nw_up n)(c := nw_up n c @ [e]) \<rparr>
           | Some _ \<Rightarrow> n)
      | SenderWrites c ok \<Rightarrow>
          (case nw_node n c of
             None \<Rightarrow> n
           | Some nd \<Rightarrow>
               (case client_write serialise ok nd of
                  (nd', None) \<Rightarrow> n\<lparr> nw_node := (nw_node n)(c := Some nd') \<rparr>
                | (nd', Some t) \<Rightarrow>
                    n\<lparr> nw_node := (nw_node n)(c := Some nd'), nw_up := (nw_up n)(c := nw_up n c @ [WsText t]) \<rparr>))
      | SenderReads c \<Rightarrow>
          (case nw_node n c of
             None \<Rightarrow> n
           | Some nd \<Rightarrow>
               (case nw_down n c of
                  [] \<Rightarrow> n
                | t # ts \<Rightarrow>
                    (case client_read parse t nd of
                       None \<Rightarrow> n
                     | Some nd' \<Rightarrow> n\<lparr> nw_node := (nw_node n)(c := Some nd'), nw_down := (nw_down n)(c := ts) \<rparr>)))
      | SenderLosesReceiver c \<Rightarrow>
          (case nw_node n c of
             None \<Rightarrow> n
           | Some nd \<Rightarrow> n\<lparr> nw_node := (nw_node n)(c := Some (nd\<lparr> sn_in_closed := True \<rparr>)) \<rparr>)
      | SenderTurns c stop inp \<Rightarrow>
          (case nw_node n c of
             None \<Rightarrow> n
           | Some nd \<Rightarrow> n\<lparr> nw_node := (nw_node n)(c := Some (node_turn stop inp nd)) \<rparr>)
      | ServerReads c \<Rightarrow> if c \<in> set (live (nw_server n)) then server_reads parse c n else n
      | ServerHangsUp c \<Rightarrow> if c \<in> set (live (nw_server n)) then hang_up c n else n
      | ReplyWritten c w \<Rightarrow> if c \<in> set (live (nw_server n)) then reply_written serialise c w n else n
      | LoopTakes env clock \<Rightarrow>
          (case nw_inbox n of
             [] \<Rightarrow> n
           | i # is \<Rightarrow> loop_turn (Incoming i env clock) (n\<lparr> nw_inbox := is \<rparr>))
      | LoopDoes e \<Rightarrow> if own_event e then loop_turn e n else n)"

definition network_run ::
  "('t \<Rightarrow> signaling_message option) \<Rightarrow> (signaling_message \<Rightarrow> 't option) \<Rightarrow> app_config \<Rightarrow> bool \<Rightarrow>
   't net_event list \<Rightarrow> 't network" where
  "network_run parse serialise cfg advertised es =
     foldl (net_step parse serialise) (network_start cfg advertised) es"


section \<open>What the loop replies\<close>

definition is_accept :: "signaling_message \<Rightarrow> bool" where
  "is_accept m \<longleftrightarrow> (case m of SessionAccept _ _ \<Rightarrow> True | _ \<Rightarrow> False)"

definition was_approved :: "loop_event list \<Rightarrow> connection_id \<Rightarrow> bool" where
  "was_approved h c \<longleftrightarrow> (\<exists>n. approved h c n)"

lemma was_approved_snoc: "was_approved h c \<Longrightarrow> was_approved (h @ [ev]) c"
  by (auto simp: was_approved_def intro: approved_mono)

lemma is_accept_simps [simp]:
  "is_accept (SessionAccept r p)" "\<not> is_accept (SessionReject x)" "\<not> is_accept (SessionEnd e)"
  "\<not> is_accept (Pong t u)" "\<not> is_accept (SdpAnswer a)" "\<not> is_accept (IceCandidate i j k)" "\<not> is_accept IceComplete"
  by (simp_all add: is_accept_def)

lemma send_queue:
  "x \<in> set (queue (chans (send_to c m s) c')) \<Longrightarrow> x \<in> set (queue (chans s c')) \<or> c' = c \<and> x = m"
  by (auto simp: send_to_def handle_simps split: if_splits)

lemma quiet_chans [simp]:
  "chans (set_status st s) = chans s" "chans (reset_status s) = chans s"
  "chans (pending_remove c s) = chans s" "chans (pending_insert c p s) = chans s"
  "chans (stop_media q s) = chans s"
  by (simp_all add: set_status_def reset_status_def pending_remove_def pending_insert_def stop_media_def
      split: option.splits)

lemma end_queue:
  "x \<in> set (queue (chans (end_active r s) c)) \<Longrightarrow> is_accept x \<Longrightarrow> x \<in> set (queue (chans s c))"
  by (auto simp: end_active_def split: option.splits dest!: send_queue)

lemma teardown_queue:
  "x \<in> set (queue (chans (tear_down s) c)) \<Longrightarrow> is_accept x \<Longrightarrow> x \<in> set (queue (chans s c))"
  "x \<in> set (queue (chans (fail_session e s) c)) \<Longrightarrow> is_accept x \<Longrightarrow> x \<in> set (queue (chans s c))"
  by (auto simp: tear_down_def fail_session_def Let_def dest: end_queue)

lemma message_queue:
  assumes "x \<in> set (queue (chans (handle_message i env clock s) c))" and "is_accept x"
  shows "x \<in> set (queue (chans s c))"
proof (cases "im_message i")
  case (SessionRequest sid n ver caps)
  with assms show ?thesis
    by (auto simp: handle_message_def Let_def handle_session_request_def split: if_splits dest!: send_queue)
next
  case (SdpOffer sdp)
  with assms show ?thesis
    by (auto simp: handle_message_def Let_def handle_offer_def split: option.splits sum.splits if_splits
        dest: teardown_queue)
qed (use assms in \<open>auto simp: handle_message_def Let_def split: option.splits if_splits
  dest!: send_queue dest: teardown_queue\<close>)

lemma webrtc_queue:
  "x \<in> set (queue (chans (handle_webrtc_event e s) c)) \<Longrightarrow> is_accept x \<Longrightarrow> x \<in> set (queue (chans s c))"
  by (auto simp: handle_webrtc_event_def split: option.splits webrtc_event.splits if_splits
      dest!: send_queue dest: teardown_queue)

lemma tick_queue:
  "x \<in> set (queue (chans (drop_dead_connections s) c)) \<Longrightarrow> is_accept x \<Longrightarrow> x \<in> set (queue (chans s c))"
  by (auto simp: drop_dead_connections_def Let_def split: if_splits dest: teardown_queue)

lemma decision_queue:
  assumes "x \<in> set (queue (chans (handle_decision d s) c))" and "is_accept x"
  shows "x \<in> set (queue (chans s c)) \<or>
    (d_accept d \<and> (\<exists>p. (d_connection d, p) \<in> set (pending_map s) \<and> p_reply p = c))"
  using assms
  by (auto simp: handle_decision_def Let_def split: option.splits if_splits dest!: send_queue
      dest: map_of_SomeD)

text \<open>An acceptance is queued only to a connection the person has just accepted.\<close>

lemma accept_queued:
  assumes "loop_inv s" and "traced_inv (s, h)"
    and "x \<in> set (queue (chans (loop_step s ev) c))" and "is_accept x"
  shows "x \<in> set (queue (chans s c)) \<or> was_approved (h @ [ev]) c"
proof (cases ev)
  case (Decide d)
  show ?thesis
  proof (rule ccontr)
    assume no: "\<not> ?thesis"
    with assms(3,4) decision_queue [of x d s c] Decide obtain p
      where p: "d_accept d" "(d_connection d, p) \<in> set (pending_map s)" "p_reply p = c"
      by (auto simp: loop_step_def)
    with assms(1) have "c = d_connection d" by (auto simp: loop_inv_def consent_inv_def)
    moreover from p assms(2) have "asked h (d_connection d) (p_display_name p)"
      by (auto simp: traced_inv_def)
    ultimately have "approved (h @ [ev]) c (p_display_name p)"
      using Decide p(1) unfolding approved_def by blast
    with no show False by (auto simp: was_approved_def)
  qed
qed (use assms(3,4) in \<open>auto simp: loop_step_def channel_recv_def channel_close_def
  split: if_splits list.splits dest: message_queue webrtc_queue tick_queue\<close>)


section \<open>What has been heard\<close>

definition lossless ::
  "('t \<Rightarrow> signaling_message option) \<Rightarrow> (signaling_message \<Rightarrow> 't option) \<Rightarrow> bool" where
  "lossless parse serialise \<longleftrightarrow> (\<forall>m. \<exists>t. serialise m = Some t \<and> parse t = Some m)"

fun said_by :: "connection_id \<Rightarrow> loop_event \<Rightarrow> signaling_message option" where
  "said_by c (Incoming i env clock) = (if im_connection i = c then Some (im_message i) else None)"
| "said_by c _ = None"

text \<open>What the loop has handled from a connection, and what is waiting for it.\<close>

definition heard_from :: "loop_event list \<Rightarrow> connection_id \<Rightarrow> signaling_message list" where
  "heard_from h c = List.map_filter (said_by c) h"

definition waiting_from :: "incoming_message list \<Rightarrow> connection_id \<Rightarrow> signaling_message list" where
  "waiting_from inbox c = map im_message (filter (\<lambda>i. im_connection i = c) inbox)"

text \<open>Every description, candidate or end of candidates of the connection was handled after its
  approval.\<close>

definition media_after :: "loop_event list \<Rightarrow> connection_id \<Rightarrow> bool" where
  "media_after h c \<longleftrightarrow>
     (\<forall>h1 i env clock h2. h = h1 @ Incoming i env clock # h2 \<longrightarrow> im_connection i = c \<longrightarrow>
        media_message (im_message i) \<longrightarrow> was_approved h1 c)"

lemma heard_from_simps [simp]:
  "heard_from [] c = []"
  "heard_from (h @ [ev]) c = heard_from h c @ (case said_by c ev of None \<Rightarrow> [] | Some m \<Rightarrow> [m])"
  by (simp_all add: heard_from_def map_filter_def split: option.splits)

lemma waiting_from_simps [simp]:
  "waiting_from [] c = []"
  "waiting_from (i # is) c = (if im_connection i = c then im_message i # waiting_from is c else waiting_from is c)"
  "waiting_from (is @ [i]) c = waiting_from is c @ (if im_connection i = c then [im_message i] else [])"
  by (simp_all add: waiting_from_def)

lemma media_after_snoc:
  "media_after (h @ [ev]) c \<longleftrightarrow>
     media_after h c \<and> (\<forall>m. said_by c ev = Some m \<longrightarrow> media_message m \<longrightarrow> was_approved h c)"
proof
  assume L: "media_after (h @ [ev]) c"
  have "media_after h c"
    unfolding media_after_def
  proof (intro allI impI)
    fix h1 i env clock h2
    assume "h = h1 @ Incoming i env clock # h2" "im_connection i = c" "media_message (im_message i)"
    moreover from this(1) have "h @ [ev] = h1 @ Incoming i env clock # (h2 @ [ev])" by simp
    ultimately show "was_approved h1 c" using L unfolding media_after_def by blast
  qed
  moreover have "was_approved h c" if "said_by c ev = Some m" "media_message m" for m
    using that L unfolding media_after_def by (cases ev) (auto split: if_splits)
  ultimately show "media_after h c \<and> (\<forall>m. said_by c ev = Some m \<longrightarrow> media_message m \<longrightarrow> was_approved h c)"
    by blast
next
  assume R: "media_after h c \<and> (\<forall>m. said_by c ev = Some m \<longrightarrow> media_message m \<longrightarrow> was_approved h c)"
  show "media_after (h @ [ev]) c"
    unfolding media_after_def
  proof (intro allI impI)
    fix h1 i env clock h2
    assume *: "h @ [ev] = h1 @ Incoming i env clock # h2" "im_connection i = c" "media_message (im_message i)"
    show "was_approved h1 c"
    proof (cases h2 rule: rev_cases)
      case Nil
      with * R show ?thesis by auto
    next
      case (snoc h2' x)
      with *(1) have "h = h1 @ Incoming i env clock # h2'" by simp
      with *(2,3) R show ?thesis unfolding media_after_def by blast
    qed
  qed
qed

lemma admitted_snoc:
  "list_all keeps_reading evs \<Longrightarrow> parse t = Some m \<Longrightarrow>
   admitted parse (evs @ [WsText t]) = admitted parse evs @ (if within_bounds m then [m] else [])"
proof (induction evs)
  case (Cons e evs)
  then show ?case by (cases e) (auto simp: admitted_def split: option.splits)
qed (simp add: admitted_def)

lemma admitted_Cons:
  "keeps_reading ev \<Longrightarrow> admitted parse (ev # evs) =
   (case text_message parse ev of None \<Rightarrow> [] | Some m \<Rightarrow> if within_bounds m then [m] else []) @ admitted parse evs"
  by (simp add: admitted_def split: option.splits)


section \<open>The invariant of a connection\<close>

definition request_of :: "ustr \<Rightarrow> signaling_message \<Rightarrow> bool" where
  "request_of n m \<longleftrightarrow> (case m of SessionRequest _ n' _ _ \<Rightarrow> n' = n | _ \<Rightarrow> False)"

text \<open>From the sender to the loop: what was heard, what waits, what is on the wire and what is in the
  channel are together what the sender said. Only a channel that has closed has lost a rest.\<close>

definition up_inv ::
  "('t \<Rightarrow> signaling_message option) \<Rightarrow> signaling_message list \<Rightarrow> 't ws_event list \<Rightarrow> sender_node \<Rightarrow> bool" where
  "up_inv parse arrived up nd \<longleftrightarrow>
     list_all keeps_reading up \<and>
     (\<exists>lost. arrived @ admitted parse up @ filter within_bounds (sn_out nd) @ lost = filter within_bounds (sn_said nd) \<and>
        (sn_out_closed nd \<or> lost = [])) \<and>
     (sn_out_closed nd \<longrightarrow> sn_out nd = [])"

text \<open>From the server to the sender.\<close>

definition down_inv ::
  "('t \<Rightarrow> signaling_message option) \<Rightarrow> signaling_message list \<Rightarrow> 't list \<Rightarrow> sender_node \<Rightarrow> bool" where
  "down_inv parse taken down nd \<longleftrightarrow>
     (if sn_in_closed nd then prefix (sn_heard nd @ sn_in nd) (filter within_bounds taken)
      else (sn_heard nd @ sn_in nd) @ filter within_bounds (List.map_filter parse down) = filter within_bounds taken)"

definition past_asking :: "sender_node \<Rightarrow> bool" where
  "past_asking nd \<longleftrightarrow> (case sn_stage nd of Preparing \<Rightarrow> True | Casting \<Rightarrow> True | Closing _ \<Rightarrow> True | _ \<Rightarrow> False)"

definition said_inv :: "bool \<Rightarrow> sender_node \<Rightarrow> bool" where
  "said_inv allowed nd \<longleftrightarrow>
     (\<forall>m \<in> set (sn_said nd). m = sn_request nd \<or> media_message m \<and> allowed \<or> m = SessionEnd UserStopped) \<and>
     (past_asking nd \<longrightarrow> allowed) \<and> (\<exists>sid n ver caps. sn_request nd = SessionRequest sid n ver caps)"

lemma drive_turn_media: "m \<in> set (dr_sent (drive_turn ev)) \<Longrightarrow> media_message m"
  by (auto simp: drive_turn_def turn_send_def turn_call_def split: drive_input.splits webrtc_event.splits
      signaling_message.splits if_splits)

lemma drive_turn_closed: "dr_sent (drive_turn (WebRtcEvent e False)) = []"
  "dr_sent (drive_turn (Message m a)) = []" "dr_sent (drive_turn MessagesClosed) = []"
  "dr_sent (drive_turn WebRtcClosed) = []" "dr_sent (drive_turn DriveTick) = []"
  by (simp_all add: drive_turn_def turn_send_def turn_call_def split: webrtc_event.splits signaling_message.splits)

lemma wait_turn_accepts:
  "wait_turn ev = Some (Inr u) \<Longrightarrow> \<exists>m. ev = FromReceiver m \<and> is_accept m"
  by (auto simp: wait_turn_def is_accept_def split: incoming.splits signaling_message.splits)


text \<open>What a turn of a cast can do: take at most the next message, say only negotiation or the end of
  the session and only past its asking, and pass its asking only on an acceptance.\<close>

definition took :: "sender_node \<Rightarrow> sender_node \<Rightarrow> bool" where
  "took nd nd1 \<longleftrightarrow> nd1 = nd \<or>
     (\<exists>m ms. sn_in nd = m # ms \<and> nd1 = nd\<lparr> sn_in := ms, sn_heard := sn_heard nd @ [m] \<rparr>)"

definition turn_shape :: "sender_node \<Rightarrow> sender_node \<Rightarrow> bool" where
  "turn_shape nd nd2 \<longleftrightarrow>
     (\<exists>ms nd1 st. nd2 = node_say ms nd1\<lparr> sn_stage := st \<rparr> \<and> took nd nd1 \<and>
        (ms \<noteq> [] \<longrightarrow> \<not> sn_out_closed nd \<and> past_asking nd) \<and>
        (\<forall>m \<in> set ms. media_message m \<or> m = SessionEnd UserStopped) \<and>
        (past_asking nd2 \<longrightarrow> past_asking nd \<or> (\<exists>m \<in> set (sn_in nd). is_accept m)))"

lemma turn_shapeI:
  assumes "nd2 = node_say ms nd1\<lparr> sn_stage := st \<rparr>" and "took nd nd1"
    and "ms \<noteq> [] \<Longrightarrow> \<not> sn_out_closed nd \<and> past_asking nd"
    and "\<And>m. m \<in> set ms \<Longrightarrow> media_message m \<or> m = SessionEnd UserStopped"
    and "past_asking nd2 \<Longrightarrow> past_asking nd \<or> (\<exists>m \<in> set (sn_in nd). is_accept m)"
  shows "turn_shape nd nd2"
  using assms unfolding turn_shape_def by blast

lemma took_self [simp]: "took nd nd"
  by (simp add: took_def)

lemma took_recv: "node_recv nd = Some (Some m, nd') \<Longrightarrow> took nd nd' \<and> m \<in> set (sn_in nd)"
  "node_recv nd = Some (None, nd') \<Longrightarrow> nd' = nd"
  by (auto simp: node_recv_def took_def split: list.splits if_splits)

lemma took_simps:
  "took nd nd1 \<Longrightarrow> sn_out nd1 = sn_out nd \<and> sn_out_closed nd1 = sn_out_closed nd \<and> sn_said nd1 = sn_said nd \<and>
     sn_request nd1 = sn_request nd \<and> sn_in_closed nd1 = sn_in_closed nd \<and> sn_stage nd1 = sn_stage nd \<and>
     sn_heard nd1 @ sn_in nd1 = sn_heard nd @ sn_in nd"
  by (auto simp: took_def)

lemma stage_shape:
  "took nd nd1 \<Longrightarrow> (past_asking (nd1\<lparr> sn_stage := st \<rparr>) \<Longrightarrow> past_asking nd \<or> (\<exists>m \<in> set (sn_in nd). is_accept m)) \<Longrightarrow>
   turn_shape nd (nd1\<lparr> sn_stage := st \<rparr>)"
  by (rule turn_shapeI [of _ st "[]" nd1]) (auto simp: node_say_def)

lemma same_shape: "took nd nd1 \<Longrightarrow> turn_shape nd nd1"
  by (rule turn_shapeI [of _ "sn_stage nd1" "[]" nd1]) (auto simp: node_say_def past_asking_def took_def)

lemmas same_shape_self [simp] = same_shape [OF took_self]

lemma past_asking_stage [simp]:
  "past_asking (nd\<lparr> sn_stage := Over r \<rparr>) = False" "past_asking (nd\<lparr> sn_stage := Preparing \<rparr>)"
  "past_asking (nd\<lparr> sn_stage := Casting \<rparr>)" "past_asking (nd\<lparr> sn_stage := Closing r \<rparr>)"
  by (simp_all add: past_asking_def)

lemma asking_shape: "turn_shape nd (asking_turn stop inp nd)"
proof (cases "\<not> stop \<and> (\<exists>a. inp = TakesMessage a)")
  case False
  then show ?thesis
    by (cases inp) (auto simp: asking_turn_def wait_turn_def intro!: stage_shape)
next
  case True
  then show ?thesis
    by (auto simp: asking_turn_def Let_def split: option.splits sum.splits
        intro!: stage_shape intro: same_shape dest!: took_recv wait_turn_accepts)
qed

lemma drive_shape:
  assumes "took nd nd'" and "sn_stage nd = Casting" and "dr_sent d \<noteq> [] \<Longrightarrow> \<not> sn_out_closed nd"
    and "\<And>m. m \<in> set (dr_sent d) \<Longrightarrow> media_message m"
  shows "turn_shape nd (case dr_outcome d of None \<Rightarrow> node_say (dr_sent d) nd'
    | Some r \<Rightarrow> node_say (dr_sent d) nd'\<lparr> sn_stage := Closing r \<rparr>)"
proof (cases "dr_outcome d")
  case None
  with assms show ?thesis
    by (auto intro!: turn_shapeI [of _ "sn_stage nd'" "dr_sent d" nd'] simp: past_asking_def node_say_def)
next
  case (Some r)
  with assms show ?thesis
    by (auto intro!: turn_shapeI [of _ "Closing r" "dr_sent d" nd'] simp: past_asking_def)
qed

lemma casting_shape:
  assumes "sn_stage nd = Casting" shows "turn_shape nd (casting_turn stop inp nd)"
proof -
  have past: "past_asking nd" using assms by (simp add: past_asking_def)
  have d: "turn_shape nd (if dr_sent d \<noteq> [] \<and> length (sn_out nd) \<ge> CLIENT_CAPACITY then nd
     else (case dr_outcome d of None \<Rightarrow> node_say (dr_sent d) nd'
       | Some r \<Rightarrow> node_say (dr_sent d) nd'\<lparr> sn_stage := Closing r \<rparr>))"
    if "took nd nd'" "d = drive_turn ev" "dr_sent d \<noteq> [] \<Longrightarrow> \<not> sn_out_closed nd" for d nd' ev
    using drive_shape [OF that(1) assms that(3)] drive_turn_media that(2) same_shape [OF took_self] by auto
  show ?thesis
  proof (cases inp)
    case (TakesMessage answer)
    show ?thesis
    proof (cases "node_recv nd")
      case (Some got)
      then obtain mo nd' where got: "node_recv nd = Some (mo, nd')" by (cases got) auto
      then have took: "took nd nd'" by (cases mo) (auto dest: took_recv)
      show ?thesis
      proof (cases mo)
        case None
        with d [OF took refl, of MessagesClosed] got TakesMessage show ?thesis
          by (auto simp: casting_turn_def Let_def past drive_turn_closed intro!: stage_shape)
      next
        case (Some m)
        with d [OF took refl, of "Message m answer"] got TakesMessage show ?thesis
          by (auto simp: casting_turn_def Let_def past drive_turn_closed intro!: stage_shape)
      qed
    qed (use TakesMessage past in \<open>auto simp: casting_turn_def intro!: stage_shape\<close>)
  next
    case (PeerReports e)
    have "dr_sent (drive_turn (WebRtcEvent e (\<not> sn_out_closed nd))) \<noteq> [] \<Longrightarrow> \<not> sn_out_closed nd"
      by (auto simp: drive_turn_closed)
    from d [OF took_self refl this] PeerReports show ?thesis
      by (auto simp: casting_turn_def Let_def past intro!: stage_shape)
  next
    case PeerEventsClosed
    then show ?thesis
      using d [OF took_self refl, of WebRtcClosed]
      by (auto simp: casting_turn_def Let_def past drive_turn_closed intro!: stage_shape)
  next
    case Timer
    then show ?thesis
      using d [OF took_self refl, of DriveTick]
      by (auto simp: casting_turn_def Let_def past drive_turn_closed intro!: stage_shape)
  qed (auto simp: casting_turn_def past intro!: stage_shape)
qed

lemma end_shape:
  "\<not> sn_out_closed nd \<Longrightarrow> past_asking nd \<Longrightarrow>
   turn_shape nd (node_say [SessionEnd UserStopped] nd\<lparr> sn_stage := Over r \<rparr>)"
  by (rule turn_shapeI [of _ "Over r" "[SessionEnd UserStopped]" nd]) simp_all

lemma node_shape: "turn_shape nd (node_turn stop inp nd)"
proof (cases "sn_stage nd")
  case (Closing r)
  then have "past_asking nd" by (simp add: past_asking_def)
  with Closing show ?thesis
    by (cases inp) (auto simp: node_turn_def Let_def split: sum.splits
        intro: stage_shape end_shape)
next
  case Preparing
  then have "past_asking nd" by (simp add: past_asking_def)
  with Preparing show ?thesis
    by (cases inp) (auto simp: node_turn_def split: sum.splits intro!: stage_shape)
qed (simp_all add: node_turn_def asking_shape casting_shape)


lemma node_turn_up:
  assumes "up_inv parse arrived up nd" shows "up_inv parse arrived up (node_turn stop inp nd)"
proof -
  from node_shape [of nd stop inp] obtain ms nd1 st
    where *: "node_turn stop inp nd = node_say ms nd1\<lparr> sn_stage := st \<rparr>" "took nd nd1"
      "ms \<noteq> [] \<longrightarrow> \<not> sn_out_closed nd \<and> past_asking nd"
    unfolding turn_shape_def by blast
  show ?thesis
  proof (cases "sn_out_closed nd")
    case True
    with * assms took_simps [OF *(2)] show ?thesis by (auto simp: up_inv_def node_say_def)
  next
    case False
    with * assms took_simps [OF *(2)] show ?thesis by (auto simp: up_inv_def node_say_def)
  qed
qed

lemma node_turn_down:
  assumes "down_inv parse taken down nd" shows "down_inv parse taken down (node_turn stop inp nd)"
proof -
  from node_shape [of nd stop inp] obtain ms nd1 st
    where *: "node_turn stop inp nd = node_say ms nd1\<lparr> sn_stage := st \<rparr>" "took nd nd1"
    unfolding turn_shape_def by blast
  with assms took_simps [OF *(2)] show ?thesis
    by (simp add: down_inv_def node_say_def del: append_assoc)
qed

lemma down_inv_in: "down_inv parse taken down nd \<Longrightarrow> set (sn_in nd) \<subseteq> set taken"
  by (auto simp: down_inv_def prefix_def split: if_splits dest!: arg_cong [where f = set])

lemma node_turn_said:
  assumes "said_inv allowed nd" and "down_inv parse taken down nd"
    and "\<And>m. m \<in> set taken \<Longrightarrow> is_accept m \<Longrightarrow> allowed"
  shows "said_inv allowed (node_turn stop inp nd)"
proof -
  from node_shape [of nd stop inp] obtain ms nd1 st
    where *: "node_turn stop inp nd = node_say ms nd1\<lparr> sn_stage := st \<rparr>" "took nd nd1"
      "ms \<noteq> [] \<longrightarrow> \<not> sn_out_closed nd \<and> past_asking nd"
      "\<forall>m \<in> set ms. media_message m \<or> m = SessionEnd UserStopped"
      "past_asking (node_turn stop inp nd) \<longrightarrow> past_asking nd \<or> (\<exists>m \<in> set (sn_in nd). is_accept m)"
    unfolding turn_shape_def by blast
  from *(5) have "past_asking (node_turn stop inp nd) \<longrightarrow> allowed"
    using assms down_inv_in [OF assms(2)] by (auto simp: said_inv_def)
  moreover from *(3) have "ms \<noteq> [] \<longrightarrow> allowed" using assms(1) by (auto simp: said_inv_def)
  ultimately show ?thesis
    using *(1,4) assms(1) took_simps [OF *(2)] by (fastforce simp: said_inv_def node_say_def)
qed

lemma client_write_inv:
  assumes "up_inv parse arrived up nd" and "lossless parse serialise"
    and "client_write serialise ok nd = (nd', out)"
  shows "up_inv parse arrived (up @ (case out of None \<Rightarrow> [] | Some t \<Rightarrow> [WsText t])) nd'"
proof (cases "sn_out nd")
  case Nil
  with assms show ?thesis by (auto simp: client_write_def)
next
  case (Cons m ms)
  obtain t where t: "serialise m = Some t" "parse t = Some m"
    using assms(2) by (auto simp: lossless_def)
  have "\<not> sn_out_closed nd" using assms(1) Cons by (auto simp: up_inv_def)
  show ?thesis
  proof (cases ok)
    case True
    with assms(3) t(1) Cons have "nd' = nd\<lparr> sn_out := ms \<rparr>" "out = Some t"
      by (simp_all add: client_write_def client_send_one_def)
    with assms(1) t(2) Cons \<open>\<not> sn_out_closed nd\<close> show ?thesis
      by (auto simp: up_inv_def admitted_snoc)
  next
    case False
    with assms(3) t(1) Cons have "nd' = nd\<lparr> sn_out := [], sn_out_closed := True \<rparr>" "out = None"
      by (simp_all add: client_write_def client_send_one_def)
    with assms(1) Cons \<open>\<not> sn_out_closed nd\<close> show ?thesis
      by (auto simp: up_inv_def)
  qed
qed

lemma client_write_other:
  "client_write serialise ok nd = (nd', out) \<Longrightarrow>
   sn_said nd' = sn_said nd \<and> sn_request nd' = sn_request nd \<and> sn_stage nd' = sn_stage nd \<and>
   sn_in nd' = sn_in nd \<and> sn_in_closed nd' = sn_in_closed nd \<and> sn_heard nd' = sn_heard nd"
  by (auto simp: client_write_def split: list.splits prod.splits bool.splits)

lemma client_read_inv:
  assumes "down_inv parse taken (t # ts) nd" and "client_read parse t nd = Some nd'"
  shows "down_inv parse taken ts nd'"
  using assms
  by (auto simp: down_inv_def client_read_def validate_is_ok prefix_def split: option.splits if_splits)
    (metis append_assoc)+

lemma client_read_other:
  "client_read parse t nd = Some nd' \<Longrightarrow>
   sn_said nd' = sn_said nd \<and> sn_request nd' = sn_request nd \<and> sn_stage nd' = sn_stage nd \<and>
   sn_out nd' = sn_out nd \<and> sn_out_closed nd' = sn_out_closed nd"
  by (auto simp: client_read_def split: option.splits if_splits)


section \<open>The invariant of the network\<close>

definition conn_inv :: "('t \<Rightarrow> signaling_message option) \<Rightarrow> 't network \<Rightarrow> connection_id \<Rightarrow> sender_node \<Rightarrow> bool" where
  "conn_inv parse n c nd \<longleftrightarrow>
     up_inv parse (heard_from (nw_trace n) c @ waiting_from (nw_inbox n) c) (nw_up n c) nd \<and>
     down_inv parse (nw_taken n c) (nw_down n c) nd \<and>
     said_inv (was_approved (nw_trace n) c) nd \<and> media_after (nw_trace n) c"

definition accepts_inv :: "'t network \<Rightarrow> bool" where
  "accepts_inv n \<longleftrightarrow>
     (\<forall>c m. m \<in> set (queue (chans (nw_loop n) c)) \<or> m \<in> set (nw_taken n c) \<longrightarrow> is_accept m \<longrightarrow>
        was_approved (nw_trace n) c)"

text \<open>Nothing is known of a connection before it is made.\<close>

definition fresh_inv :: "'t network \<Rightarrow> bool" where
  "fresh_inv n \<longleftrightarrow>
     (\<forall>c. c \<notin> set (nw_ids n) \<longrightarrow>
        heard_from (nw_trace n) c = [] \<and> waiting_from (nw_inbox n) c = [] \<and> nw_node n c = None)"

definition net_inv :: "('t \<Rightarrow> signaling_message option) \<Rightarrow> app_config \<Rightarrow> bool \<Rightarrow> 't network \<Rightarrow> bool" where
  "net_inv parse cfg adv n \<longleftrightarrow>
     nw_loop n = loop_run cfg adv (nw_trace n) \<and> id_inv (nw_server n, nw_ids n) \<and> accepts_inv n \<and> fresh_inv n \<and>
     (length (nw_ids n) < 2 ^ 64 \<longrightarrow> (\<forall>c nd. nw_node n c = Some nd \<longrightarrow> conn_inv parse n c nd))"

lemma said_inv_mono: "said_inv a nd \<Longrightarrow> (a \<Longrightarrow> b) \<Longrightarrow> said_inv b nd"
  by (auto simp: said_inv_def)

lemma loop_turn_simps [simp]:
  "nw_server (loop_turn ev n) = nw_server n" "nw_ids (loop_turn ev n) = nw_ids n"
  "nw_inbox (loop_turn ev n) = nw_inbox n" "nw_up (loop_turn ev n) = nw_up n"
  "nw_down (loop_turn ev n) = nw_down n" "nw_node (loop_turn ev n) = nw_node n"
  "nw_taken (loop_turn ev n) = nw_taken n" "nw_trace (loop_turn ev n) = nw_trace n @ [ev]"
  "nw_loop (loop_turn ev n) = loop_step (nw_loop n) ev"
  by (simp_all add: loop_turn_def)

lemma loop_turn_accepts:
  assumes "nw_loop n = loop_run cfg adv (nw_trace n)" and "accepts_inv n"
  shows "accepts_inv (loop_turn ev n)"
  unfolding accepts_inv_def
proof (intro allI impI)
  fix c m
  assume *: "m \<in> set (queue (chans (nw_loop (loop_turn ev n)) c)) \<or> m \<in> set (nw_taken (loop_turn ev n) c)" "is_accept m"
  have "loop_inv (nw_loop n)" "traced_inv (nw_loop n, nw_trace n)"
    using assms(1) loop_run_inv loop_run_traced by metis+
  with * accept_queued [of "nw_loop n" "nw_trace n" m ev c] assms(2)
  show "was_approved (nw_trace (loop_turn ev n)) c"
    by (auto simp: accepts_inv_def intro: was_approved_snoc)
qed

text \<open>A turn of the loop that takes no message.\<close>

lemma loop_turn_inv:
  assumes "net_inv parse cfg adv n" and "\<And>c. said_by c ev = None"
  shows "net_inv parse cfg adv (loop_turn ev n)"
proof -
  have "conn_inv parse (loop_turn ev n) c nd" if "conn_inv parse n c nd" for c nd
    using that assms(2) by (auto simp: conn_inv_def media_after_snoc intro: said_inv_mono was_approved_snoc)
  with assms loop_turn_accepts [of n cfg adv ev] show ?thesis
    by (auto simp: net_inv_def fresh_inv_def loop_run_snoc)
qed

lemma take_inv:
  assumes "net_inv parse cfg adv n" and "nw_inbox n = i # is"
  shows "net_inv parse cfg adv (loop_turn (Incoming i env clock) (n\<lparr> nw_inbox := is \<rparr>))" (is "net_inv _ _ _ ?n")
proof -
  have conn: "conn_inv parse ?n c nd" if c: "conn_inv parse n c nd" for c nd
  proof -
    have "heard_from (nw_trace ?n) c @ waiting_from (nw_inbox ?n) c =
        heard_from (nw_trace n) c @ waiting_from (nw_inbox n) c"
      using assms(2) by simp
    moreover have "was_approved (nw_trace n) c" if "said_by c (Incoming i env clock) = Some m" "media_message m" for m
    proof -
      have "m \<in> set (waiting_from (nw_inbox n) c)" using that(1) assms(2) by (auto split: if_splits)
      with c have "m \<in> set (sn_said nd)"
        by (auto simp: conn_inv_def up_inv_def dest!: arg_cong [where f = set])
      with c that(2) show ?thesis by (auto simp: conn_inv_def said_inv_def)
    qed
    ultimately show ?thesis
      using c by (auto simp: conn_inv_def media_after_snoc simp del: append_assoc
          intro: said_inv_mono was_approved_snoc)
  qed
  have "accepts_inv ?n"
    using assms loop_turn_accepts [of "n\<lparr> nw_inbox := is \<rparr>" cfg adv "Incoming i env clock"]
    by (auto simp: net_inv_def accepts_inv_def)
  moreover have "fresh_inv ?n"
    using assms by (fastforce simp: net_inv_def fresh_inv_def split: if_splits)
  ultimately show ?thesis
    using assms conn by (auto simp: net_inv_def loop_run_snoc)
qed

text \<open>A step that changes one sender and its wires.\<close>

lemma node_inv:
  assumes "net_inv parse cfg adv n" and "nw_node n c = Some nd"
    and "conn_inv parse n c nd \<Longrightarrow> conn_inv parse n' c nd'"
    and "n' = n\<lparr> nw_up := (nw_up n)(c := up), nw_down := (nw_down n)(c := down), nw_node := (nw_node n)(c := Some nd') \<rparr>"
  shows "net_inv parse cfg adv n'"
proof -
  have "conn_inv parse n' c' x" if "conn_inv parse n c' x" "c' \<noteq> c" for c' x
    using that assms(4) by (simp add: conn_inv_def)
  moreover have "c \<in> set (nw_ids n)" using assms(1,2) by (auto simp: net_inv_def fresh_inv_def)
  ultimately show ?thesis
    using assms by (auto simp: net_inv_def accepts_inv_def fresh_inv_def)
qed


lemma upd_same: "n = n\<lparr> nw_up := (nw_up n)(c := nw_up n c), nw_down := (nw_down n)(c := nw_down n c) \<rparr>"
  by simp

lemma server_ended: "id_inv (s, ids) \<Longrightarrow> id_inv (fst (accept_step s (ConnectionEnded c)), ids)"
  using id_inv_step [of "(s, ids)" "ConnectionEnded c"] by (simp add: id_step_def accept_step_def split: if_splits)

lemma server_field_inv:
  assumes "net_inv parse cfg adv n" and "id_inv (srv, nw_ids n)"
  shows "net_inv parse cfg adv (n\<lparr> nw_server := srv \<rparr>)"
  using assms by (simp add: net_inv_def accepts_inv_def fresh_inv_def conn_inv_def)

lemma hang_up_inv:
  assumes "net_inv parse cfg adv n" shows "net_inv parse cfg adv (hang_up c n)"
  unfolding hang_up_def
  by (rule loop_turn_inv [OF server_field_inv [OF assms server_ended]]) (use assms in \<open>auto simp: net_inv_def\<close>)

lemma media_after_nothing: "heard_from h c = [] \<Longrightarrow> media_after h c"
  by (auto simp: media_after_def heard_from_def map_filter_def)

lemma started_inv:
  assumes "heard_from (nw_trace n) c = []" and "waiting_from (nw_inbox n) c = []"
    and "nw_up n c = []" and "nw_down n c = []" and "nw_taken n c = []"
  shows "conn_inv parse n c (sender_start hash cap target)"
  using assms
  by (simp add: conn_inv_def up_inv_def down_inv_def said_inv_def media_after_nothing sender_start_def Let_def
      admitted_def past_asking_def session_request_def)

lemma fresh_id:
  assumes "id_inv (s, ids)" and "accept_step s Accepted = (s', Served c)" and "length (ids @ [c]) < 2 ^ 64"
  shows "c \<notin> set ids"
proof -
  have "id_inv (s', ids @ [c])"
    using id_inv_step [OF assms(1), of Accepted] assms(2) by (simp add: id_step_def)
  then have "distinct (ids @ [c])"
    using distinct_ids [of "length (ids @ [c])"] assms(3) by (simp add: id_inv_def)
  then show ?thesis by simp
qed

lemma accepts_dial:
  assumes "net_inv parse cfg adv n" and "\<And>nd. start = Some nd \<Longrightarrow> \<exists>hash cap target. nd = sender_start hash cap target"
  shows "net_inv parse cfg adv (server_accepts peer start n)"
proof -
  obtain s out where so: "accept_step (nw_server n) Accepted = (s, out)" by fastforce
  have id: "id_inv (nw_server n, nw_ids n)" using assms(1) by (simp add: net_inv_def)
  show ?thesis
  proof (cases "\<exists>c. out = Served c")
    case False
    with so have "id_inv (s, nw_ids n)"
      using id_inv_step [OF id, of Accepted] by (auto simp: id_step_def split: accept_outcome.splits)
    with server_field_inv [OF assms(1)] so False show ?thesis
      by (cases out) (simp_all add: server_accepts_def)
  next
    case True
    then obtain c where out: "out = Served c" by blast
    let ?n = "server_accepts peer start n"
    have upd: "?n = n\<lparr> nw_server := s, nw_ids := nw_ids n @ [c], nw_peer := (nw_peer n)(c := peer),
        nw_up := (nw_up n)(c := []), nw_down := (nw_down n)(c := []),
        nw_node := (nw_node n)(c := start), nw_taken := (nw_taken n)(c := []) \<rparr>"
      by (simp add: server_accepts_def so out)
    have "id_inv (s, nw_ids n @ [c])"
      using id_inv_step [OF id, of Accepted] so out by (simp add: id_step_def)
    moreover have "conn_inv parse ?n c' nd"
      if "length (nw_ids n @ [c]) < 2 ^ 64" "nw_node ?n c' = Some nd" for c' nd
    proof (cases "c' = c")
      case True
      have "c \<notin> set (nw_ids n)" using fresh_id [OF id] so out that(1) by blast
      then have "conn_inv parse ?n c (sender_start hash cap target)" for hash cap target
        using assms(1) by (intro started_inv) (auto simp: upd net_inv_def fresh_inv_def)
      with that(2) True assms(2) show ?thesis by (auto simp: upd)
    next
      case False
      with that assms(1) show ?thesis by (auto simp: upd net_inv_def conn_inv_def)
    qed
    ultimately show ?thesis
      using assms(1) by (auto simp: net_inv_def upd accepts_inv_def fresh_inv_def)
  qed
qed

lemma server_reads_inv:
  assumes "net_inv parse cfg adv n" and "c \<in> set (live (nw_server n))"
  shows "net_inv parse cfg adv (server_reads parse c n)"
proof (cases "nw_up n c")
  case (Cons ev evs)
  have c: "c \<in> set (nw_ids n)" using assms by (auto simp: net_inv_def id_inv_def)
  obtain out on where ro: "read_one parse c (nw_peer n c) True ev = (out, on)" by fastforce
  show ?thesis
  proof (cases on)
    case False
    with ro Cons hang_up_inv [OF assms(1)] show ?thesis
      by (simp add: server_reads_def split: option.splits)
  next
    case True
    have keep: "keeps_reading ev" using ro True by (cases ev) (auto simp: read_one_def)
    have out: "(case out of None \<Rightarrow> [] | Some i \<Rightarrow> [im_message i]) =
        (case text_message parse ev of None \<Rightarrow> [] | Some m \<Rightarrow> if within_bounds m then [m] else []) \<and>
      (\<forall>i. out = Some i \<longrightarrow> im_connection i = c)"
      using ro True by (cases ev) (auto simp: read_one_def validate_is_ok split: option.splits if_splits)
    let ?n = "n\<lparr> nw_inbox := nw_inbox n @ (case out of None \<Rightarrow> [] | Some i \<Rightarrow> [i]), nw_up := (nw_up n)(c := evs) \<rparr>"
    have wait: "waiting_from (nw_inbox ?n) c' = waiting_from (nw_inbox n) c' @
        (if c' = c then (case text_message parse ev of None \<Rightarrow> [] | Some m \<Rightarrow> if within_bounds m then [m] else []) else [])" for c'
      using out by (cases out) (auto split: option.splits)
    have "conn_inv parse ?n c' nd" if "conn_inv parse n c' nd" for c' nd
      using that wait [of c'] Cons keep by (cases "c' = c") (auto simp: conn_inv_def up_inv_def admitted_Cons)
    with assms(1) c wait have "net_inv parse cfg adv ?n"
      by (auto simp: net_inv_def accepts_inv_def fresh_inv_def)
    with assms(1) ro Cons True show ?thesis
      by (cases out) (auto simp: server_reads_def)
  qed
qed (simp add: server_reads_def assms)


lemma down_inv_snoc:
  assumes "down_inv parse taken down nd" and "parse t = Some m"
  shows "down_inv parse (taken @ [m]) (down @ [t]) nd"
  using assms by (auto simp: down_inv_def map_filter_def simp flip: append_assoc intro: prefix_prefix)

lemma reply_written_inv:
  assumes "net_inv parse cfg adv n" and "lossless parse serialise"
  shows "net_inv parse cfg adv (reply_written serialise c w n)"
proof (cases "queue (chans (nw_loop n) c)")
  case (Cons m ms)
  obtain t where t: "serialise m = Some t" "parse t = Some m" using assms(2) by (auto simp: lossless_def)
  have quiet: "net_inv parse cfg adv (loop_turn (PeerReads c) n)" "net_inv parse cfg adv (loop_turn (PeerGone c) n)"
    by (rule loop_turn_inv [OF assms(1)], simp)+
  show ?thesis
  proof (cases "w = Written")
    case True
    let ?n = "(loop_turn (PeerReads c) n)\<lparr> nw_down := (nw_down n)(c := nw_down n c @ [t]),
        nw_taken := (nw_taken n)(c := nw_taken n c @ [m]) \<rparr>"
    have "m \<in> set (queue (chans (nw_loop n) c))" by (simp add: Cons)
    then have "is_accept m \<Longrightarrow> was_approved (nw_trace n) c"
      using assms(1) unfolding net_inv_def accepts_inv_def by blast
    then have "accepts_inv ?n"
      using quiet(1) by (auto simp: net_inv_def accepts_inv_def was_approved_snoc)
    moreover have "conn_inv parse ?n c' nd" if "conn_inv parse (loop_turn (PeerReads c) n) c' nd" for c' nd
      using that t(2) by (auto simp: conn_inv_def down_inv_snoc)
    ultimately have "net_inv parse cfg adv ?n"
      using quiet(1) by (auto simp: net_inv_def fresh_inv_def)
    with Cons t(1) True show ?thesis by (simp add: reply_written_def channel_recv_def send_one_def)
  qed (use Cons t(1) quiet in \<open>cases w; simp add: reply_written_def channel_recv_def send_one_def\<close>)
qed (simp add: reply_written_def channel_recv_def assms)

lemma sender_turn_inv:
  assumes "net_inv parse cfg adv n" and "nw_node n c = Some nd"
  shows "net_inv parse cfg adv (n\<lparr> nw_node := (nw_node n)(c := Some (node_turn stop inp nd)) \<rparr>)" (is "net_inv _ _ _ ?n")
proof (rule node_inv [OF assms])
  assume "conn_inv parse n c nd"
  moreover have "m \<in> set (nw_taken n c) \<Longrightarrow> is_accept m \<Longrightarrow> was_approved (nw_trace n) c" for m
    using assms(1) by (auto simp: net_inv_def accepts_inv_def)
  ultimately show "conn_inv parse ?n c (node_turn stop inp nd)"
    by (simp add: conn_inv_def node_turn_up node_turn_down) (blast intro: node_turn_said)
next
  show "?n = n\<lparr> nw_up := (nw_up n)(c := nw_up n c), nw_down := (nw_down n)(c := nw_down n c),
      nw_node := (nw_node n)(c := Some (node_turn stop inp nd)) \<rparr>" by simp
qed

lemma sender_writes_inv:
  assumes "net_inv parse cfg adv n" and "lossless parse serialise" and "nw_node n c = Some nd"
    and "client_write serialise ok nd = (nd', out)"
  shows "net_inv parse cfg adv (n\<lparr> nw_node := (nw_node n)(c := Some nd'),
      nw_up := (nw_up n)(c := nw_up n c @ (case out of None \<Rightarrow> [] | Some t \<Rightarrow> [WsText t])) \<rparr>)" (is "net_inv _ _ _ ?n")
proof (rule node_inv [OF assms(1,3)])
  assume "conn_inv parse n c nd"
  with client_write_inv [OF _ assms(2,4)] client_write_other [OF assms(4)] show "conn_inv parse ?n c nd'"
    by (auto simp: conn_inv_def down_inv_def said_inv_def past_asking_def)
next
  show "?n = n\<lparr> nw_up := (nw_up n)(c := nw_up n c @ (case out of None \<Rightarrow> [] | Some t \<Rightarrow> [WsText t])),
      nw_down := (nw_down n)(c := nw_down n c), nw_node := (nw_node n)(c := Some nd') \<rparr>" by simp
qed

lemma sender_reads_inv:
  assumes "net_inv parse cfg adv n" and "nw_node n c = Some nd" and "nw_down n c = t # ts"
    and "client_read parse t nd = Some nd'"
  shows "net_inv parse cfg adv (n\<lparr> nw_node := (nw_node n)(c := Some nd'), nw_down := (nw_down n)(c := ts) \<rparr>)"
    (is "net_inv _ _ _ ?n")
proof (rule node_inv [OF assms(1,2)])
  assume "conn_inv parse n c nd"
  with client_read_inv [OF _ assms(4)] client_read_other [OF assms(4)] assms(3) show "conn_inv parse ?n c nd'"
    by (auto simp: conn_inv_def up_inv_def said_inv_def past_asking_def)
next
  show "?n = n\<lparr> nw_up := (nw_up n)(c := nw_up n c), nw_down := (nw_down n)(c := ts),
      nw_node := (nw_node n)(c := Some nd') \<rparr>" by simp
qed

lemma down_inv_close: "down_inv parse taken down nd \<Longrightarrow> down_inv parse taken down (nd\<lparr> sn_in_closed := True \<rparr>)"
  by (simp add: down_inv_def split: if_splits) (metis append.assoc prefixI)

lemma sender_loses_inv:
  assumes "net_inv parse cfg adv n" and "nw_node n c = Some nd"
  shows "net_inv parse cfg adv (n\<lparr> nw_node := (nw_node n)(c := Some (nd\<lparr> sn_in_closed := True \<rparr>)) \<rparr>)"
    (is "net_inv _ _ _ ?n")
proof (rule node_inv [OF assms])
  assume "conn_inv parse n c nd"
  then show "conn_inv parse ?n c (nd\<lparr> sn_in_closed := True \<rparr>)"
    by (auto simp: conn_inv_def up_inv_def down_inv_close said_inv_def past_asking_def)
next
  show "?n = n\<lparr> nw_up := (nw_up n)(c := nw_up n c), nw_down := (nw_down n)(c := nw_down n c),
      nw_node := (nw_node n)(c := Some (nd\<lparr> sn_in_closed := True \<rparr>)) \<rparr>" by simp
qed

lemma injects_inv:
  assumes "net_inv parse cfg adv n" and "nw_node n c = None"
  shows "net_inv parse cfg adv (n\<lparr> nw_up := (nw_up n)(c := up) \<rparr>)"
  using assms by (auto simp: net_inv_def accepts_inv_def fresh_inv_def conn_inv_def)

lemma net_step_inv:
  assumes "net_inv parse cfg adv n" and "lossless parse serialise"
  shows "net_inv parse cfg adv (net_step parse serialise n ev)"
proof (cases ev)
  case (Dials peer start)
  with accepts_dial [OF assms(1), of "map_option (\<lambda>(hash, cap, target). sender_start hash cap target) start" peer]
  show ?thesis by (auto simp: net_step_def)
next
  case (Injects c e)
  with assms injects_inv show ?thesis by (auto simp: net_step_def split: option.splits)
next
  case (SenderWrites c ok)
  show ?thesis
  proof (cases "nw_node n c")
    case (Some nd)
    obtain nd' out where w: "client_write serialise ok nd = (nd', out)" by fastforce
    from sender_writes_inv [OF assms Some w] show ?thesis
      by (cases out) (simp_all add: net_step_def SenderWrites Some w)
  qed (simp add: net_step_def SenderWrites assms)
next
  case (SenderReads c)
  with assms sender_reads_inv [OF assms(1)] show ?thesis
    by (auto simp: net_step_def split: option.splits list.splits)
next
  case (SenderLosesReceiver c)
  with assms sender_loses_inv show ?thesis by (auto simp: net_step_def split: option.splits)
next
  case (SenderTurns c stop inp)
  with assms sender_turn_inv show ?thesis by (auto simp: net_step_def split: option.splits)
next
  case (LoopTakes env clock)
  with assms take_inv show ?thesis by (auto simp: net_step_def split: list.splits)
next
  case (LoopDoes e)
  moreover have "own_event e \<Longrightarrow> said_by c e = None" for c by (cases e) (simp_all add: own_event_def)
  ultimately show ?thesis using assms by (auto simp: net_step_def intro: loop_turn_inv)
qed (use assms in \<open>simp_all add: net_step_def server_reads_inv hang_up_inv reply_written_inv\<close>)

lemma network_start_inv: "net_inv parse cfg adv (network_start cfg adv)"
  by (simp add: net_inv_def network_start_def accepts_inv_def fresh_inv_def id_inv_def server_inv_def server_new_def
      loop_run_def session_loop_new_def new_channel_def Let_def)

lemma network_run_inv:
  assumes "lossless parse serialise"
  shows "net_inv parse cfg adv (network_run parse serialise cfg adv es)"
proof -
  have "net_inv parse cfg adv n \<Longrightarrow> net_inv parse cfg adv (foldl (net_step parse serialise) n es)" for n
    by (induction es arbitrary: n) (simp_all add: net_step_inv [OF _ assms])
  then show ?thesis by (simp add: network_run_def network_start_inv)
qed


text \<open>Whoever was let in under a name had that name in the one request it sent.\<close>

lemma heard_from_in: "Incoming i env clock \<in> set h \<Longrightarrow> im_message i \<in> set (heard_from h (im_connection i))"
  by (force simp: heard_from_def map_filter_def)

lemma heard_prefix:
  assumes "conn_inv parse n c nd"
  shows "prefix (heard_from (nw_trace n) c) (filter within_bounds (sn_said nd))"
  using assms by (auto simp: conn_inv_def up_inv_def intro: prefixI [OF sym])

lemma approved_name:
  assumes "conn_inv parse n c nd" and "sn_request nd = SessionRequest sid name ver caps"
    and "nw_trace n = h @ h'" and "was_approved h c"
  shows "approved h c name"
proof -
  obtain name' where *: "approved h c name'" using assms(4) by (auto simp: was_approved_def)
  then obtain h1 d h2 where h: "h = h1 @ Decide d # h2" "asked h1 c name'" by (auto simp: approved_def)
  then obtain i env clock sid' caps' where i: "Incoming i env clock \<in> set h1" "im_connection i = c"
      "im_message i = SessionRequest sid' name' PROTOCOL_VERSION caps'" by (auto simp: asked_def)
  then have "SessionRequest sid' name' PROTOCOL_VERSION caps' \<in> set (heard_from (nw_trace n) c)"
    using heard_from_in [of i env clock "nw_trace n"] h(1) assms(3) by simp
  then have "SessionRequest sid' name' PROTOCOL_VERSION caps' \<in> set (sn_said nd)"
    using set_mono_prefix [OF heard_prefix [OF assms(1)]] by auto
  with assms(1,2) have "name' = name" by (auto simp: conn_inv_def said_inv_def)
  with * show ?thesis by simp
qed


section \<open>Properties\<close>

text \<open>C3. Whatever the schedule, whatever fails and whatever other programs send on their connections: a
  cast of this program is past its asking (builds its pipeline, streams, or ends a stream) only if the person
  at the receiver accepted that very connection, after its request had come under its own name; of its
  negotiation the receiver handles nothing before that acceptance; and if the session is its
  connection's, the name on the receiver's screen is the one it asked under. It assumes that serde reads back what it wrote and
  that the 64-bit connection numbers have not run out.\<close>

theorem streaming_needs_acceptance:
  assumes "lossless parse serialise" and "n = network_run parse serialise cfg adv es"
    and "length (nw_ids n) < 2 ^ 64" and "nw_node n c = Some nd"
    and "sn_request nd = SessionRequest sid name ver caps"
  shows "(past_asking nd \<longrightarrow> approved (nw_trace n) c name) \<and>
    (\<forall>h1 i env clock h2. nw_trace n = h1 @ Incoming i env clock # h2 \<longrightarrow> im_connection i = c \<longrightarrow>
       media_message (im_message i) \<longrightarrow> approved h1 c name) \<and>
    (\<forall>a. active_session (nw_loop n) = Some a \<longrightarrow> a_connection a = c \<longrightarrow> a_display_name a = name)"
proof (intro conjI allI impI)
  have inv: "net_inv parse cfg adv n" using network_run_inv [OF assms(1)] assms(2) by simp
  then have conn: "conn_inv parse n c nd" using assms(3,4) by (auto simp: net_inv_def)
  note name = approved_name [OF conn assms(5)]
  show "approved (nw_trace n) c name" if "past_asking nd"
    using name [of "nw_trace n" "[]"] that conn by (simp add: conn_inv_def said_inv_def)
  show "approved h1 c name"
    if "nw_trace n = h1 @ Incoming i env clock # h2" "im_connection i = c" "media_message (im_message i)"
    for h1 i env clock h2
    using name [OF that(1)] that conn unfolding conn_inv_def media_after_def by blast
  show "a_display_name a = name" if a: "active_session (nw_loop n) = Some a" "a_connection a = c" for a
  proof -
    have "approved (nw_trace n) c (a_display_name a)"
      using loop_run_traced [of cfg adv "nw_trace n"] inv a by (auto simp: net_inv_def traced_inv_def)
    then obtain i env clock sid' caps' where i: "Incoming i env clock \<in> set (nw_trace n)" "im_connection i = c"
      "im_message i = SessionRequest sid' (a_display_name a) PROTOCOL_VERSION caps'"
      unfolding approved_def asked_def by fastforce
    then have "im_message i \<in> set (sn_said nd)"
      using heard_from_in [OF i(1)] set_mono_prefix [OF heard_prefix [OF conn]] by auto
    with i(3) conn assms(5) show ?thesis by (auto simp: conn_inv_def said_inv_def)
  qed
qed

definition demo_capture :: capture_config where
  "demo_capture = \<lparr> cap_width = 1280, cap_height = 720, cap_framerate = 30, cap_pw_fd = 5, cap_node_id = 42 \<rparr>"

text \<open>A sender asks, is let in and prepares.\<close>

definition demo_events :: "signaling_message net_event list" where
  "demo_events =
     [Dials (V4 8, 2) (Some (1, demo_capture, demo_target)),
      SenderWrites 1 True, ServerReads 1, LoopTakes all_good 0,
      LoopDoes (Decide \<lparr> d_connection = 1, d_accept = True \<rparr>),
      ReplyWritten 1 Written, SenderReads 1, SenderTurns 1 False (TakesMessage (Inr ()))]"

definition demo_network :: "signaling_message network" where
  "demo_network = network_run Some Some (default_config None) True demo_events"

lemma demo_name: "sanitise_display_name (lit ''Laptop'') = lit ''Laptop''"
  by code_simp

lemma demo_target_name: "target_display_name demo_target = lit ''Laptop''"
  by (simp add: demo_target_def)

lemma demo_accept: "is_ok (validate (accept_message (default_config None) f))"
  by (simp add: accept_message_def default_config_def) code_simp

lemma demo_facts:
  "length (nw_ids demo_network) = 1 \<and> map_option sn_stage (nw_node demo_network 1) = Some Preparing \<and>
   map_option sn_request (nw_node demo_network 1) = Some (session_request 1 demo_capture demo_target)"
  using request_valid [of 1 demo_capture demo_target] demo_accept
  by (simp add: demo_network_def demo_events_def network_run_def network_start_def net_step_def
      server_accepts_def accept_step_def server_new_def sender_start_def Let_def MAX_CONNECTIONS_def
      client_write_def client_send_one_def server_reads_def read_one_def INBOX_CAPACITY_def
      session_request_def loop_turn_def loop_step_def handle_message_def handle_session_request_def
      session_loop_new_def new_channel_def set_status_def pending_insert_def own_event_def handle_decision_def
      pending_remove_def stop_media_def send_to_def handle_simps REPLY_CAPACITY_def reply_written_def
      channel_recv_def send_one_def client_read_def dropped_def CLIENT_CAPACITY_def node_turn_def asking_turn_def
      node_recv_def wait_turn_def accept_message_def)

theorem streaming_needs_acceptance_witness:
  "approved (nw_trace demo_network) 1 (lit ''Laptop'')"
proof -
  obtain nd where nd: "nw_node demo_network 1 = Some nd" "sn_stage nd = Preparing"
      "sn_request nd = session_request 1 demo_capture demo_target"
    using demo_facts by auto
  have "lossless Some Some" by (simp add: lossless_def)
  moreover have "\<exists>sid ver caps. sn_request nd = SessionRequest sid (lit ''Laptop'') ver caps"
    by (simp add: nd(3) session_request_def demo_target_name demo_name)
  ultimately show ?thesis
    using streaming_needs_acceptance [OF _ demo_network_def _ nd(1)] demo_facts nd(2)
    by (auto simp: past_asking_def)
qed

text \<open>C11. Each end hears the other in order and without a gap: what the loop has handled from a sender is a
  prefix of what that sender said, and what a sender has taken from its channel is a prefix of what
  the server wrote to its connection, each without the messages that exceed their bounds; and while neither end has
  closed its side nothing is lost.\<close>

theorem each_end_hears_in_order:
  assumes "lossless parse serialise" and "n = network_run parse serialise cfg adv es"
    and "length (nw_ids n) < 2 ^ 64" and "nw_node n c = Some nd"
  shows "prefix (heard_from (nw_trace n) c) (filter within_bounds (sn_said nd)) \<and>
    prefix (sn_heard nd) (filter within_bounds (nw_taken n c)) \<and>
    (\<not> sn_out_closed nd \<and> nw_up n c = [] \<and> sn_out nd = [] \<and> waiting_from (nw_inbox n) c = [] \<longrightarrow>
       heard_from (nw_trace n) c = filter within_bounds (sn_said nd)) \<and>
    (\<not> sn_in_closed nd \<and> nw_down n c = [] \<and> sn_in nd = [] \<longrightarrow>
       sn_heard nd = filter within_bounds (nw_taken n c))"
proof -
  have conn: "conn_inv parse n c nd"
    using network_run_inv [OF assms(1), of cfg adv es] assms(2,3,4) by (auto simp: net_inv_def)
  then have "prefix (sn_heard nd) (filter within_bounds (nw_taken n c))"
    by (auto simp: conn_inv_def down_inv_def intro: append_prefixD prefixI [OF sym] split: if_splits)
  moreover have "\<not> sn_out_closed nd \<and> nw_up n c = [] \<and> sn_out nd = [] \<and> waiting_from (nw_inbox n) c = [] \<longrightarrow>
      heard_from (nw_trace n) c = filter within_bounds (sn_said nd)"
    using conn by (auto simp: conn_inv_def up_inv_def admitted_def)
  moreover have "\<not> sn_in_closed nd \<and> nw_down n c = [] \<and> sn_in nd = [] \<longrightarrow>
      sn_heard nd = filter within_bounds (nw_taken n c)"
    using conn by (auto simp: conn_inv_def down_inv_def)
  ultimately show ?thesis using heard_prefix [OF conn] by blast
qed

theorem each_end_hears_in_order_witness:
  "\<exists>nd. nw_node demo_network 1 = Some nd \<and>
     prefix (heard_from (nw_trace demo_network) 1) (filter within_bounds (sn_said nd))"
proof -
  obtain nd where nd: "nw_node demo_network 1 = Some nd" using demo_facts by auto
  have "lossless Some Some" by (simp add: lossless_def)
  with each_end_hears_in_order [OF _ demo_network_def _ nd] demo_facts nd show ?thesis by simp
qed

end
