(* ===== verification/Receiver_Pages.thy ===== *)
theory Receiver_Pages
  imports Network Receiver_Window
begin

text \<open>
  The text and the buttons of the receiver's pages (\<open>openplay-receiver/src/window.rs\<close>) and the
  decision a button sends (\<open>NetHandle::decide\<close> in \<open>net.rs\<close>). A page is the list of its lines, from
  top to bottom; fonts, colours and spacing are not modelled.

  The lemmas bring the screen and the network together: what the prompt shows of a stranger is one
  line that passed the receiver's gate, and its buttons answer for the connection that asked.
\<close>

section \<open>The pages\<close>

definition waiting_page :: "ustr \<Rightarrow> u16 \<Rightarrow> ustr list" where
  "waiting_page name port =
     [name, lit ''Waiting for a sender to connect...'',
      lit ''Discoverable on this network '' @ [0xB7] @ lit ('' port '' @ show_radix 10 (unat port))]"

definition consent_page :: "ustr \<Rightarrow> ustr list" where
  "consent_page sender_name =
     [lit ''Allow this device to cast?'', sender_name,
      lit ''OpenPlay cannot verify who this is. Only accept a device you recognise.'']"

definition negotiating_page :: "ustr \<Rightarrow> ustr \<Rightarrow> ustr list" where
  "negotiating_page name sender_name = [name, lit ''Connecting to '' @ sender_name @ lit ''...'']"

definition failed_page :: "ustr \<Rightarrow> ustr \<Rightarrow> ustr list" where
  "failed_page name reason = [name, reason]"

definition receiving_line :: "ustr \<Rightarrow> ustr list" where
  "receiving_line sender_name = [lit ''Receiving from '' @ sender_name @ lit ''...'']"

fun page_lines :: "'tex page \<Rightarrow> ustr list" where
  "page_lines (WaitingPage name port) = waiting_page name port"
| "page_lines (ConsentPage sender_name c) = consent_page sender_name"
| "page_lines (NegotiatingPage name sender_name) = negotiating_page name sender_name"
| "page_lines (FailedPage name reason) = failed_page name reason"
| "page_lines (SpinnerPage sender_name) = receiving_line sender_name"
| "page_lines (PicturePage t) = []"

definition clear_color :: "nat \<times> nat \<times> nat \<times> nat" where "clear_color = (0, 0, 0, 1)"


section \<open>The buttons\<close>

text \<open>A decision is queued for the loop, or dropped with a warning if the loop is gone; without a
  network side there is nobody to tell.\<close>

definition net_decide :: "bool \<Rightarrow> connection_id \<Rightarrow> bool \<Rightarrow> decision list \<Rightarrow> decision list" where
  "net_decide loop_alive c accept queued =
     (if loop_alive then queued @ [\<lparr> d_connection = c, d_accept = accept \<rparr>] else queued)"

definition window_decide :: "bool option \<Rightarrow> connection_id \<Rightarrow> bool \<Rightarrow> decision list \<Rightarrow> decision list" where
  "window_decide net c accept queued =
     (case net of None \<Rightarrow> queued | Some loop_alive \<Rightarrow> net_decide loop_alive c accept queued)"

definition ALLOW :: ustr where "ALLOW = lit ''Allow''"
definition DENY :: ustr where "DENY = lit ''Deny''"

fun page_buttons :: "'tex page \<Rightarrow> ustr list" where
  "page_buttons (ConsentPage _ _) = [ALLOW, DENY]"
| "page_buttons _ = []"

text \<open>The effect of clicking the button with a label, if the page has it.\<close>

definition button_clicked :: "bool option \<Rightarrow> 'tex page \<Rightarrow> ustr \<Rightarrow> decision list \<Rightarrow> decision list" where
  "button_clicked net p label queued =
     (case p of
        ConsentPage _ c \<Rightarrow>
          if label = ALLOW then window_decide net c True queued
          else if label = DENY then window_decide net c False queued
          else queued
      | _ \<Rightarrow> queued)"

lemma labels_differ: "ALLOW \<noteq> DENY" "DENY \<noteq> ALLOW"
  by (simp_all add: ALLOW_def DENY_def lit_def)

lemma allow_is_click: "button_clicked (Some True) p ALLOW queued = queued @ click p True"
  by (cases p) (simp_all add: button_clicked_def window_decide_def net_decide_def labels_differ)

lemma deny_is_click: "button_clicked (Some True) p DENY queued = queued @ click p False"
  by (cases p) (simp_all add: button_clicked_def window_decide_def net_decide_def labels_differ)

lemmas button_is_click = allow_is_click deny_is_click


section \<open>Names on the screen\<close>

text \<open>A prompt is put up by nothing but a request, under the name that the request gives.\<close>

lemma reset_no_prompt [simp]: "status (reset_status s) \<noteq> PendingConsent n c"
  by (simp split: option.split)

lemma quiet_status [simp]:
  "status (set_status st s) = st" "status (pending_remove c s) = status s"
  "status (stop_media m s) = status s" "status (pending_insert c p s) = status s"
  by (simp_all add: set_status_def pending_remove_def stop_media_def pending_insert_def split: option.splits)

lemma torn_no_prompt [simp]:
  "status (tear_down s) \<noteq> PendingConsent n c" "status (fail_session r s) \<noteq> PendingConsent n c"
  by (simp_all add: tear_down_def fail_session_def Let_def split: option.split)

lemma handle_offer_prompt: "status (handle_offer c' env s) = PendingConsent n c \<Longrightarrow> status s = PendingConsent n c"
  by (auto simp: handle_offer_def Let_def split: option.splits sum.splits if_splits)

lemma handle_message_prompt:
  assumes "status (handle_message i env clock s) = PendingConsent n c"
  shows "status s = PendingConsent n c \<or> asked [Incoming i env clock] c n"
proof (cases "im_message i")
  case (SessionRequest sid name ver caps)
  with assms show ?thesis
    by (auto simp: handle_message_def handle_session_request_def asked_def list_ex_iff Let_def split: if_splits)
qed (use assms in \<open>auto simp: handle_message_def Let_def dest: handle_offer_prompt split: option.splits if_splits\<close>)

lemma handle_decision_prompt: "status (handle_decision d s) = PendingConsent n c \<Longrightarrow> status s = PendingConsent n c"
  by (auto simp: handle_decision_def Let_def split: option.splits if_splits)

lemma handle_webrtc_prompt: "status (handle_webrtc_event e s) = PendingConsent n c \<Longrightarrow> status s = PendingConsent n c"
  by (auto simp: handle_webrtc_event_def split: option.splits webrtc_event.splits if_splits)

lemma tick_prompt: "status (drop_dead_connections s) = PendingConsent n c \<Longrightarrow> status s = PendingConsent n c"
  by (auto simp: drop_dead_connections_def Let_def simp del: reset_status_status split: if_splits)

lemma loop_step_prompt:
  assumes "status (loop_step s ev) = PendingConsent n c"
  shows "status s = PendingConsent n c \<or> asked [ev] c n"
  using assms
  by (cases ev) (auto simp: loop_step_def dest: handle_message_prompt handle_decision_prompt handle_webrtc_prompt
      tick_prompt split: if_splits)

lemma prompt_asked: "status (loop_run cfg adv h) = PendingConsent n c \<Longrightarrow> asked h c n"
proof (induction h rule: rev_induct)
  case Nil
  then show ?case by (auto simp: loop_run_def session_loop_new_def Let_def split: if_splits)
next
  case (snoc ev h)
  from loop_step_prompt [OF snoc.prems [unfolded loop_run_snoc]] snoc.IH show ?case
    by (auto intro: asked_mono asked_last)
qed

text \<open>Everything the loop was handed or will be handed has passed the server's gate.\<close>

fun entered :: "loop_event \<Rightarrow> bool" where
  "entered (Incoming i env clock) = within_bounds (im_message i)"
| "entered _ = True"

definition gated :: "app_config \<Rightarrow> bool \<Rightarrow> 't network \<Rightarrow> bool" where
  "gated cfg adv n \<longleftrightarrow> nw_loop n = loop_run cfg adv (nw_trace n) \<and>
     list_all (\<lambda>i. within_bounds (im_message i)) (nw_inbox n) \<and> list_all entered (nw_trace n)"

lemma gated_turn: "gated cfg adv n \<Longrightarrow> entered ev \<Longrightarrow> gated cfg adv (loop_turn ev n)"
  by (simp add: gated_def loop_run_snoc)

lemma gated_fields [simp]:
  "gated cfg adv (n\<lparr> nw_server := sv \<rparr>) = gated cfg adv n"
  "gated cfg adv (n\<lparr> nw_node := nd \<rparr>) = gated cfg adv n"
  "gated cfg adv (n\<lparr> nw_up := up \<rparr>) = gated cfg adv n"
  "gated cfg adv (n\<lparr> nw_up := up, nw_node := nd \<rparr>) = gated cfg adv n"
  "gated cfg adv (n\<lparr> nw_node := nd, nw_up := up \<rparr>) = gated cfg adv n"
  "gated cfg adv (n\<lparr> nw_node := nd, nw_down := dn \<rparr>) = gated cfg adv n"
  "gated cfg adv (n\<lparr> nw_down := dn, nw_node := nd \<rparr>) = gated cfg adv n"
  "gated cfg adv (n\<lparr> nw_down := dn, nw_taken := tk \<rparr>) = gated cfg adv n"
  "gated cfg adv (n\<lparr> nw_server := sv, nw_ids := ids, nw_peer := pe, nw_up := up, nw_down := dn,
     nw_node := nd, nw_taken := tk \<rparr>) = gated cfg adv n"
  by (simp_all add: gated_def)

lemma gated_hang_up: "gated cfg adv n \<Longrightarrow> gated cfg adv (hang_up c n)"
  by (simp add: hang_up_def gated_turn)

lemma gated_inbox:
  "gated cfg adv n \<Longrightarrow> within_bounds (im_message i) \<Longrightarrow> gated cfg adv (n\<lparr> nw_inbox := nw_inbox n @ [i], nw_up := up \<rparr>)"
  "gated cfg adv n \<Longrightarrow> within_bounds (im_message i) \<Longrightarrow> gated cfg adv (n\<lparr> nw_inbox := nw_inbox n @ [i] \<rparr>)"
  "gated cfg adv n \<Longrightarrow> nw_inbox n = i # is \<Longrightarrow> gated cfg adv (loop_turn (Incoming i env clock) (n\<lparr> nw_inbox := is \<rparr>))"
  by (simp_all add: gated_def loop_run_snoc)

lemma read_one_bounds: "read_one parse c peer True ev = (Some i, b) \<Longrightarrow> within_bounds (im_message i)"
  by (auto simp: read_one_def validate_is_ok split: ws_event.splits option.splits if_splits)

lemma gated_read: "gated cfg adv n \<Longrightarrow> gated cfg adv (server_reads parse c n)"
  by (auto simp: server_reads_def intro: gated_hang_up gated_inbox dest: read_one_bounds
      split: list.splits option.splits prod.splits bool.splits)

lemma gated_reply: "gated cfg adv n \<Longrightarrow> gated cfg adv (reply_written serialise c w n)"
  by (auto simp: reply_written_def intro: gated_turn split: option.splits prod.splits bool.splits)

lemma gated_step: "gated cfg adv n \<Longrightarrow> gated cfg adv (net_step parse serialise n ev)"
  by (cases ev) (auto simp: net_step_def server_accepts_def own_event_def
      intro: gated_hang_up gated_inbox gated_read gated_reply gated_turn
      split: option.splits list.splits prod.splits accept_outcome.splits loop_event.splits)

lemma gated_run: "gated cfg adv (network_run parse serialise cfg adv es)"
proof -
  have "gated cfg adv n \<Longrightarrow> gated cfg adv (foldl (net_step parse serialise) n es)" for n
    by (induction es arbitrary: n) (simp_all add: gated_step)
  then show ?thesis by (simp add: network_run_def network_start_def gated_def loop_run_def)
qed

lemma gated_name:
  assumes "gated cfg adv n" and "asked (nw_trace n) c name"
  shows "field_ok (NameField ''display_name'' name)"
proof -
  obtain i env clock sid caps where i: "Incoming i env clock \<in> set (nw_trace n)"
    "im_message i = SessionRequest sid name PROTOCOL_VERSION caps" using assms(2) by (auto simp: asked_def)
  with assms(1) have "within_bounds (im_message i)" by (force simp: gated_def list_all_iff)
  then show ?thesis by (simp add: i(2) within_bounds_def)
qed


section \<open>Properties\<close>

text \<open>C5. Whatever senders, real or hostile, do: when the receiver puts up a prompt it shows three lines
  of which only the middle one comes from the network; it is one non-empty line of at most 64
  characters without control characters, it is the name under which the very connection that the
  buttons answer for asked for a session, and the buttons queue that answer and no other.\<close>

theorem prompt_shows_who_asks:
  assumes "n = network_run parse serialise cfg adv es" and "status (nw_loop n) = PendingConsent name c"
  shows "\<exists>p ms. update upload (Some (Some (status (nw_loop n)))) slot w = Some (w, p, ms) \<and>
    page_lines p = [lit ''Allow this device to cast?'', name,
      lit ''OpenPlay cannot verify who this is. Only accept a device you recognise.''] \<and>
    name \<noteq> [] \<and> length name \<le> 64 \<and> (\<forall>ch \<in> set name. \<not> is_control ch) \<and> asked (nw_trace n) c name \<and>
    button_clicked (Some True) p ALLOW queued = queued @ [\<lparr> d_connection = c, d_accept = True \<rparr>] \<and>
    button_clicked (Some True) p DENY queued = queued @ [\<lparr> d_connection = c, d_accept = False \<rparr>]"
proof -
  have g: "gated cfg adv n" using gated_run assms(1) by blast
  then have a: "asked (nw_trace n) c name" using prompt_asked [of cfg adv "nw_trace n"] assms(2) by (simp add: gated_def)
  have "update upload (Some (Some (status (nw_loop n)))) slot w = Some (w, ConsentPage name c, IDLE_REPAINT_MS)"
    by (simp add: update_def current_status_def assms(2))
  then show ?thesis using gated_name [OF g a] a
    by (auto simp: consent_page_def button_is_click)
qed

definition prompt_events :: "signaling_message net_event list" where
  "prompt_events = [Dials (V4 8, 2) None,
     Injects 1 (WsText (SessionRequest (lit ''s1'') (lit ''Eve'') PROTOCOL_VERSION default_capabilities)),
     ServerReads 1, LoopTakes all_good 0]"

theorem prompt_shows_who_asks_witness:
  "asked (nw_trace (network_run Some Some (default_config None) True prompt_events)) 1 (lit ''Eve'')"
proof -
  let ?n = "network_run Some Some (default_config None) True prompt_events"
  have "is_ok (validate (SessionRequest (lit ''s1'') (lit ''Eve'') PROTOCOL_VERSION default_capabilities))"
    by code_simp
  then have "status (nw_loop ?n) = PendingConsent (lit ''Eve'') 1"
    by (simp add: prompt_events_def network_run_def network_start_def net_step_def server_accepts_def
        accept_step_def server_new_def MAX_CONNECTIONS_def server_reads_def read_one_def INBOX_CAPACITY_def
        loop_turn_def loop_step_def handle_message_def handle_session_request_def session_loop_new_def
        set_status_def pending_insert_def Let_def default_capabilities_def)
  from prompt_shows_who_asks [OF refl this, of "\<lambda>_. None" None "window_new (default_config None)" "[]"]
  show ?thesis by blast
qed

end
