(* ===== verification/Sender_Window.thy ===== *)
theory Sender_Window
  imports Sender_App Openplay_Cast
begin

text \<open>
  The sender's window: \<open>SenderApp::update\<close>, \<open>protocol_badge\<close> and \<open>receiver_subtitle\<close> of
  \<open>openplay-sender/src/app.rs\<close>. \<open>draw\<close> is what a frame shows of the state; a click, a tick or an
  edit reaches the state only through a widget that the frame shows (\<open>window_frame\<close>), and egui
  reports one of them in a frame. Layout, fonts and margins are not modelled.

  The lemmas show that the invariant of theory \<open>Sender_App\<close> survives every sequence of frames,
  that no button on screen is dead, and that the receiver dialled is the one whose row is
  highlighted, at the address written in that row.
\<close>

section \<open>What a frame shows\<close>

type_synonym rgb = "nat \<times> nat \<times> nat"

fun protocol_label :: "protocol \<Rightarrow> string" where
  "protocol_label POpenPlay = ''OpenPlay''"
| "protocol_label PAirPlay = ''AirPlay''"
| "protocol_label PMiracast = ''Miracast''"

definition protocol_badge :: "protocol \<Rightarrow> string \<times> rgb" where
  "protocol_badge p =
     (protocol_label p,
      case p of POpenPlay \<Rightarrow> (80, 160, 255) | PAirPlay \<Rightarrow> (80, 200, 120) | PMiracast \<Rightarrow> (255, 180, 60))"

definition first_address :: "ip_addr list \<Rightarrow> string" where
  "first_address addrs = (case addrs of [] \<Rightarrow> [] | a # _ \<Rightarrow> show_ip a)"

fun receiver_subtitle :: "discovered_receiver \<Rightarrow> string" where
  "receiver_subtitle (OpenPlay r) = first_address (ri_addresses r) @ '':'' @ show_dec (ri_port r)"
| "receiver_subtitle (AirPlay r) =
     (if air_model r = [] \<or> air_model r = ''Manual'' then first_address (air_addresses r)
      else air_model r @ '' '' @ em_dash @ '' '' @ first_address (air_addresses r) @ '':'' @ show_dec (air_port r))"
| "receiver_subtitle (Miracast r) =
     (case mr_mode r of
        Infrastructure a p \<Rightarrow> show_ip a @ '':'' @ show_dec p
      | WifiDirect d \<Rightarrow> ''P2P '' @ d)"

record receiver_row =
  row_key :: string
  row_name :: string
  row_subtitle :: string
  row_badge :: "string \<times> rgb"
  row_selected :: bool
  row_fill :: rgb
  row_name_colour :: rgb

datatype status_bar =
    CastingBar string
  | IdleBar string

datatype receiver_view =
    Scanning
  | Rows "receiver_row list"

record airplay_dialog =
  ad_name :: string
  ad_ip :: string
  ad_port :: string

record miracast_dialog =
  md_name :: string
  md_p2p :: bool
  md_label :: string
  md_addr :: string
  md_port :: "string option"

text \<open>\<open>pg_start\<close> is whether the start button is there, and enabled.\<close>

record sender_page =
  pg_header :: string
  pg_status :: status_bar
  pg_list :: receiver_view
  pg_start :: "bool option"
  pg_settings :: string
  pg_airplay :: "airplay_dialog option"
  pg_miracast :: "miracast_dialog option"
  pg_repaint :: bool

definition bullet :: string where "bullet = [CHR 0xE2, CHR 0x97, CHR 0x8F]"

definition draw_header :: "sender_app \<Rightarrow> string" where
  "draw_header s = bullet @ '' '' @ utf8_str (cfg_display_name (app_config s))"

definition draw_status :: "sender_app \<Rightarrow> status_bar" where
  "draw_status s = (if is_casting s then CastingBar (app_status s) else IdleBar (app_status s))"

definition draw_row :: "sender_app \<Rightarrow> string \<Rightarrow> receiver_row option" where
  "draw_row s key =
     (case receivers s key of
        None \<Rightarrow> None
      | Some r \<Rightarrow>
          (let selected = (selected_key s = Some key)
           in Some \<lparr> row_key = key, row_name = receiver_display_name r, row_subtitle = receiver_subtitle r,
                     row_badge = protocol_badge (receiver_protocol r), row_selected = selected,
                     row_fill = (if selected then (40, 80, 140) else (30, 30, 30)),
                     row_name_colour = (if selected then (255, 255, 255) else (235, 235, 235)) \<rparr>))"

definition draw_list :: "sender_app \<Rightarrow> receiver_view" where
  "draw_list s =
     (if receiver_keys s = [] then Scanning else Rows (List.map_filter (draw_row s) (receiver_keys s)))"

definition draw_start :: "sender_app \<Rightarrow> bool option" where
  "draw_start s = (if is_casting s then None else Some (selected_key s \<noteq> None))"

definition draw_settings :: "sender_app \<Rightarrow> string" where
  "draw_settings s =
     ''Bitrate: '' @ show_dec (cfg_max_bitrate_kbps (app_config s)) @ '' kbps   FPS: '' @
     show_dec (cfg_framerate (app_config s))"

definition draw_airplay :: "sender_app \<Rightarrow> airplay_dialog option" where
  "draw_airplay s =
     (if show_add_airplay s
      then Some \<lparr> ad_name = airplay_name s, ad_ip = airplay_ip s, ad_port = airplay_port s \<rparr> else None)"

definition draw_miracast :: "sender_app \<Rightarrow> miracast_dialog option" where
  "draw_miracast s =
     (if show_add_miracast s
      then Some \<lparr> md_name = miracast_name s, md_p2p = miracast_is_p2p s,
             md_label = (if miracast_is_p2p s then ''MAC Address (AA:BB:CC:DD:EE:FF):'' else ''IP Address:''),
             md_addr = miracast_addr s,
             md_port = (if miracast_is_p2p s then None else Some (miracast_port s)) \<rparr>
      else None)"

definition draw :: "sender_app \<Rightarrow> sender_page" where
  "draw s =
     \<lparr> pg_header = draw_header s, pg_status = draw_status s, pg_list = draw_list s, pg_start = draw_start s,
       pg_settings = draw_settings s, pg_airplay = draw_airplay s, pg_miracast = draw_miracast s,
       pg_repaint = is_casting s \<rparr>"


section \<open>What a person can do\<close>

datatype widget =
    StopButton
  | OpenMiracast
  | OpenAirPlay
  | ReceiverRow string
  | StartButton cast_env
  | AirPlayName string
  | AirPlayIp string
  | AirPlayPort string
  | AirPlayAdd
  | AirPlayCancel
  | MiracastName string
  | MiracastP2p bool
  | MiracastAddr string
  | MiracastPort string
  | MiracastAdd
  | MiracastCancel

text \<open>The widgets of a page that take input: the start button only when enabled.\<close>

definition offered :: "sender_page \<Rightarrow> widget \<Rightarrow> bool" where
  "offered p w =
     (case w of
        StopButton \<Rightarrow> (case pg_status p of CastingBar _ \<Rightarrow> True | IdleBar _ \<Rightarrow> False)
      | ReceiverRow k \<Rightarrow> (case pg_list p of Scanning \<Rightarrow> False | Rows rs \<Rightarrow> k \<in> set (map row_key rs))
      | StartButton _ \<Rightarrow> pg_start p = Some True
      | AirPlayName _ \<Rightarrow> pg_airplay p \<noteq> None
      | AirPlayIp _ \<Rightarrow> pg_airplay p \<noteq> None
      | AirPlayPort _ \<Rightarrow> pg_airplay p \<noteq> None
      | AirPlayAdd \<Rightarrow> pg_airplay p \<noteq> None
      | AirPlayCancel \<Rightarrow> pg_airplay p \<noteq> None
      | MiracastName _ \<Rightarrow> pg_miracast p \<noteq> None
      | MiracastP2p _ \<Rightarrow> pg_miracast p \<noteq> None
      | MiracastAddr _ \<Rightarrow> pg_miracast p \<noteq> None
      | MiracastPort _ \<Rightarrow> (case pg_miracast p of None \<Rightarrow> False | Some d \<Rightarrow> md_port d \<noteq> None)
      | MiracastAdd \<Rightarrow> pg_miracast p \<noteq> None
      | MiracastCancel \<Rightarrow> pg_miracast p \<noteq> None
      | OpenMiracast \<Rightarrow> True
      | OpenAirPlay \<Rightarrow> True)"

definition press :: "(string \<Rightarrow> ip_addr option) \<Rightarrow> widget \<Rightarrow> sender_app \<Rightarrow> sender_app" where
  "press parse_ip w s =
     (case w of
        StopButton \<Rightarrow> stop_cast s
      | OpenMiracast \<Rightarrow> s\<lparr> show_add_miracast := True \<rparr>
      | OpenAirPlay \<Rightarrow> s\<lparr> show_add_airplay := True \<rparr>
      | ReceiverRow k \<Rightarrow> s\<lparr> selected_key := Some k \<rparr>
      | StartButton env \<Rightarrow>
          (case selected_key s of
             None \<Rightarrow> s
           | Some k \<Rightarrow> (case receivers s k of None \<Rightarrow> s | Some r \<Rightarrow> start_cast env r s))
      | AirPlayName x \<Rightarrow> s\<lparr> airplay_name := x \<rparr>
      | AirPlayIp x \<Rightarrow> s\<lparr> airplay_ip := x \<rparr>
      | AirPlayPort x \<Rightarrow> s\<lparr> airplay_port := x \<rparr>
      | AirPlayAdd \<Rightarrow> add_airplay parse_ip s
      | AirPlayCancel \<Rightarrow> s\<lparr> show_add_airplay := False \<rparr>
      | MiracastName x \<Rightarrow> s\<lparr> miracast_name := x \<rparr>
      | MiracastP2p b \<Rightarrow> s\<lparr> miracast_is_p2p := b \<rparr>
      | MiracastAddr x \<Rightarrow> s\<lparr> miracast_addr := x \<rparr>
      | MiracastPort x \<Rightarrow> s\<lparr> miracast_port := x \<rparr>
      | MiracastAdd \<Rightarrow> add_miracast parse_ip s
      | MiracastCancel \<Rightarrow> s\<lparr> show_add_miracast := False \<rparr>)"

text \<open>A frame polls, then draws and takes what was done to the widgets drawn.\<close>

definition polled :: "sender_app \<Rightarrow> sender_app" where
  "polled s = poll_status (poll_discovery s)"

definition window_frame :: "(string \<Rightarrow> ip_addr option) \<Rightarrow> widget option \<Rightarrow> sender_app \<Rightarrow> sender_app" where
  "window_frame parse_ip action s =
     (case action of
        None \<Rightarrow> polled s
      | Some w \<Rightarrow> if offered (draw (polled s)) w then press parse_ip w (polled s) else polled s)"

text \<open>Between frames discovery and the cast's thread put into their channels.\<close>

datatype window_event =
    Background app_input
  | Paints "widget option"

definition background :: "app_input \<Rightarrow> bool" where
  "background i \<longleftrightarrow> (case i of Arrives _ \<Rightarrow> True | ThreadReports \<Rightarrow> True | _ \<Rightarrow> False)"

definition sender_window_step :: "(string \<Rightarrow> ip_addr option) \<Rightarrow> sender_app \<Rightarrow> window_event \<Rightarrow> sender_app" where
  "sender_window_step parse_ip s ev =
     (case ev of
        Background i \<Rightarrow> if background i then app_step parse_ip i s else s
      | Paints action \<Rightarrow> window_frame parse_ip action s)"

definition sender_window_run :: "(string \<Rightarrow> ip_addr option) \<Rightarrow> app_config \<Rightarrow> window_event list \<Rightarrow> sender_app" where
  "sender_window_run parse_ip cfg evs = foldl (sender_window_step parse_ip) (app_new cfg) evs"


section \<open>Lemmas\<close>

lemma polled_inv: "list_inv s \<and> cast_inv s \<Longrightarrow> list_inv (polled s) \<and> cast_inv (polled s)"
  using list_inv_step [of s _ Frame] cast_inv_step [of s _ Frame] by (simp add: polled_def)

lemma edits_keep [simp]:
  "list_inv (s\<lparr> show_add_miracast := b \<rparr>) = list_inv s" "list_inv (s\<lparr> show_add_airplay := b \<rparr>) = list_inv s"
  "list_inv (s\<lparr> airplay_name := x \<rparr>) = list_inv s" "list_inv (s\<lparr> airplay_ip := x \<rparr>) = list_inv s"
  "list_inv (s\<lparr> airplay_port := x \<rparr>) = list_inv s" "list_inv (s\<lparr> miracast_name := x \<rparr>) = list_inv s"
  "list_inv (s\<lparr> miracast_addr := x \<rparr>) = list_inv s" "list_inv (s\<lparr> miracast_port := x \<rparr>) = list_inv s"
  "list_inv (s\<lparr> miracast_is_p2p := b \<rparr>) = list_inv s"
  "cast_inv (s\<lparr> show_add_miracast := b \<rparr>) = cast_inv s" "cast_inv (s\<lparr> show_add_airplay := b \<rparr>) = cast_inv s"
  "cast_inv (s\<lparr> airplay_name := x \<rparr>) = cast_inv s" "cast_inv (s\<lparr> airplay_ip := x \<rparr>) = cast_inv s"
  "cast_inv (s\<lparr> airplay_port := x \<rparr>) = cast_inv s" "cast_inv (s\<lparr> miracast_name := x \<rparr>) = cast_inv s"
  "cast_inv (s\<lparr> miracast_addr := x \<rparr>) = cast_inv s" "cast_inv (s\<lparr> miracast_port := x \<rparr>) = cast_inv s"
  "cast_inv (s\<lparr> miracast_is_p2p := b \<rparr>) = cast_inv s"
  by (simp_all add: list_inv_def cast_inv_def)

lemma drawn_rows:
  assumes "list_inv s"
  shows "draw_list s = (if receiver_keys s = [] then Scanning
    else Rows (map (\<lambda>k. the (draw_row s k)) (receiver_keys s)))"
proof -
  have "\<exists>r. draw_row s k = Some r" if "k \<in> set (receiver_keys s)" for k
    using that assms by (auto simp: list_inv_def list_ok_def draw_row_def Let_def)
  then have "List.map_filter (draw_row s) (receiver_keys s) = map (\<lambda>k. the (draw_row s k)) (receiver_keys s)"
    by (induction "receiver_keys s" rule: rev_induct) (auto simp: map_filter_def filter_id_conv o_def)
  then show ?thesis by (simp add: draw_list_def)
qed

lemma row_key_drawn:
  assumes "list_inv s" and "k \<in> set (receiver_keys s)" shows "row_key (the (draw_row s k)) = k"
  using assms by (auto simp: list_inv_def list_ok_def draw_row_def Let_def)

lemma row_selected_drawn:
  assumes "list_inv s" and "k \<in> set (receiver_keys s)"
  shows "row_selected (the (draw_row s k)) \<longleftrightarrow> selected_key s = Some k"
  using assms by (auto simp: list_inv_def list_ok_def draw_row_def Let_def)

lemma offered_row:
  assumes "list_inv s" shows "offered (draw s) (ReceiverRow k) \<longleftrightarrow> k \<in> set (receiver_keys s)"
  using assms by (auto simp: offered_def draw_def drawn_rows row_key_drawn image_iff)

text \<open>What a click does is a step of the application, or an edit of a field of a dialog.\<close>

lemma press_is_step:
  assumes "list_inv s" and "offered (draw s) w"
  shows "w = StopButton \<Longrightarrow> press parse_ip w s = app_step parse_ip ClickStop s"
    and "w = ReceiverRow k \<Longrightarrow> press parse_ip w s = app_step parse_ip (ClickReceiver k) s"
    and "w = StartButton env \<Longrightarrow> press parse_ip w s = app_step parse_ip (ClickStart env) s"
    and "w = AirPlayAdd \<Longrightarrow> press parse_ip w s =
      app_step parse_ip (ClickAirPlay (airplay_name s) (airplay_ip s) (airplay_port s)) s"
    and "w = MiracastAdd \<Longrightarrow> press parse_ip w s =
      app_step parse_ip (ClickMiracast (miracast_name s) (miracast_addr s) (miracast_port s) (miracast_is_p2p s)) s"
proof -
  show "w = StopButton \<Longrightarrow> press parse_ip w s = app_step parse_ip ClickStop s"
    using assms(2) by (simp add: press_def offered_def draw_def draw_status_def split: if_splits)
  show "w = ReceiverRow k \<Longrightarrow> press parse_ip w s = app_step parse_ip (ClickReceiver k) s"
    using assms offered_row by (simp add: press_def)
  show "w = StartButton env \<Longrightarrow> press parse_ip w s = app_step parse_ip (ClickStart env) s"
    using assms(2) by (simp add: press_def offered_def draw_def draw_start_def split: if_splits)
  have same: "s\<lparr> show_add_airplay := True \<rparr> = s" if "show_add_airplay s"
    using that by (cases s) simp
  show "w = AirPlayAdd \<Longrightarrow> press parse_ip w s =
      app_step parse_ip (ClickAirPlay (airplay_name s) (airplay_ip s) (airplay_port s)) s"
    using assms(2) by (simp add: press_def offered_def draw_def draw_airplay_def same split: if_splits)
  have same: "s\<lparr> show_add_miracast := True \<rparr> = s" if "show_add_miracast s"
    using that by (cases s) simp
  show "w = MiracastAdd \<Longrightarrow> press parse_ip w s =
      app_step parse_ip (ClickMiracast (miracast_name s) (miracast_addr s) (miracast_port s) (miracast_is_p2p s)) s"
    using assms(2) by (simp add: press_def offered_def draw_def draw_miracast_def same split: if_splits)
qed


lemma press_inv:
  assumes "list_inv s" and "cast_inv s" and "offered (draw s) w"
  shows "list_inv (press parse_ip w s) \<and> cast_inv (press parse_ip w s)"
proof -
  note step = press_is_step [OF assms(1,3)]
  show ?thesis
  proof (cases w)
    case StopButton
    then show ?thesis unfolding step(1) [OF StopButton] using assms list_inv_step cast_inv_step by blast
  next
    case (ReceiverRow k)
    then show ?thesis unfolding step(2) [OF ReceiverRow] using assms list_inv_step cast_inv_step by blast
  next
    case (StartButton env)
    then show ?thesis unfolding step(3) [OF StartButton] using assms list_inv_step cast_inv_step by blast
  next
    case AirPlayAdd
    then show ?thesis unfolding step(4) [OF AirPlayAdd] using assms list_inv_step cast_inv_step by blast
  next
    case MiracastAdd
    then show ?thesis unfolding step(5) [OF MiracastAdd] using assms list_inv_step cast_inv_step by blast
  qed (use assms in \<open>simp_all add: press_def\<close>)
qed

lemma frame_inv:
  assumes "list_inv s" and "cast_inv s"
  shows "list_inv (window_frame parse_ip action s) \<and> cast_inv (window_frame parse_ip action s)"
  using polled_inv [of s] press_inv [of "polled s"] assms by (auto simp: window_frame_def split: option.splits)

interpretation sender_window: machine "\<lambda>s. \<exists>cfg. s = app_new cfg" "\<lambda>s ev. sender_window_step parse_ip s ev" "\<lambda>_. True"
  "\<lambda>s. list_inv s \<and> cast_inv s"
proof unfold_locales
  fix s assume "\<exists>cfg. s = app_new cfg"
  then show "list_inv s \<and> cast_inv s"
    by (auto simp: app_new_def list_inv_def list_ok_def cast_inv_def cast_ok_def scans_balanced_def)
next
  fix s e assume "list_inv s \<and> cast_inv s"
  then show "list_inv (sender_window_step parse_ip s e) \<and> cast_inv (sender_window_step parse_ip s e)"
    using frame_inv list_inv_step cast_inv_step by (auto simp: sender_window_step_def split: window_event.splits)
qed

lemma window_inv:
  "list_inv (sender_window_run parse_ip cfg evs) \<and> cast_inv (sender_window_run parse_ip cfg evs)"
  using sender_window.run_inv [of "app_new cfg" evs parse_ip] by (auto simp: sender_window_run_def list_all_iff)

lemma distinct_only: "distinct xs \<Longrightarrow> k \<in> set xs \<Longrightarrow> filter (\<lambda>x. x = k) xs = [k]"
  by (induction xs) (auto simp: filter_empty_conv)

text \<open>The address a cast is launched at, as text.\<close>

definition launch_address :: "launch \<Rightarrow> string" where
  "launch_address l =
     (case l of
        LaunchAirPlay a _ \<Rightarrow> show_ip (fst a)
      | LaunchMiracast a _ _ _ \<Rightarrow> show_ip (fst a)
      | LaunchMiracastP2p mac _ _ _ \<Rightarrow> mac
      | LaunchOpenPlay t _ _ _ \<Rightarrow> (case target_addrs t of [] \<Rightarrow> [] | a # _ \<Rightarrow> show_ip (fst a)))"

text \<open>The protocol a cast is launched over.\<close>

definition launch_protocol :: "launch \<Rightarrow> protocol" where
  "launch_protocol l =
     (case l of
        LaunchAirPlay _ _ \<Rightarrow> PAirPlay
      | LaunchMiracast _ _ _ _ \<Rightarrow> PMiracast
      | LaunchMiracastP2p _ _ _ _ \<Rightarrow> PMiracast
      | LaunchOpenPlay _ _ _ _ \<Rightarrow> POpenPlay)"

lemma pause_fields [simp]:
  "launches (pause_p2p_discovery s) = launches s" "launches (resume_p2p_discovery s) = launches s"
  "is_casting (resume_p2p_discovery s) = is_casting s" "app_status (resume_p2p_discovery s) = app_status s"
  by (simp_all add: pause_p2p_discovery_def resume_p2p_discovery_def)

lemma start_launches:
  "(\<exists>l pre post. launches (start_cast env r s) = launches s @ [l] \<and> is_casting (start_cast env r s) \<and>
      app_status (start_cast env r s) = ''Starting capture...'' \<and> receiver_subtitle r = pre @ launch_address l @ post \<and>
      launch_protocol l = receiver_protocol r \<and> (receiver_addrs r \<noteq> [] \<or> is_wifi_direct r)) \<or>
   (receiver_addrs r = [] \<and> \<not> is_wifi_direct r \<and> launches (start_cast env r s) = launches s \<and> \<not> is_casting (start_cast env r s) \<and>
      app_status (start_cast env r s) = NO_ADDRESS)"
proof (cases r)
  case (OpenPlay x)
  show ?thesis
  proof (cases "ri_addresses x")
    case (Cons a as)
    with OpenPlay have "receiver_subtitle r = [] @ show_ip a @ '':'' @ show_dec (ri_port x)"
      by (simp add: first_address_def)
    with OpenPlay Cons show ?thesis
      by (auto simp: start_cast_def Let_def spawn_cast_def begin_cast_def launch_address_def launch_protocol_def)
  qed (use OpenPlay in \<open>auto simp: start_cast_def Let_def fail_cast_def begin_cast_def\<close>)
next
  case (AirPlay x)
  show ?thesis
  proof (cases "air_addresses x")
    case (Cons a as)
    have "\<exists>pre post. receiver_subtitle r = pre @ show_ip a @ post"
    proof (cases "air_model x = [] \<or> air_model x = ''Manual''")
      case True
      with AirPlay Cons have "receiver_subtitle r = [] @ show_ip a @ []" by (simp add: first_address_def)
      then show ?thesis by blast
    next
      case False
      with AirPlay Cons have "receiver_subtitle r =
          (air_model x @ '' '' @ em_dash @ '' '') @ show_ip a @ ('':'' @ show_dec (air_port x))"
        by (simp add: first_address_def)
      then show ?thesis by blast
    qed
    with AirPlay Cons show ?thesis
      by (auto simp: start_cast_def Let_def spawn_cast_def begin_cast_def launch_address_def launch_protocol_def first_addr_def)
  qed (use AirPlay in \<open>auto simp: start_cast_def Let_def fail_cast_def begin_cast_def first_addr_def\<close>)
next
  case (Miracast x)
  show ?thesis
  proof (cases "mr_mode x")
    case (Infrastructure a p)
    with Miracast have "receiver_subtitle r = [] @ show_ip a @ '':'' @ show_dec p" by simp
    with Miracast Infrastructure show ?thesis
      by (auto simp: start_cast_def Let_def spawn_cast_def begin_cast_def launch_address_def launch_protocol_def)
  next
    case (WifiDirect d)
    have "\<exists>pre post. ''P2P '' @ d = pre @ d @ post"
      by (rule exI [of _ "''P2P ''"], rule exI [of _ "[]"]) simp
    with Miracast WifiDirect show ?thesis
      by (auto simp: start_cast_def Let_def spawn_cast_def begin_cast_def launch_address_def launch_protocol_def)
  qed
qed


section \<open>Properties\<close>

text \<open>C32. The receiver cast to is the one the person sees: in every state the window reaches, when a frame offers
  the start button exactly one row of the page is highlighted. If the receiver of that row published no address
  and is no Wi-Fi Direct peer, pressing the button launches nothing and the window says so. In every other
  case it launches one cast, the window then saying that, over the protocol of the row's badge and at an
  address written in the row.\<close>

theorem start_casts_the_highlighted_row:
  assumes "s = polled (sender_window_run parse_ip cfg evs)" and "offered (draw s) (StartButton env)"
  shows "\<exists>rows row r. pg_list (draw s) = Rows rows \<and> filter row_selected rows = [row] \<and>
    receivers s (row_key row) = Some r \<and>
    (let s' = press parse_ip (StartButton env) s in
      if receiver_addrs r = [] \<and> \<not> is_wifi_direct r
      then launches s' = launches s \<and> pg_status (draw s') = IdleBar NO_ADDRESS
      else \<exists>l pre post. launches s' = launches s @ [l] \<and> row_subtitle row = pre @ launch_address l @ post \<and>
        row_badge row = protocol_badge (launch_protocol l) \<and> pg_status (draw s') = CastingBar ''Starting capture...'')"
proof -
  have inv: "list_inv s" "cast_inv s"
    using polled_inv [OF window_inv [of parse_ip cfg evs]] assms(1) by auto
  obtain k where sel: "selected_key s = Some k" and idle: "\<not> is_casting s"
    using assms(2) by (auto simp: offered_def draw_def draw_start_def split: if_splits)
  obtain r where r: "receivers s k = Some r" and k: "k \<in> set (receiver_keys s)"
    using inv(1) sel by (auto simp: list_inv_def list_ok_def)
  let ?rows = "map (\<lambda>k. the (draw_row s k)) (receiver_keys s)"
  let ?row = "the (draw_row s k)"
  have "filter (\<lambda>x. row_selected (the (draw_row s x))) (receiver_keys s) = filter (\<lambda>x. x = k) (receiver_keys s)"
    by (rule filter_cong [OF refl]) (use row_selected_drawn [OF inv(1)] sel in auto)
  then have "filter row_selected ?rows = map (\<lambda>k. the (draw_row s k)) (filter (\<lambda>x. x = k) (receiver_keys s))"
    by (simp add: filter_map o_def)
  moreover have "filter (\<lambda>x. x = k) (receiver_keys s) = [k]"
    using k inv(1) by (simp add: list_inv_def list_ok_def distinct_only)
  ultimately have one: "filter row_selected ?rows = [?row]" by simp
  have "pg_list (draw s) = Rows ?rows" using k by (auto simp: draw_def drawn_rows [OF inv(1)])
  moreover have "row_subtitle ?row = receiver_subtitle r" "row_badge ?row = protocol_badge (receiver_protocol r)"
    "row_key ?row = k" using r by (simp_all add: draw_row_def Let_def)
  moreover have "press parse_ip (StartButton env) s = start_cast env r s" by (simp add: press_def sel r)
  ultimately show ?thesis
    using one r start_launches [of env r s]
    by (intro exI [of _ ?rows] exI [of _ ?row] exI [of _ r]) (auto simp: Let_def draw_def draw_status_def, blast+)
qed

definition demo_window :: "window_event list" where
  "demo_window =
     [Background (Arrives (ReceiverFound demo_receiver)), Paints None, Paints (Some (ReceiverRow ''TV._openplay._tcp.local.''))]"

definition demo_cast :: cast_env where
  "demo_cast = \<lparr> capture_result = Inr (), pipeline_result = Joined (Inr ()) \<rparr>"

lemma demo_offered:
  "offered (draw (polled (sender_window_run (\<lambda>_. None) (default_config None) demo_window))) (StartButton demo_cast)"
  by (simp add: demo_window_def sender_window_run_def sender_window_step_def window_frame_def polled_def background_def
      run_simps demo_receiver_def offered_def draw_def draw_start_def draw_list_def draw_row_def press_def
      map_filter_def)

theorem start_casts_the_highlighted_row_witness:
  "let s = polled (sender_window_run (\<lambda>_. None) (default_config None) demo_window);
       s' = press (\<lambda>_. None) (StartButton demo_cast) s
   in \<exists>rows row l pre post. pg_list (draw s) = Rows rows \<and> filter row_selected rows = [row] \<and>
     launches s' = launches s @ [l] \<and> row_subtitle row = pre @ launch_address l @ post \<and>
     row_badge row = protocol_badge (launch_protocol l)"
proof -
  let ?s = "polled (sender_window_run (\<lambda>_. None) (default_config None) demo_window)"
  have "receiver_addrs r \<noteq> []" if "receivers ?s k = Some r" for k r
    using that by (auto simp: demo_window_def sender_window_run_def sender_window_step_def window_frame_def
        polled_def background_def run_simps demo_receiver_def press_def offered_def draw_def draw_list_def draw_row_def
        map_filter_def split: if_splits)
  with start_casts_the_highlighted_row [OF refl demo_offered] show ?thesis
    unfolding Let_def by (metis (no_types, lifting))
qed

text \<open>The stop button is there exactly while a cast's final message is unread, and the start button exactly when
  it is not; pressing stop raises the stop flag of the cast. The list shows every known receiver once, in the order found,
  under its own name, or says it is scanning if there is none.\<close>

theorem window_shows_the_state:
  "let s = polled (sender_window_run parse_ip cfg evs) in
   (offered (draw s) StopButton \<longleftrightarrow> reports_left (status_queue s @ cast_thread s)) \<and>
   (offered (draw s) StopButton \<longleftrightarrow> pg_start (draw s) = None) \<and>
   (offered (draw s) StopButton \<longrightarrow>
      (\<exists>h. stop_handle (press parse_ip StopButton s) = Some h \<and> stop_flag h)) \<and>
   (case pg_list (draw s) of
      Scanning \<Rightarrow> dom (receivers s) = {}
    | Rows rows \<Rightarrow> map row_key rows = receiver_keys s \<and> distinct (map row_key rows) \<and>
        set (map row_key rows) = dom (receivers s) \<and>
        (\<forall>row \<in> set rows. \<exists>r. receivers s (row_key row) = Some r \<and> row_name row = receiver_display_name r))"
proof -
  let ?s = "polled (sender_window_run parse_ip cfg evs)"
  have inv: "list_inv ?s" "cast_inv ?s" using polled_inv [OF window_inv] by auto
  have stop: "offered (draw ?s) StopButton \<longleftrightarrow> is_casting ?s"
    by (simp add: offered_def draw_def draw_status_def)
  moreover have "is_casting ?s \<longleftrightarrow> reports_left (status_queue ?s @ cast_thread ?s)"
    using inv(2) by (auto simp: cast_inv_def cast_ok_def reports_left_def)
  moreover have "is_casting ?s \<longleftrightarrow> pg_start (draw ?s) = None" by (simp add: draw_def draw_start_def)
  moreover have "is_casting ?s \<longrightarrow> (\<exists>h. stop_handle (press parse_ip StopButton ?s) = Some h \<and> stop_flag h)"
    using inv(2) by (auto simp: press_def stop_cast_def handle_stop_def cast_inv_def cast_ok_def)
  moreover have "case pg_list (draw ?s) of Scanning \<Rightarrow> dom (receivers ?s) = {}
    | Rows rows \<Rightarrow> map row_key rows = receiver_keys ?s \<and> distinct (map row_key rows) \<and>
        set (map row_key rows) = dom (receivers ?s) \<and>
        (\<forall>row \<in> set rows. \<exists>r. receivers ?s (row_key row) = Some r \<and> row_name row = receiver_display_name r)"
  proof (cases "receiver_keys ?s = []")
    case False
    have keys: "map (\<lambda>k. row_key (the (draw_row ?s k))) (receiver_keys ?s) = receiver_keys ?s"
      by (rule map_idI) (rule row_key_drawn [OF inv(1)])
    have "\<exists>r. receivers ?s k = Some r \<and> row_name (the (draw_row ?s k)) = receiver_display_name r"
      if "k \<in> set (receiver_keys ?s)" for k
      using that inv(1) by (auto simp: list_inv_def list_ok_def draw_row_def Let_def)
    with False keys inv(1) row_key_drawn [OF inv(1)] show ?thesis
      by (simp add: draw_def drawn_rows o_def) (simp add: list_inv_def list_ok_def)
  qed (use inv(1) in \<open>simp add: draw_def draw_list_def list_inv_def list_ok_def\<close>)
  ultimately show ?thesis unfolding Let_def by blast
qed

theorem window_shows_the_state_witness:
  "case pg_list (draw (polled (sender_window_run (\<lambda>_. None) (default_config None) demo_window))) of
     Scanning \<Rightarrow> False | Rows rows \<Rightarrow> map row_key rows = [''TV._openplay._tcp.local.'']"
proof -
  obtain s where s: "s = polled (sender_window_run (\<lambda>_. None) (default_config None) demo_window)" by blast
  have keys: "receiver_keys s = [''TV._openplay._tcp.local.'']"
    by (simp add: s demo_window_def sender_window_run_def sender_window_step_def window_frame_def polled_def background_def
      run_simps demo_receiver_def offered_def draw_def draw_list_def draw_row_def press_def map_filter_def)
  have "list_inv s" using polled_inv [OF window_inv] s by blast
  then have "dom (receivers s) = set (receiver_keys s)" by (simp add: list_inv_def list_ok_def)
  then have "dom (receivers s) \<noteq> {}" unfolding keys by (metis empty_iff list.set_intros(1))
  moreover have "case pg_list (draw s) of Scanning \<Rightarrow> dom (receivers s) = {}
    | Rows rows \<Rightarrow> map row_key rows = receiver_keys s \<and> distinct (map row_key rows) \<and>
        set (map row_key rows) = dom (receivers s) \<and>
        (\<forall>row \<in> set rows. \<exists>r. receivers s (row_key row) = Some r \<and> row_name row = receiver_display_name r)"
    using window_shows_the_state [of "\<lambda>_. None" "default_config None" demo_window]
    unfolding Let_def s [symmetric] by blast
  ultimately show ?thesis
    unfolding s [symmetric] by (cases "pg_list (draw s)") (simp_all add: keys)
qed

end
