(* ===== verification/Sender_Start.thy ===== *)
theory Sender_Start
  imports Sender_App P2p_Manager Receiver_Start
begin

text \<open>
  Starting the sender's discovery: \<open>start\<close> and \<open>stop\<close> of the three mDNS browsers of
  \<open>openplay-discovery\<close> and the sources that \<open>SenderApp::new\<close> of \<open>openplay-sender/src/app.rs\<close>
  merges into one channel, as built for Linux. The mDNS daemon and the operating system are what they answer;
  Wi-Fi Direct is the manager of theory \<open>P2p_Manager\<close>.

  The lemmas show that no source depends on another, and that what a running source resolves is
  on the list of receivers at the next frame.
\<close>

section \<open>The browsers\<close>

definition AIRPLAY_SERVICE_TYPE :: string where "AIRPLAY_SERVICE_TYPE = ''_airplay._tcp.local.''"
definition MICE_SERVICE_TYPE :: string where "MICE_SERVICE_TYPE = ''_display._tcp.local.''"
definition MIRACAST_SERVICE_TYPE :: string where "MIRACAST_SERVICE_TYPE = ''_miracast._tcp.local.''"
definition WFD_SERVICE_TYPE :: string where "WFD_SERVICE_TYPE = ''_wfd._tcp.local.''"

text \<open>\<open>None\<close> is success; a thread is asked for by its name.\<close>

record mdns_browsing =
  new_daemon :: "string option"
  browse :: "string \<Rightarrow> string option"
  spawn_thread :: "string \<Rightarrow> string option"
  stop_browse :: "string \<Rightarrow> string option"

text \<open>A started browser is the service types it listens to.\<close>

definition receiver_browser_start :: "mdns_browsing \<Rightarrow> discovery_error + string list" where
  "receiver_browser_start d =
     (case new_daemon d of
        Some e \<Rightarrow> Inl (Mdns (''Failed to create mDNS daemon: '' @ e))
      | None \<Rightarrow>
          (case browse d SERVICE_TYPE of
             Some e \<Rightarrow> Inl (Mdns (''Failed to browse: '' @ e))
           | None \<Rightarrow>
               (case spawn_thread d ''mdns-browser'' of
                  Some e \<Rightarrow> Inl (Mdns (''Failed to spawn browser thread: '' @ e))
                | None \<Rightarrow> Inr [SERVICE_TYPE])))"

definition airplay_browser_start :: "mdns_browsing \<Rightarrow> discovery_error + string list" where
  "airplay_browser_start d =
     (case new_daemon d of
        Some e \<Rightarrow> Inl (Mdns (''Failed to create mDNS daemon for AirPlay: '' @ e))
      | None \<Rightarrow>
          (case browse d AIRPLAY_SERVICE_TYPE of
             Some e \<Rightarrow> Inl (Mdns (''Failed to browse AirPlay services: '' @ e))
           | None \<Rightarrow>
               (case spawn_thread d ''airplay-browser'' of
                  Some e \<Rightarrow> Inl (Mdns (''Failed to spawn AirPlay browser thread: '' @ e))
                | None \<Rightarrow> Inr [AIRPLAY_SERVICE_TYPE])))"

text \<open>A Miracast type that cannot be browsed is skipped; a thread that cannot be spawned ends the
  start.\<close>

definition miracast_types :: "string list" where
  "miracast_types = [MICE_SERVICE_TYPE, MIRACAST_SERVICE_TYPE, WFD_SERVICE_TYPE]"

fun browse_types :: "mdns_browsing \<Rightarrow> string list \<Rightarrow> discovery_error + string list" where
  "browse_types d [] = Inr []"
| "browse_types d (ty # types) =
     (case browse d ty of
        Some e \<Rightarrow> browse_types d types
      | None \<Rightarrow>
          (case spawn_thread d (''miracast-browser-'' @ ty) of
             Some e \<Rightarrow> Inl (Mdns (''Failed to spawn Miracast browser thread for '' @ ty @ '': '' @ e))
           | None \<Rightarrow> result_bind (browse_types d types) (\<lambda>ts. Inr (ty # ts))))"

definition miracast_browser_start :: "mdns_browsing \<Rightarrow> discovery_error + string list" where
  "miracast_browser_start d =
     (case new_daemon d of
        Some e \<Rightarrow> Inl (Mdns (''Failed to create mDNS daemon for Miracast: '' @ e))
      | None \<Rightarrow> browse_types d miracast_types)"

text \<open>Stopping: the types no longer listened to; a failure is logged.\<close>

definition receiver_browser_stop :: "mdns_browsing \<Rightarrow> string list" where
  "receiver_browser_stop d = (if stop_browse d SERVICE_TYPE = None then [SERVICE_TYPE] else [])"

definition airplay_browser_stop :: "mdns_browsing \<Rightarrow> string list" where
  "airplay_browser_stop d = (if stop_browse d AIRPLAY_SERVICE_TYPE = None then [AIRPLAY_SERVICE_TYPE] else [])"

definition miracast_browser_stop :: "mdns_browsing \<Rightarrow> string list" where
  "miracast_browser_stop d = filter (\<lambda>ty. stop_browse d ty = None) miracast_types"


section \<open>The sources of a sender\<close>

record discovery_sources =
  ds_types :: "string list"
  ds_p2p :: bool
  ds_warnings :: "string list"

fun show_discovery_error :: "discovery_error \<Rightarrow> string" where
  "show_discovery_error (Mdns e) = ''mDNS error: '' @ e"
| "show_discovery_error (Registration e) = ''Service registration failed: '' @ e"

definition add_source :: "string \<Rightarrow> discovery_error + string list \<Rightarrow> discovery_sources \<Rightarrow> discovery_sources" where
  "add_source what started ds =
     (case started of
        Inr types \<Rightarrow> ds\<lparr> ds_types := ds_types ds @ types \<rparr>
      | Inl e \<Rightarrow> ds\<lparr> ds_warnings := ds_warnings ds @ [what @ '' browser failed: '' @ show_discovery_error e] \<rparr>)"

definition start_sources :: "mdns_browsing \<Rightarrow> dbus \<Rightarrow> app_config \<Rightarrow> discovery_sources" where
  "start_sources d bus cfg =
     (let ds0 = \<lparr> ds_types = [], ds_p2p = False, ds_warnings = [] \<rparr>;
          ds1 = add_source ''OpenPlay'' (receiver_browser_start d) ds0;
          ds2 = (if cfg_airplay_enabled cfg then add_source ''AirPlay'' (airplay_browser_start d) ds1 else ds1);
          ds3 = (if cfg_miracast_enabled cfg then add_source ''Miracast'' (miracast_browser_start d) ds2 else ds2)
      in if cfg_miracast_enabled cfg
         then (case snd (manager_start bus) of
                 Inr _ \<Rightarrow> ds3\<lparr> ds_p2p := True \<rparr>
               | Inl e \<Rightarrow> ds3\<lparr> ds_warnings := ds_warnings ds3 @ [''Wi-Fi Direct not available: '' @ e] \<rparr>)
         else ds3)"

text \<open>What the thread of a service type puts into the merged channel.\<close>

definition source_event :: "string \<Rightarrow> service_event \<Rightarrow> discovery_event option" where
  "source_event ty ev =
     (if ty = SERVICE_TYPE then openplay_event ev
      else if ty = AIRPLAY_SERVICE_TYPE then airplay_event ev
      else run_browser_event ev)"

datatype discovered =
    OnService string service_event
  | OnP2p wifi_direct_event

text \<open>An event reaches the channel if its source is running.\<close>

definition forwarded :: "discovery_sources \<Rightarrow> discovered \<Rightarrow> discovery_event option" where
  "forwarded ds x =
     (case x of
        OnService ty ev \<Rightarrow> if ty \<in> set (ds_types ds) then source_event ty ev else None
      | OnP2p ev \<Rightarrow> if ds_p2p ds then p2p_discovery_event ev else None)"


section \<open>Lemmas\<close>

lemma type_names_differ:
  "SERVICE_TYPE \<noteq> AIRPLAY_SERVICE_TYPE" "AIRPLAY_SERVICE_TYPE \<noteq> SERVICE_TYPE"
  "SERVICE_TYPE \<notin> set miracast_types" "AIRPLAY_SERVICE_TYPE \<notin> set miracast_types"
  by (simp_all add: SERVICE_TYPE_def AIRPLAY_SERVICE_TYPE_def miracast_types_def MICE_SERVICE_TYPE_def
      MIRACAST_SERVICE_TYPE_def WFD_SERVICE_TYPE_def)

lemma browse_types_Inr: "browse_types d types = Inr ts \<Longrightarrow> ts = filter (\<lambda>ty. browse d ty = None) types"
  by (induction types arbitrary: ts) (auto simp: result_bind_Inr split: option.splits)

lemma add_source_types:
  "ds_types (add_source what r ds) = ds_types ds @ (case r of Inl _ \<Rightarrow> [] | Inr types \<Rightarrow> types)"
  by (simp add: add_source_def split: sum.splits)

definition runs :: "discovery_error + string list \<Rightarrow> string list" where
  "runs r = (case r of Inl _ \<Rightarrow> [] | Inr types \<Rightarrow> types)"

lemma sources_types:
  "ds_types (start_sources d bus cfg) =
     runs (receiver_browser_start d) @ (if cfg_airplay_enabled cfg then runs (airplay_browser_start d) else []) @
     (if cfg_miracast_enabled cfg then runs (miracast_browser_start d) else [])"
  by (auto simp: start_sources_def Let_def add_source_types runs_def split: sum.splits)

text \<open>The row of a receiver that is found, and the name of one that is lost.\<close>

fun found_receiver :: "discovery_event \<Rightarrow> discovered_receiver option" where
  "found_receiver (ReceiverFound info) = Some (OpenPlay info)"
| "found_receiver (AirPlayReceiverFound info) = Some (AirPlay info)"
| "found_receiver (MiracastReceiverFound info) =
     Some (Miracast \<lparr> mr_display_name = mira_display_name info, mr_mode = miracast_mode_of info \<rparr>)"
| "found_receiver _ = None"

lemma found_added: "found_receiver ev = Some r \<Longrightarrow> handle_discovery ev s = add_receiver r s"
  by (cases ev) auto

lemma status_keeps_list [simp]:
  "receivers (handle_status m s) = receivers s" "receiver_keys (handle_status m s) = receiver_keys s"
  by (simp_all add: handle_status_def resume_p2p_discovery_def Let_def)

lemma poll_status_keeps_list [simp]:
  "receivers (poll_status s) = receivers s" "receiver_keys (poll_status s) = receiver_keys s"
proof -
  have "receivers (fold handle_status q t) = receivers t \<and> receiver_keys (fold handle_status q t) = receiver_keys t" for q t
    by (induction q arbitrary: t) simp_all
  then show "receivers (poll_status s) = receivers s" "receiver_keys (poll_status s) = receiver_keys s"
    by (simp_all add: poll_status_def)
qed

lemma listed_next_frame:
  assumes "found_receiver ev = Some r"
  shows "receivers (app_run parse_ip cfg (ins @ [Arrives ev, app_input.Frame])) (receiver_key r) \<noteq> None"
  by (simp add: app_run_def poll_discovery_def found_added [OF assms] add_receiver_def Let_def)


section \<open>Properties\<close>

text \<open>C33. A sender finds what is there to be found: a running browser, and OpenPlay's runs whatever happens to
  the others, as each of the others does if the configuration enables it, forwards every service that is resolved as
  a receiver of its protocol, and at the next frame that receiver has a row, whatever the inputs
  before.\<close>

theorem resolved_service_is_listed:
  assumes "(ty = SERVICE_TYPE \<and> receiver_browser_start d = Inr types) \<or>
      (ty = AIRPLAY_SERVICE_TYPE \<and> cfg_airplay_enabled cfg \<and> airplay_browser_start d = Inr types) \<or>
      (ty \<in> set miracast_types \<and> cfg_miracast_enabled cfg \<and> miracast_browser_start d = Inr types \<and> browse d ty = None)"
  shows "\<exists>ev r. forwarded (start_sources d bus cfg) (OnService ty (ServiceResolved info)) = Some ev \<and>
    found_receiver ev = Some r \<and>
    receiver_protocol r = (if ty = SERVICE_TYPE then POpenPlay else if ty = AIRPLAY_SERVICE_TYPE then PAirPlay else PMiracast) \<and>
    receiver_key r \<in> set (receiver_keys (app_run parse_ip cfg (ins @ [Arrives ev, app_input.Frame])))"
proof -
  have "ty \<in> set (ds_types (start_sources d bus cfg))"
    using assms
  proof (elim disjE conjE)
    assume "ty \<in> set miracast_types" "cfg_miracast_enabled cfg" "miracast_browser_start d = Inr types" "browse d ty = None"
    then show ?thesis
      by (auto simp: sources_types runs_def miracast_browser_start_def split: option.splits dest!: browse_types_Inr)
  qed (auto simp: sources_types runs_def receiver_browser_start_def airplay_browser_start_def split: option.splits)
  then have fwd: "forwarded (start_sources d bus cfg) (OnService ty e) = source_event ty e" for e :: service_event
    by (simp add: forwarded_def)
  obtain ev r where ev: "source_event ty (ServiceResolved info) = Some ev" "found_receiver ev = Some r"
    "receiver_protocol r = (if ty = SERVICE_TYPE then POpenPlay else if ty = AIRPLAY_SERVICE_TYPE then PAirPlay else PMiracast)"
    by (cases "ty = SERVICE_TYPE"; cases "ty = AIRPLAY_SERVICE_TYPE") (simp_all add: source_event_def type_names_differ)
  have "list_inv (app_run parse_ip cfg (ins @ [Arrives ev, app_input.Frame]))" using app_run_inv by blast
  then have "receiver_key r \<in> set (receiver_keys (app_run parse_ip cfg (ins @ [Arrives ev, app_input.Frame])))"
    using listed_next_frame [OF ev(2)] by (auto simp: list_inv_def list_ok_def)
  then show ?thesis using fwd ev by (intro exI [of _ ev] exI [of _ r]) simp
qed

definition demo_daemon :: mdns_browsing where
  "demo_daemon = \<lparr> new_daemon = None, browse = (\<lambda>ty. if ty = MICE_SERVICE_TYPE then Some ''no'' else None),
     spawn_thread = (\<lambda>_. None), stop_browse = (\<lambda>_. None) \<rparr>"

definition demo_service :: service_info where
  "demo_service = \<lparr> fullname = ''TV._openplay._tcp.local.'', svc_properties = [], svc_addresses = [V4 1], svc_port = 7290 \<rparr>"

theorem resolved_service_is_listed_witness:
  "\<exists>ev r. forwarded (start_sources demo_daemon demo_bus (default_config None)) (OnService SERVICE_TYPE (ServiceResolved demo_service)) = Some ev \<and>
     found_receiver ev = Some r"
proof -
  have "SERVICE_TYPE \<noteq> MICE_SERVICE_TYPE" by (simp add: SERVICE_TYPE_def MICE_SERVICE_TYPE_def)
  then have "receiver_browser_start demo_daemon = Inr [SERVICE_TYPE]"
    by (simp add: receiver_browser_start_def demo_daemon_def)
  with resolved_service_is_listed [of SERVICE_TYPE demo_daemon "[SERVICE_TYPE]" "default_config None" demo_bus demo_service]
  show ?thesis by blast
qed

end
