(* ===== verification/Lifecycle.thy ===== *)
theory Lifecycle
  imports Media
begin

text \<open>
  The life of a pipeline once it is built: starting, stopping, watching its bus and dropping it, for
  the four pipeline types of \<open>openplay-pipeline/src\<close> (\<open>sender_pipeline.rs\<close>,
  \<open>airplay_sender_pipeline.rs\<close>, \<open>miracast_sender_pipeline.rs\<close>, \<open>receiver_pipeline.rs\<close>), and the
  remaining operations of \<open>webrtc.rs\<close>. A running pipeline is its graph, the last state GStreamer
  took it to and the handler on its bus; what GStreamer answers to a change of state is an argument.

  The four types are instances of one contract, \<open>pipeline_life\<close>: a pipeline plays only between a
  start and the next stop, and one that has been dropped no longer does.
\<close>

section \<open>Running pipelines\<close>

datatype gst_state = GstNull | GstPlaying

datatype bus_message = BusError string string | BusWarning string | BusOther

datatype log_line = LogError string | LogWarning string

record running_pipeline =
  rp_graph :: graph
  rp_state :: gst_state
  rp_watch :: "(bus_message \<Rightarrow> log_line list) option"

definition running_new :: "graph \<Rightarrow> running_pipeline" where
  "running_new gr = \<lparr> rp_graph = gr, rp_state = GstNull, rp_watch = None \<rparr>"

text \<open>\<open>None\<close> is that GStreamer took the state.\<close>

definition set_state ::
  "string \<Rightarrow> gst_state \<Rightarrow> string option \<Rightarrow> running_pipeline \<Rightarrow> running_pipeline \<times> (pipeline_error + unit)" where
  "set_state what st answer p =
     (case answer of
        Some e \<Rightarrow> (p, Inl (StateChange (''Failed to '' @ what @ '' pipeline: '' @ e)))
      | None \<Rightarrow> (p\<lparr> rp_state := st \<rparr>, Inr ()))"

definition install_watch ::
  "bool \<Rightarrow> (bus_message \<Rightarrow> log_line list) \<Rightarrow> running_pipeline \<Rightarrow> running_pipeline \<times> (pipeline_error + unit)" where
  "install_watch has_bus callback p =
     (if has_bus then (p\<lparr> rp_watch := Some callback \<rparr>, Inr ()) else (p, Inl (Missing ''Pipeline has no bus'')))"

definition set_null_on_drop :: "string option \<Rightarrow> running_pipeline \<Rightarrow> running_pipeline" where
  "set_null_on_drop answer p = (case answer of Some _ \<Rightarrow> p | None \<Rightarrow> p\<lparr> rp_state := GstNull \<rparr>)"

text \<open>What the binaries install on the bus: errors and warnings are logged, and every message is
  passed on.\<close>

definition log_bus_message :: "bus_message \<Rightarrow> log_line list" where
  "log_bus_message m =
     (case m of
        BusError source e \<Rightarrow> [LogError (source @ '': '' @ e)]
      | BusWarning w \<Rightarrow> [LogWarning w]
      | BusOther \<Rightarrow> [])"


section \<open>The four types\<close>

text \<open>\<open>SenderPipeline\<close>.\<close>

record openplay_pipeline =
  op_pipeline :: running_pipeline
  op_webrtcbin :: element
  op_encoder :: encoder_type

definition openplay_start :: "string option \<Rightarrow> openplay_pipeline \<Rightarrow> openplay_pipeline \<times> (pipeline_error + unit)" where
  "openplay_start answer p =
     (case set_state ''start'' GstPlaying answer (op_pipeline p) of (q, r) \<Rightarrow> (p\<lparr> op_pipeline := q \<rparr>, r))"

definition openplay_stop :: "string option \<Rightarrow> openplay_pipeline \<Rightarrow> openplay_pipeline \<times> (pipeline_error + unit)" where
  "openplay_stop answer p =
     (case set_state ''stop'' GstNull answer (op_pipeline p) of (q, r) \<Rightarrow> (p\<lparr> op_pipeline := q \<rparr>, r))"

definition openplay_bus_watch ::
  "bool \<Rightarrow> (bus_message \<Rightarrow> log_line list) \<Rightarrow> openplay_pipeline \<Rightarrow> openplay_pipeline \<times> (pipeline_error + unit)" where
  "openplay_bus_watch has_bus callback p =
     (case install_watch has_bus callback (op_pipeline p) of (q, r) \<Rightarrow> (p\<lparr> op_pipeline := q \<rparr>, r))"

definition openplay_drop :: "string option \<Rightarrow> openplay_pipeline \<Rightarrow> openplay_pipeline" where
  "openplay_drop answer p = p\<lparr> op_pipeline := set_null_on_drop answer (op_pipeline p) \<rparr>"

text \<open>\<open>AirPlaySenderPipeline\<close>.\<close>

record airplay_pipeline =
  ap_pipeline :: running_pipeline
  ap_appsink :: element
  ap_encoder :: encoder_type

definition airplay_start :: "string option \<Rightarrow> airplay_pipeline \<Rightarrow> airplay_pipeline \<times> (pipeline_error + unit)" where
  "airplay_start answer p =
     (case set_state ''start'' GstPlaying answer (ap_pipeline p) of (q, r) \<Rightarrow> (p\<lparr> ap_pipeline := q \<rparr>, r))"

definition airplay_stop :: "string option \<Rightarrow> airplay_pipeline \<Rightarrow> airplay_pipeline \<times> (pipeline_error + unit)" where
  "airplay_stop answer p =
     (case set_state ''stop'' GstNull answer (ap_pipeline p) of (q, r) \<Rightarrow> (p\<lparr> ap_pipeline := q \<rparr>, r))"

definition airplay_bus_watch ::
  "bool \<Rightarrow> (bus_message \<Rightarrow> log_line list) \<Rightarrow> airplay_pipeline \<Rightarrow> airplay_pipeline \<times> (pipeline_error + unit)" where
  "airplay_bus_watch has_bus callback p =
     (case install_watch has_bus callback (ap_pipeline p) of (q, r) \<Rightarrow> (p\<lparr> ap_pipeline := q \<rparr>, r))"

definition airplay_drop :: "string option \<Rightarrow> airplay_pipeline \<Rightarrow> airplay_pipeline" where
  "airplay_drop answer p = p\<lparr> ap_pipeline := set_null_on_drop answer (ap_pipeline p) \<rparr>"

text \<open>\<open>MiracastSenderPipeline\<close>.\<close>

record miracast_pipeline =
  mp_pipeline :: running_pipeline
  mp_encoder :: encoder_type

definition miracast_start :: "string option \<Rightarrow> miracast_pipeline \<Rightarrow> miracast_pipeline \<times> (pipeline_error + unit)" where
  "miracast_start answer p =
     (case set_state ''start'' GstPlaying answer (mp_pipeline p) of (q, r) \<Rightarrow> (p\<lparr> mp_pipeline := q \<rparr>, r))"

definition miracast_stop :: "string option \<Rightarrow> miracast_pipeline \<Rightarrow> miracast_pipeline \<times> (pipeline_error + unit)" where
  "miracast_stop answer p =
     (case set_state ''stop'' GstNull answer (mp_pipeline p) of (q, r) \<Rightarrow> (p\<lparr> mp_pipeline := q \<rparr>, r))"

definition miracast_bus_watch ::
  "bool \<Rightarrow> (bus_message \<Rightarrow> log_line list) \<Rightarrow> miracast_pipeline \<Rightarrow> miracast_pipeline \<times> (pipeline_error + unit)" where
  "miracast_bus_watch has_bus callback p =
     (case install_watch has_bus callback (mp_pipeline p) of (q, r) \<Rightarrow> (p\<lparr> mp_pipeline := q \<rparr>, r))"

definition miracast_drop :: "string option \<Rightarrow> miracast_pipeline \<Rightarrow> miracast_pipeline" where
  "miracast_drop answer p = p\<lparr> mp_pipeline := set_null_on_drop answer (mp_pipeline p) \<rparr>"

text \<open>\<open>ReceiverPipeline\<close>, with the handler of its frames: \<open>new\<close> discards them. The video sink is found
  by its name once the decode chain is in the pipeline.\<close>

record receiving_pipeline =
  rv_pipeline :: running_pipeline
  rv_webrtcbin :: element
  rv_on_frame :: "video_frame \<Rightarrow> frame_slot \<Rightarrow> frame_slot"

definition receiving_with_handler ::
  "gstreamer \<Rightarrow> (video_frame \<Rightarrow> frame_slot \<Rightarrow> frame_slot) \<Rightarrow> pipeline_error + receiving_pipeline" where
  "receiving_with_handler g on_frame =
     result_bind (receiver_pipeline g) (\<lambda>gr.
       Inr \<lparr> rv_pipeline = running_new gr, rv_webrtcbin = hd (pl_elements gr), rv_on_frame = on_frame \<rparr>)"

definition receiving_new :: "gstreamer \<Rightarrow> pipeline_error + receiving_pipeline" where
  "receiving_new g = receiving_with_handler g (\<lambda>_ slot. slot)"

definition receiving_video_appsink :: "receiving_pipeline \<Rightarrow> element option" where
  "receiving_video_appsink p =
     (case find (\<lambda>e. el_name e = Some ''video_sink'') (pl_elements (rp_graph (rv_pipeline p))) of
        None \<Rightarrow> None
      | Some e \<Rightarrow> if el_factory e = ''appsink'' then Some e else None)"

definition receiving_start :: "string option \<Rightarrow> receiving_pipeline \<Rightarrow> receiving_pipeline \<times> (pipeline_error + unit)" where
  "receiving_start answer p =
     (case set_state ''start'' GstPlaying answer (rv_pipeline p) of (q, r) \<Rightarrow> (p\<lparr> rv_pipeline := q \<rparr>, r))"

definition receiving_stop :: "string option \<Rightarrow> receiving_pipeline \<Rightarrow> receiving_pipeline \<times> (pipeline_error + unit)" where
  "receiving_stop answer p =
     (case set_state ''stop'' GstNull answer (rv_pipeline p) of (q, r) \<Rightarrow> (p\<lparr> rv_pipeline := q \<rparr>, r))"

definition receiving_bus_watch ::
  "bool \<Rightarrow> (bus_message \<Rightarrow> log_line list) \<Rightarrow> receiving_pipeline \<Rightarrow> receiving_pipeline \<times> (pipeline_error + unit)" where
  "receiving_bus_watch has_bus callback p =
     (case install_watch has_bus callback (rv_pipeline p) of (q, r) \<Rightarrow> (p\<lparr> rv_pipeline := q \<rparr>, r))"

definition receiving_drop :: "string option \<Rightarrow> receiving_pipeline \<Rightarrow> receiving_pipeline" where
  "receiving_drop answer p = p\<lparr> rv_pipeline := set_null_on_drop answer (rv_pipeline p) \<rparr>"

text \<open>Asking the WebRTC element for a description by hand, with the event sender kept on the
  element.\<close>

definition create_offer :: "webrtc_peer \<Rightarrow> webrtc_peer" where
  "create_offer p = request_description Offer p"

definition create_answer :: "webrtc_peer \<Rightarrow> webrtc_peer" where
  "create_answer p = request_description Answer p"


section \<open>Interface: the life of a pipeline\<close>

datatype life_call = CallStart "string option" | CallStop "string option" | CallWatch bool

locale pipeline_life =
  fixes start :: "string option \<Rightarrow> 'p \<Rightarrow> 'p \<times> (pipeline_error + unit)"
    and stop :: "string option \<Rightarrow> 'p \<Rightarrow> 'p \<times> (pipeline_error + unit)"
    and watch :: "bool \<Rightarrow> (bus_message \<Rightarrow> log_line list) \<Rightarrow> 'p \<Rightarrow> 'p \<times> (pipeline_error + unit)"
    and finish :: "string option \<Rightarrow> 'p \<Rightarrow> 'p"
    and running :: "'p \<Rightarrow> running_pipeline"
  assumes start_state: "rp_state (running (fst (start a p))) = (if a = None then GstPlaying else rp_state (running p))"
    and start_result: "snd (start a p) = Inr () \<longleftrightarrow> a = None"
    and stop_state: "rp_state (running (fst (stop a p))) = (if a = None then GstNull else rp_state (running p))"
    and stop_result: "snd (stop a p) = Inr () \<longleftrightarrow> a = None"
    and watch_state: "rp_state (running (fst (watch b f p))) = rp_state (running p)"
    and finish_state: "rp_state (running (finish a p)) = (if a = None then GstNull else rp_state (running p))"
begin

definition call :: "life_call \<Rightarrow> 'p \<Rightarrow> 'p" where
  "call c p = (case c of CallStart a \<Rightarrow> fst (start a p) | CallStop a \<Rightarrow> fst (stop a p)
     | CallWatch b \<Rightarrow> fst (watch b log_bus_message p))"

text \<open>The state is that of the last accepted start or stop.\<close>

definition effect :: "life_call \<Rightarrow> gst_state option" where
  "effect c = (case c of CallStart None \<Rightarrow> Some GstPlaying | CallStop None \<Rightarrow> Some GstNull | _ \<Rightarrow> None)"

lemma call_state:
  "rp_state (running (call c p)) = (case effect c of None \<Rightarrow> rp_state (running p) | Some st \<Rightarrow> st)"
  by (cases c) (auto simp: call_def effect_def start_state stop_state watch_state split: option.splits)

lemma calls_state:
  "rp_state (running (fold call cs p)) =
   (case List.map_filter effect cs of [] \<Rightarrow> rp_state (running p) | sts \<Rightarrow> last sts)"
  by (induction cs arbitrary: p) (auto simp: call_state map_filter_def split: option.splits list.splits)

lemma finished: "rp_state (running (finish None (fold call cs p))) = GstNull"
  by (simp add: finish_state)

lemma plays_after_start:
  assumes "rp_state (running p) = GstNull" and "rp_state (running (fold call cs p)) = GstPlaying"
  shows "\<exists>pre post. cs = pre @ CallStart None # post \<and> (\<forall>c \<in> set post. c \<noteq> CallStop None)"
  using assms(2)
proof (induction cs rule: rev_induct)
  case Nil
  with assms(1) show ?case by simp
next
  case (snoc c cs)
  then show ?case
  proof (cases "effect c")
    case None
    with snoc.prems have "rp_state (running (fold call cs p)) = GstPlaying" by (simp add: call_state)
    with snoc.IH obtain pre post where "cs = pre @ CallStart None # post" "\<forall>c \<in> set post. c \<noteq> CallStop None" by blast
    moreover have "c \<noteq> CallStop None" using None by (auto simp: effect_def)
    ultimately show ?thesis by (intro exI [of _ pre] exI [of _ "post @ [c]"]) auto
  next
    case (Some st)
    with snoc.prems have "st = GstPlaying" by (simp add: call_state)
    with Some have "c = CallStart None" by (auto simp: effect_def split: life_call.splits option.splits)
    then show ?thesis by (intro exI [of _ cs] exI [of _ "[]"]) simp
  qed
qed

end

lemmas life_defs = set_state_def install_watch_def set_null_on_drop_def

interpretation openplay_life: pipeline_life openplay_start openplay_stop openplay_bus_watch openplay_drop op_pipeline
  by unfold_locales (simp_all add: openplay_start_def openplay_stop_def openplay_bus_watch_def openplay_drop_def
    life_defs split: option.splits)

interpretation airplay_life: pipeline_life airplay_start airplay_stop airplay_bus_watch airplay_drop ap_pipeline
  by unfold_locales (simp_all add: airplay_start_def airplay_stop_def airplay_bus_watch_def airplay_drop_def
    life_defs split: option.splits)

interpretation miracast_life: pipeline_life miracast_start miracast_stop miracast_bus_watch miracast_drop mp_pipeline
  by unfold_locales (simp_all add: miracast_start_def miracast_stop_def miracast_bus_watch_def miracast_drop_def
    life_defs split: option.splits)

interpretation receiving_life: pipeline_life receiving_start receiving_stop receiving_bus_watch receiving_drop rv_pipeline
  by unfold_locales (simp_all add: receiving_start_def receiving_stop_def receiving_bus_watch_def receiving_drop_def
    life_defs split: option.splits)


section \<open>Properties\<close>

text \<open>A receiving pipeline decodes only while its session wants it to: a fresh one plays only if an accepted
  start was not followed by an accepted stop, and after its drop, which GStreamer took, it does not play,
  whatever calls came before.\<close>

theorem receiver_pipeline_life:
  assumes "receiving_with_handler g on_frame = Inr p"
  shows "(rp_state (rv_pipeline (fold receiving_life.call cs p)) = GstPlaying \<longrightarrow>
      (\<exists>pre post. cs = pre @ CallStart None # post \<and> (\<forall>c \<in> set post. c \<noteq> CallStop None))) \<and>
    rp_state (rv_pipeline (receiving_drop None (fold receiving_life.call cs p))) = GstNull"
proof -
  have "rp_state (rv_pipeline p) = GstNull"
    using assms by (auto simp: receiving_with_handler_def running_new_def result_bind_Inr)
  then show ?thesis using receiving_life.plays_after_start receiving_life.finished by blast
qed

theorem receiver_pipeline_life_witness:
  "\<exists>p. receiving_with_handler demo_gst (\<lambda>f. store_frame f) = Inr p \<and>
     rp_state (rv_pipeline (receiving_drop None (fold receiving_life.call [CallWatch True, CallStart None] p))) = GstNull"
proof -
  obtain p where p: "receiving_with_handler demo_gst (\<lambda>f. store_frame f) = Inr p"
    by (simp add: receiving_with_handler_def receiver_pipeline_def make_element_def gst_call_def demo_gst_def)
  with receiver_pipeline_life [OF p] show ?thesis by blast
qed

end
