(* ===== verification/Startup.thy ===== *)
theory Startup
  imports Config Pipelines
begin

text \<open>
  Both programs from \<open>main\<close> to the window: \<open>main.rs\<close> of \<open>openplay-receiver\<close> and
  \<open>openplay-sender\<close>, \<open>paths.rs\<close>, \<open>logging.rs\<close> and \<open>error.rs\<close> of \<open>openplay-common\<close>, and the capture
  session of \<open>openplay-capture/src/desktop.rs\<close> that stands for the portal outside Linux. The platform's
  directories, the file system, GStreamer and the window toolkit are what they answer. \<open>None\<close> is a
  panic.

  The lemmas show in which order a program that runs has done what, and that one that does not run
  has left what behind.
\<close>

section \<open>Paths, logging and errors\<close>

text \<open>\<open>ProjectDirs::from\<close> for this program, if the platform has such directories.\<close>

record project_dirs =
  dir_config :: string
  dir_data :: string

definition QUALIFIER :: string where "QUALIFIER = ''org''"
definition ORG :: string where "ORG = ''openplay''"
definition APP :: string where "APP = ''OpenPlay''"

type_synonym platform_dirs = "string \<Rightarrow> string \<Rightarrow> string \<Rightarrow> project_dirs option"

definition project_dirs_of :: "platform_dirs \<Rightarrow> project_dirs option" where
  "project_dirs_of from_names = from_names QUALIFIER ORG APP"

definition config_dir :: "platform_dirs \<Rightarrow> string option" where
  "config_dir d = map_option dir_config (project_dirs_of d)"

definition data_dir :: "platform_dirs \<Rightarrow> string option" where
  "data_dir d = map_option dir_data (project_dirs_of d)"

text \<open>\<open>create_dir_all\<close> answers with an error or \<open>None\<close>; the result lists the directories it was asked
  for.\<close>

definition ensure_dirs :: "platform_dirs \<Rightarrow> (string \<Rightarrow> string option) \<Rightarrow> string list \<times> (string + unit) option" where
  "ensure_dirs d create_dir_all =
     (case config_dir d of
        None \<Rightarrow> ([], None)
      | Some c \<Rightarrow>
          (case create_dir_all c of
             Some e \<Rightarrow> ([c], Some (Inl e))
           | None \<Rightarrow>
               (case data_dir d of
                  None \<Rightarrow> ([c], None)
                | Some x \<Rightarrow>
                    (case create_dir_all x of
                       Some e \<Rightarrow> ([c, x], Some (Inl e))
                     | None \<Rightarrow> ([c, x], Some (Inr ()))))))"

text \<open>The filter of the log is \<open>RUST_LOG\<close> if it parses, else \<open>info\<close>.\<close>

record log_format =
  log_filter :: string
  log_target :: bool
  log_thread_ids :: bool
  log_file :: bool
  log_line_number :: bool

definition init_logging :: "(string \<Rightarrow> bool) \<Rightarrow> string option \<Rightarrow> log_format" where
  "init_logging parses rust_log =
     \<lparr> log_filter = (case rust_log of None \<Rightarrow> ''info'' | Some f \<Rightarrow> if parses f then f else ''info''),
       log_target = True, log_thread_ids = False, log_file = False, log_line_number = False \<rparr>"

datatype openplay_error =
    ConfigError string
  | IoError string
  | CertificateError string
  | DiscoveryFailure string
  | SignalingFailure string
  | PipelineFailure string
  | CaptureFailure string
  | ProtocolError string
  | TimeoutFailure string

fun show_openplay_error :: "openplay_error \<Rightarrow> string" where
  "show_openplay_error (ConfigError e) = ''Configuration error: '' @ e"
| "show_openplay_error (IoError e) = ''I/O error: '' @ e"
| "show_openplay_error (CertificateError e) = ''Certificate error: '' @ e"
| "show_openplay_error (DiscoveryFailure e) = ''Discovery error: '' @ e"
| "show_openplay_error (SignalingFailure e) = ''Signaling error: '' @ e"
| "show_openplay_error (PipelineFailure e) = ''Pipeline error: '' @ e"
| "show_openplay_error (CaptureFailure e) = ''Capture error: '' @ e"
| "show_openplay_error (ProtocolError e) = ''Protocol error: '' @ e"
| "show_openplay_error (TimeoutFailure e) = ''Timeout: '' @ e"


section \<open>Capture outside Linux\<close>

record desktop_source =
  display_index :: u32
  display_width :: "u32 option"
  display_height :: "u32 option"

record desktop_session =
  desktop_sources :: "desktop_source list"

text \<open>The metrics are the two 32-bit signed answers of the platform.\<close>

definition query_primary_display_size :: "platform \<Rightarrow> 32 word \<Rightarrow> 32 word \<Rightarrow> u32 \<times> u32" where
  "query_primary_display_size os w h =
     (if os = Windows \<and> 0 < sint w \<and> 0 < sint h then (w, h) else (1920, 1080))"

definition desktop_start :: "platform \<Rightarrow> 32 word \<Rightarrow> 32 word \<Rightarrow> desktop_session" where
  "desktop_start os w h =
     (case query_primary_display_size os w h of
        (width, height) \<Rightarrow>
          \<lparr> desktop_sources = [\<lparr> display_index = 0, display_width = Some width, display_height = Some height \<rparr>] \<rparr>)"

definition desktop_primary :: "desktop_session \<Rightarrow> desktop_source option" where
  "desktop_primary s = (case desktop_sources s of [] \<Rightarrow> None | x # _ \<Rightarrow> Some x)"

definition desktop_width :: "desktop_session \<Rightarrow> u32" where
  "desktop_width s = (case Option.bind (desktop_primary s) display_width of None \<Rightarrow> 1920 | Some w \<Rightarrow> w)"

definition desktop_height :: "desktop_session \<Rightarrow> u32" where
  "desktop_height s = (case Option.bind (desktop_primary s) display_height of None \<Rightarrow> 1080 | Some h \<Rightarrow> h)"


section \<open>The programs\<close>

datatype startup_error =
    BadConfig config_error
  | NoDirectories string
  | NoGstreamer string
  | GuiError string

record platform_env =
  env_dirs :: platform_dirs
  env_create_dir :: "string \<Rightarrow> string option"
  env_gst_init :: "string option"
  env_gui :: "string option"

text \<open>GStreamer is initialised through \<open>openplay_pipeline::init\<close>.\<close>

definition gst_init :: "string option \<Rightarrow> pipeline_error + unit" where
  "gst_init answer = (case answer of Some e \<Rightarrow> Inl (Gstreamer e) | None \<Rightarrow> Inr ())"

text \<open>What a program has done: the directories asked for, whether GStreamer is up, and the
  configuration its window was opened with.\<close>

record startup =
  st_dirs :: "string list"
  st_gstreamer :: bool
  st_window :: "app_config option"
  st_result :: "(startup_error + unit) option"

definition startup_failed :: "startup_error \<Rightarrow> startup \<Rightarrow> startup" where
  "startup_failed e s = s\<lparr> st_result := Some (Inl e) \<rparr>"

definition open_window :: "platform_env \<Rightarrow> app_config \<Rightarrow> startup \<Rightarrow> startup" where
  "open_window env c s =
     s\<lparr> st_window := Some c, st_result := Some (case env_gui env of Some e \<Rightarrow> Inl (GuiError e) | None \<Rightarrow> Inr ()) \<rparr>"

definition startup_new :: startup where
  "startup_new = \<lparr> st_dirs = [], st_gstreamer = False, st_window = None, st_result = None \<rparr>"

definition receiver_main ::
  "platform_env \<Rightarrow> ('t \<Rightarrow> app_config option) \<Rightarrow> (app_config \<Rightarrow> 't option) \<Rightarrow> write_env \<Rightarrow> ustr option \<Rightarrow> args \<Rightarrow>
   't file_state \<Rightarrow> startup \<times> 't file_state" where
  "receiver_main env toml_parse toml_print w h a f =
     (case receiver_startup toml_parse toml_print w h a f of
        (Inl e, f') \<Rightarrow> (startup_failed (BadConfig e) startup_new, f')
      | (Inr c, f') \<Rightarrow>
          ((case ensure_dirs (env_dirs env) (env_create_dir env) of
              (ds, None) \<Rightarrow> startup_new\<lparr> st_dirs := ds \<rparr>
            | (ds, Some (Inl e)) \<Rightarrow> startup_failed (NoDirectories e) (startup_new\<lparr> st_dirs := ds \<rparr>)
            | (ds, Some (Inr _)) \<Rightarrow>
                (case gst_init (env_gst_init env) of
                   Inl (Gstreamer e) \<Rightarrow> startup_failed (NoGstreamer e) (startup_new\<lparr> st_dirs := ds \<rparr>)
                 | Inl _ \<Rightarrow> startup_new\<lparr> st_dirs := ds \<rparr>
                 | Inr _ \<Rightarrow> open_window env c (startup_new\<lparr> st_dirs := ds, st_gstreamer := True \<rparr>))),
           f'))"

definition sender_main ::
  "platform_env \<Rightarrow> ('t \<Rightarrow> app_config option) \<Rightarrow> (app_config \<Rightarrow> 't option) \<Rightarrow> write_env \<Rightarrow> ustr option \<Rightarrow> ustr option \<Rightarrow>
   't file_state \<Rightarrow> startup \<times> 't file_state" where
  "sender_main env toml_parse toml_print w h name f =
     (case gst_init (env_gst_init env) of
        Inl (Gstreamer e) \<Rightarrow> (startup_failed (NoGstreamer e) startup_new, f)
      | Inl _ \<Rightarrow> (startup_new, f)
      | Inr _ \<Rightarrow>
          (let s = startup_new\<lparr> st_gstreamer := True \<rparr>
           in case sender_startup toml_parse toml_print w h name f of
                (Inl e, f') \<Rightarrow> (startup_failed (BadConfig e) s, f')
              | (Inr c, f') \<Rightarrow>
                  ((case ensure_dirs (env_dirs env) (env_create_dir env) of
                      (ds, None) \<Rightarrow> s\<lparr> st_dirs := ds \<rparr>
                    | (ds, Some (Inl e)) \<Rightarrow> startup_failed (NoDirectories e) (s\<lparr> st_dirs := ds \<rparr>)
                    | (ds, Some (Inr _)) \<Rightarrow> open_window env c (s\<lparr> st_dirs := ds \<rparr>)), f')))"


section \<open>Properties\<close>

lemma ensure_dirs_done:
  "ensure_dirs d mk = (ds, Some (Inr u)) \<longleftrightarrow>
   (\<exists>p. project_dirs_of d = Some p \<and> ds = [dir_config p, dir_data p] \<and> mk (dir_config p) = None \<and> mk (dir_data p) = None)"
  by (auto simp: ensure_dirs_def config_dir_def data_dir_def split: option.splits)

lemma receiver_config_ok:
  "receiver_startup toml_parse toml_print w h a f = (Inr c, f') \<Longrightarrow> config_ok c"
  by (auto simp: receiver_startup_def error_simps config_validate_ok Let_def split: prod.splits)

lemma sender_config_ok: "sender_startup toml_parse toml_print w h name f = (Inr c, f') \<Longrightarrow> config_ok c"
  using sender_startup_valid [of toml_parse toml_print w h name f c] by simp

definition ready :: "platform_env \<Rightarrow> startup \<Rightarrow> app_config \<Rightarrow> bool" where
  "ready env s c \<longleftrightarrow> config_ok c \<and> st_gstreamer s \<and> env_gst_init env = None \<and>
    (\<exists>p. project_dirs_of (env_dirs env) = Some p \<and> st_dirs s = [dir_config p, dir_data p] \<and>
       (\<forall>d \<in> set (st_dirs s). env_create_dir env d = None))"

lemma no_window [simp]: "st_window startup_new = None" "st_window (startup_failed e s) = st_window s"
  "st_window (s\<lparr> st_dirs := ds \<rparr>) = st_window s" "st_window (s\<lparr> st_gstreamer := b \<rparr>) = st_window s"
  by (simp_all add: startup_new_def startup_failed_def)

lemma window_simps [simp]:
  "st_window (open_window env c s) = Some c" "st_dirs (open_window env c s) = st_dirs s"
  "st_gstreamer (open_window env c s) = st_gstreamer s"
  by (simp_all add: open_window_def)

lemma gst_init_Inr: "gst_init r = Inr u \<longleftrightarrow> r = None"
  by (simp add: gst_init_def split: option.splits)

lemma receiver_main_ready:
  assumes "receiver_main env toml_parse toml_print w h a f = (s, f')" and "st_window s = Some c"
  shows "ready env s c"
proof -
  obtain r g where r: "receiver_startup toml_parse toml_print w h a f = (r, g)" by fastforce
  obtain ds x where ds: "ensure_dirs (env_dirs env) (env_create_dir env) = (ds, x)" by fastforce
  from assms r ds obtain c0 where c0: "r = Inr c0" "x = Some (Inr ())" "gst_init (env_gst_init env) = Inr ()"
    and s: "s = open_window env c0 (startup_new\<lparr> st_dirs := ds, st_gstreamer := True \<rparr>)"
    by (auto simp: receiver_main_def split: sum.splits option.splits pipeline_error.splits)
  moreover have "config_ok c0" using receiver_config_ok r c0(1) by blast
  ultimately show ?thesis
    using ds assms(2) by (auto simp: ready_def ensure_dirs_done gst_init_Inr)
qed

lemma sender_main_ready:
  assumes "sender_main env toml_parse toml_print w h name f = (s, f')" and "st_window s = Some c"
  shows "ready env s c"
proof -
  obtain r g where r: "sender_startup toml_parse toml_print w h name f = (r, g)" by fastforce
  obtain ds x where ds: "ensure_dirs (env_dirs env) (env_create_dir env) = (ds, x)" by fastforce
  from assms r ds obtain c0 where c0: "r = Inr c0" "x = Some (Inr ())" "gst_init (env_gst_init env) = Inr ()"
    and s: "s = open_window env c0 (startup_new\<lparr> st_gstreamer := True, st_dirs := ds \<rparr>)"
    by (auto simp: sender_main_def Let_def split: sum.splits option.splits pipeline_error.splits)
  moreover have "config_ok c0" using sender_config_ok r c0(1) by blast
  ultimately show ?thesis
    using ds assms(2) by (auto simp: ready_def ensure_dirs_done gst_init_Inr)
qed

text \<open>A window is opened, by either program, only when everything it needs is there: a usable configuration,
  both of the program's directories made, and GStreamer initialised.\<close>

theorem programs_start_ready:
  assumes "(s, f') = receiver_main env toml_parse toml_print w h a f \<or> (s, f') = sender_main env toml_parse toml_print w h name f"
    and "st_window s = Some c"
  shows "config_ok c \<and> st_gstreamer s \<and> env_gst_init env = None \<and>
    (\<exists>p. project_dirs_of (env_dirs env) = Some p \<and> st_dirs s = [dir_config p, dir_data p] \<and>
       (\<forall>d \<in> set (st_dirs s). env_create_dir env d = None))"
  using assms receiver_main_ready sender_main_ready unfolding ready_def by metis

theorem programs_start_ready_witness:
  "\<exists>s f'. receiver_main \<lparr> env_dirs = (\<lambda>_ _ _. Some \<lparr> dir_config = ''c'', dir_data = ''d'' \<rparr>), env_create_dir = (\<lambda>_. None),
      env_gst_init = None, env_gui = None \<rparr> (\<lambda>_. None) (\<lambda>_. None) \<lparr> mkdir_ok = True, write_ok = True \<rparr> (Some [97])
      \<lparr> arg_name = None, arg_port = None \<rparr> (file_state.Missing :: nat file_state) = (s, f') \<and>
    st_window s = Some (default_config (Some [97])) \<and> config_ok (default_config (Some [97]))"
proof -
  let ?env = "\<lparr> env_dirs = (\<lambda>_ _ _. Some \<lparr> dir_config = ''c'', dir_data = ''d'' \<rparr>), env_create_dir = (\<lambda>_. None),
      env_gst_init = None, env_gui = None \<rparr>"
  let ?run = "receiver_main ?env (\<lambda>_. None) (\<lambda>_. None) \<lparr> mkdir_ok = True, write_ok = True \<rparr> (Some [97])
      \<lparr> arg_name = None, arg_port = None \<rparr> (file_state.Missing :: nat file_state)"
  have w: "st_window (fst ?run) = Some (default_config (Some [97]))"
    by (simp add: receiver_main_def receiver_startup_def load_or_create_at_def apply_args_def config_validate_def
      default_config_def hostname_def trim_def is_whitespace_def DEFAULT_PORT_def config_bounds Let_def
      ensure_dirs_def config_dir_def data_dir_def project_dirs_of_def gst_init_def open_window_def startup_new_def)
  moreover have "config_ok (default_config (Some [97]))"
    using programs_start_ready [OF disjI1 w, of "snd ?run" ?env "\<lambda>_. None" "\<lambda>_. None" "\<lparr> mkdir_ok = True, write_ok = True \<rparr>"
        "Some [97]" "\<lparr> arg_name = None, arg_port = None \<rparr>" file_state.Missing] by simp
  ultimately show ?thesis by (intro exI [of _ "fst ?run"] exI [of _ "snd ?run"]) simp
qed

end
