(* ===== verification/Tests_Airplay.thy ===== *)
theory Tests_Airplay
  imports Airplay_Session Fairplay
begin

text \<open>
  The unit tests of \<open>openplay-airplay\<close>, one definition for each test function, evaluated on the model: where
  the repository states what a function returns for a concrete input, the model returns the same.
  \<open>unwrap()\<close> of an error or of \<open>None\<close> fails the test. Cryptography that a test calls is a parameter of
  the test as it is of the code, and the test is shown to hold for every lawful choice.
\<close>

definition unwrap_ok :: "'e + 'a \<Rightarrow> ('a \<Rightarrow> bool) \<Rightarrow> bool" where
  "unwrap_ok r P = (case r of Inr x \<Rightarrow> P x | Inl _ \<Rightarrow> False)"

definition unwrap_err :: "'e + 'a \<Rightarrow> ('e \<Rightarrow> bool) \<Rightarrow> bool" where
  "unwrap_err r P = (case r of Inr _ \<Rightarrow> False | Inl e \<Rightarrow> P e)"

definition unwrap_some :: "'a option \<Rightarrow> ('a \<Rightarrow> bool) \<Rightarrow> bool" where
  "unwrap_some r P = (case r of Some x \<Rightarrow> P x | None \<Rightarrow> False)"

lemmas unwrap_defs = unwrap_ok_def unwrap_err_def unwrap_some_def

lemmas string_eval = Let_def unwrap_defs newline_def cr_def crlf_def is_ws_def trim_str_def strip_prefix_str_def
  starts_with_def to_ascii_lowercase_def lower_char_def strip_cr_def lines_def split_whitespace_def digit_value_def
  from_str_radix_def show_radix.simps digit_char_def char_of_def bit_0 after_pattern_def contains_def str_bytes_def


section \<open>\<open>tlv8.rs\<close>\<close>

definition tlv8_encode_decode_roundtrip :: bool where
  "tlv8_encode_decode_roundtrip \<longleftrightarrow>
     (let encoded = tlv_encode [item_u8 TAG_STATE 1, item_u8 TAG_METHOD METHOD_PAIR_SETUP]
      in encoded = [0x06, 0x01, 0x01, 0x00, 0x01, 0x00] \<and>
         unwrap_ok (tlv_decode encoded) (\<lambda>d. length d = 2 \<and> tag (d ! 0) = TAG_STATE \<and> val (d ! 0) = [1] \<and>
           tag (d ! 1) = TAG_METHOD \<and> val (d ! 1) = [0]))"

definition tlv8_fragmentation :: bool where
  "tlv8_fragmentation \<longleftrightarrow>
     (let big_value = replicate 300 0xAB; encoded = tlv_encode [\<lparr> tag = TAG_PUBLIC_KEY, val = big_value \<rparr>]
      in encoded ! 0 = TAG_PUBLIC_KEY \<and> encoded ! 1 = 255 \<and> encoded ! (2 + 255) = TAG_PUBLIC_KEY \<and>
         encoded ! (2 + 255 + 1) = 45 \<and>
         unwrap_ok (tlv_decode encoded) (\<lambda>d. length d = 1 \<and> tag (d ! 0) = TAG_PUBLIC_KEY \<and> val (d ! 0) = big_value))"

definition tlv8_empty_value :: bool where
  "tlv8_empty_value \<longleftrightarrow>
     (let encoded = tlv_encode [\<lparr> tag = TAG_SEPARATOR, val = [] \<rparr>]
      in encoded = [0xFF, 0x00] \<and>
         unwrap_ok (tlv_decode encoded) (\<lambda>d. length d = 1 \<and> tag (d ! 0) = TAG_SEPARATOR \<and> val (d ! 0) = []))"

definition tlv8_lookup :: bool where
  "tlv8_lookup \<longleftrightarrow>
     (let items = [item_u8 TAG_STATE 2, item TAG_SALT [1, 2, 3, 4]]
      in lookup items TAG_STATE = Some [2] \<and> lookup items TAG_SALT = Some [1, 2, 3, 4] \<and>
         lookup items TAG_PROOF = None)"

definition tlv8_truncated_errors :: bool where
  "tlv8_truncated_errors \<longleftrightarrow> \<not> is_ok (tlv_decode [0x06]) \<and> \<not> is_ok (tlv_decode [0x06, 0x05, 0x01])"

definition method_constants_match_the_hap_specification :: bool where
  "method_constants_match_the_hap_specification \<longleftrightarrow>
     METHOD_PAIR_SETUP = 0x00 \<and> METHOD_PAIR_SETUP_WITH_AUTH = 0x01 \<and> METHOD_PAIR_VERIFY = 0x02 \<and>
     METHOD_ADD_PAIRING = 0x03 \<and> METHOD_REMOVE_PAIRING = 0x04 \<and> METHOD_LIST_PAIRINGS = 0x05 \<and>
     METHOD_PAIR_VERIFY \<noteq> METHOD_PAIR_SETUP_WITH_AUTH"

definition tag_and_error_constants_match_the_hap_specification :: bool where
  "tag_and_error_constants_match_the_hap_specification \<longleftrightarrow>
     TAG_METHOD = 0x00 \<and> TAG_IDENTIFIER = 0x01 \<and> TAG_SALT = 0x02 \<and> TAG_PUBLIC_KEY = 0x03 \<and> TAG_PROOF = 0x04 \<and>
     TAG_ENCRYPTED_DATA = 0x05 \<and> TAG_STATE = 0x06 \<and> TAG_ERROR = 0x07 \<and> TAG_RETRY_DELAY = 0x08 \<and>
     TAG_CERTIFICATE = 0x09 \<and> TAG_SIGNATURE = 0x0A \<and> TAG_PERMISSIONS = 0x0B \<and> TAG_FRAGMENT_DATA = 0x0C \<and>
     TAG_FRAGMENT_LAST = 0x0D \<and> TAG_FLAGS = 0x13 \<and>
     ERR_NONE = 0x00 \<and> ERR_UNKNOWN = 0x01 \<and> ERR_AUTHENTICATION = 0x02 \<and> ERR_BACKOFF = 0x03 \<and>
     ERR_MAX_PEERS = 0x04 \<and> ERR_MAX_TRIES = 0x05 \<and> ERR_UNAVAILABLE = 0x06 \<and> ERR_BUSY = 0x07"

lemma tlv8_tests:
  "tlv8_encode_decode_roundtrip" "tlv8_fragmentation" "tlv8_empty_value" "tlv8_lookup" "tlv8_truncated_errors"
  "method_constants_match_the_hap_specification" "tag_and_error_constants_match_the_hap_specification"
  by code_simp+


section \<open>\<open>mirror_header.rs\<close>, \<open>features.rs\<close>, \<open>ntp.rs\<close>\<close>

definition header_new :: "packet_type \<Rightarrow> u32 \<Rightarrow> u64 \<Rightarrow> mirror_header" where
  "header_new t n ts = \<lparr> payload_size = n, packet_type = t, ntp_timestamp = ts \<rparr>"

definition header_roundtrip_video :: bool where
  "header_roundtrip_video \<longleftrightarrow>
     (let encoded = header_encode (header_new Video 12345 0xAABBCCDD00112233)
      in length encoded = HEADER_SIZE \<and>
         unwrap_some (header_decode encoded) (\<lambda>d. payload_size d = 12345 \<and> packet_type d = Video \<and>
           ntp_timestamp d = 0xAABBCCDD00112233))"

definition header_roundtrip_codec_data :: bool where
  "header_roundtrip_codec_data \<longleftrightarrow>
     unwrap_some (header_decode (header_encode (header_new CodecData 64 0)))
       (\<lambda>d. packet_type d = CodecData \<and> payload_size d = 64)"

definition header_roundtrip_heartbeat :: bool where
  "header_roundtrip_heartbeat \<longleftrightarrow>
     unwrap_some (header_decode (header_encode (header_new Heartbeat 0 999)))
       (\<lambda>d. packet_type d = Heartbeat \<and> payload_size d = 0 \<and> ntp_timestamp d = 999)"

definition header_size_constant :: bool where
  "header_size_constant \<longleftrightarrow> length (header_encode (header_new Video 0 0)) = 128"

definition decode_too_short :: bool where
  "decode_too_short \<longleftrightarrow> header_decode (replicate 64 0) = None"

definition decode_invalid_type :: bool where
  "decode_invalid_type \<longleftrightarrow> header_decode ((replicate 128 0)[4 := 0xFF, 5 := 0xFF]) = None"

definition payload_size_le_encoding :: bool where
  "payload_size_le_encoding \<longleftrightarrow> take 4 (header_encode (header_new Video 0x04030201 0)) = [1, 2, 3, 4]"

lemma header_roundtrip: "header_decode (header_encode h) = Some h"
  using header_decode_encode [of h "[]"] by simp

lemma mirror_header_tests:
  "header_roundtrip_video" "header_roundtrip_codec_data" "header_roundtrip_heartbeat" "header_size_constant"
  "decode_too_short"
  by (simp_all add: header_roundtrip_video_def header_roundtrip_codec_data_def header_roundtrip_heartbeat_def
    header_size_constant_def decode_too_short_def header_roundtrip header_new_def HEADER_SIZE_def unwrap_defs)
    (simp add: header_decode_def HEADER_SIZE_def)

lemma nat_to_le_numeral: "nat_to_le (numeral k) n = of_nat (n mod 256) # nat_to_le (pred_numeral k) (n div 256)"
  by (metis nat_to_le.simps(2) numeral_eq_Suc)

lemma payload_size_test: "payload_size_le_encoding"
  by (simp add: payload_size_le_encoding_def header_encode_def header_new_def nat_to_le_numeral)

lemma decode_invalid_type_test: "decode_invalid_type"
proof -
  have "take 2 (drop 4 ((replicate 128 0)[4 := 0xFF, 5 := 0xFF])) = ([0xFF, 0xFF] :: bytes)"
    by (simp add: list_eq_iff_nth_eq less_Suc_eq numeral_2_eq_2)
  then show ?thesis by (simp add: decode_invalid_type_def header_decode_def HEADER_SIZE_def from_u16_def)
qed

definition parse_single_hex :: bool where
  "parse_single_hex \<longleftrightarrow>
     unwrap_some (features_parse ''0x5A7FFFF7'') (\<lambda>f. supports_mirroring f \<and> supports_video f)"

definition parse_split_hex :: bool where
  "parse_split_hex \<longleftrightarrow>
     unwrap_some (features_parse ''0x5A7FFFF7,0x1E'') (\<lambda>f. supports_mirroring f \<and> f AND 0xFFFFFFFF = 0x5A7FFFF7)"

definition no_mirroring :: bool where
  "no_mirroring \<longleftrightarrow> unwrap_some (features_parse ''0x77'') (\<lambda>f. \<not> supports_mirroring f \<and> supports_video f)"

definition mirroring_only :: bool where
  "mirroring_only \<longleftrightarrow> unwrap_some (features_parse ''0x80'') (\<lambda>f. supports_mirroring f \<and> \<not> supports_video f)"

definition hk_pairing_bit :: bool where
  "hk_pairing_bit \<longleftrightarrow> unwrap_some (features_parse ''0x0,0x4000'') requires_hk_pairing"

lemma features_tests:
  "parse_single_hex" "parse_split_hex" "no_mirroring" "mirroring_only" "hk_pairing_bit"
  by (simp_all add: parse_single_hex_def parse_split_hex_def no_mirroring_def mirroring_only_def hk_pairing_bit_def
    features_parse_def parse_hex_def fits_u32_def supports_mirroring_def supports_video_def requires_hk_pairing_def
    FEATURE_SCREEN_def FEATURE_VIDEO_def FEATURE_SUPPORTS_HK_PAIRING_def string_eval)

definition ntp_response_structure :: "u64 \<Rightarrow> bool" where
  "ntp_response_structure now \<longleftrightarrow>
     (let request = (replicate 48 0)[0 := push_bit 3 4 OR 3];
          request = take 40 request @ [1, 2, 3, 4, 5, 6, 7, 8];
          response = build_ntp_response now request
      in response ! 0 AND 7 = 4 \<and> drop_bit 3 (response ! 0) AND 7 = 4 \<and> response ! 1 = 1 \<and>
         take 4 (drop 12 response) = str_bytes ''AIRP'' \<and> take 8 (drop 24 response) = [1, 2, 3, 4, 5, 6, 7, 8])"

lemma ntp_tests: "ntp_response_structure now"
  by (simp add: ntp_response_structure_def build_ntp_response_def Let_def str_bytes_def nth_append nth_list_update
    nat_to_be_def)


section \<open>\<open>control_channel.rs\<close>\<close>

definition nonce_is_a_little_endian_counter :: bool where
  "nonce_is_a_little_endian_counter \<longleftrightarrow>
     nonce_for 0 = replicate 12 0 \<and> take 4 (nonce_for 1) = [0, 0, 0, 0] \<and>
     drop 4 (nonce_for 1) = nat_to_le 8 1 \<and> drop 4 (nonce_for 258) = nat_to_le 8 258"

definition header_end_and_content_length_parse :: bool where
  "header_end_and_content_length_parse \<longleftrightarrow>
     (let msg = str_bytes (''HTTP/1.1 200 OK'' @ crlf @ ''Content-Length: 42'' @ crlf @ crlf @ ''body'')
      in unwrap_some (control_header_end msg) (\<lambda>split.
           drop split msg = str_bytes ''body'' \<and> control_content_length (take split msg) = Some 42))"

definition content_length_is_case_insensitive_and_optional :: bool where
  "content_length_is_case_insensitive_and_optional \<longleftrightarrow>
     (let lower = str_bytes (''HTTP/1.1 200 OK'' @ crlf @ ''content-length: 7'' @ crlf @ crlf);
          none = str_bytes (''HTTP/1.1 200 OK'' @ crlf @ ''Server: AirTunes'' @ crlf @ crlf)
      in unwrap_some (control_header_end lower) (\<lambda>split. control_content_length (take split lower) = Some 7) \<and>
         unwrap_some (control_header_end none) (\<lambda>split. control_content_length (take split none) = None))"

lemma nat_to_le_zero: "nat_to_le n 0 = replicate n 0"
  by (induction n) simp_all

lemma nonce_test: "nonce_is_a_little_endian_counter"
proof -
  have "nonce_for 0 = replicate 12 0"
    using replicate_add [of 4 8 "0 :: u8"] by (simp add: nonce_for_def nat_to_le_zero)
  moreover have "replicate 4 0 = ([0, 0, 0, 0] :: bytes)" by (simp add: numeral_eq_Suc)
  ultimately show ?thesis by (simp add: nonce_is_a_little_endian_counter_def nonce_for_def)
qed

lemma ascii_bytes: "list_all (\<lambda>b. b < 0x80) bs \<Longrightarrow> lossy_str bs = bytes_str bs"
  by (simp add: lossy_str_def utf8_lossy_ascii list_all_iff)

lemma control_channel_tests:
  "header_end_and_content_length_parse" "content_length_is_case_insensitive_and_optional"
  by (simp_all add: header_end_and_content_length_parse_def content_length_is_case_insensitive_and_optional_def
    control_header_end_def control_content_length_def header_end_def ascii_bytes bytes_str_def string_eval)


section \<open>\<open>http_session.rs\<close>, \<open>session.rs\<close>\<close>

definition header_block :: "bytes \<Rightarrow> string" where
  "header_block request =
     (let text = lossy_str request
      in case find_sub (crlf @ crlf) text of None \<Rightarrow> text | Some e \<Rightarrow> take e text)"

definition stream_request_for :: "plist_lib \<Rightarrow> ustr \<Rightarrow> (string \<Rightarrow> bool) \<Rightarrow> bool" where
  "stream_request_for L name P =
     unwrap_ok (build_stream_request L
         \<lparr> width = 1920, height = 1080, fps = 30, session_id = ''S1'', sender_name = name \<rparr>)
       (\<lambda>(head, body). P (header_block (utf8 head @ body)))"

definition nikhils_laptop :: string where
  "nikhils_laptop = ''Nikhil'' @ [CHR 0x27] @ ''s Laptop''"

definition stream_request_carries_the_configured_device_name :: "plist_lib \<Rightarrow> bool" where
  "stream_request_carries_the_configured_device_name L =
     stream_request_for L (lit nikhils_laptop)
       (\<lambda>headers. contains (''X-Apple-Device-Name: '' @ nikhils_laptop @ crlf) headers)"

definition a_line_break_in_the_name_cannot_add_a_header :: "plist_lib \<Rightarrow> bool" where
  "a_line_break_in_the_name_cannot_add_a_header L =
     stream_request_for L (lit (''Laptop'' @ crlf @ ''X-Injected: yes''))
       (\<lambda>headers. \<not> contains (crlf @ ''X-Injected'') headers \<and>
         contains (''X-Apple-Device-Name: LaptopX-Injected: yes'' @ crlf) headers)"

definition a_blank_name_falls_back_to_the_default :: bool where
  "a_blank_name_falls_back_to_the_default \<longleftrightarrow>
     header_safe_device_name (lit []) = DEFAULT_DEVICE_NAME \<and>
     header_safe_device_name (lit ''   '') = DEFAULT_DEVICE_NAME \<and>
     header_safe_device_name (lit (crlf @ [CHR 0x09])) = DEFAULT_DEVICE_NAME"

definition whitespace_is_trimmed_and_non_ascii_is_kept :: bool where
  "whitespace_is_trimmed_and_non_ascii_is_kept \<longleftrightarrow>
     (let name = lit ''Nikhil'' @ [0x2019] @ lit ''s Laptop''
      in header_safe_device_name (lit ''  '' @ name @ lit ''  '') = name)"

definition FIVE_HUNDRED :: string where
  "FIVE_HUNDRED = ''HTTP/1.1 500 Internal Server Error'' @ crlf @ ''Server: AirTunes/200.20'' @ crlf @
     ''Date: Mon, 06 Jan 2003 12:00:14 GMT'' @ crlf @ ''Content-Length: 1200''"

definition a_failure_status_is_rejected_however_the_headers_read :: bool where
  "a_failure_status_is_rejected_however_the_headers_read \<longleftrightarrow>
     \<not> status_is_success FIVE_HUNDRED \<and> contains ''200'' FIVE_HUNDRED \<and>
     \<not> status_is_success (''HTTP/1.1 403 Forbidden'' @ crlf @ ''Content-Length: 0'') \<and>
     \<not> status_is_success (''HTTP/1.1 501 Not Implemented'' @ crlf @ ''Content-Length: 200'')"

definition a_success_status_is_accepted :: bool where
  "a_success_status_is_accepted \<longleftrightarrow>
     status_is_success (''HTTP/1.1 200 OK'' @ crlf @ ''Content-Length: 0'' @ crlf) \<and>
     status_is_success ''HTTP/1.1 204 No Content'' \<and>
     status_is_success (''RTSP/1.0 200 OK'' @ crlf @ ''CSeq: 1'')"

definition an_unreadable_status_line_is_not_success :: bool where
  "an_unreadable_status_line_is_not_success \<longleftrightarrow>
     \<not> status_is_success [] \<and> \<not> status_is_success (''garbage'' @ crlf @ ''Content-Length: 200'')"

definition the_rejection_message_keeps_the_status_code :: bool where
  "the_rejection_message_keeps_the_status_code \<longleftrightarrow>
     (case lines FIVE_HUNDRED of [] \<Rightarrow> False
      | line # _ \<Rightarrow> contains ''500'' line \<and> \<not> contains ''1200'' line)"

lemma http_session_tests:
  "a_blank_name_falls_back_to_the_default" "whitespace_is_trimmed_and_non_ascii_is_kept"
  "a_failure_status_is_rejected_however_the_headers_read" "a_success_status_is_accepted"
  "an_unreadable_status_line_is_not_success" "the_rejection_message_keeps_the_status_code"
  by (simp_all add: a_blank_name_falls_back_to_the_default_def whitespace_is_trimmed_and_non_ascii_is_kept_def
    a_failure_status_is_rejected_however_the_headers_read_def a_success_status_is_accepted_def
    an_unreadable_status_line_is_not_success_def the_rejection_message_keeps_the_status_code_def
    header_safe_device_name_def DEFAULT_DEVICE_NAME_def lit_def trim_def is_control_def is_whitespace_def
    status_is_success_def status_word_def FIVE_HUNDRED_def string_eval del: not_None_eq)

lemma utf8_lit: "ascii s \<Longrightarrow> utf8 (lit s) = str_bytes s"
proof (induction s)
  case (Cons c s)
  then have "utf8_char (of_char c) = [of_char c :: u8]" by (simp add: utf8_char_def of_nat_of_char)
  with Cons show ?case by (simp add: utf8_def lit_def str_bytes_def)
qed (simp add: utf8_def lit_def str_bytes_def)

text \<open>A request of an ASCII name is the ASCII text of its lines.\<close>

lemma stream_request_text:
  assumes "to_writer_binary L = (\<lambda>_. Some (str_bytes body))" and "header_safe_device_name name = lit safe"
    and "ascii safe" "ascii body"
    and request: "req = ''POST /stream HTTP/1.1'' @ crlf @ ''User-Agent: '' @ AIRPLAY_USER_AGENT @ crlf @
      ''X-Apple-Device-Name: '' @ safe @ crlf @ ''X-Apple-Session-ID: '' @ ''S1'' @ crlf @
      ''X-Apple-ProtocolVersion: 1'' @ crlf @ ''Content-Type: application/x-apple-binary-plist'' @ crlf @
      ''Content-Length: '' @ show_radix 10 (length body) @ crlf @ crlf @ body"
    and "ascii req"
  shows "stream_request_for L name P =
    P (case find_sub (crlf @ crlf) req of None \<Rightarrow> req | Some e \<Rightarrow> take e req)"
proof -
  have "stream_request_head (length body) (lit ''S1'') name @ lit body = lit req"
    by (simp add: request stream_request_head_def session_headers_def assms(2) lit_def)
  then have "utf8 (stream_request_head (length body) (lit ''S1'') name) @ utf8 (lit body) = utf8 (lit req)"
    by (metis utf8_def map_append concat_append)
  then have "lossy_str (utf8 (stream_request_head (length body) (lit ''S1'') name) @ str_bytes body) = req"
    by (simp only: utf8_lit [OF \<open>ascii body\<close>] utf8_lit [OF \<open>ascii req\<close>] lossy_str_ascii [OF \<open>ascii req\<close>])
  then show ?thesis
    by (simp add: stream_request_for_def build_stream_request_def assms(1) unwrap_defs header_block_def Let_def
      cong: option.case_cong)
qed

lemma stream_request_tests:
  assumes "to_writer_binary L = (\<lambda>_. Some (str_bytes ''bplist00''))"
  shows "stream_request_carries_the_configured_device_name L" "a_line_break_in_the_name_cannot_add_a_header L"
proof -
  have "header_safe_device_name (lit nikhils_laptop) = lit nikhils_laptop"
    by (simp add: header_safe_device_name_def nikhils_laptop_def lit_def trim_def is_control_def is_whitespace_def)
  from stream_request_text [OF assms this _ _ refl] show "stream_request_carries_the_configured_device_name L"
    by (simp add: stream_request_carries_the_configured_device_name_def nikhils_laptop_def AIRPLAY_USER_AGENT_def
      string_eval del: not_None_eq)
next
  have "header_safe_device_name (lit (''Laptop'' @ crlf @ ''X-Injected: yes'')) = lit ''LaptopX-Injected: yes''"
    by (simp add: header_safe_device_name_def lit_def trim_def is_control_def is_whitespace_def crlf_def cr_def
      newline_def)
  from stream_request_text [OF assms this _ _ refl] show "a_line_break_in_the_name_cannot_add_a_header L"
    by (simp add: a_line_break_in_the_name_cannot_add_a_header_def AIRPLAY_USER_AGENT_def string_eval del: not_None_eq)
qed

definition negotiation_failure :: "string \<Rightarrow> string list \<Rightarrow> string" where
  "negotiation_failure line headers =
     ''POST /stream failed: '' @ line @ concat (map (\<lambda>h. crlf @ h) headers)"

definition retries_on_statuses_real_receivers_actually_send :: bool where
  "retries_on_statuses_real_receivers_actually_send \<longleftrightarrow>
     wants_authentication (negotiation_failure ''HTTP/1.1 404 Not Found''
       [''Content-Length: 0'', ''Server: AirTunes/950.7.1'']) \<and>
     wants_authentication (negotiation_failure ''HTTP/1.1 470 '' [''Content-Length: 32'']) \<and>
     wants_authentication (negotiation_failure ''HTTP/1.1 401 Unauthorized''
       [''WWW-Authenticate: Digest realm='' @ [CHR 0x22] @ ''airplay'' @ [CHR 0x22]])"

definition still_retries_on_the_original_two :: bool where
  "still_retries_on_the_original_two \<longleftrightarrow>
     wants_authentication (negotiation_failure ''HTTP/1.1 501 Not Implemented'' [''Content-Length: 0'']) \<and>
     wants_authentication (negotiation_failure ''HTTP/1.1 403 Forbidden'' [''Content-Length: 0''])"

definition a_retryable_code_inside_a_header_does_not_trigger_a_retry :: bool where
  "a_retryable_code_inside_a_header_does_not_trigger_a_retry \<longleftrightarrow>
     \<not> wants_authentication (negotiation_failure ''HTTP/1.1 500 Internal Server Error''
       [''Content-Length: 1401'', ''Connection: close'']) \<and>
     \<not> wants_authentication (negotiation_failure ''HTTP/1.1 400 Bad Request'' [''Content-Length: 404'']) \<and>
     \<not> wants_authentication (negotiation_failure ''HTTP/1.1 500 Internal Server Error''
       [''Server: AirTunes/470.8.1'']) \<and>
     \<not> wants_authentication (negotiation_failure ''HTTP/1.1 200 OK''
       [''Date: Mon, 01 Jan 2024 05:01:03 GMT''])"

definition does_not_retry_on_unrelated_failures :: bool where
  "does_not_retry_on_unrelated_failures \<longleftrightarrow>
     \<not> wants_authentication ''Connection refused (os error 61)'' \<and>
     \<not> wants_authentication ''connection closed while reading'' \<and> \<not> wants_authentication []"

definition status_code_reads_only_the_first_line :: bool where
  "status_code_reads_only_the_first_line \<longleftrightarrow>
     status_code (''POST /stream failed: HTTP/1.1 404 Not Found'' @ crlf @ ''Content-Length: 401'') = Some 404 \<and>
     status_code ''HTTP/1.0 501 Not Implemented'' = Some 501 \<and> status_code ''Connection refused'' = None"

lemma session_tests:
  "retries_on_statuses_real_receivers_actually_send" "still_retries_on_the_original_two"
  "a_retryable_code_inside_a_header_does_not_trigger_a_retry" "does_not_retry_on_unrelated_failures"
  "status_code_reads_only_the_first_line"
  by (simp_all add: retries_on_statuses_real_receivers_actually_send_def still_retries_on_the_original_two_def
    a_retryable_code_inside_a_header_does_not_trigger_a_retry_def does_not_retry_on_unrelated_failures_def
    status_code_reads_only_the_first_line_def negotiation_failure_def wants_authentication_def status_code_def
    string_eval)


section \<open>\<open>hap_pairing.rs\<close>\<close>

text \<open>\<open>check_http_status\<close> returns the code of a refused response; the text the test reads is
  \<open>http_status_text\<close> of it. \<open>downcast_ref\<close> asks which error it is.\<close>

definition http_status_accepts_2xx :: bool where
  "http_status_accepts_2xx \<longleftrightarrow>
     is_ok (check_http_status (''HTTP/1.1 200 OK'' @ crlf @ ''Content-Length: 9'' @ crlf)) \<and>
     is_ok (check_http_status (''HTTP/1.1 204 No Content'' @ crlf))"

definition http_status_rejects_403_with_an_actionable_message :: bool where
  "http_status_rejects_403_with_an_actionable_message \<longleftrightarrow>
     unwrap_err (check_http_status (''HTTP/1.1 403 Forbidden'' @ crlf @ ''Content-Length: 0'' @ crlf))
       (\<lambda>err. case err of
          HttpStatus code \<Rightarrow>
            (let msg = http_status_text code
             in contains ''403'' msg \<and> contains ''AirPlay Receiver'' msg \<and> \<not> contains ''TLV'' msg)
        | _ \<Rightarrow> False)"

definition http_status_rejects_other_failures :: bool where
  "http_status_rejects_other_failures \<longleftrightarrow>
     \<not> is_ok (check_http_status (''HTTP/1.1 500 Internal Server Error'' @ crlf)) \<and>
     \<not> is_ok (check_http_status (''HTTP/1.1 470 Connection Authorization Required'' @ crlf))"

definition http_status_defers_when_there_is_no_status_line :: bool where
  "http_status_defers_when_there_is_no_status_line \<longleftrightarrow>
     is_ok (check_http_status (''garbage without a code'' @ crlf))"

definition test_paired_db :: bool where
  "test_paired_db \<longleftrightarrow>
     (let device = \<lparr> device_id = ''test-device-001'', client_pairing_id = ''0f1e2d3c-client'',
            accessory_ltpk = replicate 32 1, client_ltsk = replicate 32 2, client_ltpk = replicate 32 3 \<rparr>;
          conn = store_paired_device device []
      in unwrap_ok (load_paired_device conn ''test-device-001'') (\<lambda>found. unwrap_some found (\<lambda>loaded.
           device_id loaded = ''test-device-001'' \<and> accessory_ltpk loaded = replicate 32 1 \<and>
           client_ltsk loaded = replicate 32 2 \<and> client_pairing_id loaded = ''0f1e2d3c-client'')) \<and>
         list_paired_devices conn = [''test-device-001''])"

definition pairing_nonces_pad_in_front :: bool where
  "pairing_nonces_pad_in_front \<longleftrightarrow>
     pairing_nonce ''PS-Msg05'' = [0, 0, 0, 0] @ str_bytes ''PS-Msg05'' \<and>
     pairing_nonce ''PS-Msg06'' = [0, 0, 0, 0] @ str_bytes ''PS-Msg06'' \<and>
     pairing_nonce ''PV-Msg02'' = [0, 0, 0, 0] @ str_bytes ''PV-Msg02'' \<and>
     pairing_nonce ''PV-Msg03'' = [0, 0, 0, 0] @ str_bytes ''PV-Msg03'' \<and>
     (let n = pairing_nonce ''PS-Msg05''
      in take 4 n = [0, 0, 0, 0] \<and> n \<noteq> str_bytes ''PS-Msg05'' @ [0, 0, 0, 0] \<and> length n = 12)"

definition a_pair_setup_result_keeps_the_two_identifiers_apart :: bool where
  "a_pair_setup_result_keeps_the_two_identifiers_apart \<longleftrightarrow>
     (let paired = paired_from_result \<lparr> r_client_ltsk = replicate 32 2, r_client_ltpk = replicate 32 3,
            r_client_pairing_id = ''ours'', r_accessory_ltpk = replicate 32 1, r_accessory_id = ''theirs'' \<rparr>
      in client_pairing_id paired = ''ours'' \<and> device_id paired = ''theirs'')"

definition verify_m3_sends_the_client_pairing_id :: "pairing_crypto \<Rightarrow> bool" where
  "verify_m3_sends_the_client_pairing_id C \<longleftrightarrow>
     (let ltsk = replicate 32 9; client_epk = replicate 32 0xAA; accessory_epk = replicate 32 0xBB;
          sub_tlv = verify_m3_sub_tlv C ltsk ''client-pairing-id'' client_epk accessory_epk
      in unwrap_ok (tlv_decode sub_tlv) (\<lambda>items.
           unwrap_some (lookup items TAG_IDENTIFIER) (\<lambda>i. i = str_bytes ''client-pairing-id'') \<and>
           unwrap_some (lookup items TAG_SIGNATURE) (\<lambda>sig. length sig = 64 \<and>
             ed_verify C (ed_public C ltsk) (client_epk @ str_bytes ''client-pairing-id'' @ accessory_epk) sig)))"

definition back_off_is_reported_as_a_delay_not_an_auth_failure :: bool where
  "back_off_is_reported_as_a_delay_not_an_auth_failure \<longleftrightarrow>
     unwrap_err (check_error [item_u8 TAG_STATE 4, item_u8 TAG_ERROR ERR_BACKOFF, item TAG_RETRY_DELAY [30]])
       (\<lambda>err. case err of
          HapBackOff retry_after \<Rightarrow>
            (let msg = show_backoff retry_after
             in retry_after = Some 30 \<and> contains ''30'' msg \<and>
                \<not> contains ''authentication failed'' (to_ascii_lowercase msg))
        | _ \<Rightarrow> False)"

definition retry_delay_is_a_little_endian_integer_of_any_width :: bool where
  "retry_delay_is_a_little_endian_integer_of_any_width \<longleftrightarrow>
     retry_delay_secs [item TAG_RETRY_DELAY [30]] = Some 30 \<and>
     retry_delay_secs [item TAG_RETRY_DELAY [0x2C, 0x01]] = Some 300 \<and>
     retry_delay_secs [item TAG_RETRY_DELAY [0x10, 0x0E, 0x00, 0x00]] = Some 3600 \<and>
     retry_delay_secs [] = None \<and> retry_delay_secs [item TAG_RETRY_DELAY []] = None"

definition back_off_without_a_delay_still_says_what_happened :: bool where
  "back_off_without_a_delay_still_says_what_happened \<longleftrightarrow>
     unwrap_err (check_error [item_u8 TAG_ERROR ERR_BACKOFF])
       (\<lambda>err. case err of
          HapBackOff retry_after \<Rightarrow> retry_after = None \<and> contains ''rate-limiting'' (show_backoff retry_after)
        | _ \<Rightarrow> False)"

definition an_empty_or_none_error_tlv_is_success :: bool where
  "an_empty_or_none_error_tlv_is_success \<longleftrightarrow>
     is_ok (check_error [item TAG_ERROR []]) \<and> is_ok (check_error [item_u8 TAG_ERROR ERR_NONE]) \<and>
     is_ok (check_error [item_u8 TAG_STATE 2])"

definition real_error_codes_are_still_errors :: bool where
  "real_error_codes_are_still_errors \<longleftrightarrow>
     unwrap_err (check_error [item_u8 TAG_ERROR ERR_AUTHENTICATION])
       (\<lambda>err. case err of
          HapError code text \<Rightarrow> contains ''Authentication failed'' (hap_error_text code)
        | _ \<Rightarrow> False) \<and>
     \<not> is_ok (check_error [item_u8 TAG_ERROR 0x7F])"

definition transient_flag_matches_pyatv :: bool where
  "transient_flag_matches_pyatv \<longleftrightarrow>
     FLAG_TRANSIENT = 0x10 \<and>
     (let m1 = tlv_encode [item_u8 TAG_STATE 1, item_u8 TAG_METHOD METHOD_PAIR_SETUP,
            item_u8 TAG_FLAGS FLAG_TRANSIENT]
      in drop (length m1 - 3) m1 = [0x13, 0x01, 0x10])"

lemma hap_pairing_tests:
  "http_status_accepts_2xx" "http_status_rejects_403_with_an_actionable_message"
  "http_status_rejects_other_failures" "http_status_defers_when_there_is_no_status_line"
  "test_paired_db" "a_pair_setup_result_keeps_the_two_identifiers_apart"
  "back_off_is_reported_as_a_delay_not_an_auth_failure" "retry_delay_is_a_little_endian_integer_of_any_width"
  "back_off_without_a_delay_still_says_what_happened" "an_empty_or_none_error_tlv_is_success"
  "real_error_codes_are_still_errors"
  by (simp_all add: http_status_accepts_2xx_def http_status_rejects_403_with_an_actionable_message_def
    http_status_rejects_other_failures_def http_status_defers_when_there_is_no_status_line_def
    test_paired_db_def a_pair_setup_result_keeps_the_two_identifiers_apart_def
    back_off_is_reported_as_a_delay_not_an_auth_failure_def retry_delay_is_a_little_endian_integer_of_any_width_def
    back_off_without_a_delay_still_says_what_happened_def an_empty_or_none_error_tlv_is_success_def
    real_error_codes_are_still_errors_def from_le_zeros
    check_http_status_def status_word_def http_status_text_def http_status_hint_def
    store_paired_device_def load_paired_device_def list_paired_devices_def row_of_def
    paired_from_result_def check_error_def retry_delay_secs_def show_backoff_def hap_error_text_def error_text_def
    lookup_def item_defs tag_defs ERR_NONE_def ERR_BACKOFF_def ERR_AUTHENTICATION_def ERR_UNKNOWN_def string_eval del: not_None_eq)

lemma pairing_wire_tests: "pairing_nonces_pad_in_front" "transient_flag_matches_pyatv"
  by code_simp+

lemma verify_m3_test: "lawful C \<Longrightarrow> verify_m3_sends_the_client_pairing_id C"
  by (simp add: verify_m3_sends_the_client_pairing_id_def verify_m3_sub_tlv_def Let_def unwrap_ok_def
    unwrap_some_def tlv.decode_encode item_defs tag_defs lookup_def lawful_keys)


section \<open>\<open>srp.rs\<close>, \<open>fairplay.rs\<close>\<close>

definition srp_group_is_3072_bits :: bool where
  "srp_group_is_3072_bits \<longleftrightarrow> length SRP_N_HEX = 768 \<and> 2 ^ 3071 \<le> group_n \<and> group_n < 2 ^ 3072"

lemma digits_value_bound:
  "digits_value 16 acc s = Some v \<Longrightarrow> acc * 16 ^ length s \<le> v \<and> v < (acc + 1) * 16 ^ length s"
proof (induction s arbitrary: acc)
  case (Cons c s)
  then obtain d where d: "digit_value 16 c = Some d" "digits_value 16 (acc * 16 + d) s = Some v"
    by (auto split: option.splits)
  then have "d < 16" by (auto simp: digit_value_def Let_def split: option.splits if_splits)
  then have "acc * 16 * 16 ^ length s \<le> (acc * 16 + d) * 16 ^ length s"
    "(acc * 16 + d + 1) * 16 ^ length s \<le> (acc + 1) * 16 * 16 ^ length s"
    by (intro mult_le_mono1; simp)+
  moreover have "(acc * 16 + d) * 16 ^ length s \<le> v" "v < (acc * 16 + d + 1) * 16 ^ length s"
    using Cons.IH [OF d(2)] by auto
  ultimately have "acc * 16 * 16 ^ length s \<le> v" "v < (acc + 1) * 16 * 16 ^ length s"
    by (blast intro: order_trans less_le_trans)+
  then show ?case by (simp only: mult.assoc power_Suc list.size add_0_right add_Suc_right add_0)
qed simp

lemma srp_group_test: "srp_group_is_3072_bits"
proof -
  obtain s where s: "SRP_N_HEX = CHR ''F'' # s" by (simp add: SRP_N_HEX_def)
  have len: "length SRP_N_HEX = 768" by (simp add: SRP_N_HEX_def)
  have hex: "list_all hex_upper s" using SRP_N_HEX_digits by (simp add: s)
  obtain v where v: "digits_value 16 15 s = Some v" using digits_value_hex [OF hex, of 15] by auto
  have "group_n = v" using v by (simp add: group_n_def s digit_value_def)
  moreover have "length s = 767" using arg_cong [OF s, of length] by (simp add: len)
  then have "15 * 16 ^ 767 \<le> v \<and> v < 16 * 16 ^ 767"
    using digits_value_bound [OF v] by simp
  moreover have "(2 :: nat) ^ 3071 \<le> 15 * 16 ^ 767" "(16 :: nat) * 16 ^ 767 = 2 ^ 3072"
    by simp_all
  ultimately show ?thesis using len unfolding srp_group_is_3072_bits_def by (metis order_trans)
qed

text \<open>The server of the tests is written from RFC 5054 in the test module itself.\<close>

record ref_server =
  ref_n :: nat
  ref_g :: nat
  ref_salt :: bytes
  ref_v :: nat
  ref_b :: nat
  ref_big_b :: nat

definition ref_server_new :: "hash \<Rightarrow> bytes \<Rightarrow> bytes \<Rightarrow> bytes \<Rightarrow> nat \<Rightarrow> ref_server" where
  "ref_server_new H username password salt b =
     (let n = group_n; g = SRP_G;
          inner = H (username @ [0x3A] @ password);
          x = from_be (H (salt @ inner));
          v = modpow g x n;
          k = from_be (H (to_bytes_be n @ pad_to_n g n));
          big_b = (k * v + modpow g b n) mod n
      in \<lparr> ref_n = n, ref_g = g, ref_salt = salt, ref_v = v, ref_b = b, ref_big_b = big_b \<rparr>)"

definition ref_server_finish :: "hash \<Rightarrow> ref_server \<Rightarrow> bytes \<Rightarrow> bytes \<Rightarrow> bytes \<times> bytes" where
  "ref_server_finish H r username a_padded =
     (let big_a = from_be a_padded;
          b_padded = pad_to_n (ref_big_b r) (ref_n r);
          u = from_be (H (a_padded @ b_padded));
          s = modpow (big_a * modpow (ref_v r) u (ref_n r) mod ref_n r) (ref_b r) (ref_n r);
          key = H (pad_to_n s (ref_n r));
          hash_n = H (to_bytes_be (ref_n r)); hash_g = H (to_bytes_be (ref_g r));
          m1 = H (map2 (XOR) hash_n hash_g @ H username @ ref_salt r @ a_padded @ b_padded @ key);
          m2 = H (a_padded @ m1 @ key)
      in (m1, m2))"

definition client_and_reference_server_agree :: "hash \<Rightarrow> bool" where
  "client_and_reference_server_agree H \<longleftrightarrow>
     (let username = str_bytes ''Pair-Setup''; password = str_bytes ''3939''; salt = replicate 16 0x11;
          b = from_be (replicate 32 0x42);
          server = ref_server_new H username password salt b;
          server_b = pad_to_n (ref_big_b server) group_n;
          a = from_be (replicate 32 0x37)
      in case client_compute H username password salt server_b a of
           Inl _ \<Rightarrow> False
         | Inr client \<Rightarrow>
             (case ref_server_finish H server username (public_a client) of
                (server_m1, server_m2) \<Rightarrow> m1 client = server_m1 \<and> expected_m2 client = server_m2))"

definition public_a_is_padded_to_the_group_length :: "hash \<Rightarrow> bool" where
  "public_a_is_padded_to_the_group_length H \<longleftrightarrow>
     (let a = from_be (replicate 32 0x37);
          server = ref_server_new H (str_bytes ''Pair-Setup'') (str_bytes ''3939'') (replicate 16 0) 3;
          server_b = pad_to_n (ref_big_b server) group_n
      in case client_compute H (str_bytes ''Pair-Setup'') (str_bytes ''3939'') (replicate 16 0) server_b a of
           Inl _ \<Rightarrow> False
         | Inr client \<Rightarrow> length (public_a client) = 384)"

lemma ref_server_is_rfc:
  fixes H username password salt b
  defines "server \<equiv> ref_server_new H username password salt b"
  shows "ref_big_b server = server_public_key H (verifier H username password salt) b"
    and "ref_server_finish H server username a_padded =
      (let B = pad_to_n (server_public_key H (verifier H username password salt) b) group_n;
           key = server_key H (verifier H username password salt) b a_padded;
           proof = srp_m1 H username salt a_padded B key
       in (proof, srp_m2 H a_padded proof key))"
  by (simp_all add: server_def ref_server_new_def ref_server_finish_def Let_def server_public_key_def verifier_def
    srp_x_def srp_k_def server_key_def server_secret_def srp_u_def srp_m1_def srp_m2_def)
    (simp_all add: modpow_def power_mod)

text \<open>Both tests hold for every hash with which the client does not abort: nothing else can fail.\<close>

lemma srp_agreement_test:
  "client_and_reference_server_agree H \<longleftrightarrow>
     (\<exists>c. client_compute H (str_bytes ''Pair-Setup'') (str_bytes ''3939'') (replicate 16 0x11)
       (pad_to_n (server_public_key H (verifier H (str_bytes ''Pair-Setup'') (str_bytes ''3939'') (replicate 16 0x11))
          (from_be (replicate 32 0x42))) group_n) (from_be (replicate 32 0x37)) = Inr c)"
  unfolding client_and_reference_server_agree_def Let_def ref_server_is_rfc
  by (auto split: sum.splits dest: srp_agree(2,3))

lemma length_be_digits: "n < 256 ^ Suc k \<Longrightarrow> length (be_digits n) \<le> Suc k"
proof (induction k arbitrary: n)
  case 0
  then show ?case by (subst be_digits.simps) simp
next
  case (Suc k)
  have "n div 256 < 256 ^ Suc k" using Suc.prems by (simp add: less_mult_imp_div_less mult.commute)
  then show ?case using Suc.IH [of "n div 256"] by (subst be_digits.simps) simp
qed

lemma length_be_digits_lower: "256 ^ k \<le> n \<Longrightarrow> Suc k \<le> length (be_digits n)"
proof (induction k arbitrary: n)
  case 0
  then show ?case by (subst be_digits.simps) simp
next
  case (Suc k)
  have "256 ^ k \<le> n div 256" using Suc.prems div_le_mono [of "256 ^ Suc k" n 256] by simp
  moreover have "\<not> n < 256" using Suc.prems order_trans [of 256 "256 * 256 ^ k" n] by simp
  ultimately show ?case using Suc.IH [of "n div 256"] by (subst be_digits.simps) simp
qed

lemma length_pad:
  assumes "256 ^ k \<le> n" and "n < 256 ^ Suc k" and "v < n"
  shows "length (pad_to_n v n) = Suc k"
proof -
  have "length (to_bytes_be n) = Suc k" "length (to_bytes_be v) \<le> Suc k"
    using assms length_be_digits [of n k] length_be_digits_lower [of k n] length_be_digits [of v k] order_less_trans [OF assms(3,2)]
    by (simp_all add: to_bytes_be_def)
  then show ?thesis by (auto simp: pad_to_n_def Let_def)
qed

lemma public_a_test:
  "public_a_is_padded_to_the_group_length H \<longleftrightarrow>
     (\<exists>c. client_compute H (str_bytes ''Pair-Setup'') (str_bytes ''3939'') (replicate 16 0)
       (pad_to_n (server_public_key H (verifier H (str_bytes ''Pair-Setup'') (str_bytes ''3939'') (replicate 16 0)) 3) group_n)
       (from_be (replicate 32 0x37)) = Inr c)"
proof -
  have "256 ^ 383 \<le> group_n" "group_n < 256 ^ Suc 383"
    using srp_group_test [unfolded srp_group_is_3072_bits_def]
    by - (rule order_trans [of _ "2 ^ 3071"], simp, simp, rule less_le_trans [of _ "2 ^ 3072"], simp, simp)
  then have len: "length (pad_to_n (modpow SRP_G a group_n) group_n) = 384" for a
    using length_pad [of 383 group_n "modpow SRP_G a group_n"] group_n_large by (simp add: modpow_def)
  have "client_compute H u p s B a = Inr c \<Longrightarrow> length (public_a c) = 384" for u p s B a c
    by (auto simp: client_compute_def Let_def len split: if_splits)
  then show ?thesis
    unfolding public_a_is_padded_to_the_group_length_def Let_def ref_server_is_rfc by (auto split: sum.splits)
qed


definition rejects_b_congruent_to_zero :: "hash \<Rightarrow> bool" where
  "rejects_b_congruent_to_zero H \<longleftrightarrow>
     client_compute H (str_bytes ''Pair-Setup'') (str_bytes ''3939'') (replicate 16 0)
       (pad_to_n group_n group_n) (from_be (replicate 32 0x37)) = Inl BZero"

lemma rejects_b_test: "rejects_b_congruent_to_zero H"
  by (simp add: rejects_b_congruent_to_zero_def client_compute_def Let_def from_be_pad is_zero_iff)

text \<open>\<open>String::from_utf8\<close> succeeds on the bytes that lossy decoding leaves alone.\<close>

definition test_fairplay_seed_is_ascii :: bool where
  "test_fairplay_seed_is_ascii \<longleftrightarrow>
     utf8_lossy FAIRPLAY_SEED = FAIRPLAY_SEED \<and> bytes_str FAIRPLAY_SEED = ''AirPlay-FairPlay-Setup-Key-Seed1''"

lemma fairplay_seed_test: "test_fairplay_seed_is_ascii"
  unfolding test_fairplay_seed_is_ascii_def by (rule conjI; code_simp)

definition test_build_setup_message :: bool where
  "test_build_setup_message \<longleftrightarrow>
     (let msg = build_setup_message
      in take 4 msg = str_bytes ''FPLY'' \<and> msg ! 4 = FP_VERSION \<and> msg ! 6 = 0x01 \<and> length msg = 16)"

definition test_fairplay_cipher_roundtrip :: "(bytes \<Rightarrow> bytes \<Rightarrow> nat \<Rightarrow> u8) \<Rightarrow> bool" where
  "test_fairplay_cipher_roundtrip keystream \<longleftrightarrow>
     (let keys = \<lparr> aes_key = replicate 16 0x42, aes_iv = replicate 16 0x13 \<rparr>;
          original = str_bytes ''Hello, FairPlay!'';
          (data, _) = cipher_encrypt keystream original (cipher_new keys);
          (plain, _) = cipher_decrypt keystream data (cipher_new keys)
      in data \<noteq> original \<and> plain = original)"

definition test_process_challenge_short :: "(bytes \<Rightarrow> bytes) \<Rightarrow> bool" where
  "test_process_challenge_short H \<longleftrightarrow>
     (let challenge = [0x46, 0x50, 0x4C, 0x59, 0x03, 0x01, 0x02, 0x00, 0x01, 0x02, 0x03, 0x04, 0x05, 0x06, 0x07, 0x08];
          (response, key, iv) = process_challenge_short H challenge
      in take 4 response = str_bytes ''FPLY'' \<and> response ! 6 = FP_TYPE_RESPONSE \<and> length key = 16 \<and> length iv = 16)"

lemma fairplay_setup_test: "test_build_setup_message"
  by code_simp

lemma keystream_twice:
  "fst (apply_keystream ks (fst (apply_keystream ks data c)) c) = data"
  by (simp add: apply_keystream_def list_eq_iff_nth_eq nth_enumerate_eq xor.assoc)

lemma fairplay_cipher_test:
  assumes "keystream (replicate 16 0x42) (replicate 16 0x13) 0 \<noteq> 0"
  shows "test_fairplay_cipher_roundtrip keystream"
proof -
  let ?c = "cipher_new \<lparr> aes_key = replicate 16 0x42, aes_iv = replicate 16 0x13 \<rparr>"
  let ?d = "str_bytes ''Hello, FairPlay!''"
  have "k = 0" if "72 XOR k = 72" for k :: u8
    using that xor.assoc [of 72 72 k] by simp
  then have "hd (fst (apply_keystream keystream ?d ?c)) \<noteq> hd ?d"
    using assms by (auto simp: apply_keystream_def cipher_new_def str_bytes_def)
  then have "fst (apply_keystream keystream ?d ?c) \<noteq> ?d" by metis
  then show ?thesis
    using keystream_twice [of keystream ?d ?c]
    by (simp add: test_fairplay_cipher_roundtrip_def cipher_encrypt_def cipher_decrypt_def Let_def case_prod_beta)
qed

lemma fairplay_challenge_test:
  assumes "\<And>x. length (H x) = 64"
  shows "test_process_challenge_short H"
  using assms
  by (simp add: test_process_challenge_short_def process_challenge_short_def Let_def fply_def str_bytes_def)

end
