(* ===== verification/Tests_Core.thy ===== *)
theory Tests_Core
  imports Protocol_State Sender_App Openplay_Cast Airplay_Cast Tests_Airplay
begin

text \<open>
  The unit tests of the other crates that need neither files nor a network, one definition for each test
  function, evaluated on the model: the two protocol state machines, the order of addresses, the two TXT
  records, the encoder names, the names a sender announces and the ports a user types. The addresses of
  the tests are given as numbers; \<open>test_address_texts\<close> shows that they print as the tests spell them.
\<close>

section \<open>\<open>openplay-protocol/state.rs\<close>\<close>

text \<open>The states after each \<open>transition(..).unwrap()\<close>.\<close>

fun sender_path :: "sender_machine \<Rightarrow> sender_event list \<Rightarrow> sender_state list option" where
  "sender_path m [] = Some []"
| "sender_path m (e # es) =
     (case sender_transition m e of
        (m', Inr _) \<Rightarrow> map_option ((#) (sm_state m')) (sender_path m' es)
      | (_, Inl _) \<Rightarrow> None)"

fun receiver_path :: "receiver_machine \<Rightarrow> receiver_event list \<Rightarrow> receiver_state list option" where
  "receiver_path m [] = Some []"
| "receiver_path m (e # es) =
     (case receiver_transition m e of
        (m', Inr _) \<Rightarrow> map_option ((#) (rm_state m')) (receiver_path m' es)
      | (_, Inl _) \<Rightarrow> None)"

definition test_sender_happy_path :: bool where
  "test_sender_happy_path \<longleftrightarrow>
     sm_state sender_machine_new = SIdle \<and>
     sender_path sender_machine_new
       [StartDiscovery, ReceiverSelected, SConnected, SAuthenticated, SStreamStarted, SDisconnect, SDisconnected] =
     Some [SDiscovering, SConnecting, SAuthenticating, SSignaling, SStreaming, SDisconnecting, SIdle]"

definition test_sender_pairing_path :: bool where
  "test_sender_pairing_path \<longleftrightarrow>
     (case sender_path sender_machine_new [StartDiscovery, ReceiverSelected, SNeedsPairing, SPairingComplete] of
        Some states \<Rightarrow> states ! 2 = SPairing \<and> states ! 3 = SAuthenticating
      | None \<Rightarrow> False)"

definition test_sender_invalid_transition :: bool where
  "test_sender_invalid_transition \<longleftrightarrow> sender_path sender_machine_new [SStreamStarted] = None"

definition test_receiver_happy_path :: bool where
  "test_receiver_happy_path \<longleftrightarrow>
     rm_state receiver_machine_new = RIdle \<and>
     receiver_path receiver_machine_new
       [StartAdvertising, IncomingConnection, AlreadyPaired, RAuthenticated, RStreamStarted, RDisconnect, RDisconnected] =
     Some [RAdvertising, RPendingConnection, RAuthenticating, RSignaling, RReceiving, RDisconnecting, RAdvertising]"

definition test_receiver_pairing_path :: bool where
  "test_receiver_pairing_path \<longleftrightarrow>
     (case receiver_path receiver_machine_new [StartAdvertising, IncomingConnection, RNeedsPairing, RPairingComplete] of
        Some states \<Rightarrow> states ! 2 = RPairing \<and> states ! 3 = RAuthenticating
      | None \<Rightarrow> False)"

definition test_receiver_connection_lost :: bool where
  "test_receiver_connection_lost \<longleftrightarrow>
     (case receiver_path receiver_machine_new
        [StartAdvertising, IncomingConnection, AlreadyPaired, RAuthenticated, RStreamStarted, RConnectionLost, RDisconnected] of
        Some states \<Rightarrow> states ! 5 = RDisconnecting \<and> states ! 6 = RAdvertising
      | None \<Rightarrow> False)"

definition test_receiver_invalid_transition :: bool where
  "test_receiver_invalid_transition \<longleftrightarrow> receiver_path receiver_machine_new [RStreamStarted] = None"

lemma sender_state_tests: "test_sender_happy_path" "test_sender_pairing_path" "test_sender_invalid_transition"
  by code_simp+

lemma receiver_state_tests: "test_receiver_happy_path" "test_receiver_pairing_path" "test_receiver_connection_lost"
  "test_receiver_invalid_transition"
  by code_simp+


section \<open>\<open>openplay-discovery\<close>\<close>

definition LAN :: ip_addr where "LAN = V4 0xC0A80061"
definition LAN_10 :: ip_addr where "LAN_10 = V4 0xC0A8010A"
definition BRIDGE_17 :: ip_addr where "BRIDGE_17 = V4 0xAC110001"
definition BRIDGE_18 :: ip_addr where "BRIDGE_18 = V4 0xAC120001"
definition LOOP4 :: ip_addr where "LOOP4 = V4 0x7F000001"
definition LINK4 :: ip_addr where "LINK4 = V4 0xA9FE0101"
definition LOOP6 :: ip_addr where "LOOP6 = V6 1"
definition LINK6 :: ip_addr where "LINK6 = V6 0xFE800000000000000000000000000001"
definition LINK6_LONG :: ip_addr where "LINK6_LONG = V6 0xFE800000000000001427C2C8A235A115"
definition GLOBAL6 :: ip_addr where "GLOBAL6 = V6 0x20010DB8000000000000000000000001"

lemmas address_defs = LAN_def LAN_10_def BRIDGE_17_def BRIDGE_18_def LOOP4_def LINK4_def LOOP6_def LINK6_def
  LINK6_LONG_def GLOBAL6_def

lemma address_segments:
  "map (\<lambda>i. v6_segment i 1) [0..<8] = [0, 0, 0, 0, 0, 0, 0, 1]"
  "map (\<lambda>i. v6_segment i 0xFE800000000000000000000000000001) [0..<8] = [0xfe80, 0, 0, 0, 0, 0, 0, 1]"
  "map (\<lambda>i. v6_segment i 0xFE800000000000001427C2C8A235A115) [0..<8] = [0xfe80, 0, 0, 0, 0x1427, 0xc2c8, 0xa235, 0xa115]"
  "map (\<lambda>i. v6_segment i 0x20010DB8000000000000000000000001) [0..<8] = [0x2001, 0xdb8, 0, 0, 0, 0, 0, 1]"
  by code_simp+

lemma address_octets:
  "map (\<lambda>i. v4_octet i 0xC0A80061) [0..<4] = [192, 168, 0, 97]" "map (\<lambda>i. v4_octet i 0xC0A8010A) [0..<4] = [192, 168, 1, 10]"
  "map (\<lambda>i. v4_octet i 0xAC110001) [0..<4] = [172, 17, 0, 1]" "map (\<lambda>i. v4_octet i 0xAC120001) [0..<4] = [172, 18, 0, 1]"
  "map (\<lambda>i. v4_octet i 0x7F000001) [0..<4] = [127, 0, 0, 1]" "map (\<lambda>i. v4_octet i 0xA9FE0101) [0..<4] = [169, 254, 1, 1]"
  "map (\<lambda>i. v4_octet i 0xC0A80069) [0..<4] = [192, 168, 0, 105]"
  by code_simp+

lemma show_v4_octets:
  "show_v4 a = join_with (CHR ''.'') (map (\<lambda>b. show_radix 10 (unat b)) (map (\<lambda>i. v4_octet i a) [0..<4]))"
  by (simp add: show_v4_def comp_def)

lemmas show_address = show_ip_def show_v4_octets show_v6_def address_segments address_octets show_segments_def
  show_radix.simps digit_char_def char_of_def bit_0

lemma test_address_texts:
  "map show_ip [LAN, LAN_10, BRIDGE_17, BRIDGE_18, LOOP4, LINK4] =
     [''192.168.0.97'', ''192.168.1.10'', ''172.17.0.1'', ''172.18.0.1'', ''127.0.0.1'', ''169.254.1.1'']"
  "map show_ip [LOOP6, LINK6, LINK6_LONG, GLOBAL6] = [''::1'', ''fe80::1'', ''fe80::1427:c2c8:a235:a115'', ''2001:db8::1'']"
  by (simp_all add: address_defs show_address)

definition routable_ipv4_wins :: bool where
  "routable_ipv4_wins \<longleftrightarrow> sort_by_connectability [LINK6, LOOP6, LINK6_LONG, LOOP4, LAN] ! 0 = LAN"

definition link_local_ranks_below_loopback :: bool where
  "link_local_ranks_below_loopback \<longleftrightarrow> sort_by_connectability [LINK6, LOOP4] = [LOOP4, LINK6]"

definition routable_ipv6_beats_loopback_and_link_local :: bool where
  "routable_ipv6_beats_loopback_and_link_local \<longleftrightarrow> sort_by_connectability [LINK6, LOOP6, GLOBAL6] ! 0 = GLOBAL6"

definition ipv4_preferred_over_routable_ipv6 :: bool where
  "ipv4_preferred_over_routable_ipv6 \<longleftrightarrow> sort_by_connectability [GLOBAL6, LAN] ! 0 = LAN"

definition ipv4_link_local_is_demoted_too :: bool where
  "ipv4_link_local_is_demoted_too \<longleftrightarrow> sort_by_connectability [LINK4, LAN] = [LAN, LINK4]"

definition ordering_is_stable_whatever_the_hashset_yielded :: bool where
  "ordering_is_stable_whatever_the_hashset_yielded \<longleftrightarrow>
     (let base = [LINK6, LOOP6, LOOP4, LAN]
      in list_all (\<lambda>r. sort_by_connectability (rotate r base) = sort_by_connectability base) [0..<length base])"

definition empty_and_single_are_fine :: bool where
  "empty_and_single_are_fine \<longleftrightarrow> sort_by_connectability [] = [] \<and> sort_by_connectability [LINK6] = [LINK6]"

definition bridge_addresses_still_sort_ahead_of_the_real_lan_address :: bool where
  "bridge_addresses_still_sort_ahead_of_the_real_lan_address \<longleftrightarrow>
     (let a = sort_by_connectability [LAN_10, BRIDGE_17, BRIDGE_18]
      in a = [BRIDGE_17, BRIDGE_18, LAN_10] \<and> a ! 0 \<noteq> LAN_10)"

lemma address_tests: "routable_ipv4_wins" "link_local_ranks_below_loopback" "routable_ipv6_beats_loopback_and_link_local"
  "ipv4_preferred_over_routable_ipv6" "ipv4_link_local_is_demoted_too" "empty_and_single_are_fine"
  "ordering_is_stable_whatever_the_hashset_yielded" "bridge_addresses_still_sort_ahead_of_the_real_lan_address"
  by code_simp+

definition test_parse_airplay_txt_record :: bool where
  "test_parse_airplay_txt_record \<longleftrightarrow>
     unwrap_some (airplay_from_properties
         [(''deviceid'', ''AA:BB:CC:DD:EE:FF''), (''features'', ''0x5A7FFFF7,0x1E''), (''model'', ''AppleTV5,3''),
          (''pk'', ''abcdef0123456789''), (''flags'', ''0x4''), (''srcvers'', ''220.68''), (''protovers'', ''1.1'')])
       (\<lambda>r. ap_device_id r = ''AA:BB:CC:DD:EE:FF'' \<and> ap_features r = ''0x5A7FFFF7,0x1E'' \<and> ap_model r = ''AppleTV5,3'')"

definition test_parse_minimal_txt_record :: bool where
  "test_parse_minimal_txt_record \<longleftrightarrow>
     unwrap_some (airplay_from_properties [(''deviceid'', ''11:22:33:44:55:66'')])
       (\<lambda>r. ap_device_id r = ''11:22:33:44:55:66'' \<and> ap_features r = [])"

definition test_parse_missing_deviceid :: bool where
  "test_parse_missing_deviceid \<longleftrightarrow> airplay_from_properties [(''features'', ''0x5A7FFFF7'')] = None"

definition test_txt_record_roundtrip :: bool where
  "test_txt_record_roundtrip \<longleftrightarrow>
     (let record = \<lparr> txt_version = 1, txt_display_name = ''Living Room TV'', txt_capabilities = ''audio,cursor'',
            txt_video_codecs = ''h264'', txt_audio_codecs = ''opus'', txt_resolution = ''3840x2160'', txt_max_fps = 60,
            txt_fingerprint = ''A3:B2:C1'', txt_port = 7290 \<rparr>
      in unwrap_some (from_properties (to_properties record))
           (\<lambda>parsed. txt_version parsed = 1 \<and> txt_display_name parsed = ''Living Room TV'' \<and>
              txt_capabilities parsed = ''audio,cursor'' \<and> txt_resolution parsed = ''3840x2160'' \<and>
              txt_max_fps parsed = 60 \<and> txt_fingerprint parsed = ''A3:B2:C1'' \<and> txt_port parsed = 7290))"

lemma airplay_record_tests: "test_parse_airplay_txt_record" "test_parse_minimal_txt_record" "test_parse_missing_deviceid"
  by (simp_all add: test_parse_airplay_txt_record_def test_parse_minimal_txt_record_def test_parse_missing_deviceid_def
    airplay_from_properties_def get_or_def unwrap_some_def)

lemma txt_record_test: "test_txt_record_roundtrip"
  by (simp add: test_txt_record_roundtrip_def txt_record_roundtrip unwrap_some_def)


section \<open>\<open>openplay-pipeline/encoder.rs\<close>\<close>

definition test_encoder_type_properties :: bool where
  "test_encoder_type_properties \<longleftrightarrow>
     map factory_name [VaH264, VaH264Lp, VaapiH264, NvH264, VtH264, MfH264, X264] =
       [''vah264enc'', ''vah264lpenc'', ''vaapih264enc'', ''nvh264enc'', ''vtenc_h264'', ''mfh264enc'', ''x264enc''] \<and>
     list_all is_hardware [VaH264, VaH264Lp, VaapiH264, NvH264, VtH264, MfH264] \<and> \<not> is_hardware X264"

lemma encoder_test: "test_encoder_type_properties"
  by (simp add: test_encoder_type_properties_def is_hardware_def)


section \<open>\<open>openplay-sender\<close>\<close>

definition test_find_nalu_starts :: bool where
  "test_find_nalu_starts \<longleftrightarrow>
     find_nalu_starts [0x00, 0x00, 0x00, 0x01, 0x67, 0x42, 0x00, 0x1e, 0x00, 0x00, 0x00, 0x01, 0x68, 0xce, 0x38, 0x80] = [0, 8]"

definition test_stop_handle :: bool where
  "test_stop_handle \<longleftrightarrow> (let h = stop_handle_new in \<not> stop_flag h \<and> stop_flag (handle_stop h))"

definition a_configured_name_is_passed_through_unchanged :: bool where
  "a_configured_name_is_passed_through_unchanged \<longleftrightarrow>
     (let name = lit (''Sandeepa'' @ [CHR 0x27] @ ''s Laptop'') in sanitise_display_name name = name)"

definition an_empty_or_blank_name_falls_back_rather_than_being_rejected :: bool where
  "an_empty_or_blank_name_falls_back_rather_than_being_rejected \<longleftrightarrow>
     sanitise_display_name [] = lit ''OpenPlay Sender'' \<and> sanitise_display_name (lit ''   '') = lit ''OpenPlay Sender''"

definition control_characters_are_stripped_so_the_receiver_does_not_reject_us :: bool where
  "control_characters_are_stripped_so_the_receiver_does_not_reject_us \<longleftrightarrow>
     sanitise_display_name (lit (''Laptop'' @ [newline] @ ''WARN forged'')) = lit ''LaptopWARN forged''"

definition an_over_long_name_is_trimmed_to_the_protocol_bound :: bool where
  "an_over_long_name_is_trimmed_to_the_protocol_bound \<longleftrightarrow>
     length (sanitise_display_name (replicate (MAX_NAME_CHARS + 50) (0x6E))) = MAX_NAME_CHARS"

lemma casting_tests: "test_find_nalu_starts" "test_stop_handle"
  by code_simp+

lemma display_name_tests: "a_configured_name_is_passed_through_unchanged"
  "an_empty_or_blank_name_falls_back_rather_than_being_rejected"
  "control_characters_are_stripped_so_the_receiver_does_not_reject_us"
  by (simp_all add: a_configured_name_is_passed_through_unchanged_def
    an_empty_or_blank_name_falls_back_rather_than_being_rejected_def
    control_characters_are_stripped_so_the_receiver_does_not_reject_us_def sanitise_display_name_def lit_def
    is_control_def trim_empty_iff is_whitespace_def MAX_NAME_CHARS_def newline_def)

lemma long_name_test: "an_over_long_name_is_trimmed_to_the_protocol_bound"
proof -
  have "\<not> is_control 0x6E" "\<not> is_whitespace 0x6E" by (simp_all add: is_control_def is_whitespace_def)
  then have "sanitise_display_name (replicate (MAX_NAME_CHARS + 50) 0x6E) = replicate MAX_NAME_CHARS 0x6E"
    using trim_empty_iff [of "replicate MAX_NAME_CHARS 0x6E"] MAX_NAME_CHARS_def
    by (auto simp: sanitise_display_name_def filter_replicate take_replicate)
  then show ?thesis by (simp only: an_over_long_name_is_trimmed_to_the_protocol_bound_def length_replicate)
qed

definition parses_ordinary_ports :: bool where
  "parses_ordinary_ports \<longleftrightarrow> parse_port ''7000'' = Some 7000 \<and> parse_port ''7236'' = Some 7236 \<and>
     parse_port ''1'' = Some 1 \<and> parse_port ''65535'' = Some 65535"

definition tolerates_surrounding_whitespace :: bool where
  "tolerates_surrounding_whitespace \<longleftrightarrow>
     parse_port ''  7000 '' = Some 7000 \<and> parse_port ([CHR 0x09] @ ''7236'' @ [newline]) = Some 7236"

definition rejects_what_unwrap_or_used_to_swallow :: bool where
  "rejects_what_unwrap_or_used_to_swallow \<longleftrightarrow>
     list_all (\<lambda>s. parse_port s = None) [''70000'', ''abc'', [], ''   '', ''-1'', ''70.00'']"

definition rejects_port_zero :: bool where
  "rejects_port_zero \<longleftrightarrow> parse_port ''0'' = None"

definition a_custom_miracast_port_survives_into_the_socket_address :: bool where
  "a_custom_miracast_port_survives_into_the_socket_address \<longleftrightarrow>
     unwrap_some (receiver_addr (Miracast \<lparr> mr_display_name = ''linux box'', mr_mode = Infrastructure (V4 0xC0A80069) 7290 \<rparr>))
       (\<lambda>addr. snd addr = 7290 \<and> show_socket_addr addr = ''192.168.0.105:7290'')"

definition defaults_are_the_documented_protocol_ports :: bool where
  "defaults_are_the_documented_protocol_ports \<longleftrightarrow>
     DEFAULT_AIRPLAY_PORT = 7000 \<and> DEFAULT_MIRACAST_PORT = 7236 \<and>
     parse_port (show_dec DEFAULT_AIRPLAY_PORT) = Some 7000 \<and> parse_port (show_dec DEFAULT_MIRACAST_PORT) = Some 7236"

lemma port_tests: "parses_ordinary_ports" "tolerates_surrounding_whitespace" "rejects_what_unwrap_or_used_to_swallow"
  "rejects_port_zero" "defaults_are_the_documented_protocol_ports"
  by (simp_all add: parses_ordinary_ports_def tolerates_surrounding_whitespace_def
    rejects_what_unwrap_or_used_to_swallow_def rejects_port_zero_def defaults_are_the_documented_protocol_ports_def
    DEFAULT_AIRPLAY_PORT_def DEFAULT_MIRACAST_PORT_def parse_port_def parse_u16_def show_dec_def string_eval)

lemma custom_port_test: "a_custom_miracast_port_survives_into_the_socket_address"
  by (simp add: a_custom_miracast_port_survives_into_the_socket_address_def unwrap_some_def show_socket_addr_def show_dec_def
    show_address)

end
