(* ===== verification/Tests_Receiver.thy ===== *)
theory Tests_Receiver
  imports Tests_Core Receiver_Start
begin

text \<open>
  The unit tests of the receiver's session loop, of its certificate files, of the pinned verifier and of
  the sender's way to a receiver, one definition for each test function, evaluated on the model. The
  certificate crates are a parameter; a test that needs them to work is shown to hold whenever they do
  (\<open>crates_ok\<close>), for every umask. The test handles of the loop have room for 8 messages instead of 32,
  of which no test queues more than one.
\<close>

section \<open>\<open>openplay-receiver/net.rs\<close>\<close>

definition loop_under_test :: "ustr option \<Rightarrow> session_loop" where
  "loop_under_test host = session_loop_new (default_config host) True"

definition request_of :: "string \<Rightarrow> signaling_message" where
  "request_of name = SessionRequest [] (lit name) PROTOCOL_VERSION default_capabilities"

definition incoming_of :: "signaling_message \<Rightarrow> connection_id \<Rightarrow> incoming_message" where
  "incoming_of message connection =
     \<lparr> im_message = message, im_connection = connection, im_peer = (V4 0xC0000201, 5000) \<rparr>"

text \<open>A request never builds a pipeline or answers a ping, so neither environment nor clock matters.\<close>

definition asks :: "string \<Rightarrow> connection_id \<Rightarrow> offer_env \<Rightarrow> u64 \<Rightarrow> session_loop \<Rightarrow> session_loop" where
  "asks name c env clock s = handle_message (incoming_of (request_of name) c) env clock s"

definition a_second_sender_cannot_replace_the_prompt_on_screen :: "ustr option \<Rightarrow> offer_env \<Rightarrow> u64 \<Rightarrow> bool" where
  "a_second_sender_cannot_replace_the_prompt_on_screen host env clock \<longleftrightarrow>
     (let session = asks ''Mallory'' 2 env clock (asks ''Alice'' 1 env clock (loop_under_test host))
      in status session = PendingConsent (lit ''Alice'') 1 \<and>
         snd (channel_recv (chans session 2)) = Some (SessionReject Busy) \<and>
         map_of (pending_map session) 2 = None)"

definition the_pending_sender_may_repeat_its_own_request :: "ustr option \<Rightarrow> offer_env \<Rightarrow> u64 \<Rightarrow> bool" where
  "the_pending_sender_may_repeat_its_own_request host env clock \<longleftrightarrow>
     (let session = asks ''Alice'' 1 env clock (asks ''Alice'' 1 env clock (loop_under_test host))
      in snd (channel_recv (chans session 1)) = None \<and> status session = PendingConsent (lit ''Alice'') 1)"

text \<open>Dropping the receiving half closes the channel.\<close>

definition drop_receiver :: "connection_id \<Rightarrow> session_loop \<Rightarrow> session_loop" where
  "drop_receiver c s = s\<lparr> chans := (chans s)(c := channel_close (chans s c)) \<rparr>"

definition a_dead_prompt_does_not_wedge_the_receiver :: "ustr option \<Rightarrow> offer_env \<Rightarrow> u64 \<Rightarrow> bool" where
  "a_dead_prompt_does_not_wedge_the_receiver host env clock \<longleftrightarrow>
     (let pruned = drop_dead_connections (drop_receiver 1 (asks ''Alice'' 1 env clock (loop_under_test host)));
          session = asks ''Bob'' 2 env clock pruned
      in status pruned = Waiting \<and> snd (channel_recv (chans session 2)) = None \<and>
         status session = PendingConsent (lit ''Bob'') 2)"

definition an_undiscoverable_receiver_keeps_saying_so_between_sessions :: "ustr option \<Rightarrow> bool" where
  "an_undiscoverable_receiver_keeps_saying_so_between_sessions host \<longleftrightarrow>
     (let reason = lit ''Not discoverable on this network'';
          session = (session_loop_new (default_config host) False)\<lparr> status := Waiting, undiscoverable := Some reason \<rparr>
      in status (reset_status session) = Failed reason)"

lemma prompt_tests:
  "a_second_sender_cannot_replace_the_prompt_on_screen host env clock"
  "the_pending_sender_may_repeat_its_own_request host env clock"
  "a_dead_prompt_does_not_wedge_the_receiver host env clock"
  "an_undiscoverable_receiver_keeps_saying_so_between_sessions host"
  by (simp_all add: a_second_sender_cannot_replace_the_prompt_on_screen_def
    the_pending_sender_may_repeat_its_own_request_def a_dead_prompt_does_not_wedge_the_receiver_def
    an_undiscoverable_receiver_keeps_saying_so_between_sessions_def asks_def incoming_of_def request_of_def
    loop_under_test_def session_loop_new_def handle_message_def handle_session_request_def PROTOCOL_VERSION_def
    default_capabilities_def drop_dead_connections_def drop_receiver_def channel_recv_def channel_close_def
    new_channel_def is_connected_def handle_send_def try_send_def REPLY_CAPACITY_def net_defs)


section \<open>\<open>openplay-crypto/certs.rs\<close>\<close>

definition crates_ok :: "cert_lib \<Rightarrow> bool" where
  "crates_ok L \<longleftrightarrow>
     (case generated L of
        None \<Rightarrow> False
      | Some (pem, key, der) \<Rightarrow>
          pem_certs L pem = Some [der] \<and> (case pem_private_key L key of Some (Some _) \<Rightarrow> True | _ \<Rightarrow> False) \<and>
          length (sha256 L der) = 32)"

text \<open>An empty directory, in which no system call of a test fails.\<close>

definition tempdir :: fs where
  "tempdir = start_with \<lparr> data_dir = Some DATA_DIR_MODE, cert_file = None, key_file = None \<rparr> 100"

definition unwrap_io :: "'a io \<Rightarrow> fs \<Rightarrow> ('a \<Rightarrow> fs \<Rightarrow> bool) \<Rightarrow> bool" where
  "unwrap_io m s P = (case m s of (Inr x, s') \<Rightarrow> P x s' | (Inl _, _) \<Rightarrow> False)"

definition mode_of :: "fs \<Rightarrow> u16 option" where
  "mode_of s = map_option (\<lambda>f. mode f AND 0x1FF) (key_file (now s))"

definition place_file_with_mode :: "string \<Rightarrow> u16 \<Rightarrow> fs \<Rightarrow> fs" where
  "place_file_with_mode contents m s =
     s\<lparr> now := (now s)\<lparr> key_file := Some \<lparr> content = contents, mode = m \<rparr> \<rparr> \<rparr>"

definition set_permissions :: "u16 \<Rightarrow> fs \<Rightarrow> fs" where
  "set_permissions m s = s\<lparr> now := (now s)\<lparr> key_file := map_option (\<lambda>f. f\<lparr> mode := m \<rparr>) (key_file (now s)) \<rparr> \<rparr>"

definition test_load_or_generate_creates_files :: "cert_lib \<Rightarrow> u16 \<Rightarrow> bool" where
  "test_load_or_generate_creates_files L umask \<longleftrightarrow>
     unwrap_io (load_or_generate L umask) tempdir (\<lambda>mgr s.
     unwrap_io (load_or_generate L umask) s (\<lambda>mgr2 _. fingerprint mgr = fingerprint mgr2))"

definition test_key_file_permissions :: "cert_lib \<Rightarrow> u16 \<Rightarrow> bool" where
  "test_key_file_permissions L umask \<longleftrightarrow>
     unwrap_io (load_or_generate L umask) tempdir (\<lambda>_ s.
       unwrap_some (mode_of s) (\<lambda>mode. mode AND 0x3F = 0 \<and> mode = 0x180))"

text \<open>The descriptor's length and mode are those of the file.\<close>

definition the_key_file_is_owner_only_before_any_key_material_reaches_it :: "u16 \<Rightarrow> bool" where
  "the_key_file_is_owner_only_before_any_key_material_reaches_it umask \<longleftrightarrow>
     unwrap_io (open_private_file umask) tempdir (\<lambda>_ s.
       unwrap_some (key_file (now s)) (\<lambda>meta. length (content meta) = 0 \<and> mode meta AND 0x1FF = 0x180))"

definition a_pre_existing_world_readable_key_is_tightened_before_it_is_rewritten :: "u16 \<Rightarrow> bool" where
  "a_pre_existing_world_readable_key_is_tightened_before_it_is_rewritten umask \<longleftrightarrow>
     (let s0 = place_file_with_mode (''stale key material'' @ [newline]) 0x1A4 tempdir
      in mode_of s0 = Some 0x1A4 \<and>
         unwrap_io (open_private_file umask) s0 (\<lambda>_ s.
           unwrap_some (key_file (now s)) (\<lambda>meta. length (content meta) = 0 \<and> mode meta AND 0x1FF = 0x180)))"

definition loading_a_world_readable_key_repairs_it_and_keeps_the_identity :: "cert_lib \<Rightarrow> u16 \<Rightarrow> bool" where
  "loading_a_world_readable_key_repairs_it_and_keeps_the_identity L umask \<longleftrightarrow>
     unwrap_io (load_or_generate L umask) tempdir (\<lambda>mgr s.
     unwrap_io (load_or_generate L umask) (set_permissions 0x1A4 s) (\<lambda>reloaded s'.
       fingerprint reloaded = fingerprint mgr \<and> mode_of s' = Some 0x180))"

lemmas cert_test_defs = unwrap_io_def unwrap_some_def mode_of_def tempdir_def start_with_def place_file_with_mode_def
  set_permissions_def load_or_generate_def create_data_dir_def save_to_files_def write_key_file_def open_private_file_def
  load_from_files_def enforce_key_permissions_def generate_def parse_first_def io_simps KEY_MODE_def

lemma private_file_tests:
  "the_key_file_is_owner_only_before_any_key_material_reaches_it umask"
  "a_pre_existing_world_readable_key_is_tightened_before_it_is_rewritten umask"
  by (simp_all add: the_key_file_is_owner_only_before_any_key_material_reaches_it_def
    a_pre_existing_world_readable_key_is_tightened_before_it_is_rewritten_def cert_test_defs)

lemma certificate_file_tests:
  assumes "crates_ok L"
  shows "test_load_or_generate_creates_files L umask" "test_key_file_permissions L umask"
    "loading_a_world_readable_key_repairs_it_and_keeps_the_identity L umask"
proof -
  obtain pem key der where L: "generated L = Some (pem, key, der)" "pem_certs L pem = Some [der]"
    using assms by (auto simp: crates_ok_def split: option.splits)
  show "test_load_or_generate_creates_files L umask"
    by (simp add: test_load_or_generate_creates_files_def cert_test_defs L)
  show "test_key_file_permissions L umask"
    by (simp add: test_key_file_permissions_def cert_test_defs L)
  show "loading_a_world_readable_key_repairs_it_and_keeps_the_identity L umask"
    by (simp add: loading_a_world_readable_key_repairs_it_and_keeps_the_identity_def cert_test_defs L)
qed


section \<open>\<open>openplay-crypto/tls.rs\<close>\<close>

definition verify_against :: "cert_lib \<Rightarrow> string \<Rightarrow> bytes \<Rightarrow> tls_error + unit" where
  "verify_against L pinned der = verify_server_cert (sha256 L) \<lparr> expected = normalise_fingerprint pinned \<rparr> der"

definition server_config_builds_from_a_generated_certificate :: "cert_lib \<Rightarrow> bool" where
  "server_config_builds_from_a_generated_certificate L \<longleftrightarrow>
     unwrap_ok (generate L) (\<lambda>mgr. is_ok (server_config L mgr))"

definition verifier_accepts_the_pinned_certificate :: "cert_lib \<Rightarrow> bool" where
  "verifier_accepts_the_pinned_certificate L \<longleftrightarrow>
     unwrap_ok (generate L) (\<lambda>mgr. is_ok (verify_against L (fingerprint mgr) (cert_der mgr)))"

text \<open>The crates generate another certificate for the impostor.\<close>

definition verifier_rejects_a_different_certificate :: "cert_lib \<Rightarrow> (string \<times> string \<times> bytes) option \<Rightarrow> bool" where
  "verifier_rejects_a_different_certificate L other \<longleftrightarrow>
     unwrap_ok (generate L) (\<lambda>receiver.
     unwrap_ok (generate (L\<lparr> generated := other \<rparr>)) (\<lambda>impostor.
       fingerprint receiver \<noteq> fingerprint impostor \<and>
       unwrap_err (verify_against L (fingerprint receiver) (cert_der impostor))
         (\<lambda>err. case err of FingerprintMismatch _ _ \<Rightarrow> True | _ \<Rightarrow> False)))"

definition fingerprint_comparison_ignores_case_and_separators :: "cert_lib \<Rightarrow> bool" where
  "fingerprint_comparison_ignores_case_and_separators L \<longleftrightarrow>
     unwrap_ok (generate L) (\<lambda>mgr.
       let colonned = fingerprint mgr; bare = filter (\<lambda>c. c \<noteq> CHR '':'') colonned
       in is_ok (verify_against L colonned (cert_der mgr)) \<and> is_ok (verify_against L bare (cert_der mgr)) \<and>
          is_ok (verify_against L (to_ascii_lowercase bare) (cert_der mgr)))"

definition client_config_rejects_a_malformed_fingerprint :: bool where
  "client_config_rejects_a_malformed_fingerprint \<longleftrightarrow>
     list_all (\<lambda>s. \<not> is_ok (client_config_pinned s)) [''not-a-fingerprint'', [], replicate 63 (CHR ''a'')]"

definition client_config_accepts_the_advertised_form :: "cert_lib \<Rightarrow> bool" where
  "client_config_accepts_the_advertised_form L \<longleftrightarrow>
     unwrap_ok (generate L) (\<lambda>mgr. is_ok (client_config_pinned (fingerprint mgr)))"

lemma malformed_test: "client_config_rejects_a_malformed_fingerprint"
  by (simp add: client_config_rejects_a_malformed_fingerprint_def client_config_pinned_def normalise_fingerprint_def
    is_hexdigit_def digit_value_def filter_replicate Let_def)

lemma generated_fingerprint:
  "generated L = Some (pem, key, der) \<Longrightarrow> generate L = Inr \<lparr> cert_pem = pem, key_pem = key, cert_der = der,
     fingerprint = certificate_fingerprint (sha256 L) der \<rparr>"
  by (simp add: generate_def)

lemma verify_against_iff:
  "is_ok (verify_against L pinned der) \<longleftrightarrow> concat (map hex2 (sha256 L der)) = normalise_fingerprint pinned"
  by (simp add: verify_against_def verify_server_cert_def normalise_certificate Let_def)

lemma normalise_bare: "normalise_fingerprint (filter (\<lambda>c. c \<noteq> CHR '':'') s) = normalise_fingerprint s"
  by (induction s) (auto simp: normalise_fingerprint_def is_hexdigit_def digit_value_def)

lemma hexdigit_lower_iff: "is_hexdigit (lower_char c) = is_hexdigit c"
  by (auto simp: hexdigit_code lower_char_code)

lemma normalise_lower: "normalise_fingerprint (to_ascii_lowercase s) = normalise_fingerprint s"
  by (induction s) (simp_all add: normalise_fingerprint_def to_ascii_lowercase_def hexdigit_lower_iff)

lemma tls_tests:
  assumes "crates_ok L"
  shows "server_config_builds_from_a_generated_certificate L" "verifier_accepts_the_pinned_certificate L"
    "fingerprint_comparison_ignores_case_and_separators L" "client_config_accepts_the_advertised_form L"
  using assms
  by (auto simp: crates_ok_def server_config_builds_from_a_generated_certificate_def
    verifier_accepts_the_pinned_certificate_def fingerprint_comparison_ignores_case_and_separators_def
    client_config_accepts_the_advertised_form_def unwrap_ok_def generated_fingerprint verify_against_iff normalise_bare
    normalise_lower normalise_certificate server_config_def client_config_pinned_def length_concat_hex2 Let_def
    split: option.splits)

text \<open>Two certificates with different digests have different fingerprints, which is what the impostor's must have.\<close>

lemma impostor_test:
  assumes "generated L = Some (pem, key, der)" and "sha256 L der' \<noteq> sha256 L der"
  shows "verifier_rejects_a_different_certificate L (Some (pem', key', der'))"
proof -
  have "concat (map hex2 (sha256 L der')) \<noteq> concat (map hex2 (sha256 L der))" using assms(2) concat_hex2_inj by blast
  then show ?thesis
    using assms(1) normalise_certificate [of "sha256 L" der] normalise_certificate [of "sha256 L" der']
    by (auto simp: verifier_rejects_a_different_certificate_def unwrap_ok_def unwrap_err_def generate_def
      verify_against_def verify_server_cert_def Let_def)
qed


section \<open>\<open>openplay-sender/casting.rs\<close>: reaching a receiver\<close>

text \<open>The server of the test listens on a port of the loopback; nothing listens on port 1.\<close>

definition loopback_net :: "socket_addr \<Rightarrow> bytes \<Rightarrow> string \<Rightarrow> socket_addr \<Rightarrow> host" where
  "loopback_net open_addr der why a = (if a = open_addr then Presents der else Refuses why)"

definition test_target :: "socket_addr list \<Rightarrow> string \<Rightarrow> openplay_target" where
  "test_target addrs fp =
     \<lparr> target_addrs = addrs, target_fingerprint = fp, target_display_name = lit ''Test Sender'' \<rparr>"

definition a_dead_first_address_does_not_stop_the_connection :: "cert_lib \<Rightarrow> u16 \<Rightarrow> u16 \<Rightarrow> string \<Rightarrow> bool" where
  "a_dead_first_address_does_not_stop_the_connection L umask port why \<longleftrightarrow>
     unwrap_io (load_or_generate L umask) tempdir (\<lambda>certs _.
     unwrap_ok (server_config L certs) (\<lambda>(chain, _).
     unwrap_ok (client_config_pinned (fingerprint certs)) (\<lambda>tls_config.
       let live = (LOOP4, port); dead = (LOOP4, 1)
       in is_ok (connect_to_receiver (sha256 L) (loopback_net live (hd chain) why) tls_config
            (test_target [dead, live] (fingerprint certs))))))"

definition every_address_dead_reports_what_was_tried :: "cert_lib \<Rightarrow> u16 \<Rightarrow> string \<Rightarrow> bool" where
  "every_address_dead_reports_what_was_tried L umask why \<longleftrightarrow>
     unwrap_io (load_or_generate L umask) tempdir (\<lambda>certs _.
     unwrap_ok (client_config_pinned (fingerprint certs)) (\<lambda>tls_config.
     unwrap_err (connect_to_receiver (sha256 L) (\<lambda>_. Refuses why) tls_config
         (test_target [(LOOP4, 1)] (fingerprint certs)))
       (\<lambda>msg. contains ''127.0.0.1:1'' msg)))"

lemma fresh_identity:
  assumes "generated L = Some (pem, key, der)"
  shows "\<exists>s. load_or_generate L umask tempdir = (Inr \<lparr> cert_pem = pem, key_pem = key, cert_der = der,
    fingerprint = certificate_fingerprint (sha256 L) der \<rparr>, s)"
  using assms by (simp add: cert_test_defs)

lemma pinned_config:
  "length (sha256 L der) = 32 \<Longrightarrow> client_config_pinned (certificate_fingerprint (sha256 L) der) =
     Inr \<lparr> expected = concat (map hex2 (sha256 L der)) \<rparr>"
  by (simp add: client_config_pinned_def normalise_certificate length_concat_hex2)

lemma dial_pinned: "is_ok (dial sha v (Presents der)) \<longleftrightarrow> concat (map hex2 (sha der)) = expected v"
  by (auto simp: dial_def verify_server_cert_def normalise_certificate Let_def)

lemma dead_first_test:
  assumes "crates_ok L"
  shows "a_dead_first_address_does_not_stop_the_connection L umask port why"
proof -
  obtain pem key der k where L: "generated L = Some (pem, key, der)" "pem_certs L pem = Some [der]"
      "pem_private_key L key = Some (Some k)" "length (sha256 L der) = 32"
    using assms by (auto simp: crates_ok_def split: option.splits)
  obtain s where s: "load_or_generate L umask tempdir = (Inr \<lparr> cert_pem = pem, key_pem = key, cert_der = der,
    fingerprint = certificate_fingerprint (sha256 L) der \<rparr>, s)" using fresh_identity [OF L(1)] by blast
  show ?thesis
    using dial_pinned [of "sha256 L" "\<lparr> expected = concat (map hex2 (sha256 L der)) \<rparr>" der]
    by (auto simp: a_dead_first_address_does_not_stop_the_connection_def unwrap_io_def unwrap_ok_def s L server_config_def
      pinned_config connect_to_receiver_def test_target_def loopback_net_def Let_def is_ok_iff dial_def
      split: sum.splits)
qed

lemma all_dead_test:
  assumes "crates_ok L"
  shows "every_address_dead_reports_what_was_tried L umask why"
proof -
  obtain pem key der where L: "generated L = Some (pem, key, der)" "length (sha256 L der) = 32"
    using assms by (auto simp: crates_ok_def split: option.splits)
  obtain s where s: "load_or_generate L umask tempdir = (Inr \<lparr> cert_pem = pem, key_pem = key, cert_der = der,
    fingerprint = certificate_fingerprint (sha256 L) der \<rparr>, s)" using fresh_identity [OF L(1)] by blast
  have "show_socket_addr (LOOP4, 1) = ''127.0.0.1:1''"
    by (simp add: show_socket_addr_def show_dec_def LOOP4_def show_address)
  then show ?thesis
    using contains_append [of "''127.0.0.1:1''" "''Could not reach the receiver on any advertised address (''"
      "'': '' @ why @ '')''"]
    by (simp add: every_address_dead_reports_what_was_tried_def unwrap_io_def unwrap_ok_def unwrap_err_def s L pinned_config
      connect_to_receiver_def test_target_def dial_def)
qed

end
