(* ===== verification/Rtsp_Lines.thy ===== *)
theory Rtsp_Lines
  imports Rtsp
begin

text \<open>
  RTSP messages that are built line by line: how such a message is framed, split and parsed, without
  evaluating it character by character. The messages of the source and of a sink are of this form.
\<close>

definition rtsp_lines :: "string list \<Rightarrow> string" where
  "rtsp_lines ls = concat (map (\<lambda>l. l @ crlf) ls) @ crlf"

definition cseq_of :: "string \<Rightarrow> nat option" where
  "cseq_of msg = numeric_header ''cseq:'' (2 ^ 32) msg"

definition plain_line :: "string \<Rightarrow> bool" where
  "plain_line l \<longleftrightarrow> l \<noteq> [] \<and> list_all (\<lambda>c. c \<noteq> cr \<and> c \<noteq> newline \<and> (of_char c :: nat) < 128) l"

definition header_text :: "string list \<Rightarrow> string" where
  "header_text ls = concat (map (\<lambda>l. l @ crlf) (butlast ls)) @ last ls"

definition header_value :: "string \<Rightarrow> nat \<Rightarrow> string list \<Rightarrow> nat option" where
  "header_value name bound ls =
     (case find (\<lambda>l. starts_with name (to_ascii_lowercase l)) ls of
        None \<Rightarrow> None
      | Some l \<Rightarrow>
          (case split_char (CHR '':'') l of _ # v # _ \<Rightarrow> from_str_radix 10 bound (trim_str v) | _ \<Rightarrow> None))"

lemma plain_ascii: "plain_line l \<Longrightarrow> ascii l"
  by (simp add: plain_line_def ascii_def list_all_iff)

lemma crlf_ascii: "ascii crlf"
  by (simp add: crlf_def cr_def newline_def)

lemma rtsp_lines_ascii: "list_all plain_line ls \<Longrightarrow> ascii (rtsp_lines ls)"
  by (induction ls) (auto simp: rtsp_lines_def plain_ascii crlf_ascii)

lemma rtsp_lines_text: "ls \<noteq> [] \<Longrightarrow> rtsp_lines ls = header_text ls @ crlf @ crlf"
  by (induction ls rule: rev_induct) (simp_all add: rtsp_lines_def header_text_def)

lemma find_sub_past:
  "cr \<notin> set l \<Longrightarrow> find_sub (cr # p) (l @ rest) = map_option ((+) (length l)) (find_sub (cr # p) rest)"
  by (induction l; cases "find_sub (cr # p) rest"; auto)

lemma header_text_Cons: "ls \<noteq> [] \<Longrightarrow> header_text (l # ls) = l @ crlf @ header_text ls"
  by (simp add: header_text_def)

lemma header_text_starts: "list_all plain_line ls \<Longrightarrow> ls \<noteq> [] \<Longrightarrow> \<exists>c s. header_text ls = c # s \<and> c \<noteq> cr"
  by (cases ls; cases "tl ls"; cases "hd ls") (auto simp: header_text_def plain_line_def)

lemma find_header_end:
  assumes "list_all plain_line ls" and "ls \<noteq> []"
  shows "find_sub str_header_end (header_text ls @ crlf @ crlf @ body) = Some (length (header_text ls))"
  using assms
proof (induction ls)
  case (Cons l ls)
  have no: "cr \<notin> set l" and ne: "newline \<noteq> cr" using Cons.prems by (auto simp: plain_line_def list_all_iff newline_def cr_def)
  note skip = find_sub_past [OF no, of "[newline, cr, newline]"]
  show ?case
  proof (cases "ls = []")
    case True
    then show ?thesis using skip [of "crlf @ crlf @ body"]
      by (simp add: header_text_def str_header_end_def crlf_def)
  next
    case False
    then obtain c s where c: "header_text ls = c # s" "c \<noteq> cr" using Cons.prems header_text_starts [of ls] by auto
    have "find_sub str_header_end (crlf @ header_text ls @ crlf @ crlf @ body) =
      map_option (\<lambda>n. n + 2) (find_sub str_header_end (header_text ls @ crlf @ crlf @ body))"
      using c ne by (simp add: str_header_end_def crlf_def option.map_comp comp_def)
    moreover have "find_sub str_header_end (header_text ls @ crlf @ crlf @ body) = Some (length (header_text ls))"
      using Cons False by simp
    ultimately show ?thesis using skip [of "crlf @ header_text ls @ crlf @ crlf @ body"] False
      by (simp add: header_text_Cons) (simp add: str_header_end_def crlf_def)
  qed
qed simp

lemma lines_from_line:
  "newline \<notin> set l \<Longrightarrow> cr \<notin> set l \<Longrightarrow> lines_from cur (l @ crlf @ rest) = (cur @ l) # lines_from [] rest"
  by (induction l arbitrary: cur) (auto simp: crlf_def cr_def newline_def strip_cr_def)

lemma lines_from_last: "newline \<notin> set l \<Longrightarrow> cur @ l \<noteq> [] \<Longrightarrow> lines_from cur l = [cur @ l]"
  by (induction l arbitrary: cur) auto

lemma plain_chars: "plain_line l \<Longrightarrow> newline \<notin> set l \<and> cr \<notin> set l \<and> l \<noteq> []"
  by (auto simp: plain_line_def list_all_iff)

lemma lines_header: "list_all plain_line ls \<Longrightarrow> ls \<noteq> [] \<Longrightarrow> lines (header_text ls) = ls"
proof (induction ls)
  case (Cons l ls)
  then show ?case
    using plain_chars [of l] lines_from_line [of l "[]" "header_text ls"] lines_from_last [of l "[]"]
    by (cases "ls = []") (auto simp: header_text_Cons lines_def, simp add: header_text_def)
qed simp

lemma lines_message: "list_all plain_line ls \<Longrightarrow> lines (rtsp_lines ls @ body) = ls @ [] # lines body"
proof (induction ls)
  case Nil
  then show ?case by (simp add: rtsp_lines_def lines_def crlf_def strip_cr_def cr_def newline_def)
next
  case (Cons l ls)
  then show ?case
    using plain_chars [of l] lines_from_line [of l "[]" "rtsp_lines ls @ body"] by (simp add: lines_def rtsp_lines_def)
qed

lemma numeric_header_value:
  "list_all plain_line ls \<Longrightarrow> ls \<noteq> [] \<Longrightarrow> numeric_header name b (header_text ls) = header_value name b ls"
  by (simp add: numeric_header_def header_value_def lines_header)

lemma split_message:
  "list_all plain_line ls \<Longrightarrow> ls \<noteq> [] \<Longrightarrow> split_header_body (rtsp_lines ls @ body) = (header_text ls, body)"
  using find_header_end [of ls body]
  by (simp add: split_header_body_def rtsp_lines_text) (simp add: crlf_def)

lemma framed_message:
  assumes "list_all plain_line ls" and "ls \<noteq> []" and "ascii body"
    and "or_zero (header_value ''content-length:'' (2 ^ 64) ls) = length body"
    and "length (rtsp_lines ls) + length body < 2 ^ 64"
  shows "framed_message_len (str_bytes (rtsp_lines ls @ body)) = Some (length (rtsp_lines ls @ body))"
proof -
  have "ascii (rtsp_lines ls @ body)" using assms(1,3) by (simp add: rtsp_lines_ascii)
  from framed_ascii [OF this] show ?thesis
    using find_header_end [OF assms(1,2), of body] assms(2,5)
      numeric_header_value [OF assms(1,2), of "''content-length:''" "2 ^ 64"] assms(4)
    by (simp add: rtsp_lines_text Let_def crlf_def)
qed

lemma find_first: "find P xs = Some x \<Longrightarrow> find P (xs @ ys) = Some x"
  by (induction xs) auto

lemma cseq_of_message:
  "list_all plain_line ls \<Longrightarrow> header_value ''cseq:'' (2 ^ 32) ls = Some n \<Longrightarrow> cseq_of (rtsp_lines ls @ body) = Some n"
  by (auto simp: cseq_of_def numeric_header_def header_value_def lines_message find_first split: option.splits)

lemma request_of_lines:
  assumes "list_all plain_line (l # ls)"
  shows "parse_rtsp_request (rtsp_lines (l # ls) @ body) =
    \<lparr> req_method = (case split_whitespace l of m # _ \<Rightarrow> m | [] \<Rightarrow> []),
      req_uri = (case split_whitespace l of _ # u # _ \<Rightarrow> u | _ \<Rightarrow> []), req_headers = header_text (l # ls),
      req_body = body, req_cseq = or_zero (header_value ''cseq:'' (2 ^ 32) (l # ls)) \<rparr>"
  using assms
  by (simp add: parse_rtsp_request_def split_message numeric_header_value first_line_def lines_header Let_def)

lemma response_of_lines:
  assumes "list_all plain_line (l # ls)"
  shows "parse_rtsp_response (rtsp_lines (l # ls) @ body) =
    \<lparr> resp_code = (case split_whitespace l of _ # c # _ \<Rightarrow> or_zero (from_str_radix 10 (2 ^ 16) c) | _ \<Rightarrow> 0),
      resp_status = l, resp_headers = header_text (l # ls), resp_body = body \<rparr>"
  using assms by (simp add: parse_rtsp_response_def split_message first_line_def lines_header Let_def)

lemma setup_port: "list_all plain_line ls \<Longrightarrow> ls \<noteq> [] \<Longrightarrow> parse_transport_port (header_text ls) = transport_port ls"
  by (simp add: parse_transport_port_def lines_header)

text \<open>A header with a number.\<close>

lemma digits_plain:
  "list_all (\<lambda>d. let c = digit_char d
     in \<not> is_ws c \<and> c \<noteq> newline \<and> c \<noteq> cr \<and> c \<noteq> CHR '':'' \<and> (of_char c :: nat) < 128)
     [0, 1, 2, 3, 4, 5, 6, 7, 8, 9]"
  by (simp add: digit_char_def char_of_def bit_0 is_ws_def newline_def cr_def)

lemma less_10: "(d :: nat) < 10 \<longleftrightarrow> d \<in> set [0, 1, 2, 3, 4, 5, 6, 7, 8, 9]"
  by auto

lemma digit_plain:
  assumes "c \<in> set (show_radix 10 n)"
  shows "\<not> is_ws c" "c \<noteq> newline" "c \<noteq> cr" "c \<noteq> CHR '':''" "(of_char c :: nat) < 128"
proof -
  obtain d where "d < 10" "c = digit_char d" using show_radix_digits [of 10 c n] assms by auto
  then show "\<not> is_ws c" "c \<noteq> newline" "c \<noteq> cr" "c \<noteq> CHR '':''" "(of_char c :: nat) < 128"
    using digits_plain \<open>d < 10\<close> unfolding less_10 list_all_iff by (auto simp only: Let_def)
qed

lemma plain_number: "plain_line l \<Longrightarrow> plain_line (l @ show_radix 10 n)"
  using digit_plain [of _ n] by (auto simp: plain_line_def list_all_iff)

lemma no_colon: "CHR '':'' \<notin> set (show_radix 10 n)"
  using digit_plain(4) by blast

lemma split_char_none: "d \<notin> set s \<Longrightarrow> split_char d s = [s]"
  by (induction s) auto

lemma number_trimmed: "trim_str (CHR '' '' # show_radix 10 n) = show_radix 10 n"
proof -
  have "trim_str (CHR '' '' # show_radix 10 n) = trim_str (show_radix 10 n)"
    by (simp add: trim_str_def is_ws_def)
  moreover have "show_radix 10 n \<noteq> []" by (rule show_radix_nonempty) simp
  ultimately show ?thesis using digit_plain(1) [of _ n] by (simp add: trim_str_noop)
qed

lemma number_parsed: "n < b \<Longrightarrow> from_str_radix 10 b (show_radix 10 n) = Some n"
  by (rule parse_show) simp_all

lemma cseq_line:
  "n < b \<Longrightarrow> header_value ''cseq:'' b ((''CSeq: '' @ show_radix 10 n) # ls) = Some n"
  by (simp add: header_value_def starts_with_def to_ascii_lowercase_def lower_char_def char_of_def bit_0
    no_colon split_char_none number_trimmed number_parsed)

lemma length_line:
  "n < b \<Longrightarrow> header_value ''content-length:'' b ((''Content-Length: '' @ show_radix 10 n) # ls) = Some n"
  by (simp add: header_value_def starts_with_def to_ascii_lowercase_def lower_char_def char_of_def bit_0
    no_colon split_char_none number_trimmed number_parsed)

lemma other_line:
  "\<not> starts_with name (to_ascii_lowercase l) \<Longrightarrow> header_value name b (l # ls) = header_value name b ls"
  by (simp add: header_value_def)

lemma no_line: "header_value name b [] = None"
  by (simp add: header_value_def)

lemma length_decimal: "length (show_radix 10 n) \<le> n + 1"
proof (induction n rule: less_induct)
  case (less n)
  show ?case
  proof (cases "n < 10")
    case False
    then have "length (show_radix 10 (n div 10)) \<le> n div 10 + 1" using less by simp
    then show ?thesis using False by (subst show_radix.simps) simp
  qed (subst show_radix.simps, simp)
qed

text \<open>A whole message in ASCII.\<close>

definition well_framed :: "string \<Rightarrow> bool" where
  "well_framed m \<longleftrightarrow> ascii m \<and> framed_message_len (str_bytes m) = Some (length m)"

lemma well_framed_body:
  assumes "list_all plain_line ls" and "ls \<noteq> []" and "ascii body"
    and "or_zero (header_value ''content-length:'' (2 ^ 64) ls) = length body"
    and "length (rtsp_lines ls) + length body < 2 ^ 64"
  shows "well_framed (rtsp_lines ls @ body)"
  using framed_message [OF assms] assms(1,3) by (simp add: well_framed_def rtsp_lines_ascii)

lemma well_framed_lines:
  assumes "list_all plain_line ls" and "ls \<noteq> []" and "header_value ''content-length:'' (2 ^ 64) ls = None"
    and "length (rtsp_lines ls) < 2 ^ 64"
  shows "well_framed (rtsp_lines ls)"
  using well_framed_body [of ls "[]"] assms by (simp add: or_zero_def)

lemma length_rtsp_lines: "length (rtsp_lines ls) = sum_list (map (\<lambda>l. length l + 2) ls) + 2"
  by (induction ls) (simp_all add: rtsp_lines_def crlf_def)

lemmas plain_eval = plain_line_def cr_def newline_def

lemma plain_cseq: "plain_line (''CSeq: '' @ show_radix 10 n)"
  by (rule plain_number) (simp add: plain_eval)

lemma plain_length: "plain_line (''Content-Length: '' @ show_radix 10 n)"
  by (rule plain_number) (simp add: plain_eval)

lemma cseq_has_no_length:
  "header_value ''content-length:'' b ((''CSeq: '' @ show_radix 10 n) # ls) = header_value ''content-length:'' b ls"
  by (rule other_line) (simp add: starts_with_def to_ascii_lowercase_def lower_char_def char_of_def bit_0)

lemma cseq_short: "n < 2 ^ 32 \<Longrightarrow> length (show_radix 10 n) \<le> 2 ^ 32"
  using length_decimal [of n] by simp

lemmas line_eval = starts_with_def to_ascii_lowercase_def lower_char_def char_of_def bit_0

end
