(* ===== verification/Tests_Miracast.thy ===== *)
theory Tests_Miracast
  imports Rtsp_Lines P2p_Manager
begin

text \<open>
  The unit tests of \<open>openplay-miracast\<close> that need no peer, one definition for each test function, evaluated on
  the model: ports, status lines, framing and reading of \<open>rtsp_server.rs\<close>, \<open>wfd_params.rs\<close>, \<open>wifi_direct.rs\<close>.
\<close>

definition ok200 :: "nat \<Rightarrow> string" where
  "ok200 n = rtsp_lines [''RTSP/1.0 200 OK'', ''CSeq: '' @ show_radix 10 n]"

definition ok200_with :: "string \<Rightarrow> nat \<Rightarrow> string" where
  "ok200_with body n =
     rtsp_lines [''RTSP/1.0 200 OK'', ''CSeq: '' @ show_radix 10 n, ''Content-Type: text/parameters'',
       ''Content-Length: '' @ show_radix 10 (length body)] @ body"


section \<open>\<open>rtsp_server.rs\<close>: ports, status lines, framing\<close>

definition transport_port_parses_a_range :: bool where
  "transport_port_parses_a_range \<longleftrightarrow>
     parse_transport_port (''SETUP rtsp://localhost/wfd1.0 RTSP/1.0'' @ crlf @ ''CSeq: 4'' @ crlf @
       ''Transport: RTP/AVP/UDP;unicast;client_port=19000-19001'') = Some 19000"

definition transport_port_parses_a_single_port :: bool where
  "transport_port_parses_a_single_port \<longleftrightarrow>
     parse_transport_port ''Transport: RTP/AVP/UDP;unicast;client_port=19000'' = Some 19000"

definition transport_port_tolerates_leading_space :: bool where
  "transport_port_tolerates_leading_space \<longleftrightarrow>
     parse_transport_port ''Transport: RTP/AVP/UDP;unicast; client_port=19000-19001;mode=play'' = Some 19000"

definition transport_port_accepts_lowercase_header :: bool where
  "transport_port_accepts_lowercase_header \<longleftrightarrow>
     parse_transport_port ''transport: RTP/AVP/UDP;unicast;client_port=15550-15551'' = Some 15550"

definition transport_port_ignores_server_port :: bool where
  "transport_port_ignores_server_port \<longleftrightarrow>
     parse_transport_port
       ''Transport: RTP/AVP/UDP;unicast;server_port=5000-5001;client_port=19000-19001'' = Some 19000"

definition transport_port_is_none_without_a_transport_header :: bool where
  "transport_port_is_none_without_a_transport_header \<longleftrightarrow>
     parse_transport_port (''SETUP rtsp://localhost/wfd1.0 RTSP/1.0'' @ crlf @ ''CSeq: 4'' @ crlf @ ''Session: 1'')
       = None"

definition transport_port_is_none_when_unparseable :: bool where
  "transport_port_is_none_when_unparseable \<longleftrightarrow>
     parse_transport_port ''Transport: RTP/AVP/UDP;unicast;client_port=abc-def'' = None \<and>
     parse_transport_port ''Transport: RTP/AVP/UDP;unicast;client_port='' = None \<and>
     parse_transport_port ''Transport: RTP/AVP/UDP;unicast;client_port=70000-70001'' = None"

lemma transport_port_tests:
  "transport_port_parses_a_range" "transport_port_parses_a_single_port" "transport_port_tolerates_leading_space"
  "transport_port_accepts_lowercase_header" "transport_port_ignores_server_port"
  "transport_port_is_none_without_a_transport_header" "transport_port_is_none_when_unparseable"
  by (simp_all add: transport_port_parses_a_range_def transport_port_parses_a_single_port_def
    transport_port_tolerates_leading_space_def transport_port_accepts_lowercase_header_def
    transport_port_ignores_server_port_def transport_port_is_none_without_a_transport_header_def
    transport_port_is_none_when_unparseable_def parse_transport_port_def dec_u16_def text_eval Let_def)

definition response_code_comes_from_the_status_line_not_its_prefix :: bool where
  "response_code_comes_from_the_status_line_not_its_prefix \<longleftrightarrow>
     (let ok = parse_rtsp_response (''RTSP/1.0 200 OK'' @ crlf @ ''CSeq: 1'' @ crlf @ crlf)
      in resp_code ok = 200 \<and> \<not> starts_with ''200'' (resp_status ok)) \<and>
     resp_code (parse_rtsp_response (''RTSP/1.0 501 Not Implemented'' @ crlf @ crlf)) = 501 \<and>
     resp_code (parse_rtsp_response (''garbage'' @ crlf @ crlf)) = 0"

definition request_parsing_pulls_method_and_cseq :: bool where
  "request_parsing_pulls_method_and_cseq \<longleftrightarrow>
     (let req = parse_rtsp_request (rtsp_lines [''SETUP rtsp://localhost/wfd1.0 RTSP/1.0'', ''CSeq: 42'', ''Session: 1''])
      in req_method req = ''SETUP'' \<and> req_uri req = ''rtsp://localhost/wfd1.0'' \<and> req_cseq req = 42)"

lemmas parse_eval = parse_rtsp_response_def parse_rtsp_request_def split_header_body_def str_header_end_def
  first_line_def or_zero_def numeric_header_def rtsp_lines_def text_eval Let_def

lemma status_line_tests:
  "response_code_comes_from_the_status_line_not_its_prefix" "request_parsing_pulls_method_and_cseq"
  by (simp_all add: response_code_comes_from_the_status_line_not_its_prefix_def
    request_parsing_pulls_method_and_cseq_def parse_eval)

definition framing_needs_the_header_terminator :: bool where
  "framing_needs_the_header_terminator \<longleftrightarrow>
     framed_message_len (str_bytes (''OPTIONS * RTSP/1.0'' @ crlf @ ''CSeq: 1'' @ crlf)) = None"

definition framing_measures_a_bodyless_message :: bool where
  "framing_measures_a_bodyless_message \<longleftrightarrow>
     (let msg = str_bytes (rtsp_lines [''RTSP/1.0 200 OK'', ''CSeq: 1''])
      in framed_message_len msg = Some (length msg))"

definition framing_waits_for_the_declared_body :: bool where
  "framing_waits_for_the_declared_body \<longleftrightarrow>
     (let head = rtsp_lines [''RTSP/1.0 200 OK'', ''CSeq: 1'', ''Content-Length: 10''];
          full = str_bytes (head @ ''abcdefghij'')
      in framed_message_len (str_bytes (head @ ''abc'')) = None \<and>
         framed_message_len full = Some (length full))"

definition framing_stops_at_the_end_of_the_first_message :: bool where
  "framing_stops_at_the_end_of_the_first_message \<longleftrightarrow>
     (let one = rtsp_lines [''RTSP/1.0 200 OK'', ''CSeq: 1''];
          two = one @ rtsp_lines [''RTSP/1.0 200 OK'', ''CSeq: 2'']
      in framed_message_len (str_bytes two) = Some (length (str_bytes one)))"

lemma framing_tests:
  "framing_needs_the_header_terminator" "framing_measures_a_bodyless_message"
  "framing_waits_for_the_declared_body" "framing_stops_at_the_end_of_the_first_message"
  by (simp_all add: framing_needs_the_header_terminator_def framing_measures_a_bodyless_message_def
    framing_waits_for_the_declared_body_def framing_stops_at_the_end_of_the_first_message_def
    framed_ascii parse_eval del: str_bytes_append)


section \<open>\<open>rtsp_server.rs\<close>: reading\<close>

definition pipelined_messages_are_both_read :: bool where
  "pipelined_messages_are_both_read \<longleftrightarrow>
     (case read_message (conn_new [Data (str_bytes (ok200 1 @ ok200 2))] (\<lambda>_. True)) of
        (Inr m, c) \<Rightarrow> cseq_of m = Some 1 \<and>
          (case read_message c of (Inr m', _) \<Rightarrow> cseq_of m' = Some 2 | _ \<Rightarrow> False)
      | _ \<Rightarrow> False)"

definition a_message_split_across_writes_is_reassembled :: bool where
  "a_message_split_across_writes_is_reassembled \<longleftrightarrow>
     (case fst (read_message (conn_new
         [Data (str_bytes (''RTSP/1.0 200 OK'' @ crlf @ ''CSeq: 1'' @ crlf @ ''Content-Le'')),
          Data (str_bytes (''ngth: 5'' @ crlf @ crlf @ ''hello''))] (\<lambda>_. True))) of
        Inr m \<Rightarrow> drop (length m - 5) m = ''hello''
      | _ \<Rightarrow> False)"

definition a_silent_sink_times_out_instead_of_hanging :: bool where
  "a_silent_sink_times_out_instead_of_hanging \<longleftrightarrow>
     fst (read_message (conn_new [Silence] (\<lambda>_. True))) = Inl RtspTimeout"

definition a_closed_connection_is_an_error_not_a_hang :: bool where
  "a_closed_connection_is_an_error_not_a_hang \<longleftrightarrow>
     fst (read_message (conn_new [] (\<lambda>_. True))) = Inl RtspClosed"

lemma framed_nothing: "framed_message_len [] = None"
  by (simp add: framed_message_len_def find_subslice_def rtsp_header_end_def)

text \<open>A message that is there is read, whatever follows it in the buffer.\<close>

lemma read_chunk:
  assumes "ascii m" and "framed_message_len (str_bytes m) = Some (length m)"
  shows "read_from [] (Data (str_bytes m @ tl_bytes) # evs) = (Inr m, tl_bytes, evs)"
    and "read_from (str_bytes m @ tl_bytes) evs = (Inr m, tl_bytes, evs)"
proof -
  have framed: "framed_message_len (str_bytes m @ tl_bytes) = Some (length m)" by (rule framed_append [OF assms(2)])
  then show there: "read_from (str_bytes m @ tl_bytes) evs = (Inr m, tl_bytes, evs)" for evs
    by (cases evs) (simp_all add: lossy_str_ascii [OF assms(1)])
  have "str_bytes m \<noteq> []" using assms(2) framed_nothing by (metis option.distinct(1))
  then show "read_from [] (Data (str_bytes m @ tl_bytes) # evs) = (Inr m, tl_bytes, evs)"
    by (simp add: framed_nothing there)
qed

lemma ok200_facts:
  "ascii (ok200 1)" "ascii (ok200 2)" "cseq_of (ok200 1) = Some 1" "cseq_of (ok200 2) = Some 2"
  "framed_message_len (str_bytes (ok200 1)) = Some (length (ok200 1))"
  "framed_message_len (str_bytes (ok200 2)) = Some (length (ok200 2))"
  by (simp_all add: ok200_def cseq_of_def framed_ascii show_radix.simps digit_char_def parse_eval)

lemma pipelined_test: "pipelined_messages_are_both_read"
  using read_chunk(2) [of "ok200 2" "[]" "[]"]
  by (simp add: pipelined_messages_are_both_read_def read_message_def conn_new_def ok200_facts read_chunk
    del: read_from.simps One_nat_def)

lemma read_split:
  assumes "framed_message_len (str_bytes a) = None" and "a \<noteq> []" and "b \<noteq> []" and "length a \<le> 1000"
    and "ascii (a @ b)" and "framed_message_len (str_bytes (a @ b)) = Some (length (a @ b))"
  shows "read_from [] [Data (str_bytes a), Data (str_bytes b)] = (Inr (a @ b), [], [])"
proof -
  have "str_bytes a \<noteq> []" "str_bytes b \<noteq> []" using assms(2,3) by (simp_all add: str_bytes_def)
  moreover have "read_from (str_bytes a @ str_bytes b) [] = (Inr (a @ b), [], [])"
    using read_chunk(2) [OF assms(5,6), of "[]" "[]"] by simp
  ultimately show ?thesis
    using assms(1,4) by (simp add: framed_nothing RTSP_MAX_MESSAGE_BYTES_def)
qed

lemma split_test: "a_message_split_across_writes_is_reassembled"
proof -
  let ?a = "''RTSP/1.0 200 OK'' @ crlf @ ''CSeq: 1'' @ crlf @ ''Content-Le''" and
    ?b = "''ngth: 5'' @ crlf @ crlf @ ''hello''"
  have "read_from [] [Data (str_bytes ?a), Data (str_bytes ?b)] = (Inr (?a @ ?b), [], [])"
    by (rule read_split) (simp_all add: framed_ascii parse_eval del: str_bytes_append)
  then show ?thesis
    unfolding a_message_split_across_writes_is_reassembled_def read_message_def conn_new_def rtsp_conn.simps
    by (simp only: prod.case sum.case fst_conv) (simp add: crlf_def)
qed

lemma silence_tests: "a_silent_sink_times_out_instead_of_hanging" "a_closed_connection_is_an_error_not_a_hang"
  by (simp_all add: a_silent_sink_times_out_instead_of_hanging_def a_closed_connection_is_an_error_not_a_hang_def
    read_message_def conn_new_def framed_nothing)


section \<open>\<open>wfd_params.rs\<close>, \<open>wifi_direct.rs\<close>\<close>

definition test_video_formats_roundtrip :: bool where
  "test_video_formats_roundtrip \<longleftrightarrow>
     (let vf = default_video_formats
      in case video_formats_parse (video_formats_encode vf) of
           None \<Rightarrow> False
         | Some parsed \<Rightarrow> profile parsed = profile vf \<and> level parsed = level vf \<and>
             cea_resolutions parsed = cea_resolutions vf)"

definition test_cea_resolution_bitmask :: bool where
  "test_cea_resolution_bitmask \<longleftrightarrow>
     (let cea = RES_1920X1080_P30 OR RES_1280X720_P30
      in cea_supports cea RES_1920X1080_P30 \<and> cea_supports cea RES_1280X720_P30 \<and>
         \<not> cea_supports cea RES_1920X1080_P60)"

definition test_negotiate_resolution_1080p :: bool where
  "test_negotiate_resolution_1080p \<longleftrightarrow>
     negotiate_resolution
       (default_video_formats\<lparr> cea_resolutions := RES_1920X1080_P30 OR RES_1280X720_P30 \<rparr>)
       (default_video_formats\<lparr> cea_resolutions := RES_1920X1080_P30 OR RES_1280X720_P60 \<rparr>) = (1920, 1080, 30)"

definition test_negotiate_resolution_fallback :: bool where
  "test_negotiate_resolution_fallback \<longleftrightarrow>
     negotiate_resolution
       (default_video_formats\<lparr> cea_resolutions := RES_640X480_P60 \<rparr>)
       (default_video_formats\<lparr> cea_resolutions := RES_1920X1080_P30 \<rparr>) = (1280, 720, 30)"

definition test_client_rtp_ports_display :: bool where
  "test_client_rtp_ports_display \<longleftrightarrow>
     (let s = show_rtp_ports default_rtp_ports in contains ''RTP/AVP/UDP;unicast'' s \<and> contains ''1028'' s)"

definition test_client_rtp_ports_parse :: bool where
  "test_client_rtp_ports_parse \<longleftrightarrow>
     (case rtp_ports_parse ''RTP/AVP/UDP;unicast 1028 0 mode=play'' of
        None \<Rightarrow> False
      | Some ports \<Rightarrow> rtp_port0 ports = 1028 \<and> rtp_port1 ports = 0)"

definition test_audio_codecs_display :: bool where
  "test_audio_codecs_display \<longleftrightarrow>
     (let s = show_audio_codecs default_audio_codecs in contains ''LPCM'' s \<and> contains ''AAC'' s)"

lemmas res_defs = RES_640X480_P60_def RES_1280X720_P30_def RES_1280X720_P60_def RES_1920X1080_P30_def
  RES_1920X1080_P60_def RES_720X480_P60_def

lemma replicate_numeral: "replicate (numeral k) x = x # replicate (pred_numeral k) x"
  by (metis replicate_Suc numeral_eq_Suc)

lemmas number_eval = show_u32_def show_radix.simps digit_char_def

lemma default_bits: "RES_1920X1080_P30 OR RES_1280X720_P30 = 0xA0"
  by (simp add: res_defs push_bit_eq_mult)

lemma hex_words:
  "show_hex_upper 8 416 = ''000001A0''" "show_hex_upper 8 128 = ''00000080''" "show_hex_upper 8 160 = ''000000A0''"
  "show_hex_upper 8 0 = ''00000000''" "show_hex_upper 8 (Suc 0) = ''00000001''"
  "show_hex_upper 4 0 = ''0000''" "show_hex_upper 2 0 = ''00''" "show_hex_upper 2 (Suc 0) = ''01''"
  "show_hex_upper 2 16 = ''10''"  "show_hex_upper 2 17 = ''11''"
  by (simp_all add: show_hex_upper_def pad_left_def upper_char_def replicate_numeral number_eval text_eval)

lemma resolution_tests:
  "test_cea_resolution_bitmask" "test_negotiate_resolution_1080p" "test_negotiate_resolution_fallback"
  by (simp_all add: test_cea_resolution_bitmask_def test_negotiate_resolution_1080p_def
    test_negotiate_resolution_fallback_def cea_supports_def negotiate_resolution_def default_video_formats_def
    res_defs push_bit_eq_mult Let_def)

lemma wfd_params_tests:
  "test_video_formats_roundtrip" "test_client_rtp_ports_display" "test_client_rtp_ports_parse"
  "test_audio_codecs_display"
  by (simp_all add: test_video_formats_roundtrip_def test_client_rtp_ports_display_def
    test_client_rtp_ports_parse_def test_audio_codecs_display_def default_video_formats_def default_bits
    video_formats_encode_def video_formats_words_def video_formats_parse_def hex_u8_def hex_u16_def hex_u32_def
    hex_words show_rtp_ports_def default_rtp_ports_def rtp_ports_parse_def dec_u16_def show_audio_codecs_def
    default_audio_codecs_def contains_def number_eval text_eval Let_def del: not_None_eq)

definition p2p_methods_are_not_addressed_to_the_root_interface :: bool where
  "p2p_methods_are_not_addressed_to_the_root_interface \<longleftrightarrow>
     WPA_INTERFACE = ''fi.w1.wpa_supplicant1'' \<and>
     WPA_P2P_INTERFACE = ''fi.w1.wpa_supplicant1.Interface.P2PDevice'' \<and> WPA_INTERFACE \<noteq> WPA_P2P_INTERFACE"

definition test_build_wfd_ie :: bool where
  "test_build_wfd_ie \<longleftrightarrow>
     (let ie = build_wfd_ie; device_info = push_bit 8 (ucast (ie ! 3)) OR ucast (ie ! 4) :: u16;
          port = push_bit 8 (ucast (ie ! 5)) OR ucast (ie ! 6) :: u16
      in ie ! 0 = 0x00 \<and> ie ! 2 = 0x06 \<and> device_info = 0x0090 \<and> port = 7236)"

definition test_has_wfd_ie :: bool where
  "test_has_wfd_ie \<longleftrightarrow> has_wfd_ie [0x00, 0x00, 0x06, 0x00, 0x90, 0x1C, 0x44, 0x00, 0xC8] \<and> \<not> has_wfd_ie []"

definition test_extract_mac_from_path :: bool where
  "test_extract_mac_from_path \<longleftrightarrow>
     extract_mac_from_path ''/fi/w1/wpa_supplicant1/Peers/aa_bb_cc_dd_ee_ff'' = ''aa:bb:cc:dd:ee:ff'' \<and>
     extract_mac_from_path ''/fi/w1/wpa_supplicant1/Interfaces/0/Peers/fa1ccdff7d5f'' = ''fa:1c:cd:ff:7d:5f''"

lemma wifi_direct_tests:
  "p2p_methods_are_not_addressed_to_the_root_interface" "test_build_wfd_ie" "test_has_wfd_ie"
  "test_extract_mac_from_path"
  by (simp_all add: p2p_methods_are_not_addressed_to_the_root_interface_def WPA_INTERFACE_def WPA_P2P_INTERFACE_def
    test_build_wfd_ie_def build_wfd_ie_def test_has_wfd_ie_def has_wfd_ie_def test_extract_mac_from_path_def
    extract_mac_from_path_def is_hexdigit_def text_eval Let_def)

end
