(* ===== verification/Sink_Tests.thy ===== *)
theory Sink_Tests
  imports Tests_Miracast
begin

text \<open>
  The tests of the RTSP source against a sink. The stand-in for a sink that the tests keep in \<open>test_sink\<close> is
  modelled: a script of turns, each of which waits for one message of the source, checks it and answers.
  \<open>converse\<close> runs source and script against each other: the source runs on what the sink has written so
  far, until it waits for more; the script reads what the source has written. A test holds if the script is
  played to its end and the source returns what the test asks for.
\<close>

section \<open>The sink of the tests\<close>

definition reply_ok :: "string \<Rightarrow> string option" where
  "reply_ok req = map_option ok200 (cseq_of req)"

definition reply_with :: "string \<Rightarrow> string \<Rightarrow> string option" where
  "reply_with req body = map_option (ok200_with body) (cseq_of req)"

definition sink_capabilities :: string where
  "sink_capabilities =
     (let formats = default_video_formats\<lparr> cea_resolutions :=
            RES_1920X1080_P60 OR RES_1920X1080_P30 OR RES_1280X720_P30 \<rparr>
      in ''wfd_video_formats: '' @ video_formats_encode formats @ crlf @
         ''wfd_client_rtp_ports: RTP/AVP/UDP;unicast 1028 0 mode=play'' @ crlf)"

text \<open>A turn: what the sink writes after it has read a message, or \<open>None\<close> if an assertion fails.\<close>

type_synonym turn = "string \<Rightarrow> string list option"

definition turn_ok :: "(string \<Rightarrow> bool) \<Rightarrow> string list \<Rightarrow> turn" where
  "turn_ok check extra m =
     (if check m then map_option (\<lambda>r. r # extra) (reply_ok m) else None)"

definition turn_read :: "(string \<Rightarrow> bool) \<Rightarrow> string list \<Rightarrow> turn" where
  "turn_read check extra m = (if check m then Some extra else None)"

definition turn_with :: "(string \<Rightarrow> bool) \<Rightarrow> string \<Rightarrow> turn" where
  "turn_with check body m = (if check m then map_option (\<lambda>r. [r]) (reply_with m body) else None)"

text \<open>\<open>FakePeer::recv\<close> cuts one message off its buffer; the script ends early if the next message is not
  there yet. The result is what the sink has written, and how many turns are left.\<close>

fun play :: "turn list \<Rightarrow> bytes \<Rightarrow> (string list \<times> nat) option" where
  "play [] buf = Some ([], 0)"
| "play (t # ts) buf =
     (case framed_message_len buf of
        None \<Rightarrow> Some ([], length (t # ts))
      | Some len \<Rightarrow>
          (case t (lossy_str (take len buf)) of
             None \<Rightarrow> None
           | Some answer \<Rightarrow> map_option (\<lambda>(out, left). (answer @ out, left)) (play ts (drop len buf))))"

definition sink_says :: "string list \<Rightarrow> rtsp_conn" where
  "sink_says raws = conn_new (map (\<lambda>m. Data (str_bytes m)) raws) (\<lambda>_. True)"

definition source_says :: "rtsp_conn \<Rightarrow> bytes" where
  "source_says c = concat (map str_bytes (sent c))"

text \<open>The sink opens with \<open>hello\<close>, which is empty when it is the source that speaks first.\<close>

fun converse :: "string list \<Rightarrow> turn list \<Rightarrow> 'a rtsp \<Rightarrow> nat \<Rightarrow> (string list \<times> nat) option" where
  "converse hello ts source 0 = Some (hello, length ts)"
| "converse hello ts source (Suc n) =
     (case converse hello ts source n of None \<Rightarrow> None
      | Some (raws, left) \<Rightarrow>
          map_option (\<lambda>(out, left). (hello @ out, left)) (play ts (source_says (snd (source (sink_says raws))))))"

definition peer_runs :: "nat \<Rightarrow> string list \<Rightarrow> turn list \<Rightarrow> 'a rtsp \<Rightarrow> (rtsp_error + 'a \<Rightarrow> bool) \<Rightarrow> bool" where
  "peer_runs n hello ts source P =
     (case converse hello ts source n of
        Some (raws, 0) \<Rightarrow> P (fst (source (sink_says raws)))
      | _ \<Rightarrow> False)"

text \<open>\<open>run_negotiation\<close>: the sink's half of M1 to M7.\<close>

definition sink_options :: string where
  "sink_options = rtsp_lines [''OPTIONS * RTSP/1.0'', ''CSeq: 100'', ''Require: org.wfa.wfd1.0'']"

definition sink_setup :: "string \<Rightarrow> string" where
  "sink_setup transport =
     rtsp_lines [''SETUP rtsp://localhost/wfd1.0 RTSP/1.0'', ''CSeq: 101'', ''Transport: RTP/AVP/UDP;unicast'' @ transport]"

definition sink_play :: string where
  "sink_play = rtsp_lines [''PLAY rtsp://localhost/wfd1.0 RTSP/1.0'', ''CSeq: 102'', ''Session: 1'']"

definition names_session :: "string \<Rightarrow> bool" where
  "names_session m = contains (''Session: '' @ SESSION_ID @ '';timeout='' @ show_radix 10 SESSION_TIMEOUT_SECS) m"

definition run_negotiation :: "string \<Rightarrow> turn list" where
  "run_negotiation port =
     [turn_ok (starts_with ''OPTIONS'') [sink_options],
      turn_read (starts_with ''RTSP/1.0 200'') [],
      turn_with (starts_with ''GET_PARAMETER'') sink_capabilities,
      turn_ok (\<lambda>req. starts_with ''SET_PARAMETER'' req \<and> contains ''wfd_video_formats'' req) [],
      turn_ok (\<lambda>req. starts_with ''SET_PARAMETER'' req \<and> contains ''wfd_trigger_method: SETUP'' req)
        [sink_setup ('';client_port='' @ port)],
      turn_read names_session [sink_play],
      turn_read (starts_with ''RTSP/1.0 200'') []]"

section \<open>\<open>rtsp_server.rs\<close>: negotiation\<close>

definition sink_addr :: socket_addr where
  "sink_addr = (V4 0xC0A80132, 7236)"

definition negotiation_runs_m1_to_m7_and_takes_the_port_from_the_range :: bool where
  "negotiation_runs_m1_to_m7_and_takes_the_port_from_the_range \<longleftrightarrow>
     peer_runs 6 [] (run_negotiation ''19000-19001'') (rtsp_negotiate sink_addr default_video_formats)
       (\<lambda>r. case r of
          Inr result \<Rightarrow> neg_rtp_port result = 19000 \<and>
            (neg_width result, neg_height result, neg_fps result) = (1920, 1080, 30) \<and>
            neg_sink_addr result = sink_addr
        | Inl _ \<Rightarrow> False)"

text \<open>The scripts of the next two tests share their first five turns.\<close>

definition any :: "string \<Rightarrow> bool" where
  "any m = True"

definition plain_options :: string where
  "plain_options = rtsp_lines [''OPTIONS * RTSP/1.0'', ''CSeq: 100'']"

definition turns_before_setup :: "string list \<Rightarrow> turn list" where
  "turns_before_setup after =
     [turn_ok any [plain_options], turn_read any [], turn_with any sink_capabilities, turn_ok any [], turn_ok any after]"

definition negotiation_survives_a_sink_that_pipelines_setup_and_play :: bool where
  "negotiation_survives_a_sink_that_pipelines_setup_and_play \<longleftrightarrow>
     peer_runs 5 [] (turns_before_setup [sink_setup '';client_port=15550-15551'' @ sink_play] @
         [turn_read any [], turn_read any []])
       (rtsp_negotiate sink_addr default_video_formats)
       (\<lambda>r. case r of Inr result \<Rightarrow> neg_rtp_port result = 15550 | Inl _ \<Rightarrow> False)"

definition setup_without_a_client_port_fails_instead_of_guessing :: bool where
  "setup_without_a_client_port_fails_instead_of_guessing \<longleftrightarrow>
     peer_runs 4 [] (turns_before_setup [sink_setup []]) (rtsp_negotiate sink_addr default_video_formats)
       (\<lambda>r. case r of Inl (NoClientPort _) \<Rightarrow> True | _ \<Rightarrow> False)"

text \<open>The source side of the test sends M1 itself and waits for the answer, which never comes.\<close>

definition negotiation_gives_up_on_a_sink_that_stops_answering :: bool where
  "negotiation_gives_up_on_a_sink_that_stops_answering \<longleftrightarrow>
     (case rbind (rtsp_send (options_msg 1) ''M1'') (\<lambda>_. read_response) (conn_new [Silence] (\<lambda>_. True)) of
        (r, c) \<Rightarrow> r = Inl RtspTimeout \<and> play [turn_read any []] (source_says c) = Some ([], 0))"

subsection \<open>The messages of the conversation\<close>

text \<open>Every message is a list of lines, with a sequence number as its second line.\<close>

definition numbered :: "string \<Rightarrow> nat \<Rightarrow> string list \<Rightarrow> string" where
  "numbered l n ls = rtsp_lines (l # (''CSeq: '' @ show_radix 10 n) # ls)"

definition no_header :: "string \<Rightarrow> string \<Rightarrow> bool" where
  "no_header name l \<longleftrightarrow> \<not> starts_with name (to_ascii_lowercase l)"

definition plain_lines :: "string \<Rightarrow> string list \<Rightarrow> bool" where
  "plain_lines l ls \<longleftrightarrow> plain_line l \<and> list_all plain_line ls \<and> no_header ''cseq:'' l \<and>
     list_all (no_header ''content-length:'') (l # ls) \<and> length (concat (l # ls)) + 2 * length ls < 1000000"

definition method_of :: "string \<Rightarrow> string" where
  "method_of l = (case split_whitespace l of m # _ \<Rightarrow> m | [] \<Rightarrow> [])"

definition code_of :: "string \<Rightarrow> nat" where
  "code_of l = (case split_whitespace l of _ # c # _ \<Rightarrow> or_zero (from_str_radix 10 (2 ^ 16) c) | _ \<Rightarrow> 0)"

lemma numbered_message:
  assumes "plain_lines l ls" and "n < 2 ^ 32"
  shows "well_framed (numbered l n ls)" and "cseq_of (numbered l n ls) = Some n"
    and "req_method (parse_rtsp_request (numbered l n ls)) = method_of l"
    and "req_cseq (parse_rtsp_request (numbered l n ls)) = n"
    and "req_headers (parse_rtsp_request (numbered l n ls)) = header_text (l # (''CSeq: '' @ show_radix 10 n) # ls)"
    and "resp_code (parse_rtsp_response (numbered l n ls)) = code_of l"
    and "list_all plain_line (l # (''CSeq: '' @ show_radix 10 n) # ls)"
proof -
  let ?ls = "l # (''CSeq: '' @ show_radix 10 n) # ls"
  show plain: "list_all plain_line ?ls" using assms plain_cseq by (simp add: plain_lines_def)
  have cseq: "header_value ''cseq:'' (2 ^ 32) ?ls = Some n"
    using assms cseq_line [of n "2 ^ 32" ls] by (simp add: other_line plain_lines_def no_header_def)
  have "list_all (no_header ''content-length:'') ls" using assms by (simp add: plain_lines_def)
  then have "header_value ''content-length:'' (2 ^ 64) ls = None"
    by (induction ls) (simp_all add: other_line no_line no_header_def)
  then have len: "header_value ''content-length:'' (2 ^ 64) ?ls = None"
    using assms(1) by (simp add: other_line cseq_has_no_length plain_lines_def no_header_def del: append.simps)
  have "length (rtsp_lines ls) \<le> length (concat ls) + 2 * length ls + 2"
    by (induction ls) (simp_all add: length_rtsp_lines)
  then have "length (rtsp_lines ?ls) < 2 ^ 64"
    using assms cseq_short [OF assms(2)] by (simp add: length_rtsp_lines plain_lines_def)
  then show "well_framed (numbered l n ls)"
    unfolding numbered_def using plain len by (intro well_framed_lines) simp_all
  show "cseq_of (numbered l n ls) = Some n" using cseq_of_message [OF plain cseq, of "[]"] by (simp add: numbered_def)
  show "req_method (parse_rtsp_request (numbered l n ls)) = method_of l"
    "req_cseq (parse_rtsp_request (numbered l n ls)) = n"
    "req_headers (parse_rtsp_request (numbered l n ls)) = header_text ?ls"
    using request_of_lines [OF plain, of "[]"] cseq by (simp_all add: or_zero_def numbered_def method_of_def)
  show "resp_code (parse_rtsp_response (numbered l n ls)) = code_of l"
    using response_of_lines [OF plain, of "[]"] by (simp add: numbered_def code_of_def)
qed

lemma starts_numbered: "length p \<le> length l \<Longrightarrow> starts_with p (numbered l n ls) = starts_with p l"
  by (simp add: numbered_def rtsp_lines_def starts_with_def)

lemma numbered_100 [simp]: "100 < (2 :: nat) ^ 32" "101 < (2 :: nat) ^ 32" "102 < (2 :: nat) ^ 32"
  "200 < (2 :: nat) ^ 32" "201 < (2 :: nat) ^ 32" "9 < (2 :: nat) ^ 32"
  by simp_all

lemma u32_bound: "unat (n :: u32) < 2 ^ 32"
  by (rule order_less_le_trans [OF unsigned_less]) simp

lemma decimals: "show_radix 10 100 = ''100''" "show_radix 10 101 = ''101''" "show_radix 10 102 = ''102''"
  "show_radix 10 200 = ''200''"
  by (simp_all add: show_radix.simps digit_char_def char_of_def bit_0)

text \<open>The lines of the sink and of the source.\<close>

definition PLAY_LINE :: string where "PLAY_LINE = ''PLAY rtsp://localhost/wfd1.0 RTSP/1.0''"
definition SETUP_LINE :: string where "SETUP_LINE = ''SETUP rtsp://localhost/wfd1.0 RTSP/1.0''"
definition OPTIONS_LINE :: string where "OPTIONS_LINE = ''OPTIONS * RTSP/1.0''"
definition OK_LINE :: string where "OK_LINE = ''RTSP/1.0 200 OK''"
definition GET_LINE :: string where "GET_LINE = ''GET_PARAMETER rtsp://localhost/wfd1.0 RTSP/1.0''"
definition TEARDOWN_LINE :: string where "TEARDOWN_LINE = ''TEARDOWN rtsp://localhost/wfd1.0 RTSP/1.0''"
definition SESSION_LINE :: string where "SESSION_LINE = ''Session: 1''"
definition REQUIRE_LINE :: string where "REQUIRE_LINE = ''Require: org.wfa.wfd1.0''"
definition PUBLIC_LINE :: string where "PUBLIC_LINE = ''Public: org.wfa.wfd1.0, GET_PARAMETER, SET_PARAMETER''"

lemmas line_defs = PLAY_LINE_def SETUP_LINE_def OPTIONS_LINE_def OK_LINE_def GET_LINE_def TEARDOWN_LINE_def
  SESSION_LINE_def REQUIRE_LINE_def PUBLIC_LINE_def

lemma numbered_messages:
  "sink_options = numbered OPTIONS_LINE 100 [REQUIRE_LINE]" "plain_options = numbered OPTIONS_LINE 100 []"
  "sink_play = numbered PLAY_LINE 102 [SESSION_LINE]"
  "sink_setup t = numbered SETUP_LINE 101 [''Transport: RTP/AVP/UDP;unicast'' @ t]"
  "ok200 n = numbered OK_LINE n []" "options_msg k = numbered OPTIONS_LINE (unat k) [REQUIRE_LINE]"
  "keepalive_msg k = numbered GET_LINE (unat k) [SESSION_LINE]"
  "ok_msg r = numbered OK_LINE (req_cseq r) [SESSION_LINE]"
  "options_response_msg r = numbered OK_LINE (req_cseq r) [PUBLIC_LINE]"
  by (simp_all add: sink_options_def plain_options_def sink_play_def sink_setup_def ok200_def options_msg_def
    keepalive_msg_def ok_msg_def options_response_msg_def numbered_def rtsp_lines_def decimals show_u32_def SESSION_ID_def
    line_defs)

lemma plain_messages:
  "plain_lines OPTIONS_LINE [REQUIRE_LINE]" "plain_lines OPTIONS_LINE []" "plain_lines PLAY_LINE [SESSION_LINE]"
  "plain_lines OK_LINE []" "plain_lines GET_LINE [SESSION_LINE]" "plain_lines OK_LINE [SESSION_LINE]"
  "plain_lines OK_LINE [PUBLIC_LINE]" "plain_lines TEARDOWN_LINE [SESSION_LINE]" "plain_lines TEARDOWN_LINE []"
  by (simp_all add: plain_lines_def no_header_def plain_eval line_eval line_defs)

lemma line_words:
  "method_of OPTIONS_LINE = ''OPTIONS''" "method_of PLAY_LINE = ''PLAY''" "method_of SETUP_LINE = ''SETUP''"
  "method_of GET_LINE = ''GET_PARAMETER''" "method_of TEARDOWN_LINE = ''TEARDOWN''" "code_of OK_LINE = 200"
  by (simp_all add: method_of_def code_of_def line_defs split_whitespace_def is_ws_def or_zero_def from_str_radix_def
    digit_value_def Let_def)

lemma line_starts:
  "starts_with ''OPTIONS'' (numbered OPTIONS_LINE n ls)" "starts_with ''GET_PARAMETER'' (numbered GET_LINE n ls)"
  "starts_with ''RTSP/1.0 200'' (numbered OK_LINE n ls)" "starts_with ''RTSP/'' (numbered OK_LINE n ls)"
  "starts_with ''RTSP/'' (numbered GET_LINE n ls) = False" "starts_with ''RTSP/'' (numbered TEARDOWN_LINE n ls) = False"
  by (simp_all add: starts_numbered line_defs) (simp_all add: starts_with_def)

lemma plain_setup:
  assumes "plain_line (''Transport: RTP/AVP/UDP;unicast'' @ t)" and "length t < 1000"
  shows "plain_lines SETUP_LINE [''Transport: RTP/AVP/UDP;unicast'' @ t]"
  using assms by (simp add: plain_lines_def no_header_def line_eval line_defs) (simp add: plain_eval)

lemma setup_lines:
  "plain_lines SETUP_LINE [''Transport: RTP/AVP/UDP;unicast'' @ '';client_port=19000-19001'']"
  "plain_lines SETUP_LINE [''Transport: RTP/AVP/UDP;unicast'' @ '';client_port=15550-15551'']"
  "plain_lines SETUP_LINE [''Transport: RTP/AVP/UDP;unicast'' @ []]"
  by (rule plain_setup; simp add: plain_eval)+

lemma setup_ports:
  "transport_port [SETUP_LINE, ''CSeq: '' @ show_radix 10 101, ''Transport: RTP/AVP/UDP;unicast'' @ '';client_port=19000-19001''] = Some 19000"
  "transport_port [SETUP_LINE, ''CSeq: '' @ show_radix 10 101, ''Transport: RTP/AVP/UDP;unicast'' @ '';client_port=15550-15551''] = Some 15550"
  "transport_port [SETUP_LINE, ''CSeq: '' @ show_radix 10 101, ''Transport: RTP/AVP/UDP;unicast'' @ []] = None"
  by (simp_all add: SETUP_LINE_def decimals dec_u16_def strip_prefix_str_def trim_str_def is_ws_def from_str_radix_def
    digit_value_def Let_def)

lemma setup_requests:
  "parse_transport_port (req_headers (parse_rtsp_request (sink_setup '';client_port=19000-19001''))) = Some 19000"
  "parse_transport_port (req_headers (parse_rtsp_request (sink_setup '';client_port=15550-15551''))) = Some 15550"
  "parse_transport_port (req_headers (parse_rtsp_request (sink_setup []))) = None"
  using numbered_message(5,7) [OF setup_lines(1) numbered_100(2)] numbered_message(5,7) [OF setup_lines(2) numbered_100(2)]
    numbered_message(5,7) [OF setup_lines(3) numbered_100(2)] setup_ports
  by (simp_all only: numbered_messages setup_port list.distinct simp_thms)


text \<open>The messages that carry parameters.\<close>

definition with_body :: "string \<Rightarrow> nat \<Rightarrow> string \<Rightarrow> string" where
  "with_body l n body =
     rtsp_lines [l, ''CSeq: '' @ show_radix 10 n, ''Content-Type: text/parameters'',
       ''Content-Length: '' @ show_radix 10 (length body)] @ body"

lemma body_message:
  assumes "plain_lines l []" and "n < 2 ^ 32" and "ascii body" and "length body < 1000"
  shows "well_framed (with_body l n body)" and "cseq_of (with_body l n body) = Some n"
    and "resp_code (parse_rtsp_response (with_body l n body)) = code_of l"
    and "resp_body (parse_rtsp_response (with_body l n body)) = body"
proof -
  let ?ls = "[l, ''CSeq: '' @ show_radix 10 n, ''Content-Type: text/parameters'',
    ''Content-Length: '' @ show_radix 10 (length body)]"
  have plain: "list_all plain_line ?ls"
    using assms(1) plain_cseq [of n] plain_length [of "length body"] by (simp add: plain_lines_def) (simp add: plain_eval)
  have cseq: "header_value ''cseq:'' (2 ^ 32) ?ls = Some n"
    using assms(1,2) cseq_line [of n "2 ^ 32"] by (simp add: other_line plain_lines_def no_header_def)
  have "header_value ''content-length:'' (2 ^ 64) (drop 2 ?ls) = Some (length body)"
    using assms(4) length_line [of "length body" "2 ^ 64" "[]"] by (simp add: other_line line_eval)
  then have len: "header_value ''content-length:'' (2 ^ 64) ?ls = Some (length body)"
    using assms(1) by (simp add: other_line cseq_has_no_length plain_lines_def no_header_def del: append.simps)
  have "length (rtsp_lines ?ls) + length body < 2 ^ 64"
    using assms cseq_short [OF assms(2)] length_decimal [of "length body"] by (simp add: length_rtsp_lines plain_lines_def)
  then show "well_framed (with_body l n body)"
    unfolding with_body_def using plain len assms(3) by (intro well_framed_body) (simp_all add: or_zero_def)
  show "cseq_of (with_body l n body) = Some n"
    unfolding with_body_def by (rule cseq_of_message [OF plain cseq])
  show "resp_code (parse_rtsp_response (with_body l n body)) = code_of l"
    "resp_body (parse_rtsp_response (with_body l n body)) = body"
    using response_of_lines [OF plain, of body] by (simp_all add: with_body_def code_of_def)
qed

lemma starts_body: "length p \<le> length l \<Longrightarrow> starts_with p (with_body l n body) = starts_with p l"
  by (simp add: with_body_def rtsp_lines_def starts_with_def)

lemma contains_appended: "contains p b \<Longrightarrow> contains p (a @ b)"
proof (induction a)
  case (Cons c a)
  then show ?case by (auto simp: contains_def)
qed simp

lemma contains_in_body: "contains p body \<Longrightarrow> contains p (with_body l n body)"
  unfolding with_body_def by (rule contains_appended)

definition SET_LINE :: string where "SET_LINE = ''SET_PARAMETER rtsp://localhost/wfd1.0 RTSP/1.0''"

definition asked_parameters :: string where
  "asked_parameters = ''wfd_video_formats'' @ crlf @ ''wfd_audio_codecs'' @ crlf @ ''wfd_client_rtp_ports'' @ crlf"

definition trigger_parameters :: string where
  "trigger_parameters = ''wfd_trigger_method: SETUP'' @ crlf"

definition rtp_parameter :: string where
  "rtp_parameter = ''wfd_client_rtp_ports: RTP/AVP/UDP;unicast 1028 0 mode=play'' @ crlf"

definition caps_formats :: wfd_video_formats where
  "caps_formats = default_video_formats\<lparr> cea_resolutions :=
     RES_1920X1080_P60 OR RES_1920X1080_P30 OR RES_1280X720_P30 \<rparr>"

definition chosen :: wfd_video_formats where
  "chosen = default_video_formats\<lparr> cea_resolutions := announced_cea (1920, 1080, 30) \<rparr>"

definition chosen_parameters :: string where
  "chosen_parameters = ''wfd_video_formats: '' @ video_formats_encode chosen @ crlf @ rtp_parameter"

lemma caps_bits: "RES_1920X1080_P60 OR RES_1920X1080_P30 OR RES_1280X720_P30 = 0x1A0"
  by (simp add: res_defs push_bit_eq_mult)

lemma caps_encoded: "video_formats_encode caps_formats = ''00 00 01 10 000001A0 00000000 00000000 00 0000 0000 11''"
  by (simp add: caps_formats_def default_video_formats_def caps_bits video_formats_encode_def video_formats_words_def hex_words)

lemma chosen_encoded: "video_formats_encode chosen = ''00 00 01 10 00000080 00000000 00000000 00 0000 0000 11''"
  by (simp add: chosen_def announced_cea_def RES_1920X1080_P30_def push_bit_eq_mult default_video_formats_def
    video_formats_encode_def video_formats_words_def hex_words)

lemma caps_mode: "negotiate_resolution default_video_formats caps_formats = (1920, 1080, 30)"
  by (simp add: negotiate_resolution_def caps_formats_def default_video_formats_def Let_def res_defs)

lemma caps_text: "sink_capabilities = ''wfd_video_formats: '' @ video_formats_encode caps_formats @ crlf @ rtp_parameter"
  by (simp add: sink_capabilities_def caps_formats_def rtp_parameter_def)

lemma caps_parse: "parse_sink_video_formats sink_capabilities = Some caps_formats"
  unfolding caps_text caps_encoded rtp_parameter_def
  by (simp add: caps_formats_def parse_sink_video_formats_def
    video_formats_parse_def hex_u8_def hex_u16_def hex_u32_def default_video_formats_def caps_bits text_eval Let_def)

lemma body_messages:
  "get_parameter_msg k = with_body GET_LINE (unat k) asked_parameters"
  "set_parameter_msg k chosen =
     with_body SET_LINE (unat k) chosen_parameters"
  "trigger_msg k = with_body SET_LINE (unat k) trigger_parameters"
  "ok200_with body n = with_body OK_LINE n body"
  by (simp_all add: get_parameter_msg_def set_parameter_msg_def trigger_msg_def parameter_msg_def ok200_with_def
    with_body_def rtsp_lines_def show_u32_def line_defs SET_LINE_def asked_parameters_def trigger_parameters_def
    rtp_parameter_def chosen_parameters_def)

lemma plain_bodies:
  "plain_lines GET_LINE []" "plain_lines SET_LINE []"
  "ascii asked_parameters" "length asked_parameters < 1000" "ascii trigger_parameters" "length trigger_parameters < 1000"
  "ascii chosen_parameters"
  "length chosen_parameters < 1000"
  "ascii sink_capabilities" "length sink_capabilities < 1000"
  by (simp_all add: plain_lines_def no_header_def plain_eval line_eval line_defs SET_LINE_def)
    (simp_all add: asked_parameters_def trigger_parameters_def chosen_parameters_def rtp_parameter_def caps_text caps_encoded chosen_encoded
      crlf_def cr_def newline_def)

lemma body_starts:
  "starts_with ''GET_PARAMETER'' (with_body GET_LINE n body)" "starts_with ''SET_PARAMETER'' (with_body SET_LINE n body)"
  by (simp_all add: starts_body line_defs SET_LINE_def) (simp_all add: starts_with_def)

lemma parameter_requests:
  "well_framed (get_parameter_msg k)" "cseq_of (get_parameter_msg k) = Some (unat k)"
  "starts_with ''GET_PARAMETER'' (get_parameter_msg k)"
  "well_framed (set_parameter_msg k chosen)" "cseq_of (set_parameter_msg k chosen) = Some (unat k)"
  "starts_with ''SET_PARAMETER'' (set_parameter_msg k chosen)"
  "well_framed (trigger_msg k)" "cseq_of (trigger_msg k) = Some (unat k)"
  "starts_with ''SET_PARAMETER'' (trigger_msg k)"
  by (simp_all only: body_messages body_starts body_message [OF plain_bodies(1) u32_bound plain_bodies(3,4)]
    body_message [OF plain_bodies(2) u32_bound plain_bodies(7,8)] body_message [OF plain_bodies(2) u32_bound plain_bodies(5,6)])

lemma parameter_contents:
  "contains ''wfd_video_formats'' (set_parameter_msg k chosen)" "contains ''wfd_trigger_method: SETUP'' (trigger_msg k)"
  unfolding body_messages by (rule contains_in_body; simp add: chosen_parameters_def trigger_parameters_def contains_def)+

lemma capabilities_answer:
  assumes "n < 2 ^ 32"
  shows "well_framed (ok200_with sink_capabilities n)"
    "resp_code (parse_rtsp_response (ok200_with sink_capabilities n)) = 200"
    "resp_body (parse_rtsp_response (ok200_with sink_capabilities n)) = sink_capabilities"
  unfolding body_messages
  using body_message [OF plain_messages(4) assms plain_bodies(9,10)] line_words by simp_all

text \<open>The answer to SETUP has lines that depend on the port.\<close>

definition setup_answer_lines :: "u16 \<Rightarrow> string list" where
  "setup_answer_lines port =
     [''Session: 1;timeout='' @ show_radix 10 SESSION_TIMEOUT_SECS,
      ''Transport: RTP/AVP/UDP;unicast;client_port='' @ show_radix 10 (unat port) @ '';server_port='' @ show_radix 10 (unat port)]"

lemma setup_answer: "setup_response_msg r port = numbered OK_LINE (req_cseq r) (setup_answer_lines port)"
  by (simp add: setup_response_msg_def numbered_def rtsp_lines_def setup_answer_lines_def SESSION_ID_def OK_LINE_def)

lemma plain_append: "plain_line a \<Longrightarrow> plain_line b \<Longrightarrow> plain_line (a @ b)"
  by (simp add: plain_line_def)

lemma plain_setup_answer: "plain_lines OK_LINE (setup_answer_lines port)"
proof -
  have "plain_line ('';server_port='' @ show_radix 10 (unat port))" "plain_line (''Session: 1;timeout='' @ show_radix 10 30)"
    "plain_line (''Transport: RTP/AVP/UDP;unicast;client_port='' @ show_radix 10 (unat port))"
    by (rule plain_number; simp add: plain_eval)+
  then have "list_all plain_line (setup_answer_lines port)"
    using plain_append [of "''Transport: RTP/AVP/UDP;unicast;client_port='' @ show_radix 10 (unat port)"
      "'';server_port='' @ show_radix 10 (unat port)"]
    by (simp add: setup_answer_lines_def SESSION_TIMEOUT_SECS_def)
  moreover have "length (show_radix 10 (unat port)) \<le> 65536" "length (show_radix 10 30) \<le> 31"
    using length_decimal [of "unat port"] length_decimal [of 30] unsigned_less [of port, where 'a = nat] by simp_all
  moreover have "plain_line OK_LINE" by (simp add: OK_LINE_def plain_eval)
  ultimately show ?thesis
    by (simp add: plain_lines_def no_header_def line_eval OK_LINE_def setup_answer_lines_def SESSION_TIMEOUT_SECS_def)
qed

lemma contains_start: "contains p (p @ x)"
proof -
  have "find_sub p s = Some 0" if "take (length p) s = p" for s
    using that by (cases s) auto
  from this [of "p @ x"] show ?thesis by (simp add: contains_def)
qed

lemma session_named: "names_session (setup_response_msg r port)"
proof -
  let ?p = "''Session: '' @ SESSION_ID @ '';timeout='' @ show_radix 10 SESSION_TIMEOUT_SECS"
  obtain x where "setup_response_msg r port =
      (''RTSP/1.0 200 OK'' @ crlf @ ''CSeq: '' @ show_radix 10 (req_cseq r) @ crlf) @ ?p @ x"
    by (simp add: setup_response_msg_def)
  then show ?thesis unfolding names_session_def by (metis contains_appended contains_start)
qed

lemma setup_answers: "req_cseq r < 2 ^ 32 \<Longrightarrow> well_framed (setup_response_msg r port)"
  unfolding setup_answer by (rule numbered_message(1) [OF plain_setup_answer])

text \<open>What the two sides see of each other.\<close>

lemmas number_bounds = numbered_100 u32_bound

lemma requests_seen:
  "req_method (parse_rtsp_request sink_options) = ''OPTIONS''" "req_cseq (parse_rtsp_request sink_options) = 100"
  "well_framed sink_options"
  "req_method (parse_rtsp_request plain_options) = ''OPTIONS''" "req_cseq (parse_rtsp_request plain_options) = 100"
  "well_framed plain_options"
  "req_method (parse_rtsp_request sink_play) = ''PLAY''" "req_cseq (parse_rtsp_request sink_play) = 102"
  "well_framed sink_play"
  by (simp_all only: numbered_messages numbered_message [OF plain_messages(1) numbered_100(1)]
    numbered_message [OF plain_messages(2) numbered_100(1)] numbered_message [OF plain_messages(3) numbered_100(3)] line_words)

lemma setups_seen:
  "req_method (parse_rtsp_request (sink_setup '';client_port=19000-19001'')) = ''SETUP''"
  "req_cseq (parse_rtsp_request (sink_setup '';client_port=19000-19001'')) = 101"
  "well_framed (sink_setup '';client_port=19000-19001'')"
  "req_method (parse_rtsp_request (sink_setup '';client_port=15550-15551'')) = ''SETUP''"
  "req_cseq (parse_rtsp_request (sink_setup '';client_port=15550-15551'')) = 101"
  "well_framed (sink_setup '';client_port=15550-15551'')"
  "req_method (parse_rtsp_request (sink_setup [])) = ''SETUP''" "well_framed (sink_setup [])"
  by (simp_all only: numbered_messages numbered_message [OF setup_lines(1) numbered_100(2)]
    numbered_message [OF setup_lines(2) numbered_100(2)] numbered_message [OF setup_lines(3) numbered_100(2)] line_words)

lemma answers_seen:
  assumes "n < 2 ^ 32"
  shows "resp_code (parse_rtsp_response (ok200 n)) = 200" "well_framed (ok200 n)" "starts_with ''RTSP/'' (ok200 n)"
  using numbered_message [OF plain_messages(4) assms] by (simp_all only: numbered_messages line_words line_starts)

lemma source_seen:
  "well_framed (options_msg k)" "cseq_of (options_msg k) = Some (unat k)" "starts_with ''OPTIONS'' (options_msg k)"
  "well_framed (keepalive_msg k)" "cseq_of (keepalive_msg k) = Some (unat k)"
  "starts_with ''GET_PARAMETER'' (keepalive_msg k)"
  by (simp_all only: numbered_messages numbered_message [OF plain_messages(1) u32_bound]
    numbered_message [OF plain_messages(5) u32_bound] line_starts)

lemma acks_seen:
  assumes "req_cseq r < 2 ^ 32"
  shows "well_framed (ok_msg r)" "cseq_of (ok_msg r) = Some (req_cseq r)" "starts_with ''RTSP/1.0 200'' (ok_msg r)"
    "well_framed (options_response_msg r)" "starts_with ''RTSP/1.0 200'' (options_response_msg r)"
  using numbered_message [OF plain_messages(6) assms] numbered_message [OF plain_messages(7) assms]
  by (simp_all only: numbered_messages line_starts)

lemma play_message:
  assumes "well_framed m"
  shows "play (t # ts) (str_bytes m @ buf) =
    (case t m of None \<Rightarrow> None
     | Some answer \<Rightarrow> map_option (\<lambda>(out, left). (answer @ out, left)) (play ts buf))"
proof -
  have "framed_message_len (str_bytes m @ buf) = Some (length m)"
    using assms framed_append unfolding well_framed_def by blast
  moreover have "drop (length m) (str_bytes m @ buf) = buf" by simp
  ultimately show ?thesis using assms by (simp add: well_framed_def lossy_str_ascii cong: option.case_cong)
qed

lemmas play_last = play_message [where buf = "[]", unfolded append_Nil2]

lemma play_over: "play [] buf = Some ([], 0)"
  by simp

lemma play_waits: "play (t # ts) [] = Some ([], length (t # ts))"
  by (simp add: framed_nothing)

lemma read_written:
  assumes "events c = Data (str_bytes m) # evs" and "rbuf c = []" and "well_framed m"
  shows "read_message c = (Inr m, c\<lparr> events := evs, received := received c @ [m] \<rparr>)"
  using read_chunk(1) [of m "[]" evs] assms by (simp add: read_message_def well_framed_def)

lemma read_written_two:
  assumes "events c = Data (str_bytes m @ str_bytes m') # evs" and "rbuf c = []" and "well_framed m"
  shows "read_message c = (Inr m, c\<lparr> rbuf := str_bytes m', events := evs, received := received c @ [m] \<rparr>)"
  using read_chunk(1) [of m "str_bytes m'" evs] assms by (simp add: read_message_def well_framed_def)

lemma read_buffered:
  assumes "rbuf c = str_bytes m" and "well_framed m"
  shows "read_message c = (Inr m, c\<lparr> rbuf := [], received := received c @ [m] \<rparr>)"
  using read_chunk(2) [of m "[]" "events c"] assms by (simp add: read_message_def well_framed_def)

lemma read_waits: "events c = [] \<Longrightarrow> rbuf c = [] \<Longrightarrow> read_message c = (Inl RtspClosed, c)"
  by (simp add: read_message_def framed_nothing)

lemma read_silence: "events c = Silence # evs \<Longrightarrow> rbuf c = [] \<Longrightarrow> read_message c = (Inl RtspTimeout, c\<lparr> events := evs \<rparr>)"
  by (simp add: read_message_def framed_nothing)

lemmas source_run = rtsp_negotiate_def rbind_def next_cseq_def rtsp_send_def read_response_def read_request_def
  rreturn_def expect_ok_def expect_method_def rfail_def conn_new_def sink_says_def source_says_def
  read_written read_written_two read_buffered read_waits Let_def

lemma announced: "default_video_formats\<lparr> cea_resolutions := announced_cea (1920, 1080, 30) \<rparr> = chosen"
  by (simp add: chosen_def)

lemmas conversation = requests_seen setups_seen setup_requests answers_seen source_seen acks_seen parameter_requests
  parameter_contents capabilities_answer session_named setup_answers caps_parse caps_mode announced

lemmas sink_run = play_message play_last play_over play_waits turn_ok_def turn_read_def turn_with_def reply_ok_def reply_with_def

lemma converse_steps:
  "converse hello ts source (numeral k) =
     (case converse hello ts source (pred_numeral k) of None \<Rightarrow> None
      | Some (raws, left) \<Rightarrow>
          map_option (\<lambda>(out, left). (hello @ out, left)) (play ts (source_says (snd (source (sink_says raws))))))"
  "converse hello ts source 1 =
     map_option (\<lambda>(out, left). (hello @ out, left)) (play ts (source_says (snd (source (sink_says hello)))))"
  by (simp_all add: numeral_eq_Suc)

lemma negotiation_test: "negotiation_runs_m1_to_m7_and_takes_the_port_from_the_range"
  by (simp add: negotiation_runs_m1_to_m7_and_takes_the_port_from_the_range_def peer_runs_def run_negotiation_def
    converse_steps source_run sink_run conversation del: One_nat_def play.simps(2) converse.simps(2))

lemma pipelined_setup_test: "negotiation_survives_a_sink_that_pipelines_setup_and_play"
  by (simp add: negotiation_survives_a_sink_that_pipelines_setup_and_play_def peer_runs_def turns_before_setup_def
    any_def converse_steps source_run sink_run conversation del: One_nat_def play.simps(2) converse.simps(2))

lemma no_port_test: "setup_without_a_client_port_fails_instead_of_guessing"
  by (simp add: setup_without_a_client_port_fails_instead_of_guessing_def peer_runs_def turns_before_setup_def
    any_def converse_steps source_run sink_run conversation del: One_nat_def play.simps(2) converse.simps(2))

lemma silent_negotiation_test: "negotiation_gives_up_on_a_sink_that_stops_answering"
  by (simp add: negotiation_gives_up_on_a_sink_that_stops_answering_def any_def source_run read_silence sink_run
    conversation del: One_nat_def play.simps(2))


section \<open>\<open>rtsp_server.rs\<close>: control channel\<close>

text \<open>Twenty rounds are more than any of these conversations takes.\<close>

definition serve :: "unit rtsp" where
  "serve c = (case serve_control_channel 20 0 c of Some r \<Rightarrow> r | None \<Rightarrow> (Inl RtspTimeout, c))"

definition sink_keepalive :: string where
  "sink_keepalive = rtsp_lines [''GET_PARAMETER rtsp://localhost/wfd1.0 RTSP/1.0'', ''CSeq: 200'', ''Session: 1'']"

definition sink_teardown :: "nat \<Rightarrow> string list \<Rightarrow> string" where
  "sink_teardown n headers =
     rtsp_lines ([''TEARDOWN rtsp://localhost/wfd1.0 RTSP/1.0'', ''CSeq: '' @ show_radix 10 n] @ headers)"

definition control_channel_answers_the_sink_and_ends_on_teardown :: bool where
  "control_channel_answers_the_sink_and_ends_on_teardown \<longleftrightarrow>
     peer_runs 2 [sink_keepalive]
       [turn_read (\<lambda>ack. starts_with ''RTSP/1.0 200'' ack \<and> cseq_of ack = Some 200) [sink_teardown 201 [''Session: 1'']],
        turn_read (\<lambda>ack. cseq_of ack = Some 201) []]
       serve is_ok"

definition control_channel_reports_a_sink_that_disappears :: bool where
  "control_channel_reports_a_sink_that_disappears \<longleftrightarrow> fst (serve (sink_says [])) = Inl RtspClosed"

definition control_channel_pings_a_quiet_sink_and_gives_up_on_silence :: bool where
  "control_channel_pings_a_quiet_sink_and_gives_up_on_silence \<longleftrightarrow>
     (case serve (conn_new (replicate 10 Silence) (\<lambda>_. True)) of
        (r, c) \<Rightarrow> r = Inl RtspTimeout \<and>
          play (replicate MAX_UNANSWERED_KEEPALIVES
              (turn_read (\<lambda>ping. starts_with ''GET_PARAMETER'' ping \<and> contains ''Session: 1'' ping) []))
            (source_says c) = Some ([], 0))"

text \<open>The sink answers eight pings, each of which the source sends after a silence, and then takes the
  session down.\<close>

definition control_channel_keeps_going_while_the_sink_answers :: bool where
  "control_channel_keeps_going_while_the_sink_answers \<longleftrightarrow>
     (let n = MAX_UNANSWERED_KEEPALIVES * 2 + 2;
          replies = map ok200 [1..<n + 1];
          evs = concat (map (\<lambda>r. [Silence, Data (str_bytes r)]) replies) @ [Data (str_bytes (sink_teardown 9 []))]
      in case serve (conn_new evs (\<lambda>_. True)) of
           (r, c) \<Rightarrow> is_ok r \<and>
             play (replicate (n - 1) (turn_ok any []) @ [turn_ok any [sink_teardown 9 []], turn_read any []])
               (source_says c) = Some (replies @ [sink_teardown 9 []], 0))"

lemma serve_steps:
  "serve_control_channel (numeral k) un c =
     (case read_message c of
        (Inr raw, c1) \<Rightarrow>
          (case handle_control_message raw c1 of
             (Inl e, c2) \<Rightarrow> Some (Inl e, c2)
           | (Inr True, c2) \<Rightarrow> Some (Inr (), c2)
           | (Inr False, c2) \<Rightarrow> serve_control_channel (pred_numeral k) 0 c2)
      | (Inl RtspTimeout, c1) \<Rightarrow>
          (if un + 1 > MAX_UNANSWERED_KEEPALIVES then Some (Inl RtspTimeout, c1)
           else (case send_keepalive c1 of
                   (Inl e, c2) \<Rightarrow> Some (Inl e, c2)
                 | (Inr _, c2) \<Rightarrow> serve_control_channel (pred_numeral k) (un + 1) c2))
      | (Inl e, c1) \<Rightarrow> Some (Inl e, c1))"
  by (simp add: numeral_eq_Suc)

lemma control_messages:
  "sink_keepalive = numbered GET_LINE 200 [SESSION_LINE]" "sink_teardown n [] = numbered TEARDOWN_LINE n []"
  "sink_teardown n [''Session: 1''] = numbered TEARDOWN_LINE n [SESSION_LINE]"
  by (simp_all add: sink_keepalive_def sink_teardown_def numbered_def rtsp_lines_def decimals line_defs)

lemma control_seen:
  "req_method (parse_rtsp_request sink_keepalive) = ''GET_PARAMETER''" "req_cseq (parse_rtsp_request sink_keepalive) = 200"
  "starts_with ''RTSP/'' sink_keepalive = False" "well_framed sink_keepalive"
  "req_method (parse_rtsp_request (sink_teardown 201 [''Session: 1''])) = ''TEARDOWN''"
  "req_cseq (parse_rtsp_request (sink_teardown 201 [''Session: 1''])) = 201"
  "starts_with ''RTSP/'' (sink_teardown 201 [''Session: 1'']) = False" "well_framed (sink_teardown 201 [''Session: 1''])"
  "req_method (parse_rtsp_request (sink_teardown 9 [])) = ''TEARDOWN''"
  "req_cseq (parse_rtsp_request (sink_teardown 9 [])) = 9"
  "starts_with ''RTSP/'' (sink_teardown 9 []) = False" "well_framed (sink_teardown 9 [])"
  by (simp_all only: control_messages numbered_message [OF plain_messages(5) numbered_100(4)]
    numbered_message [OF plain_messages(8) numbered_100(5)] numbered_message [OF plain_messages(9) numbered_100(6)]
    line_words line_starts)

lemma pings_named: "contains ''Session: 1'' (keepalive_msg k)"
proof -
  have "keepalive_msg k = (GET_LINE @ crlf @ ''CSeq: '' @ show_u32 k @ crlf) @ ''Session: 1'' @ crlf @ crlf"
    by (simp add: keepalive_msg_def SESSION_ID_def GET_LINE_def)
  moreover have "contains ''Session: 1'' (''Session: 1'' @ crlf @ crlf)" by (simp add: contains_def)
  ultimately show ?thesis using contains_appended by metis
qed

lemma replicate_one: "replicate 1 x = [x]"
  by simp

lemmas control_run = serve_def serve_steps handle_control_message_def send_keepalive_def control_seen
  pings_named read_silence replicate_one MAX_UNANSWERED_KEEPALIVES_def

lemma answers_test: "control_channel_answers_the_sink_and_ends_on_teardown"
  by (simp add: control_channel_answers_the_sink_and_ends_on_teardown_def peer_runs_def converse_steps source_run
    sink_run conversation control_run del: One_nat_def play.simps(2) converse.simps(2) serve_control_channel.simps(2))

lemma disappears_test: "control_channel_reports_a_sink_that_disappears"
  by (simp add: control_channel_reports_a_sink_that_disappears_def source_run conversation control_run)

lemma quiet_test: "control_channel_pings_a_quiet_sink_and_gives_up_on_silence"
  by (simp add: control_channel_pings_a_quiet_sink_and_gives_up_on_silence_def replicate_numeral source_run sink_run
    conversation control_run del: One_nat_def play.simps(2) serve_control_channel.simps(2))

lemma eight: "[1..<9] = [1, 2, 3, 4, 5, 6, 7, 8 :: nat]"
  by (simp add: upt_rec)

lemma keeps_going_test: "control_channel_keeps_going_while_the_sink_answers"
  by (simp add: control_channel_keeps_going_while_the_sink_answers_def eight any_def replicate_numeral source_run
    sink_run conversation control_run del: One_nat_def play.simps(2) serve_control_channel.simps(2))

end
