(* ===== verification/Session_Tests.thy ===== *)
theory Session_Tests
  imports Sink_Tests Miracast_Session
begin

text \<open>
  The tests of a Miracast session (\<open>openplay-miracast/session.rs\<close>), which drive \<open>run_session\<close> with the
  stand-in for a sink. The sink plays M1 to M7 and then goes on as the test wants; the session is the step
  relation of \<open>Miracast_Session\<close>, run from the connection to the end of its task. \<open>session_run_steps\<close>
  shows that these runs are runs of the relation. Events are received in the order they were emitted.
\<close>

section \<open>A session with the stand-in\<close>

text \<open>The connection to a sink that has played its script and then writes \<open>tail\<close>, after which it hangs up.\<close>

definition fake_sink :: "socket_addr \<Rightarrow> string list \<Rightarrow> rtsp_conn option" where
  "fake_sink addr tail =
     (case converse [] (run_negotiation ''19000-19001'') (rtsp_negotiate addr default_video_formats) 6 of
        Some (raws, 0) \<Rightarrow> Some (sink_says (raws @ tail))
      | _ \<Rightarrow> None)"

definition negotiated_session :: "socket_addr \<Rightarrow> rtsp_conn \<Rightarrow> mice_state" where
  "negotiated_session addr c =
     (case rtsp_negotiate addr default_video_formats c of
        (Inr res, c') \<Rightarrow> mice_start\<lparr> mice_phase := MiceServing c', mice_emitted := [SessionReady res] \<rparr>
      | (Inl e, _) \<Rightarrow> mice_finish (Some (RtspFailed e)) mice_start)"

definition served_session :: "mice_state \<Rightarrow> mice_state" where
  "served_session s =
     (case mice_phase s of
        MiceServing c \<Rightarrow>
          (case serve_control_channel 20 0 c of
             Some (Inr _, _) \<Rightarrow> mice_finish None s
           | Some (Inl e, _) \<Rightarrow> mice_finish (Some (RtspFailed e)) s
           | None \<Rightarrow> s)
      | _ \<Rightarrow> s)"

lemma session_run_steps:
  "(run_session_step addr)\<^sup>*\<^sup>* mice_start (negotiated_session addr (conn_new evs w))"
  "(run_session_step addr)\<^sup>*\<^sup>* s (served_session s)"
proof -
  let ?s = "mice_start\<lparr> mice_phase := MiceNegotiating (conn_new evs w) \<rparr>"
  have "run_session_step addr mice_start ?s" by (rule mice_connected) (simp add: mice_start_def)
  moreover have "run_session_step addr ?s (negotiated_session addr (conn_new evs w))"
  proof (cases "rtsp_negotiate addr default_video_formats (conn_new evs w)")
    case (Pair r c')
    show ?thesis
    proof (cases r)
      case (Inl e)
      then show ?thesis
        using mice_negotiation_failed [of ?s "conn_new evs w" addr e c'] Pair
        by (simp add: negotiated_session_def mice_finish_def mice_start_def)
    next
      case (Inr res)
      then show ?thesis
        using mice_negotiated [of ?s "conn_new evs w" addr res c'] Pair
        by (simp add: negotiated_session_def mice_start_def)
    qed
  qed
  ultimately show "(run_session_step addr)\<^sup>*\<^sup>* mice_start (negotiated_session addr (conn_new evs w))" by simp
  show "(run_session_step addr)\<^sup>*\<^sup>* s (served_session s)"
    by (auto simp: served_session_def intro: mice_torn_down mice_broken split: mice_phase.split option.split sum.split)
qed

section \<open>The tests\<close>

definition expect_ready :: "mice_state \<Rightarrow> u16 option" where
  "expect_ready s = (case mice_emitted s of SessionReady res # _ \<Rightarrow> Some (neg_rtp_port res) | _ \<Rightarrow> None)"

definition next_event :: "mice_state \<Rightarrow> miracast_event option" where
  "next_event s = (case mice_emitted s of _ # e # _ \<Rightarrow> Some e | _ \<Rightarrow> None)"

definition with_fake_sink :: "socket_addr \<Rightarrow> string list \<Rightarrow> (mice_state \<Rightarrow> bool) \<Rightarrow> bool" where
  "with_fake_sink addr tail P =
     (case fake_sink addr tail of
        Some c \<Rightarrow> expect_ready (negotiated_session addr c) \<noteq> None \<and> P (negotiated_session addr c)
      | None \<Rightarrow> False)"

text \<open>Nothing follows \<open>Ready\<close>, and the task is still there to send an event.\<close>

definition session_stays_alive_after_ready :: "socket_addr \<Rightarrow> bool" where
  "session_stays_alive_after_ready addr \<longleftrightarrow>
     with_fake_sink addr [] (\<lambda>session. expect_ready session = Some 19000 \<and> next_event session = None \<and>
       (case mice_phase session of MiceServing _ \<Rightarrow> True | _ \<Rightarrow> False))"

text \<open>The task that is done has dropped its connection.\<close>

definition stop_ends_the_session_and_closes_the_control_connection :: "socket_addr \<Rightarrow> bool" where
  "stop_ends_the_session_and_closes_the_control_connection addr \<longleftrightarrow>
     with_fake_sink addr [] (\<lambda>session.
       let stopped = ms_task (session_stop mice_cancel (session_handle session))
       in next_event stopped = Some (SessionEnded None) \<and> mice_phase stopped = MiceDone)"

definition a_sink_teardown_ends_the_session :: "socket_addr \<Rightarrow> bool" where
  "a_sink_teardown_ends_the_session addr \<longleftrightarrow>
     with_fake_sink addr [sink_teardown 9 [''Session: 1'']] (\<lambda>session.
       (case mice_phase session of
          MiceServing c \<Rightarrow> play [turn_read (starts_with ''RTSP/1.0 200'') []]
            (drop (length (source_says c)) (source_says (snd (serve c)))) = Some ([], 0)
        | _ \<Rightarrow> False) \<and>
       next_event (served_session session) = Some (SessionEnded None))"

definition a_sink_that_vanishes_ends_the_session_with_an_error :: "socket_addr \<Rightarrow> bool" where
  "a_sink_that_vanishes_ends_the_session_with_an_error addr \<longleftrightarrow>
     with_fake_sink addr [] (\<lambda>session.
       next_event (served_session session) = Some (SessionEnded (Some (RtspFailed RtspClosed))))"

lemma session_teardown_seen:
  "req_method (parse_rtsp_request (sink_teardown 9 [''Session: 1''])) = ''TEARDOWN''"
  "req_cseq (parse_rtsp_request (sink_teardown 9 [''Session: 1''])) = 9"
  "starts_with ''RTSP/'' (sink_teardown 9 [''Session: 1'']) = False" "well_framed (sink_teardown 9 [''Session: 1''])"
  by (simp_all only: control_messages numbered_message [OF plain_messages(8) numbered_100(6)] line_words line_starts)

lemmas session_run = with_fake_sink_def fake_sink_def run_negotiation_def converse_steps negotiated_session_def
  served_session_def expect_ready_def next_event_def mice_start_def mice_finish_def session_handle_def session_stop_def
  mice_cancel_def session_teardown_seen source_run sink_run conversation control_run

lemma alive_test: "session_stays_alive_after_ready addr"
  by (simp add: session_stays_alive_after_ready_def session_run
    del: One_nat_def play.simps(2) converse.simps(2) serve_control_channel.simps(2))

lemma stop_test: "stop_ends_the_session_and_closes_the_control_connection addr"
  by (simp add: stop_ends_the_session_and_closes_the_control_connection_def session_run
    del: One_nat_def play.simps(2) converse.simps(2) serve_control_channel.simps(2))

lemma teardown_test: "a_sink_teardown_ends_the_session addr"
  by (simp add: a_sink_teardown_ends_the_session_def session_run
    del: One_nat_def play.simps(2) converse.simps(2) serve_control_channel.simps(2))

lemma vanishing_test: "a_sink_that_vanishes_ends_the_session_with_an_error addr"
  by (simp add: a_sink_that_vanishes_ends_the_session_with_an_error_def session_run
    del: One_nat_def play.simps(2) converse.simps(2) serve_control_channel.simps(2))

end
