(* ===== verification/Spec2Isabelle.thy ===== *)
theory Spec2Isabelle
  imports Protocol_State Consent_Spec Airplay_Cast Miracast_Cast Sender_App Receiver_Start P2p_Manager Fairplay
    Network Receiver_Pages Sender_Window Sender_Start Lifecycle Startup Tests_Receiver Session_Tests
begin

text \<open>
  OpenPlay casts a screen to OpenPlay receivers over WebRTC, to AirPlay receivers and to Miracast
  sinks. This development models the sender and the receiver, crate by crate, and proves what
  makes them correct. Paths are under \<open>src/crates\<close>.

  \<^bold>\<open>The parts and their theories.\<close>
  \<^item> \<open>Prelude\<close>, \<open>Text\<close>: error results, byte orders, strings as UTF-8 bytes (\<open>string\<close>) or code points
    (\<open>ustr\<close>), radix printing and parsing, splitting, lossy decoding; the locales \<open>machine\<close>
    (an invariant of a step function along a run) and the codec locale.
  \<^item> \<open>Protocol_Message\<close>, \<open>Protocol_State\<close> (\<open>openplay-protocol\<close>): the signaling messages, the gate
    \<open>validate\<close> every received message passes, and the two protocol state machines.
  \<^item> \<open>Signaling\<close> (\<open>openplay-signaling\<close>): accept loop, connection limit, read loops, send tasks, reply
    channels.
  \<^item> \<open>Config\<close>, \<open>Startup\<close> (\<open>openplay-common\<close>, both \<open>main.rs\<close>, \<open>openplay-capture/desktop.rs\<close>): loading,
    validating, overriding; directories, log filter, and the way of both programs to their window.
  \<^item> \<open>Receiver_Net\<close>, \<open>Receiver_Window\<close>, \<open>Receiver_Pages\<close>, \<open>Receiver_Start\<close> (\<open>openplay-receiver\<close> and
    \<open>openplay-discovery/advertiser.rs\<close>): the session loop with every handler as a function on
    one state record, the window that shares its cells, the lines and buttons of its pages, and
    start-up. \<open>Consent_Spec\<close> is the abstract contract towards the person at the screen, which the
    loop refines.
  \<^item> \<open>Network\<close>: one receiver and any number of connections, each to a sender of this program or to any
    other program, in one state: inboxes, texts under way in both directions, the server, the loop and the
    cast of every sender, stepped in any order.
  \<^item> \<open>Discovery\<close>, \<open>Crypto\<close>: TXT records, address ranking, browsers; certificates and pinning
    over a file system whose calls may fail.
  \<^item> \<open>Pipelines\<close>, \<open>Encoder\<close>, \<open>Media\<close> (\<open>openplay-pipeline\<close>, \<open>openplay-capture\<close>): the capture session,
    encoder choice and settings, the element graphs, the WebRTC peer, the decoded frame; \<open>Lifecycle\<close> is
    the life of the four pipelines from \<open>start\<close> to \<open>drop\<close>.
  \<^item> \<open>Sender_Start\<close>, \<open>Sender_App\<close>, \<open>Sender_Window\<close>, \<open>Casting\<close>, \<open>Openplay_Cast\<close>, \<open>Airplay_Cast\<close>, \<open>Miracast_Cast\<close> (\<open>openplay-sender\<close>):
    starting discovery, the receiver list, the dialogs and the status of a cast, what a frame draws
    and what its widgets do; the cast threads of the three protocols.
  \<^item> \<open>Tlv8\<close>, \<open>Features\<close>, \<open>Srp\<close>, \<open>Http\<close>, \<open>Hap\<close>, \<open>Control_Channel\<close>, \<open>Mirror\<close>, \<open>Airplay_Session\<close>, \<open>Fairplay\<close>
    (\<open>openplay-airplay\<close>): formats, pairing, the encrypted channel, the mirror stream, the session.
  \<^item> \<open>Wfd_Params\<close>, \<open>Rtsp\<close>, \<open>Miracast_Session\<close>, \<open>Wifi_Direct\<close>, \<open>P2p_Manager\<close> (\<open>openplay-miracast\<close>): Wi-Fi
    Display parameters, the RTSP source, both session tasks as step relations, and Wi-Fi Direct.
  \<^item> \<open>Tests_Airplay\<close>, \<open>Tests_Core\<close>, \<open>Tests_Receiver\<close>, \<open>Tests_Miracast\<close>, \<open>Sink_Tests\<close>, \<open>Session_Tests\<close>: the
    unit tests of the repository, each a predicate with the name of its test and shown to hold of the model.
    \<open>Rtsp_Lines\<close> has the facts about messages built of lines that they use; \<open>Sink_Tests\<close> plays the
    repository's stand-in for a sink against the RTSP source until both have finished, \<open>Session_Tests\<close>
    against a whole session.

  \<^bold>\<open>How the code is modelled.\<close> A struct is a record with the source's fields, an enum a datatype, a
  machine integer a word, a method a function of the state. Errors are \<open>Inl\<close> values or a
  constructor of their own; a panic is a value too. Channels are lists of what was sent, with
  their capacity where the code bounds them. Concurrency is the order of events: the receiver is
  run by any sequence of loop events, the window by any interleaving with them, the network by any
  schedule of its parts, the session tasks by any steps of their relations, where being dropped with or
  without a runtime is a step too. A loop over a stream takes the sequence of its reads; where
  the list ends the loop is still waiting, which is the value \<open>None\<close>.

  \<^bold>\<open>What is proved.\<close> Nothing is shown on a receiver's screen without the consent of the person in
  front of it, to the very connection shown, and what is painted is the current frame; the prompt
  shows who asks; no other sender interferes; the loop refines the consent contract. Over the whole
  network a sender streams only where it was accepted, and each end hears the other in order. The sender connects only to the
  receiver it pinned and asks before it offers; both ends agree on the outcome; an advertised
  receiver is reached. Pairing authenticates the accessory and agrees with it, the control
  channel delivers in order and only authentic frames. RTSP negotiation is sound, complete and
  independent of packet boundaries. The AirPlay stream carries exactly the encoder's frames, in order, with
  the parameter sets directly before the first frame that has them. The
  private key is never readable by others and the identity is stable. The receiver list, the cast
  flag and the P2P scan are kept consistent; a session that reports its end has asked for its Wi-Fi Direct
  group to be taken down, which only a task dropped without a runtime does not. A cast goes to the row that is
  highlighted, and a service that is resolved gets a row. Every sending pipeline is limited to the configured
  rate, and what its encoder makes of the configured bitrate is stated for each encoder. This theory holds the
  properties that span components: consent between both ends, what silence does to a cast,
  forwarding of the negotiation, peers in the list, and advertisement to connection.

  \<^bold>\<open>Bounds and fuel.\<close> Only the RTSP control channel takes fuel: a round per byte and read event plus
  one is shown to be enough when no announced length wraps, and shown never to be enough when
  one does. The conversations of \<open>Sink_Tests\<close> and \<open>Session_Tests\<close> run a fixed number of rounds; with too
  few of them a test would not hold. Counters wrap at their width; \<open>Receiver_Window\<close>, \<open>Signaling\<close> and \<open>Network\<close> assume fewer than 2^64
  events or connections where a repeated counter would matter. The reply queue, the receiver's inbox and the
  sender's two channels hold 32 messages, as in the code. Memory is not bounded: the buffers of
  the AirPlay responses, whose allocation panics or aborts on an announced length no memory can hold, always grow.

  \<^bold>\<open>What is not modelled.\<close> GStreamer, egui, tokio, rustls, the mDNS daemon, D-Bus, TOML, JSON, property
  lists, X.509 and the cryptographic primitives are third-party: they are parameters, and what is
  relied on is a named hypothesis (\<open>json_roundtrip\<close>, \<open>pem_parses_back\<close>, the laws of a cipher, and \<open>kbit_units\<close>,
  the documented unit of the encoders' bitrate property).
  Log lines, fonts, spacing and the floating-point letterbox of the video page have no effect on
  the modelled state and are left out, as are the log-only enumeration of the RTSP states and the
  handshake signatures that the pinned verifier hands on to rustls. The platform is the Linux build,
  but for the display size \<open>desktop.rs\<close> asks for on other systems. Of the unit tests, those that compute a
  real hash or key, search for primes, read the clock, or only exercise a third-party crate are not evaluated. Time is modelled as whether a
  deadline has passed when the code looks.

  \<^bold>\<open>What may follow.\<close> The discovery daemons' event streams over a changing network, a refinement of
  the sender's cast threads to one abstract cast, and the receiving pipeline under pad changes.
\<close>

section \<open>A cast between two OpenPlay ends\<close>

text \<open>The texts of the WebSocket are JSON; what is relied on is that a printed message parses back.\<close>

definition json_roundtrip :: "(signaling_message \<Rightarrow> 't) \<Rightarrow> ('t \<Rightarrow> signaling_message option) \<Rightarrow> bool" where
  "json_roundtrip print parse \<longleftrightarrow> (\<forall>m. parse (print m) = Some m)"

text \<open>The receiver is free for \<open>c\<close>: nobody asks or shows, and \<open>c\<close> is connected with nothing unread.\<close>

definition free_for_sender :: "connection_id \<Rightarrow> session_loop \<Rightarrow> bool" where
  "free_for_sender c s \<longleftrightarrow> pending_map s = [] \<and> active_session s = None \<and>
     queue (chans s c) = [] \<and> \<not> closed (chans s c)"

text \<open>One exchange: the receiver's gate reads the sender's text, the loop handles what passed, the
  person decides, and the sender's gate reads what the loop queued for it.\<close>

definition receiver_reads ::
  "('t \<Rightarrow> signaling_message option) \<Rightarrow> connection_id \<Rightarrow> 't \<Rightarrow> session_loop \<Rightarrow> session_loop" where
  "receiver_reads parse c t s =
     foldl (\<lambda>s i. handle_message i all_good 0 s) s (fst (read_loop parse c (V4 0, 1) [(True, WsText t)]))"

definition sender_reads ::
  "(signaling_message \<Rightarrow> 't) \<Rightarrow> ('t \<Rightarrow> signaling_message option) \<Rightarrow> connection_id \<Rightarrow> session_loop \<Rightarrow> signaling_message list" where
  "sender_reads print parse c s =
     fst (client_read_loop parse (map (\<lambda>m. (True, WsText (print m))) (queue (chans s c))))"

lemma request_prompts:
  assumes "json_roundtrip print parse" and "free_for_sender c s"
  shows "let s' = receiver_reads parse c (print (session_request hash cap target)) s in
    Receiver_Net.status s' = PendingConsent (sanitise_display_name (target_display_name target)) c \<and>
    (\<exists>p. pending_map s' = [(c, p)] \<and> p_reply p = c) \<and> active_session s' = None \<and> chans s' = chans s \<and>
    Receiver_Net.config s' = Receiver_Net.config s"
  using assms request_valid [of hash cap target]
  by (simp add: receiver_reads_def json_roundtrip_def read_one_def handle_message_def session_request_def
      handle_session_request_def free_for_sender_def PROTOCOL_VERSION_def pending_insert_def set_status_def Let_def)

lemma decision_answers:
  assumes "pending_map s = [(c, p)]" and "p_reply p = c" and "queue (chans s c) = []" and "\<not> closed (chans s c)"
    and "active_session s = None"
  shows "let s' = handle_decision \<lparr> d_connection = c, d_accept = yes \<rparr> s in
    queue (chans s' c) = [if yes then accept_message (Receiver_Net.config s) (p_framerate p) else SessionReject Denied] \<and>
    map_option a_connection (active_session s') = (if yes then Some c else None)"
  using assms
  by (simp add: handle_decision_def Let_def pending_remove_def send_to_def handle_send_def try_send_def REPLY_CAPACITY_def
      set_status_def stop_media_def reset_status_def)

text \<open>C4. A session is agreed on by both ends or by neither, if the receiver has a proper name: the
  request of any sender, whatever its configuration, passes the gate of a free receiver and raises
  the prompt with the sender's name; after the decision the sender's wait ends with the session if
  the answer was yes and with the refusal if it was no, exactly as the receiver recorded it. But a
  receiver whose display name is empty, longer than 64 characters or has control characters
  accepts and shows itself accepting, while the sender's gate drops its answer and the sender
  goes on waiting.\<close>

theorem consent_reaches_sender:
  assumes "json_roundtrip print parse" and "free_for_sender c s"
  shows "let s1 = receiver_reads parse c (print (session_request hash cap target)) s;
      s2 = handle_decision \<lparr> d_connection = c, d_accept = yes \<rparr> s1;
      heard = wait_for_session_accept (map (\<lambda>m. (False, FromReceiver m)) (sender_reads print parse c s2))
    in Receiver_Net.status s1 = PendingConsent (sanitise_display_name (target_display_name target)) c \<and>
      map_option a_connection (active_session s2) = (if yes then Some c else None) \<and>
      heard = (if \<not> yes then Some (Inl (describe_rejection Denied))
        else if is_ok (check_name ''receiver_id'' (cfg_display_name (Receiver_Net.config s))) then Some (Inr ()) else None)"
proof -
  let ?s1 = "receiver_reads parse c (print (session_request hash cap target)) s"
  let ?s2 = "handle_decision \<lparr> d_connection = c, d_accept = yes \<rparr> ?s1"
  obtain p where p: "pending_map ?s1 = [(c, p)]" "p_reply p = c"
    and st: "Receiver_Net.status ?s1 = PendingConsent (sanitise_display_name (target_display_name target)) c"
    and same: "active_session ?s1 = None" "chans ?s1 = chans s" "Receiver_Net.config ?s1 = Receiver_Net.config s"
    using request_prompts [OF assms, of hash cap target] by (auto simp: Let_def)
  have d: "queue (chans ?s2 c) = [if yes then accept_message (Receiver_Net.config s) (p_framerate p) else SessionReject Denied]"
    "map_option a_connection (active_session ?s2) = (if yes then Some c else None)"
    using decision_answers [OF p, of yes] assms(2) same by (auto simp: free_for_sender_def Let_def)
  have "wait_for_session_accept (map (\<lambda>m. (False, FromReceiver m)) (sender_reads print parse c ?s2)) =
     (if \<not> yes then Some (Inl (describe_rejection Denied))
      else if is_ok (check_name ''receiver_id'' (cfg_display_name (Receiver_Net.config s))) then Some (Inr ()) else None)"
    using assms(1) by (auto simp: sender_reads_def d(1) json_roundtrip_def accept_message_def is_ok_iff)
  with st d(2) show ?thesis by (simp add: Let_def)
qed

definition named_tv :: app_config where
  "named_tv = default_config (Some (lit ''tv''))"

theorem consent_reaches_sender_witness:
  "wait_for_session_accept (map (\<lambda>m. (False, FromReceiver m)) (sender_reads (\<lambda>m. m) Some 1
     (handle_decision \<lparr> d_connection = 1, d_accept = True \<rparr>
       (receiver_reads Some 1 (session_request 7 (env_capture demo_env) demo_target) (session_loop_new named_tv True))))) =
   Some (Inr ())"
proof -
  have "json_roundtrip (\<lambda>m. m) Some" "free_for_sender 1 (session_loop_new named_tv True)"
    by (simp_all add: json_roundtrip_def free_for_sender_def session_loop_new_def new_channel_def)
  from consent_reaches_sender [OF this, of 7 "env_capture demo_env" demo_target True] show ?thesis
    by (simp add: Let_def session_loop_new_def named_tv_def default_config_def hostname_def check_name_def lit_def
        MAX_NAME_CHARS_def is_control_def)
qed


section \<open>A quiet cast\<close>

lemma quiet_sends_nothing:
  "\<forall>i \<in> set evs. (\<exists>m r. snd i = Message m r) \<or> snd i = DriveTick \<Longrightarrow> dr_sent (drive_session evs) = []"
  by (induction evs rule: drive_session.induct) (auto simp: Let_def split: signaling_message.splits sum.splits)

text \<open>C40. An established cast is cut off by silence: while the WebRTC peer reports nothing new the sender
  says nothing, whatever it is sent and however long it streams; two minutes of silence are the end
  of the connection for the receiver's server; and at the next liveness tick the session is gone,
  its pipeline stopped and the picture cleared, although nobody stopped the cast.\<close>

theorem quiet_cast_is_cut_off:
  assumes "active_session (loop_run cfg adv es) = Some a"
    and "\<forall>i \<in> set evs. (\<exists>m r. snd i = Message m r) \<or> snd i = DriveTick"
  shows "dr_sent (drive_session evs) = [] \<and>
    (let ch = snd (serve_connection parse HandshakeOk HandshakeOk (a_connection a) peer [(True, WsIdle)]
        (chans (loop_run cfg adv es) (a_connection a)))
     in ch = channel_close (chans (loop_run cfg adv es) (a_connection a))) \<and>
    (let s = loop_run cfg adv (es @ [PeerGone (a_connection a), Tick])
     in active_session s = None \<and> playing s = [] \<and> fs_frame (frame s) = None)"
proof -
  let ?s = "loop_run cfg adv es" and ?t = "loop_run cfg adv (es @ [PeerGone (a_connection a)])"
  let ?u = "loop_run cfg adv (es @ [PeerGone (a_connection a), Tick])"
  have inv: "Receiver_Net.loop_inv ?u" "Receiver_Net.loop_inv ?s" by (rule loop_run_inv)+
  have t: "?t = ?s\<lparr> chans := (chans ?s)(a_connection a := channel_close (chans ?s (a_connection a))) \<rparr>"
    by (simp add: loop_run_def loop_step_def)
  have "?u = loop_step ?t Tick" by (simp add: loop_run_def)
  moreover have "a_reply a = a_connection a" using inv(2) assms(1) by (simp add: Receiver_Net.loop_inv_def media_inv_def)
  ultimately have u: "active_session ?u = None"
    using assms(1) by (simp add: t loop_step_def drop_dead_connections_def Let_def is_connected_def channel_close_def)
  then have "playing ?u = []" "fs_frame (frame ?u) = None"
    using inv(1) by (auto simp: Receiver_Net.loop_inv_def media_inv_def media_playing_def)
  with u show ?thesis using quiet_sends_nothing [OF assms(2)] by (simp add: serve_connection_def read_one_def)
qed

definition demo_cast :: "loop_event list" where
  "demo_cast = [request_event 1 [98], answer_event 1 True, from_conn 1 (SdpOffer [])]"

theorem quiet_cast_is_cut_off_witness:
  "\<exists>a. active_session (loop_run named_tv True demo_cast) = Some a \<and> playing (loop_run named_tv True demo_cast) \<noteq> [] \<and>
     active_session (loop_run named_tv True (demo_cast @ [PeerGone (a_connection a), Tick])) = None"
proof -
  obtain a where a: "active_session (loop_run named_tv True demo_cast) = Some a" "playing (loop_run named_tv True demo_cast) \<noteq> []"
    by (simp add: demo_cast_def scenario_defs)
  from quiet_cast_is_cut_off [OF a(1), of "[(False, DriveTick)]"] a show ?thesis by (auto simp: Let_def)
qed


section \<open>Media negotiation\<close>

definition events_of :: "trace_item list \<Rightarrow> webrtc_event list" where
  "events_of ts = List.map_filter (\<lambda>t. case t of Event e \<Rightarrow> Some e | Call _ \<Rightarrow> None) ts"

text \<open>What the peer reported in a run of the sender's loop, in the order the loop took it up; the events the
  other end has to be told; and what a message tells it.\<close>

definition reported :: "(bool \<times> drive_input) list \<Rightarrow> webrtc_event list" where
  "reported ins = List.map_filter (\<lambda>i. case snd i of WebRtcEvent e _ \<Rightarrow> Some e | _ \<Rightarrow> None) ins"

fun signalled :: "webrtc_event \<Rightarrow> bool" where
  "signalled (LocalDescription _ _) = True"
| "signalled (LocalCandidate _ _) = True"
| "signalled IceGatheringComplete = True"
| "signalled _ = False"

fun heard :: "signaling_message \<Rightarrow> webrtc_event option" where
  "heard (SdpOffer sdp) = Some (LocalDescription Offer sdp)"
| "heard (IceCandidate cand None (Some i)) = Some (LocalCandidate i cand)"
| "heard IceComplete = Some IceGatheringComplete"
| "heard _ = None"

text \<open>What the sender's peer is told of a message of the receiver.\<close>

fun told :: "drive_input \<Rightarrow> peer_call option" where
  "told (Message (SdpAnswer sdp) _) = Some (SetRemoteAnswer sdp)"
| "told (Message (IceCandidate cand _ idx) _) = Some (AddIceCandidate (case idx of None \<Rightarrow> 0 | Some i \<Rightarrow> i) cand)"
| "told _ = None"

text \<open>The inputs at which a cast is over: the stop flag is up, a channel is closed, the peer is gone,
  the receiver ended the session, or its answer is refused.\<close>

fun cast_over :: "bool \<times> drive_input \<Rightarrow> bool" where
  "cast_over (True, _) = True"
| "cast_over (_, WebRtcClosed) = True"
| "cast_over (_, MessagesClosed) = True"
| "cast_over (_, WebRtcEvent PeerDisconnected _) = True"
| "cast_over (_, WebRtcEvent (PeerFailed _) _) = True"
| "cast_over (_, WebRtcEvent e open) = (signalled e \<and> \<not> open)"
| "cast_over (_, Message (SessionEnd _) _) = True"
| "cast_over (_, Message (SdpAnswer _) (Inl _)) = True"
| "cast_over _ = False"

definition while_live :: "(bool \<times> drive_input) list \<Rightarrow> (bool \<times> drive_input) list" where
  "while_live ins = takeWhile (\<lambda>i. \<not> cast_over i) ins"

text \<open>A connection's messages at the receiver, one after the other, and the candidates among the
  events, as candidates of a pipeline.\<close>

definition hear_all ::
  "connection_id \<Rightarrow> socket_addr \<Rightarrow> offer_env \<Rightarrow> u64 \<Rightarrow> signaling_message list \<Rightarrow> session_loop \<Rightarrow> session_loop" where
  "hear_all c addr env clock =
     fold (\<lambda>m. handle_message \<lparr> im_message = m, im_connection = c, im_peer = addr \<rparr> env clock)"

definition candidates_for :: "pipeline_id \<Rightarrow> webrtc_event list \<Rightarrow> (pipeline_id \<times> u32 \<times> ustr) list" where
  "candidates_for p es = List.map_filter (\<lambda>e. case e of LocalCandidate i cand \<Rightarrow> Some (p, i, cand) | _ \<Rightarrow> None) es"

fun offers_only :: "webrtc_event \<Rightarrow> bool" where
  "offers_only (LocalDescription k _) = (k = Offer)"
| "offers_only _ = True"

lemma offerer_event: "of_role Offerer (Event e) \<Longrightarrow> offers_only e"
  by (cases e) simp_all

lemma offerer_events: "list_all offers_only (events_of (trace (peer_run parse_sdp Offerer ins)))"
proof -
  have "list_all (of_role Offerer) (trace (peer_run parse_sdp Offerer ins))"
    using peer_inv_run [of parse_sdp Offerer ins] by (auto simp: peer_inv_def)
  then have "list_all offers_only (events_of ts)" if "ts = trace (peer_run parse_sdp Offerer ins)" for ts
    unfolding that [symmetric]
    by (induction ts) (auto simp: events_of_def map_filter_simps offerer_event split: trace_item.splits)
  then show ?thesis by simp
qed

lemmas drive_run_defs = reported_def while_live_def map_filter_simps drive_send_def drive_stop_def Let_def

text \<open>One input of the loop, split by what it is.\<close>

lemma drive_over: "cast_over i \<Longrightarrow> list_all offers_only (reported [i]) \<Longrightarrow>
    dr_sent (drive_session (i # ins)) = [] \<and> dr_outcome (drive_session (i # ins)) \<noteq> None \<and>
    (dr_calls (drive_session (i # ins)) = [] \<or>
      (\<exists>sdp e. dr_calls (drive_session (i # ins)) = [SetRemoteAnswer sdp] \<and>
        dr_outcome (drive_session (i # ins)) = Some (Inl (''Receiver sent an unusable answer: '' @ e))))"
  by (cases i rule: cast_over.cases) (auto simp: drive_run_defs)

lemma drive_on:
  assumes "\<not> cast_over i" and "list_all offers_only (reported [i])"
  shows "map heard (dr_sent (drive_session (i # ins))) =
      map Some (filter signalled (reported [i])) @ map heard (dr_sent (drive_session ins)) \<and>
    dr_calls (drive_session (i # ins)) = List.map_filter told [snd i] @ dr_calls (drive_session ins) \<and>
    dr_outcome (drive_session (i # ins)) = dr_outcome (drive_session ins)"
  using assms
  by (cases i rule: cast_over.cases) (auto simp: drive_run_defs split: sum.splits webrtc_event.splits)

lemma reported_Cons: "reported (i # ins) = reported [i] @ reported ins"
  by (simp add: reported_def map_filter_simps split: option.split)

lemma drive_forwards:
  assumes "list_all offers_only (reported ins)"
  shows "map heard (dr_sent (drive_session ins)) = map Some (filter signalled (reported (while_live ins))) \<and>
    (dr_outcome (drive_session ins) = None \<longleftrightarrow> while_live ins = ins) \<and>
    (\<exists>refused. dr_calls (drive_session ins) = List.map_filter told (map snd (while_live ins)) @ refused \<and>
      (refused = [] \<or> (\<exists>sdp e. refused = [SetRemoteAnswer sdp] \<and>
        dr_outcome (drive_session ins) = Some (Inl (''Receiver sent an unusable answer: '' @ e)))))"
  using assms
proof (induction ins)
  case (Cons i ins)
  have p: "list_all offers_only (reported [i])" "list_all offers_only (reported ins)"
    using Cons.prems reported_Cons [of i ins] by auto
  show ?case
  proof (cases "cast_over i")
    case True
    then have "while_live (i # ins) = []" by (simp add: while_live_def)
    then show ?thesis using drive_over [OF True p(1), of ins] by (auto simp: reported_def map_filter_simps)
  next
    case False
    then have w: "while_live (i # ins) = i # while_live ins" by (simp add: while_live_def)
    have t: "List.map_filter told (map snd (i # xs)) = List.map_filter told [snd i] @ List.map_filter told (map snd xs)" for xs
      by (simp add: map_filter_simps split: option.split)
    show ?thesis
      unfolding w reported_Cons [of i "while_live ins"] t
      using drive_on [OF False p(1), of ins] Cons.IH [OF p(2)] by auto
  qed
qed (simp add: reported_def while_live_def drive_stop_def map_filter_simps)

lemma playing_hears:
  assumes "map heard ms = map Some es" and "media_for c r = Some p"
  shows "remote_ice (hear_all c addr env clock ms r) = remote_ice r @ candidates_for p es"
  using assms
proof (induction ms arbitrary: es r)
  case (Cons m ms)
  then obtain e es' where e: "es = e # es'" "heard m = Some e" "map heard ms = map Some es'" by auto
  let ?r = "handle_message \<lparr> im_message = m, im_connection = c, im_peer = addr \<rparr> env clock r"
  have "media_for c ?r = Some p \<and> remote_ice ?r = remote_ice r @ candidates_for p [e]"
    using e(2) Cons.prems(2)
    by (cases m rule: heard.cases)
      (auto simp: handle_message_def handle_offer_def media_for_def candidates_for_def map_filter_simps
        split: option.splits if_splits)
  then show ?case using Cons.IH [OF e(3), of ?r]
    by (simp add: e(1) hear_all_def candidates_for_def map_filter_simps split: option.split webrtc_event.split)
qed (simp add: hear_all_def candidates_for_def map_filter_simps)

text \<open>C28. Nothing of the media negotiation is lost between the WebRTC layer and the other end. Whatever an
  offering peer reports, and whatever ticks and messages of the receiver come in between, the messages
  the sender sends tell exactly the descriptions, candidates and end of gathering it took up, each
  once and in the order reported, and every description as an offer. It goes on until the stop flag is up, a
  channel is closed, the peer is gone, the receiver ends the session or its answer is refused, and
  until then the sender's peer is given exactly the answers and candidates of the receiver, in order.
  A receiver that plays for this connection gives its own pipeline exactly the candidates sent.\<close>

theorem negotiation_is_forwarded:
  assumes "reported ins = take n (events_of (trace (peer_run parse_sdp Offerer pins)))"
    and "media_for c r = Some p"
  defines "d \<equiv> drive_session ins" and "before \<equiv> takeWhile (\<lambda>i. \<not> cast_over i) ins"
  shows "map heard (dr_sent d) = map Some (filter signalled (reported before)) \<and>
    (dr_outcome d = None \<longleftrightarrow> before = ins) \<and>
    (\<exists>refused. dr_calls d = List.map_filter told (map snd before) @ refused \<and>
      (refused = [] \<or> (\<exists>sdp e. refused = [SetRemoteAnswer sdp] \<and>
        dr_outcome d = Some (Inl (''Receiver sent an unusable answer: '' @ e))))) \<and>
    remote_ice (hear_all c addr env clock (dr_sent d) r) = remote_ice r @ candidates_for p (reported before)"
proof -
  have "list_all offers_only (reported ins)"
    using offerer_events [of parse_sdp pins] unfolding assms(1) list_all_iff by (meson in_set_takeD)
  note f = drive_forwards [OF this, unfolded while_live_def]
  have "candidates_for p (filter signalled es) = candidates_for p es" for es
    by (induction es) (auto simp: candidates_for_def map_filter_simps split: webrtc_event.splits)
  then show ?thesis
    using f playing_hears [OF conjunct1 [OF f] assms(2), of addr env clock] unfolding d_def before_def by simp
qed

definition demo_driving :: "(bool \<times> drive_input) list" where
  "demo_driving =
     [(False, DriveTick), (False, WebRtcEvent (LocalDescription Offer [7]) True), (False, Message (SdpAnswer [8]) (Inr ())),
      (False, DriveTick), (False, Message (IceCandidate [6] None (Some 0)) (Inr ())),
      (False, WebRtcEvent (LocalCandidate 0 [9]) True), (True, DriveTick),
      (False, WebRtcEvent IceGatheringComplete True)]"

theorem negotiation_is_forwarded_witness:
  "\<exists>p. media_for 1 (loop_run named_tv True demo_cast) = Some p \<and>
     map heard (dr_sent (drive_session demo_driving)) = [Some (LocalDescription Offer [7]), Some (LocalCandidate 0 [9])] \<and>
     dr_outcome (drive_session demo_driving) \<noteq> None \<and>
     remote_ice (hear_all 1 (V4 1, 2) all_good 0 (dr_sent (drive_session demo_driving)) (loop_run named_tv True demo_cast)) =
       remote_ice (loop_run named_tv True demo_cast) @ [(p, 0, [9])]"
proof -
  let ?r = "loop_run named_tv True demo_cast"
  let ?pins = "[NegotiationNeeded True, PromiseReply 0 (Described [5] (Inr [7])), CandidateGathered (Some 0) (Some [9]),
    GatheringState True]"
  obtain p where p: "media_for 1 ?r = Some p" by (simp add: demo_cast_def scenario_defs media_for_def)
  have r: "reported demo_driving = take 3 (events_of (trace (peer_run (\<lambda>_. None) Offerer ?pins)))"
    by (simp add: reported_def demo_driving_def events_of_def peer_run_def peer_new_def request_description_def
        promise_replies_def map_filter_simps)
  have l: "reported (takeWhile (\<lambda>i. \<not> cast_over i) demo_driving) = [LocalDescription Offer [7], LocalCandidate 0 [9]]"
    "takeWhile (\<lambda>i. \<not> cast_over i) demo_driving \<noteq> demo_driving"
    by (simp_all add: demo_driving_def reported_def map_filter_simps)
  have c: "candidates_for p [LocalDescription Offer [7], LocalCandidate 0 [9]] = [(p, 0, [9])]"
    by (simp add: candidates_for_def map_filter_simps)
  have s: "map Some (filter signalled [LocalDescription Offer [7], LocalCandidate 0 [9]]) =
    [Some (LocalDescription Offer [7]), Some (LocalCandidate 0 [9])]" by simp
  note f = negotiation_is_forwarded [OF r p, of "(V4 1, 2)" all_good 0, unfolded l(1) c s]
  from f have "map heard (dr_sent (drive_session demo_driving)) = [Some (LocalDescription Offer [7]), Some (LocalCandidate 0 [9])]"
    by (elim conjE) assumption
  moreover from f l(2) have "dr_outcome (drive_session demo_driving) \<noteq> None" by (elim conjE) argo
  moreover from f have "remote_ice (hear_all 1 (V4 1, 2) all_good 0 (dr_sent (drive_session demo_driving)) ?r) = remote_ice ?r @ [(p, 0, [9])]"
    by (elim conjE) assumption
  ultimately show ?thesis using p by (intro exI [of _ p] conjI)
qed


section \<open>Wi-Fi Direct peers in the receiver list\<close>

text \<open>What the sender's list makes of a sequence of D-Bus signals.\<close>

definition list_after ::
  "dbus \<Rightarrow> peer_reader \<Rightarrow> ((string \<times> dbus_value) list \<Rightarrow> string) \<Rightarrow> p2p_signal list \<Rightarrow> sender_app \<Rightarrow> sender_app" where
  "list_after b rd show_props sigs s =
     fold handle_discovery (List.map_filter p2p_discovery_event (listen_for_signals b rd show_props sigs)) s"

lemma peer_found_in_list:
  assumes "length bs = 6" and "rd path = Some (nm, Some bs, ies)" and "path = iface @ ''/Peers/'' @ hex_bytes bs"
  shows "list_after b rd show_props [DeviceFound (Some path)] s =
      add_receiver (Miracast \<lparr> mr_display_name = (case nm of None \<Rightarrow> ''Unknown'' | Some n \<Rightarrow> n),
        mr_mode = WifiDirect (format_mac bs) \<rparr>) s"
    and "list_after b rd show_props [DeviceLost (Some path)] s = remove_receiver (''miracast-p2p-'' @ format_mac bs) s"
  using assms format_mac_shape [OF assms(1)] extract_hex [OF assms(1), of iface]
  by (simp_all add: list_after_def listen_for_signals_def map_filter_simps get_peer_info_def peer_address_def Let_def
      miracast_mode_of_def)

lemma list_after_two: "list_after b rd show_props [x, y] s = list_after b rd show_props [y] (list_after b rd show_props [x] s)"
  by (simp add: list_after_def listen_for_signals_def map_filter_simps split: option.split)

text \<open>C35. A Wi-Fi Direct peer disappears from the list under the key it appeared under, although the two
  keys come from different sources: the first from the address the peer object reports, the second
  from the path of the signal. After the device was found it is listed with its name and address,
  as the one to connect to; after it was lost the list of rows and the other receivers are as before.\<close>

theorem lost_p2p_peer_is_removed:
  assumes "length bs = 6" and "rd path = Some (nm, Some bs, ies)" and "path = iface @ ''/Peers/'' @ hex_bytes bs"
    and "list_inv s" and "receivers s (''miracast-p2p-'' @ format_mac bs) = None"
  shows "let s1 = list_after b rd show_props [DeviceFound (Some path)] s;
      s2 = list_after b rd show_props [DeviceFound (Some path), DeviceLost (Some path)] s
    in map_option wifi_direct_address (receivers s1 (''miracast-p2p-'' @ format_mac bs)) = Some (Some (format_mac bs)) \<and>
      receiver_keys s1 = receiver_keys s @ [''miracast-p2p-'' @ format_mac bs] \<and>
      receivers s2 = receivers s \<and> receiver_keys s2 = receiver_keys s"
proof -
  have "''miracast-p2p-'' @ format_mac bs \<notin> set (receiver_keys s)"
    using assms(4,5) by (auto simp: list_inv_def list_ok_def domIff)
  then have "filter (\<lambda>k. k \<noteq> ''miracast-p2p-'' @ format_mac bs) (receiver_keys s) = receiver_keys s"
    by (auto simp: filter_id_conv)
  then show ?thesis
    using assms(5) unfolding list_after_two peer_found_in_list [where rd = rd, OF assms(1-3)]
    by (auto simp: add_receiver_def remove_receiver_def Let_def fun_upd_idem)
qed


theorem lost_p2p_peer_is_removed_witness:
  "receivers (list_after demo_bus (\<lambda>_. Some (Some ''TV'', Some [0xFA, 0x1C, 0xCD, 0xFF, 0x7D, 0x5F], None)) (\<lambda>_. [])
      [DeviceFound (Some (''/if/0'' @ ''/Peers/'' @ hex_bytes [0xFA, 0x1C, 0xCD, 0xFF, 0x7D, 0x5F])),
       DeviceLost (Some (''/if/0'' @ ''/Peers/'' @ hex_bytes [0xFA, 0x1C, 0xCD, 0xFF, 0x7D, 0x5F]))]
      (app_new (default_config None))) = Map.empty"
proof -
  let ?s = "app_new (default_config None)" and ?bs = "[0xFA, 0x1C, 0xCD, 0xFF, 0x7D, 0x5F] :: bytes"
  have "list_inv ?s" "receivers ?s = Map.empty" by (simp_all add: app_new_def list_inv_def list_ok_def)
  then have i: "length ?bs = 6" "list_inv ?s" "receivers ?s (''miracast-p2p-'' @ format_mac ?bs) = None" by simp_all
  show ?thesis
    using lost_p2p_peer_is_removed [where rd = "\<lambda>_. Some (Some ''TV'', Some ?bs, None)" and iface = "''/if/0''"
        and nm = "Some ''TV''" and ies = None and b = demo_bus and show_props = "\<lambda>_. []", OF i(1) refl refl i(2,3)]
      \<open>receivers ?s = Map.empty\<close>
    unfolding Let_def by metis
qed


section \<open>From the advertisement to the connection\<close>

text \<open>What a sender's browser makes of a registered service, with the addresses it resolved.\<close>

definition resolved :: "registration \<Rightarrow> ip_addr list \<Rightarrow> service_info" where
  "resolved reg addrs = \<lparr> fullname = service_fullname reg, svc_properties = reg_properties reg, svc_addresses = addrs,
     svc_port = reg_port reg \<rparr>"

text \<open>The cast a sender starts when it selects that receiver.\<close>

definition target_of :: "app_config \<Rightarrow> service_info \<Rightarrow> openplay_target" where
  "target_of cfg svc = \<lparr> target_addrs = receiver_addrs (OpenPlay (openplay_info svc)), target_fingerprint = ri_fingerprint (openplay_info svc),
     target_display_name = cfg_display_name cfg \<rparr>"

text \<open>C6. An advertised receiver is reached by every sender that resolves it: selecting it launches a
  cast whose pin is accepted, and if the receiver's own address is among those resolved and the
  receiver presents there what it started with, the sender connects, to the receiver or to a
  host with a certificate of the same digest. The receiver's name and port are those it was
  configured with.\<close>

theorem advertised_receiver_is_reached:
  assumes "net_start env rcfg f = ([RegisterService reg], Inr h, f')"
    and "pem_parses_back (cert_crates env)" and "\<And>d. length (sha256 (cert_crates env) d) = 32"
    and "ip \<in> set addrs" and "net (ip, snd (bound h)) = Presents (hd (presents h))"
  shows "ri_display_name (openplay_info (resolved reg addrs)) = utf8_str (cfg_display_name rcfg) \<and>
    launches (start_cast cenv (OpenPlay (openplay_info (resolved reg addrs))) s) =
      launches s @ [LaunchOpenPlay (target_of (app_config s) (resolved reg addrs))
        (cfg_max_bitrate_kbps (app_config s)) (cfg_framerate (app_config s)) (cfg_force_sw_encode (app_config s))] \<and>
    (\<exists>v a d. client_config_pinned (target_fingerprint (target_of (app_config s) (resolved reg addrs))) = Inr v \<and>
      connect_to_receiver (sha256 (cert_crates env)) net v (target_of (app_config s) (resolved reg addrs)) = Inr (a, d) \<and>
      sha256 (cert_crates env) d = sha256 (cert_crates env) (hd (presents h)))"
proof (cases rule: net_start_outcome [of env rcfg f])
  case (running certs calls adv chain key addr f'')
  let ?sha = "sha256 (cert_crates env)" and ?t = "target_of (app_config s) (resolved reg addrs)"
  have h: "calls = [RegisterService reg]" "presents h = chain" "bound h = addr" using assms(1) running(5) by auto
  obtain rest where c: "chain = cert_der certs # rest" "fingerprint certs = certificate_fingerprint ?sha (cert_der certs)"
    using load_or_generate_served [OF running(1) assms(2) running(3)] by blast
  have reg: "reg = advertiser_service (mdns env) (txt_record_of rcfg (fingerprint certs))"
    using advertiser_new_cases [of "mdns env" "txt_record_of rcfg (fingerprint certs)"] running(2) h(1) by auto
  have p: "from_properties (reg_properties reg) = Some (txt_record_of rcfg (fingerprint certs))" "reg_port reg = snd (bound h)"
    using txt_record_roundtrip [of "txt_record_of rcfg (fingerprint certs)"] running(4)
    by (simp_all add: reg advertiser_service_def h(3) txt_record_of_def)
  then have i: "ri_display_name (openplay_info (resolved reg addrs)) = utf8_str (cfg_display_name rcfg)"
    "target_fingerprint ?t = certificate_fingerprint ?sha (cert_der certs)"
    by (simp_all add: openplay_info_def resolved_def target_of_def txt_record_of_def Let_def c(2))
  have a: "(ip, snd (bound h)) \<in> set (target_addrs ?t)"
    using assms(4) p(2) by (simp add: target_of_def openplay_info_def resolved_def Let_def)
  have l: "launches (start_cast cenv (OpenPlay (openplay_info (resolved reg addrs))) s) =
      launches s @ [LaunchOpenPlay ?t (cfg_max_bitrate_kbps (app_config s)) (cfg_framerate (app_config s))
        (cfg_force_sw_encode (app_config s))]"
    using a by (auto simp: start_cast_def Let_def target_of_def begin_cast_def pause_p2p_discovery_def spawn_cast_def
        split: list.splits)
  obtain v where v: "client_config_pinned (target_fingerprint ?t) = Inr v"
    "\<And>d. verify_server_cert ?sha v d = Inr () \<longleftrightarrow> ?sha d = ?sha (cert_der certs)"
    using pin_accepts [of ?sha "cert_der certs" "target_fingerprint ?t"] assms(3) i(2) by auto
  obtain b d where b: "connect_to_receiver ?sha net v ?t = Inr (b, d)"
  proof (cases "connect_to_receiver ?sha net v ?t")
    case (Inl e)
    then show ?thesis using connect_Inl [OF Inl a assms(5)] v(2) c(1) h(2) by simp
  qed auto
  then have "?sha d = ?sha (hd (presents h))" using connect_Inr [OF b] v(2) c(1) h(2) by auto
  with i l v(1) b show ?thesis by blast
qed (use assms(1) in simp_all)

definition demo_start :: start_env where
  "demo_start = \<lparr> runtime_error = None, cert_crates = demo_lib, file_mask = 0x12,
     mdns = \<lparr> daemon_error = None, service_info_error = \<lambda>_. None, register_error = \<lambda>_. None, host_name = None \<rparr>,
     bind_error = \<lambda>_. None \<rparr>"

theorem advertised_receiver_is_reached_witness:
  "\<exists>reg h f'. net_start demo_start named_tv (start_with no_files 9) = ([RegisterService reg], Inr h, f') \<and>
     (\<exists>v a d. connect_to_receiver (sha256 demo_lib) (\<lambda>_. Presents [1, 2, 3]) v
        (target_of named_tv (resolved reg [V4 0xC0A80005])) = Inr (a, d))"
proof -
  obtain reg h f' where h: "net_start demo_start named_tv (start_with no_files 9) = ([RegisterService reg], Inr h, f')"
    "presents h = [[1, 2, 3]]"
    by (simp add: net_start_def demo_start_def load_or_generate_def create_data_dir_def generate_def save_to_files_def
        write_key_file_def open_private_file_def no_files_def demo_lib_def io_simps start_with_def numeral_eq_Suc
        advertiser_new_def server_config_def bind_signaling_def Let_def)
  have "pem_parses_back (cert_crates demo_start)" "\<And>d. length (sha256 (cert_crates demo_start) d) = 32"
    by (simp_all add: demo_start_def demo_lib_def pem_parses_back_def)
  from advertised_receiver_is_reached [OF h(1) this, of "V4 0xC0A80005" "[V4 0xC0A80005]" "\<lambda>_. Presents [1, 2, 3]"
      "\<lparr> capture_result = Inl ''denied'', pipeline_result = Joined (Inr ()) \<rparr>" "app_new named_tv"] h show ?thesis
    by (auto simp: app_new_def demo_start_def)
qed

end
